(* ===== verification/Kernel_Prelude.thy ===== *)
theory Kernel_Prelude
  imports Main "HOL-Library.AList" "HOL-Library.Sublist"
begin

text \<open>
  The shared part of the library.  It holds the vocabulary every component is written in:
  \<^item> \<open>gomap\<close>: a Go \<^verbatim>\<open>map[string]T\<close> as an association list with distinct keys, in some
    iteration order (Go leaves the order open, so no property below depends on it), with the
    interface locale \<open>keyed_table\<close>;
  \<^item> the connector identifiers of the kernel, either bare (\<^verbatim>\<open>connector-A\<close>) or qualified by a
    kernel (\<^verbatim>\<open>kernel-1:connector-A\<close>), with the \<^verbatim>\<open>strings\<close> calls the code uses to take them apart;
  \<^item> \<open>invariant_system\<close>, the locale that lifts a property kept by every step to all reachable
    states; each component with a state machine interprets it.
  Times are nanoseconds as \<open>int\<close>; an operation reads the clock once, as its argument \<open>now\<close>.
  An operation that returns a Go \<^verbatim>\<open>error\<close> returns \<open>Inl\<close> of the component's error type.
\<close>

named_theorems id_simps \<open>identifiers: qualification, prefixes, bare names\<close>
named_theorems gomap_simps \<open>lookups in updated Go maps\<close>

lemma find_append: "find P (xs @ ys) = (case find P xs of None \<Rightarrow> find P ys | Some x \<Rightarrow> Some x)"
  by (induction xs) auto

lemma nth_update_in: "j < length xs \<Longrightarrow> xs[i := x] ! j = (if i = j then x else xs ! j)"
  by simp

section \<open>Go maps\<close>

type_synonym 'v gomap = "(string \<times> 'v) list"
type_synonym time = int

abbreviation go_get :: "'v gomap \<Rightarrow> string \<Rightarrow> 'v option" where
  "go_get \<equiv> map_of"

abbreviation go_put :: "string \<Rightarrow> 'v \<Rightarrow> 'v gomap \<Rightarrow> 'v gomap" where
  "go_put \<equiv> AList.update"

abbreviation go_del :: "string \<Rightarrow> 'v gomap \<Rightarrow> 'v gomap" where
  "go_del \<equiv> AList.delete"

abbreviation go_keys :: "'v gomap \<Rightarrow> string set" where
  "go_keys m \<equiv> fst ` set m"

abbreviation go_map_ok :: "'v gomap \<Rightarrow> bool" where
  "go_map_ok m \<equiv> distinct (map fst m)"

definition seconds :: "int \<Rightarrow> time" where
  "seconds n = n * 1000000000"

text \<open>\<^verbatim>\<open>Time.Unix\<close>: whole seconds.\<close>

definition unix :: "time \<Rightarrow> int" where
  "unix t = t div 1000000000"

lemma go_get_put [gomap_simps]:
  "go_get (go_put k v m) k' = (if k' = k then Some v else go_get m k')"
  by (simp add: update_conv')

lemma go_get_del [gomap_simps]:
  "go_get (go_del k m) k' = (if k' = k then None else go_get m k')"
  by (simp add: delete_conv')

lemma go_get_in_keys: "go_get m k = Some v \<Longrightarrow> k \<in> go_keys m"
  by (metis domI dom_map_of_conv_image_fst)

lemma go_keys_get: "k \<in> go_keys m \<Longrightarrow> \<exists>v. go_get m k = Some v"
  by (metis domD dom_map_of_conv_image_fst)

lemma go_get_mem: "go_map_ok m \<Longrightarrow> go_get m k = Some v \<longleftrightarrow> (k, v) \<in> set m"
  by (simp add: map_of_eq_Some_iff)

lemma go_map_ok_put [simp]: "go_map_ok m \<Longrightarrow> go_map_ok (go_put k v m)"
  by (rule distinct_update)

lemma go_map_ok_del [simp]: "go_map_ok m \<Longrightarrow> go_map_ok (go_del k m)"
  by (rule distinct_delete)

lemma go_keys_put [simp]: "go_keys (go_put k v m) = insert k (go_keys m)"
proof -
  have "dom (map_of (go_put k v m)) = insert k (dom (map_of m))"
    by (simp add: update_conv')
  then show ?thesis by (simp add: dom_map_of_conv_image_fst)
qed

lemma go_keys_del [simp]: "go_keys (go_del k m) = go_keys m - {k}"
proof -
  have "dom (map_of (go_del k m)) = dom (map_of m) - {k}"
    by (auto simp: delete_conv' split: if_splits)
  then show ?thesis by (simp add: dom_map_of_conv_image_fst)
qed

text \<open>Rewriting every value of a Go map in place (a \<^verbatim>\<open>for _, v := range m\<close> that mutates \<open>v\<close>).\<close>

definition go_map_values :: "('v \<Rightarrow> 'w) \<Rightarrow> 'v gomap \<Rightarrow> 'w gomap" where
  "go_map_values f m = map (\<lambda>(k, v). (k, f v)) m"

lemma go_get_map_values [gomap_simps]:
  "go_get (go_map_values f m) k = map_option f (go_get m k)"
  by (induction m) (auto simp: go_map_values_def)

lemma map_fst_map_values [simp]: "map fst (go_map_values f m) = map fst m"
  by (induction m) (auto simp: go_map_values_def)

lemma go_keys_map_values [simp]: "go_keys (go_map_values f m) = go_keys m"
  by (force simp: go_map_values_def)

text \<open>
  What a component relies on when it keeps a table: the interface of the table with the laws of
  its three operations, and the facts clients draw from them.
\<close>

locale keyed_table =
  fixes lookup :: "'m \<Rightarrow> string \<Rightarrow> 'v option"
    and put :: "string \<Rightarrow> 'v \<Rightarrow> 'm \<Rightarrow> 'm"
    and del :: "string \<Rightarrow> 'm \<Rightarrow> 'm"
    and ok :: "'m \<Rightarrow> bool"
  assumes lookup_put: "lookup (put k v m) k' = (if k' = k then Some v else lookup m k')"
    and lookup_del: "lookup (del k m) k' = (if k' = k then None else lookup m k')"
    and ok_put: "ok m \<Longrightarrow> ok (put k v m)"
    and ok_del: "ok m \<Longrightarrow> ok (del k m)"
begin

lemma put_same: "lookup (put k v m) k = Some v"
  by (simp add: lookup_put)

lemma put_frame: "k' \<noteq> k \<Longrightarrow> lookup (put k v m) k' = lookup m k'"
  by (simp add: lookup_put)

lemma put_put: "lookup (put k w (put k v m)) = lookup (put k w m)"
  by (rule ext) (simp add: lookup_put)

lemma put_del: "lookup (del k (put k v m)) = lookup (del k m)"
  by (rule ext) (simp add: lookup_put lookup_del)

text \<open>A property of all entries is kept by an update whose new entry has it.\<close>

lemma put_all:
  assumes "\<And>k v. lookup m k = Some v \<Longrightarrow> P k v" and "P k v"
    and "lookup (put k v m) k' = Some v'"
  shows "P k' v'"
  using assms by (auto simp: lookup_put split: if_splits)

lemma del_all:
  assumes "\<And>k v. lookup m k = Some v \<Longrightarrow> P k v"
    and "lookup (del k m) k' = Some v'"
  shows "P k' v'"
  using assms by (auto simp: lookup_del split: if_splits)

end

interpretation gm: keyed_table map_of AList.update AList.delete go_map_ok
  by unfold_locales (simp_all add: gomap_simps)

section \<open>Reachability\<close>

text \<open>
  A machine is its initial states and its steps.  What holds initially and is kept by every step
  holds in every reachable state, and what every step keeps from some point on is kept by runs.
\<close>

inductive reach :: "('s \<Rightarrow> bool) \<Rightarrow> ('s \<Rightarrow> 's \<Rightarrow> bool) \<Rightarrow> 's \<Rightarrow> bool"
  for init :: "'s \<Rightarrow> bool" and step :: "'s \<Rightarrow> 's \<Rightarrow> bool" where
  reach_init: "init s \<Longrightarrow> reach init step s"
| reach_step: "reach init step s \<Longrightarrow> step s t \<Longrightarrow> reach init step t"

locale invariant_system =
  fixes init :: "'s \<Rightarrow> bool" and step :: "'s \<Rightarrow> 's \<Rightarrow> bool" and inv :: "'s \<Rightarrow> bool"
  assumes inv_init: "init s \<Longrightarrow> inv s"
    and inv_step: "step s t \<Longrightarrow> inv s \<Longrightarrow> inv t"
begin

lemma reach_inv: "reach init step s \<Longrightarrow> inv s"
  by (induction rule: reach.induct) (auto intro: inv_init inv_step)

lemma run_inv: "step\<^sup>*\<^sup>* s t \<Longrightarrow> inv s \<Longrightarrow> inv t"
  by (induction rule: rtranclp_induct) (auto intro: inv_step)

lemma reach_run: "step\<^sup>*\<^sup>* s t \<Longrightarrow> reach init step s \<Longrightarrow> reach init step t"
  by (induction rule: rtranclp_induct) (auto intro: reach_step)

end

text \<open>A predicate every step keeps (a state that is never left), along whole runs.\<close>

locale stable_under =
  fixes step :: "'s \<Rightarrow> 's \<Rightarrow> bool" and P :: "'s \<Rightarrow> bool"
  assumes stable_step: "step s t \<Longrightarrow> P s \<Longrightarrow> P t"
begin

lemma stable_run: "step\<^sup>*\<^sup>* s t \<Longrightarrow> P s \<Longrightarrow> P t"
  by (induction rule: rtranclp_induct) (auto intro: stable_step)

end

sublocale invariant_system \<subseteq> inv_stable: stable_under step inv
  by unfold_locales (rule inv_step)

section \<open>Connector identifiers\<close>

text \<open>
  \<^verbatim>\<open>strings.Contains(id, ":")\<close>, \<^verbatim>\<open>strings.SplitN(id, ":", 2)\<close> (its two parts) and the suffix
  after \<^verbatim>\<open>strings.LastIndex(id, ":")\<close>, as the code uses them on identifiers.
\<close>

definition has_colon :: "string \<Rightarrow> bool" where
  "has_colon s \<longleftrightarrow> CHR '':'' \<in> set s"

definition kernel_part :: "string \<Rightarrow> string" where
  "kernel_part s = takeWhile (\<lambda>c. c \<noteq> CHR '':'') s"

definition connector_part :: "string \<Rightarrow> string" where
  "connector_part s = tl (dropWhile (\<lambda>c. c \<noteq> CHR '':'') s)"

definition raw_id :: "string \<Rightarrow> string" where
  "raw_id s = rev (takeWhile (\<lambda>c. c \<noteq> CHR '':'') (rev s))"

definition qualify :: "string \<Rightarrow> string \<Rightarrow> string" where
  "qualify k c = k @ '':'' @ c"

lemma takeWhile_sep: "a \<notin> set xs \<Longrightarrow> takeWhile (\<lambda>c. c \<noteq> a) (xs @ a # ys) = xs"
  by (induction xs) auto

lemma dropWhile_sep: "a \<notin> set xs \<Longrightarrow> dropWhile (\<lambda>c. c \<noteq> a) (xs @ a # ys) = a # ys"
  by (induction xs) auto

lemma takeWhile_no_sep: "a \<notin> set xs \<Longrightarrow> takeWhile (\<lambda>c. c \<noteq> a) xs = xs"
  by (induction xs) auto

lemma sep_notin_takeWhile: "a \<notin> set (takeWhile (\<lambda>c. c \<noteq> a) xs)"
  by (induction xs) auto

lemma has_colon_qualify [simp]: "has_colon (qualify k c)"
  by (simp add: has_colon_def qualify_def)

lemma kernel_part_no_colon [simp]: "\<not> has_colon (kernel_part s)"
  unfolding has_colon_def kernel_part_def by (rule sep_notin_takeWhile)

lemma raw_id_no_colon [simp]: "\<not> has_colon (raw_id s)"
  unfolding has_colon_def raw_id_def set_rev by (rule sep_notin_takeWhile)

lemma raw_id_bare [id_simps]: "\<not> has_colon s \<Longrightarrow> raw_id s = s"
  by (simp add: has_colon_def raw_id_def takeWhile_no_sep)

lemma kernel_part_qualify [id_simps]: "\<not> has_colon k \<Longrightarrow> kernel_part (qualify k c) = k"
  by (simp add: has_colon_def kernel_part_def qualify_def takeWhile_sep)

lemma connector_part_qualify [id_simps]: "\<not> has_colon k \<Longrightarrow> connector_part (qualify k c) = c"
  by (simp add: has_colon_def connector_part_def qualify_def dropWhile_sep)

lemma raw_id_qualify [id_simps]: "\<not> has_colon c \<Longrightarrow> raw_id (qualify k c) = c"
  by (simp add: has_colon_def raw_id_def qualify_def takeWhile_sep)

lemma raw_id_idem [simp]: "raw_id (raw_id s) = raw_id s"
  by (simp add: raw_id_bare)

lemma qualify_parts [id_simps]:
  assumes "has_colon s"
  shows "qualify (kernel_part s) (connector_part s) = s"
proof -
  from assms obtain k c where "s = k @ CHR '':'' # c" and "CHR '':'' \<notin> set k"
    unfolding has_colon_def by (meson split_list_first)
  then show ?thesis
    by (simp add: qualify_def kernel_part_def connector_part_def takeWhile_sep dropWhile_sep)
qed

lemma qualify_inject [simp]:
  "\<not> has_colon k \<Longrightarrow> \<not> has_colon k' \<Longrightarrow> qualify k c = qualify k' c' \<longleftrightarrow> k = k' \<and> c = c'"
  by (metis connector_part_qualify kernel_part_qualify)

section \<open>Formatted text\<close>

text \<open>
  \<^verbatim>\<open>fmt.Sprintf\<close> as the code uses it to build the input of a hash or a signature: \<^verbatim>\<open>%d\<close> of an integer and
  fields joined by a separator.
\<close>

definition digit_char :: "nat \<Rightarrow> char" where
  "digit_char n = char_of (48 + n)"

fun show_nat :: "nat \<Rightarrow> string" where
  "show_nat n = (if n < 10 then [digit_char n] else show_nat (n div 10) @ [digit_char (n mod 10)])"

declare show_nat.simps [simp del]

definition show_int :: "int \<Rightarrow> string" where
  "show_int i = (if i < 0 then CHR ''-'' # show_nat (nat (- i)) else show_nat (nat i))"

fun join :: "char \<Rightarrow> string list \<Rightarrow> string" where
  "join sep [] = []"
| "join sep [x] = x"
| "join sep (x # xs) = x @ sep # join sep xs"

definition digits_value :: "string \<Rightarrow> nat" where
  "digits_value = foldl (\<lambda>a c. 10 * a + (of_char c - 48)) 0"

lemma of_char_digit: "n < 10 \<Longrightarrow> of_char (digit_char n) = (48 + n :: nat)"
  by (simp add: digit_char_def)

lemma digits_value_show: "digits_value (show_nat n) = n"
proof (induction n rule: show_nat.induct)
  case (1 n)
  then show ?case by (subst show_nat.simps) (simp add: digits_value_def of_char_digit)
qed

lemma show_nat_range: "c \<in> set (show_nat n) \<Longrightarrow> 48 \<le> (of_char c :: nat) \<and> of_char c \<le> (57 :: nat)"
proof (induction n rule: show_nat.induct)
  case (1 n)
  have "n mod 10 < 10" by simp
  with 1 show ?case by (subst (asm) show_nat.simps) (auto simp: of_char_digit split: if_splits)
qed

lemma show_nat_no_minus: "CHR ''-'' \<notin> set (show_nat n)"
  using show_nat_range [of "CHR ''-''" n] by auto

lemma show_int_inject [simp]: "show_int i = show_int j \<longleftrightarrow> i = j"
proof
  assume eq: "show_int i = show_int j"
  have sign: "i < 0 \<longleftrightarrow> j < 0"
    using eq show_nat_no_minus [of "nat i"] show_nat_no_minus [of "nat j"]
    by (auto simp: show_int_def split: if_splits) (metis list.set_intros(1))+
  then have "show_nat (nat \<bar>i\<bar>) = show_nat (nat \<bar>j\<bar>)"
    using eq by (auto simp: show_int_def split: if_splits)
  then have "nat \<bar>i\<bar> = nat \<bar>j\<bar>" by (metis digits_value_show)
  with sign show "i = j" by linarith
qed simp

lemma show_int_no_bar [simp]: "CHR ''|'' \<notin> set (show_int i)"
  using show_nat_range [of "CHR ''|''"] by (auto simp: show_int_def)

lemma count_join: "count_list (join sep xs) sep = (length xs - 1) + (\<Sum>x \<leftarrow> xs. count_list x sep)"
  by (induction sep xs rule: join.induct) auto

text \<open>The fields can be read off a text only when none of them contains the separator.\<close>

lemma join_inject:
  assumes "join sep xs = join sep ys" and "length xs = length ys" and "\<forall>x \<in> set xs. sep \<notin> set x"
  shows "xs = ys"
proof -
  have zero: "(\<Sum>x \<leftarrow> xs. count_list x sep) = 0"
    using assms(3) by (simp add: sum_list_eq_0_iff)
  then have "(\<Sum>y \<leftarrow> ys. count_list y sep) = 0"
    using assms(1,2) count_join [of sep xs] count_join [of sep ys] by simp
  then have plain: "\<forall>y \<in> set ys. sep \<notin> set y" by (simp add: sum_list_eq_0_iff count_list_0_iff)
  show ?thesis
    using assms(2,1,3) plain
  proof (induction xs ys rule: list_induct2)
    case (Cons x xs y ys)
    show ?case
    proof (cases xs)
      case Nil
      then show ?thesis using Cons by (cases ys) auto
    next
      case (Cons x' xs')
      then obtain y' ys' where ys: "ys = y' # ys'" using Cons.hyps by (cases ys) auto
      have eq: "x @ sep # join sep xs = y @ sep # join sep ys"
        using Cons.prems(1) by (simp add: Cons ys)
      have "takeWhile (\<lambda>c. c \<noteq> sep) (x @ sep # join sep xs) = x" "takeWhile (\<lambda>c. c \<noteq> sep) (y @ sep # join sep ys) = y"
        using Cons.prems by (simp_all add: takeWhile_sep)
      then have "x = y" using eq by metis
      then show ?thesis using eq Cons.IH Cons.prems by simp
    qed
  qed simp
qed

text \<open>
  Lower-case hexadecimal: \<^verbatim>\<open>%x\<close> with a width, and \<^verbatim>\<open>hex.EncodeToString\<close> of bytes read big-endian.
\<close>

definition hex_digit :: "nat \<Rightarrow> char" where
  "hex_digit n = ''0123456789abcdef'' ! (n mod 16)"

fun hex_digits :: "nat \<Rightarrow> nat \<Rightarrow> string" where
  "hex_digits 0 n = []"
| "hex_digits (Suc k) n = hex_digits k (n div 16) @ [hex_digit n]"

lemma length_hex_digits [simp]: "length (hex_digits k n) = k"
  by (induction k arbitrary: n) auto

lemma hex_digit_inject: "hex_digit m = hex_digit n \<longleftrightarrow> m mod 16 = n mod 16"
proof -
  have "distinct ''0123456789abcdef''" by simp
  moreover have "m mod 16 < length ''0123456789abcdef''" "n mod 16 < length ''0123456789abcdef''"
    by simp_all
  ultimately show ?thesis
    unfolding hex_digit_def by (rule nth_eq_iff_index_eq)
qed

lemma digit_pair_inject:
  assumes "b < 16" and "d < (16 :: nat)"
  shows "16 * a + b = 16 * c + d \<longleftrightarrow> a = c \<and> b = d"
proof
  assume e: "16 * a + b = 16 * c + d"
  then have "(16 * a + b) div 16 = (16 * c + d) div 16" by simp
  with assms have "a = c" by simp
  with e show "a = c \<and> b = d" by simp
qed simp

lemma hex_digits_inject: "hex_digits k m = hex_digits k n \<longleftrightarrow> m mod 16 ^ k = n mod 16 ^ k"
proof (induction k arbitrary: m n)
  case (Suc k)
  have split: "x mod 16 ^ Suc k = 16 * (x div 16 mod 16 ^ k) + x mod 16" for x :: nat
    by (simp add: mod_mult2_eq)
  have "hex_digits (Suc k) m = hex_digits (Suc k) n \<longleftrightarrow>
      m div 16 mod 16 ^ k = n div 16 mod 16 ^ k \<and> m mod 16 = n mod 16"
    using Suc.IH by (simp add: hex_digit_inject)
  also have "\<dots> \<longleftrightarrow> m mod 16 ^ Suc k = n mod 16 ^ Suc k"
    unfolding split by (simp add: digit_pair_inject)
  finally show ?case .
qed simp

end
