(* ===== verification/Connector_Registry.thy ===== *)
theory Connector_Registry
  imports Kernel_Prelude
begin

text \<open>
  The identity registry of \<^verbatim>\<open>kernel/control/registry.go\<close>: who is registered, with which status
  and heartbeat.  A registry is the Go map \<^verbatim>\<open>connectors\<close>; every method of the file is one
  definition, and \<open>reg_step\<close> collects the methods that change the state, with the clock.
\<close>

section \<open>Data\<close>

type_synonym connector_status = string

definition ConnectorStatusActive :: connector_status where
  "ConnectorStatusActive = ''active''"

definition ConnectorStatusInactive :: connector_status where
  "ConnectorStatusInactive = ''inactive''"

definition ConnectorStatusOffline :: connector_status where
  "ConnectorStatusOffline = ''offline''"

definition ConnectorStatusClosed :: connector_status where
  "ConnectorStatusClosed = ''closed''"

lemmas connector_status_defs =
  ConnectorStatusActive_def ConnectorStatusInactive_def
  ConnectorStatusOffline_def ConnectorStatusClosed_def

lemma connector_status_distinct [simp]:
  "ConnectorStatusActive \<noteq> ConnectorStatusInactive" "ConnectorStatusInactive \<noteq> ConnectorStatusActive"
  "ConnectorStatusActive \<noteq> ConnectorStatusOffline" "ConnectorStatusOffline \<noteq> ConnectorStatusActive"
  "ConnectorStatusActive \<noteq> ConnectorStatusClosed" "ConnectorStatusClosed \<noteq> ConnectorStatusActive"
  "ConnectorStatusInactive \<noteq> ConnectorStatusOffline" "ConnectorStatusOffline \<noteq> ConnectorStatusInactive"
  "ConnectorStatusInactive \<noteq> ConnectorStatusClosed" "ConnectorStatusClosed \<noteq> ConnectorStatusInactive"
  "ConnectorStatusOffline \<noteq> ConnectorStatusClosed" "ConnectorStatusClosed \<noteq> ConnectorStatusOffline"
  by (simp_all add: connector_status_defs)

record DataCatalogItem =
  ItemId :: string
  ItemName :: string
  ItemType :: string
  ItemExposed :: bool

record ConnectorInfo =
  ConnectorID :: string
  EntityType :: string
  PublicKey :: string
  Status :: connector_status
  LastHeartbeat :: time
  RegisteredAt :: time
  SessionToken :: string
  Exposed :: bool
  DataCatalog :: "string list"
  DataCatalogItems :: "DataCatalogItem list option" \<comment> \<open>\<open>None\<close> is Go's nil slice\<close>

type_synonym registry = "ConnectorInfo gomap"

datatype registry_error = EmptyConnectorID | NotRegistered string | NotFound string

definition NewRegistry :: registry where
  "NewRegistry = []"

section \<open>Operations\<close>

definition Register ::
    "time \<Rightarrow> string \<Rightarrow> string \<Rightarrow> string \<Rightarrow> string \<Rightarrow> bool \<Rightarrow> string list \<Rightarrow>
     DataCatalogItem list option \<Rightarrow> registry \<Rightarrow> registry_error + registry" where
  "Register now cid entity key token exposed catalog items r =
     (if cid = [] then Inl EmptyConnectorID
      else case go_get r cid of
        Some info \<Rightarrow>
          Inr (go_put cid
            (info\<lparr> EntityType := entity, PublicKey := key,
                   Status := (if Status info = ConnectorStatusClosed then ConnectorStatusActive
                              else if Status info = ConnectorStatusOffline then ConnectorStatusActive
                              else Status info),
                   LastHeartbeat := now, SessionToken := token, Exposed := exposed,
                   DataCatalog := catalog, DataCatalogItems := items \<rparr>) r)
      | None \<Rightarrow>
          Inr (go_put cid
            \<lparr> ConnectorID = cid, EntityType = entity, PublicKey = key,
              Status = ConnectorStatusActive, LastHeartbeat = now, RegisteredAt = now,
              SessionToken = token, Exposed = exposed, DataCatalog = catalog,
              DataCatalogItems = items \<rparr> r))"

definition UpdateHeartbeat :: "time \<Rightarrow> string \<Rightarrow> registry \<Rightarrow> registry_error + registry" where
  "UpdateHeartbeat now cid r =
     (case go_get r cid of
        None \<Rightarrow> Inl (NotRegistered cid)
      | Some info \<Rightarrow>
          Inr (go_put cid
            (info\<lparr> LastHeartbeat := now,
                   Status := (if Status info = ConnectorStatusOffline then ConnectorStatusActive
                              else Status info) \<rparr>) r))"

definition GetConnector :: "string \<Rightarrow> registry \<Rightarrow> registry_error + ConnectorInfo" where
  "GetConnector cid r =
     (case go_get r cid of None \<Rightarrow> Inl (NotFound cid) | Some info \<Rightarrow> Inr info)"

definition IsOnline :: "time \<Rightarrow> string \<Rightarrow> registry \<Rightarrow> bool" where
  "IsOnline now cid r =
     (case go_get r cid of None \<Rightarrow> False | Some info \<Rightarrow> now - LastHeartbeat info < seconds 30)"

definition ListConnectors :: "registry \<Rightarrow> ConnectorInfo list" where
  "ListConnectors r = map snd r"

definition Unregister :: "string \<Rightarrow> registry \<Rightarrow> registry_error + registry" where
  "Unregister cid r =
     (if go_get r cid = None then Inl (NotFound cid) else Inr (go_del cid r))"

definition sweep_entry :: "time \<Rightarrow> ConnectorInfo \<Rightarrow> ConnectorInfo" where
  "sweep_entry now info =
     (if now - LastHeartbeat info > seconds 60 then
        (if Status info = ConnectorStatusActive \<or> Status info = ConnectorStatusInactive
         then info\<lparr> Status := ConnectorStatusOffline \<rparr> else info)
      else info)"

definition CheckOfflineConnectors :: "time \<Rightarrow> registry \<Rightarrow> registry" where
  "CheckOfflineConnectors now r = go_map_values (sweep_entry now) r"

definition SetStatus :: "string \<Rightarrow> connector_status \<Rightarrow> registry \<Rightarrow> registry_error + registry" where
  "SetStatus cid st r =
     (case go_get r cid of
        None \<Rightarrow> Inl (NotFound cid)
      | Some info \<Rightarrow> Inr (go_put cid (info\<lparr> Status := st \<rparr>) r))"

definition GetStatus :: "string \<Rightarrow> registry \<Rightarrow> registry_error + connector_status" where
  "GetStatus cid r =
     (case go_get r cid of None \<Rightarrow> Inl (NotFound cid) | Some info \<Rightarrow> Inr (Status info))"

definition IsActive :: "string \<Rightarrow> registry \<Rightarrow> bool" where
  "IsActive cid r =
     (case go_get r cid of None \<Rightarrow> False | Some info \<Rightarrow> Status info = ConnectorStatusActive)"

definition IsExposed :: "string \<Rightarrow> registry \<Rightarrow> bool" where
  "IsExposed cid r = (case go_get r cid of None \<Rightarrow> False | Some info \<Rightarrow> Exposed info)"

definition ListExposedConnectors :: "registry \<Rightarrow> ConnectorInfo list" where
  "ListExposedConnectors r = filter Exposed (map snd r)"

definition GetExposedDataCatalogItems :: "string \<Rightarrow> registry \<Rightarrow> DataCatalogItem list option" where
  "GetExposedDataCatalogItems cid r =
     (case go_get r cid of
        None \<Rightarrow> None
      | Some info \<Rightarrow>
          (case DataCatalogItems info of
             None \<Rightarrow> None
           | Some items \<Rightarrow> Some (filter ItemExposed items)))"

definition GetAllDataCatalogItems :: "string \<Rightarrow> registry \<Rightarrow> DataCatalogItem list option" where
  "GetAllDataCatalogItems cid r =
     (case go_get r cid of None \<Rightarrow> None | Some info \<Rightarrow> DataCatalogItems info)"

lemmas registry_ops =
  Register_def UpdateHeartbeat_def GetConnector_def Unregister_def CheckOfflineConnectors_def
  SetStatus_def GetStatus_def IsActive_def IsExposed_def IsOnline_def
  GetExposedDataCatalogItems_def GetAllDataCatalogItems_def

section \<open>The registry as a machine\<close>

text \<open>
  A state is the clock and the table.  \<open>StartHealthCheck\<close> runs the sweep every thirty seconds; in
  the machine a sweep can happen at any time.
\<close>

record reg_state =
  clock :: time
  table :: registry

inductive reg_step :: "reg_state \<Rightarrow> reg_state \<Rightarrow> bool" where
  tick: "clock s \<le> t \<Longrightarrow> reg_step s (s\<lparr>clock := t\<rparr>)"
| register: "Register (clock s) cid et pk tok ex cat items (table s) = Inr r
     \<Longrightarrow> reg_step s (s\<lparr>table := r\<rparr>)"
| heartbeat: "UpdateHeartbeat (clock s) cid (table s) = Inr r \<Longrightarrow> reg_step s (s\<lparr>table := r\<rparr>)"
| unregister: "Unregister cid (table s) = Inr r \<Longrightarrow> reg_step s (s\<lparr>table := r\<rparr>)"
| sweep: "reg_step s (s\<lparr>table := CheckOfflineConnectors (clock s) (table s)\<rparr>)"
| set_status: "SetStatus cid st (table s) = Inr r \<Longrightarrow> reg_step s (s\<lparr>table := r\<rparr>)"

definition reg_init :: "reg_state \<Rightarrow> bool" where
  "reg_init s \<longleftrightarrow> table s = NewRegistry"

text \<open>
  The well-formedness of a registry at a time: one entry per key, every entry stored under its own
  non-empty connector id, and heartbeats between registration and now.
\<close>

definition entry_ok :: "time \<Rightarrow> string \<Rightarrow> ConnectorInfo \<Rightarrow> bool" where
  "entry_ok now k info \<longleftrightarrow>
     k \<noteq> [] \<and> ConnectorID info = k \<and>
     RegisteredAt info \<le> LastHeartbeat info \<and> LastHeartbeat info \<le> now"

definition registry_ok :: "reg_state \<Rightarrow> bool" where
  "registry_ok s \<longleftrightarrow>
     go_map_ok (table s) \<and> (\<forall>k v. go_get (table s) k = Some v \<longrightarrow> entry_ok (clock s) k v)"

lemma registry_okI:
  "go_map_ok (table s) \<Longrightarrow> (\<And>k v. go_get (table s) k = Some v \<Longrightarrow> entry_ok (clock s) k v)
   \<Longrightarrow> registry_ok s"
  by (simp add: registry_ok_def)

lemma registry_ok_entry: "registry_ok s \<Longrightarrow> go_get (table s) k = Some v \<Longrightarrow> entry_ok (clock s) k v"
  by (simp add: registry_ok_def)

lemma registry_ok_put:
  assumes "registry_ok s" and "entry_ok (clock s) k v"
  shows "registry_ok (s\<lparr>table := go_put k v (table s)\<rparr>)"
  using assms by (auto simp: registry_ok_def gomap_simps)

lemma sweep_entry_fields [simp]:
  "ConnectorID (sweep_entry now i) = ConnectorID i"
  "LastHeartbeat (sweep_entry now i) = LastHeartbeat i"
  "RegisteredAt (sweep_entry now i) = RegisteredAt i"
  "Exposed (sweep_entry now i) = Exposed i"
  by (simp_all add: sweep_entry_def)

lemma reg_step_ok: "reg_step s t \<Longrightarrow> registry_ok s \<Longrightarrow> registry_ok t"
proof (induction rule: reg_step.induct)
  case (tick s t)
  then show ?case by (fastforce simp: registry_ok_def entry_ok_def)
next
  case (register s cid et pk tok ex cat items r)
  then obtain v where "r = go_put cid v (table s)" and "entry_ok (clock s) cid v"
    using registry_ok_entry [of s cid]
    by (fastforce simp: Register_def entry_ok_def split: if_splits option.splits)
  then show ?case using register.prems by (simp add: registry_ok_put)
next
  case (heartbeat s cid r)
  then obtain v where "r = go_put cid v (table s)" and "entry_ok (clock s) cid v"
    using registry_ok_entry [of s cid]
    by (fastforce simp: UpdateHeartbeat_def entry_ok_def split: option.splits)
  then show ?case using heartbeat.prems by (simp add: registry_ok_put)
next
  case (unregister cid s r)
  then show ?case by (auto simp: Unregister_def registry_ok_def gomap_simps split: if_splits)
next
  case (sweep s)
  then show ?case
    by (fastforce simp: CheckOfflineConnectors_def registry_ok_def gomap_simps entry_ok_def)
next
  case (set_status cid st s r)
  then obtain v where "r = go_put cid v (table s)" and "entry_ok (clock s) cid v"
    using registry_ok_entry [of s cid]
    by (fastforce simp: SetStatus_def entry_ok_def split: option.splits)
  then show ?case using set_status.prems by (simp add: registry_ok_put)
qed

interpretation reg: invariant_system reg_init reg_step registry_ok
proof unfold_locales
  show "reg_init s \<Longrightarrow> registry_ok s" for s
    by (simp add: reg_init_def registry_ok_def NewRegistry_def)
qed (rule reg_step_ok)

section \<open>Properties\<close>

text \<open>What a sweep does to one connector, in the words of the status alone.\<close>

lemma GetStatus_sweep:
  "GetStatus cid (CheckOfflineConnectors now r) =
     (case go_get r cid of
        None \<Rightarrow> Inl (NotFound cid)
      | Some i \<Rightarrow>
          Inr (if now - LastHeartbeat i > seconds 60 \<and>
                  Status i \<in> {ConnectorStatusActive, ConnectorStatusInactive}
               then ConnectorStatusOffline else Status i))"
  by (simp add: registry_ops gomap_simps sweep_entry_def split: option.split)

lemma ListConnectors_lookup:
  assumes "go_map_ok r"
  shows "i \<in> set (ListConnectors r) \<longleftrightarrow> (\<exists>k. go_get r k = Some i)"
  using assms by (force simp: ListConnectors_def go_get_mem)

text \<open>
  In every reachable state of the registry each connector is stored once, under its own
  non-empty id, and its last heartbeat lies between its registration and the current time.
\<close>

theorem registry_reachable_ok:
  assumes "reach reg_init reg_step s" and "go_get (table s) k = Some info"
  shows "go_map_ok (table s) \<and> k \<noteq> [] \<and> ConnectorID info = k
    \<and> RegisteredAt info \<le> LastHeartbeat info \<and> LastHeartbeat info \<le> clock s"
  using reg.reach_inv [OF assms(1)] assms(2) by (auto simp: registry_ok_def entry_ok_def)

definition demo_registry :: registry where
  "demo_registry =
     [(''a'', \<lparr> ConnectorID = ''a'', EntityType = ''db'', PublicKey = ''pk'',
               Status = ConnectorStatusActive, LastHeartbeat = 0, RegisteredAt = 0,
               SessionToken = ''t'', Exposed = True, DataCatalog = [],
               DataCatalogItems = None \<rparr>)]"

lemma demo_registry_reachable:
  "reach reg_init reg_step \<lparr>clock = 0, table = demo_registry\<rparr>"
proof -
  let ?s = "\<lparr>clock = 0, table = NewRegistry\<rparr>"
  have "Register (clock ?s) ''a'' ''db'' ''pk'' ''t'' True [] None (table ?s) = Inr demo_registry"
    by (simp add: Register_def NewRegistry_def demo_registry_def)
  then have "reg_step ?s (?s\<lparr>table := demo_registry\<rparr>)"
    by (rule reg_step.register)
  then show ?thesis
    using reach.reach_step [of reg_init reg_step ?s] by (simp add: reach.reach_init reg_init_def)
qed

theorem registry_reachable_ok_witness:
  "go_map_ok demo_registry \<and> LastHeartbeat (snd (hd demo_registry)) \<le> 0"
  using registry_reachable_ok
    [OF demo_registry_reachable, of "''a''" "snd (hd demo_registry)"]
  by (simp add: demo_registry_def)

text \<open>
  A successful registration is read back exactly: the connector has the given key, token,
  exposure and catalogue and a heartbeat of now, it is online, a closed or offline connector is
  active again while any other status is kept, the registration time of a known connector is kept,
  and no other connector is touched.
\<close>

theorem register_then_get:
  assumes "Register now cid entity key token exposed catalog items r = Inr r'"
  shows "(\<exists>info. GetConnector cid r' = Inr info
      \<and> EntityType info = entity \<and> PublicKey info = key \<and> SessionToken info = token
      \<and> Exposed info = exposed \<and> DataCatalog info = catalog \<and> DataCatalogItems info = items
      \<and> LastHeartbeat info = now
      \<and> Status info = (case go_get r cid of None \<Rightarrow> ConnectorStatusActive
           | Some old \<Rightarrow> if Status old \<in> {ConnectorStatusClosed, ConnectorStatusOffline}
                         then ConnectorStatusActive else Status old)
      \<and> RegisteredAt info = (case go_get r cid of None \<Rightarrow> now | Some old \<Rightarrow> RegisteredAt old))
    \<and> IsOnline now cid r'
    \<and> (\<forall>other. other \<noteq> cid \<longrightarrow> GetConnector other r' = GetConnector other r)"
  using assms
  by (auto simp: registry_ops gomap_simps seconds_def split: if_splits option.splits)

theorem register_then_get_witness:
  "IsOnline 5 ''b'' (case Register 5 ''b'' ''db'' ''pk'' ''t'' True [] None demo_registry of Inr r \<Rightarrow> r)
   \<and> GetConnector ''a'' (case Register 5 ''b'' ''db'' ''pk'' ''t'' True [] None demo_registry of Inr r \<Rightarrow> r)
     = GetConnector ''a'' demo_registry"
proof -
  obtain r' where r': "Register 5 ''b'' ''db'' ''pk'' ''t'' True [] None demo_registry = Inr r'"
    by (simp add: Register_def demo_registry_def)
  show ?thesis using register_then_get [OF r'] r' by simp
qed

text \<open>
  A sweep turns exactly the active or inactive connectors silent for more than a minute into
  offline ones; the sweep and the heartbeat never bring a closed connector back, and a heartbeat
  makes an offline one active again.
\<close>

theorem sweep_and_heartbeat_status:
  assumes "go_get r cid = Some i"
  shows "(GetStatus cid (CheckOfflineConnectors now r) = Inr ConnectorStatusOffline \<longleftrightarrow>
           Status i = ConnectorStatusOffline \<or>
           now - LastHeartbeat i > seconds 60 \<and>
             Status i \<in> {ConnectorStatusActive, ConnectorStatusInactive})
    \<and> (Status i = ConnectorStatusClosed \<longrightarrow>
           GetStatus cid (CheckOfflineConnectors now r) = Inr ConnectorStatusClosed)
    \<and> (\<exists>r'. UpdateHeartbeat now cid r = Inr r' \<and> IsOnline now cid r' \<and>
           GetStatus cid r' = Inr (if Status i = ConnectorStatusOffline then ConnectorStatusActive
                                   else Status i))"
proof (intro conjI)
  show "\<exists>r'. UpdateHeartbeat now cid r = Inr r' \<and> IsOnline now cid r' \<and>
           GetStatus cid r' = Inr (if Status i = ConnectorStatusOffline then ConnectorStatusActive
                                   else Status i)"
    using assms by (simp add: registry_ops gomap_simps seconds_def)
qed (use assms in \<open>auto simp: GetStatus_sweep\<close>)

theorem sweep_and_heartbeat_status_witness:
  "GetStatus ''a'' (CheckOfflineConnectors (seconds 61) demo_registry) = Inr ConnectorStatusOffline"
  using sweep_and_heartbeat_status [of demo_registry "''a''" "snd (hd demo_registry)" "seconds 61"]
  by (simp add: demo_registry_def seconds_def)

text \<open>
  The two notions of being online disagree between thirty and sixty seconds of silence: the
  heartbeat check already says offline while the sweep leaves the connector active.
\<close>

theorem online_status_gap:
  assumes "go_get r cid = Some i" and "Status i = ConnectorStatusActive"
    and "seconds 30 \<le> now - LastHeartbeat i" and "now - LastHeartbeat i \<le> seconds 60"
  shows "\<not> IsOnline now cid r \<and> IsActive cid (CheckOfflineConnectors now r)"
  using assms by (simp add: registry_ops gomap_simps sweep_entry_def)

theorem online_status_gap_witness:
  "\<not> IsOnline (seconds 45) ''a'' demo_registry
   \<and> IsActive ''a'' (CheckOfflineConnectors (seconds 45) demo_registry)"
  using online_status_gap [of demo_registry "''a''" "snd (hd demo_registry)" "seconds 45"]
  by (simp add: demo_registry_def seconds_def)

end
