(* ===== verification/Packet_Codec.thy ===== *)
theory Packet_Codec
  imports Kernel_Prelude "HOL-Library.Word"
begin

unbundle bit_operations_syntax

text \<open>
  The wire format of the operator-peer protocol: \<^verbatim>\<open>kernel/operator_peer/packet.go\<close> (header
  encoding and decoding) and the framing of \<^verbatim>\<open>PacketReaderJSON\<close>/\<^verbatim>\<open>PacketWriterJSON\<close> in
  \<^verbatim>\<open>kernel/operator_peer/server.go\<close>.  Bytes are \<open>8 word\<close>, the length field is a \<open>32 word\<close> and
  keeps its wrap-around, and slicing out of range is the error \<open>SlicePanic\<close>.  The locale
  \<open>frame_codec\<close> is what a stream reader needs from a codec; the packet codec interprets it.
\<close>

section \<open>Big-endian 32-bit integers\<close>

type_synonym byte = "8 word"

definition PutUint32 :: "32 word \<Rightarrow> byte list" where
  "PutUint32 v = [ucast (drop_bit 24 v), ucast (drop_bit 16 v), ucast (drop_bit 8 v), ucast v]"

definition Uint32 :: "byte list \<Rightarrow> 32 word" where
  "Uint32 b = ucast (b ! 3) OR push_bit 8 (ucast (b ! 2)) OR push_bit 16 (ucast (b ! 1))
                OR push_bit 24 (ucast (b ! 0))"

lemma length_PutUint32 [simp]: "length (PutUint32 v) = 4"
  by (simp add: PutUint32_def)

lemma Uint32_PutUint32 [simp]: "Uint32 (PutUint32 v) = v"
proof (rule bit_word_eqI)
  fix n assume "n < LENGTH(32)"
  then consider "n < 8" | "8 \<le> n \<and> n < 16" | "16 \<le> n \<and> n < 24" | "24 \<le> n \<and> n < 32"
    by fastforce
  then show "bit (Uint32 (PutUint32 v)) n = bit v n"
    by cases (auto simp: Uint32_def PutUint32_def bit_simps)
qed

section \<open>Packets\<close>

definition MagicNumber :: "32 word" where
  "MagicNumber = 0x50503250"

definition MaxPacketSize :: nat where
  "MaxPacketSize = 8 * 1024 * 1024"

datatype PacketType =
  PacketTypeHandshake | PacketTypeHandshakeAck | PacketTypeSyncConnectors | PacketTypeSyncAck
| PacketTypeRelayMessage | PacketTypeRelayMessageAck | PacketTypeHeartbeat
| PacketTypeHeartbeatAck | PacketTypeDisconnect

fun packet_type_code :: "PacketType \<Rightarrow> byte" where
  "packet_type_code PacketTypeHandshake = 0"
| "packet_type_code PacketTypeHandshakeAck = 1"
| "packet_type_code PacketTypeSyncConnectors = 10"
| "packet_type_code PacketTypeSyncAck = 11"
| "packet_type_code PacketTypeRelayMessage = 20"
| "packet_type_code PacketTypeRelayMessageAck = 21"
| "packet_type_code PacketTypeHeartbeat = 30"
| "packet_type_code PacketTypeHeartbeatAck = 31"
| "packet_type_code PacketTypeDisconnect = 40"

text \<open>
  The Go field \<^verbatim>\<open>Type PacketType\<close> is a \<^verbatim>\<open>uint8\<close> that can hold any byte, so a packet stores the
  byte.  \<open>pkTraceID\<close> is the array \<^verbatim>\<open>[16]byte\<close>: \<open>packet_wf\<close> fixes its length.
\<close>

record Packet =
  pkMagic :: "32 word"
  pkVersion :: byte
  pkType :: byte
  pkFlags :: byte
  pkLength :: "32 word"
  pkTraceID :: "byte list"
  pkPayload :: "byte list"

definition packet_wf :: "Packet \<Rightarrow> bool" where
  "packet_wf p \<longleftrightarrow> length (pkTraceID p) = 16"

datatype codec_error =
  PayloadTooLarge nat | HeaderTooShort nat | InvalidMagic "32 word" | DataTruncated nat nat
| SlicePanic | ReadHeaderFailed | ReadPayloadFailed

definition Encode :: "Packet \<Rightarrow> codec_error + byte list" where
  "Encode p =
     (if length (pkPayload p) > MaxPacketSize then Inl (PayloadTooLarge (length (pkPayload p)))
      else Inr (PutUint32 MagicNumber @ [pkVersion p, pkType p, pkFlags p, 0]
                @ PutUint32 (of_nat (length (pkPayload p))) @ pkTraceID p @ pkPayload p))"

definition DecodePacket :: "byte list \<Rightarrow> codec_error + Packet" where
  "DecodePacket data =
     (if length data < 28 then Inl (HeaderTooShort (length data))
      else let magic = Uint32 (take 4 data); len = Uint32 (take 4 (drop 8 data)) in
        if magic \<noteq> MagicNumber then Inl (InvalidMagic magic)
        else if length data < 28 + unat len then Inl (DataTruncated (28 + unat len) (length data))
        else if unat (28 + len) < 28 then Inl SlicePanic
        else Inr \<lparr> pkMagic = magic, pkVersion = data ! 4, pkType = data ! 5, pkFlags = data ! 6,
                   pkLength = len, pkTraceID = take 16 (drop 12 data),
                   pkPayload = take (unat len) (drop 28 data) \<rparr>)"

text \<open>
  \<^verbatim>\<open>copy(tid[:], []byte(traceID))\<close>: at most sixteen bytes, the rest of the array stays zero.
\<close>

definition NewPacket :: "PacketType \<Rightarrow> byte list \<Rightarrow> byte list \<Rightarrow> Packet" where
  "NewPacket ty trace payload =
     \<lparr> pkMagic = MagicNumber, pkVersion = 1, pkType = packet_type_code ty, pkFlags = 0,
       pkLength = of_nat (length payload),
       pkTraceID = take 16 trace @ replicate (16 - length trace) 0,
       pkPayload = payload \<rparr>"

text \<open>
  \<^verbatim>\<open>ReadPacket\<close> takes a packet off a byte stream (\<^verbatim>\<open>io.ReadFull\<close> fails when the stream ends
  first) and returns the rest of it; \<^verbatim>\<open>WritePacket\<close> appends the encoding to the stream.
  The reader does not look at the magic number and leaves that field zero.
\<close>

definition ReadPacket :: "byte list \<Rightarrow> codec_error + Packet \<times> byte list" where
  "ReadPacket stream =
     (if length stream < 28 then Inl ReadHeaderFailed
      else let header = take 28 stream; len = Uint32 (take 4 (drop 8 header)); rest = drop 28 stream in
        if unat len > MaxPacketSize then Inl (PayloadTooLarge (unat len))
        else if length rest < unat len then Inl ReadPayloadFailed
        else Inr (\<lparr> pkMagic = 0, pkVersion = header ! 4, pkType = header ! 5, pkFlags = header ! 6,
                    pkLength = len, pkTraceID = take 16 (drop 12 header),
                    pkPayload = take (unat len) rest \<rparr>, drop (unat len) rest))"

definition WritePacket :: "Packet \<Rightarrow> byte list \<Rightarrow> codec_error + byte list" where
  "WritePacket p stream = (case Encode p of Inl e \<Rightarrow> Inl e | Inr data \<Rightarrow> Inr (stream @ data))"

text \<open>The reader's main loop over a finite stream: packets until the first error.\<close>

function read_packets :: "byte list \<Rightarrow> Packet list \<times> codec_error" where
  "read_packets stream =
     (case ReadPacket stream of
        Inl e \<Rightarrow> ([], e)
      | Inr (p, rest) \<Rightarrow> (case read_packets rest of (ps, e) \<Rightarrow> (p # ps, e)))"
  by pat_completeness auto
termination
  by (relation "measure length") (auto simp: ReadPacket_def Let_def split: if_splits)

declare read_packets.simps [simp del]

section \<open>Decoding an encoding\<close>

lemma uint32_length: "length xs \<le> MaxPacketSize \<Longrightarrow> unat (of_nat (length xs) :: 32 word) = length xs"
  by (simp add: MaxPacketSize_def unat_of_nat)

lemma header_fields:
  assumes "length m = 4" and "length l = 4" and "length t = 16"
  shows "take 4 (m @ [a, b, c, d] @ l @ t @ rest) = m"
    and "(m @ [a, b, c, d] @ l @ t @ rest) ! 4 = a"
    and "(m @ [a, b, c, d] @ l @ t @ rest) ! 5 = b"
    and "(m @ [a, b, c, d] @ l @ t @ rest) ! 6 = c"
    and "take 4 (drop 8 (m @ [a, b, c, d] @ l @ t @ rest)) = l"
    and "take 16 (drop 12 (m @ [a, b, c, d] @ l @ t @ rest)) = t"
    and "drop 28 (m @ [a, b, c, d] @ l @ t @ rest) = rest"
  using assms by (simp_all add: nth_append)

lemma Encode_length: "packet_wf p \<Longrightarrow> Encode p = Inr data \<Longrightarrow> length data = 28 + length (pkPayload p)"
  by (auto simp: Encode_def packet_wf_def split: if_splits)

text \<open>
  What the receiver sees of a packet: everything but the two fields the header does not carry,
  which are the magic (a constant on the wire) and the length (that of the payload).
\<close>

definition on_wire :: "32 word \<Rightarrow> Packet \<Rightarrow> Packet" where
  "on_wire magic p = p\<lparr> pkMagic := magic, pkLength := of_nat (length (pkPayload p)) \<rparr>"

lemma DecodePacket_Encode:
  assumes "packet_wf p" and "Encode p = Inr data"
  shows "DecodePacket (data @ rest) = Inr (on_wire MagicNumber p)"
proof -
  let ?len = "of_nat (length (pkPayload p)) :: 32 word"
  from assms have small: "length (pkPayload p) \<le> MaxPacketSize"
    and data: "data @ rest = PutUint32 MagicNumber @ [pkVersion p, pkType p, pkFlags p, 0]
          @ PutUint32 ?len @ pkTraceID p @ (pkPayload p @ rest)"
    and trace: "length (pkTraceID p) = 16"
    by (auto simp: Encode_def packet_wf_def split: if_splits)
  note f = header_fields [of "PutUint32 MagicNumber" "PutUint32 ?len" "pkTraceID p"
      "pkVersion p" "pkType p" "pkFlags p" 0 "pkPayload p @ rest", folded data]
  have "length (data @ rest) = 28 + length (pkPayload p) + length rest"
    using data trace by simp
  moreover have "unat (28 + ?len) = 28 + length (pkPayload p)"
    using small by (simp add: unat_word_ariths uint32_length MaxPacketSize_def)
  ultimately show ?thesis
    using f trace uint32_length [OF small]
    by (simp add: DecodePacket_def on_wire_def Let_def)
qed

text \<open>The header the reader slices out of the first 28 bytes, read off the stream itself.\<close>

lemma ReadPacket_stream:
  "ReadPacket stream =
     (if length stream < 28 then Inl ReadHeaderFailed
      else let len = Uint32 (take 4 (drop 8 stream)) in
        if unat len > MaxPacketSize then Inl (PayloadTooLarge (unat len))
        else if length stream < 28 + unat len then Inl ReadPayloadFailed
        else Inr (\<lparr> pkMagic = 0, pkVersion = stream ! 4, pkType = stream ! 5, pkFlags = stream ! 6,
                    pkLength = len, pkTraceID = take 16 (drop 12 stream),
                    pkPayload = take (unat len) (drop 28 stream) \<rparr>, drop (28 + unat len) stream))"
proof (cases "length stream < 28")
  case False
  then have "take 4 (drop 8 (take 28 stream)) = take 4 (drop 8 stream)"
    and "take 16 (drop 12 (take 28 stream)) = take 16 (drop 12 stream)"
    by (simp_all add: drop_take)
  with False show ?thesis
    by (auto simp: ReadPacket_def Let_def add.commute)
qed (simp add: ReadPacket_def)

lemma ReadPacket_Encode:
  assumes "packet_wf p" and "Encode p = Inr data"
  shows "ReadPacket (data @ rest) = Inr (on_wire 0 p, rest)"
proof -
  let ?len = "of_nat (length (pkPayload p)) :: 32 word"
  from assms have small: "length (pkPayload p) \<le> MaxPacketSize"
    and data: "data @ rest = PutUint32 MagicNumber @ [pkVersion p, pkType p, pkFlags p, 0]
          @ PutUint32 ?len @ pkTraceID p @ (pkPayload p @ rest)"
    and trace: "length (pkTraceID p) = 16"
    by (auto simp: Encode_def packet_wf_def split: if_splits)
  note f = header_fields [of "PutUint32 MagicNumber" "PutUint32 ?len" "pkTraceID p"
      "pkVersion p" "pkType p" "pkFlags p" 0 "pkPayload p @ rest", folded data]
  have "length (data @ rest) = 28 + length (pkPayload p) + length rest"
    using data trace by simp
  moreover have "drop (28 + length (pkPayload p)) (data @ rest) = rest"
    using assms Encode_length by auto
  ultimately show ?thesis
    using f trace uint32_length [OF small] small
    by (simp add: ReadPacket_stream on_wire_def Let_def)
qed

section \<open>Framing: reading a stream of encodings\<close>

text \<open>
  What a stream reader relies on: a decoder that takes one encoding off the front of any stream.
  Then a stream of encodings has one reading, and reading it back frame by frame gives the packets
  that were written, in order.
\<close>

fun drain :: "('b list \<Rightarrow> ('q \<times> 'b list) option) \<Rightarrow> nat \<Rightarrow> 'b list \<Rightarrow> 'q list \<times> 'b list" where
  "drain dec 0 s = ([], s)"
| "drain dec (Suc n) s =
     (case dec s of None \<Rightarrow> ([], s)
      | Some (q, rest) \<Rightarrow> (case drain dec n rest of (qs, r) \<Rightarrow> (q # qs, r)))"

locale frame_codec =
  fixes valid :: "'p \<Rightarrow> bool" and enc :: "'p \<Rightarrow> 'b list"
    and dec :: "'b list \<Rightarrow> ('q \<times> 'b list) option" and view :: "'p \<Rightarrow> 'q"
  assumes dec_enc: "valid p \<Longrightarrow> dec (enc p @ rest) = Some (view p, rest)"
begin

lemma enc_unique:
  assumes "valid p" and "valid q" and "enc p @ r = enc q @ r'"
  shows "view p = view q \<and> r = r'"
  using dec_enc [OF assms(1), of r] dec_enc [OF assms(2), of r'] assms(3) by simp

lemma drain_encodings:
  "\<forall>p \<in> set ps. valid p \<Longrightarrow> drain dec (length ps) (concat (map enc ps) @ rest) = (map view ps, rest)"
  by (induction ps) (simp_all add: dec_enc)

end

definition packet_sendable :: "Packet \<Rightarrow> bool" where
  "packet_sendable p \<longleftrightarrow> packet_wf p \<and> length (pkPayload p) \<le> MaxPacketSize"

definition packet_bytes :: "Packet \<Rightarrow> byte list" where
  "packet_bytes p = (case Encode p of Inl _ \<Rightarrow> [] | Inr data \<Rightarrow> data)"

definition read_frame :: "byte list \<Rightarrow> (Packet \<times> byte list) option" where
  "read_frame s = (case ReadPacket s of Inl _ \<Rightarrow> None | Inr r \<Rightarrow> Some r)"

lemma read_frame_Some: "read_frame s = Some r \<longleftrightarrow> ReadPacket s = Inr r"
  by (auto simp: read_frame_def split: sum.splits)

lemma Encode_sendable: "packet_sendable p \<Longrightarrow> Encode p = Inr (packet_bytes p)"
  by (simp add: packet_sendable_def packet_bytes_def Encode_def)

interpretation wire: frame_codec packet_sendable packet_bytes read_frame "on_wire 0"
proof
  fix p rest assume "packet_sendable p"
  then show "read_frame (packet_bytes p @ rest) = Some (on_wire 0 p, rest)"
    using ReadPacket_Encode [OF _ Encode_sendable]
    by (simp add: read_frame_def packet_sendable_def)
qed

text \<open>The main loop reads what draining reads, and stops at the error the next read gives.\<close>

lemma read_packets_drain:
  assumes "drain read_frame (length qs) s = (qs, rest)" and "ReadPacket rest = Inl e"
  shows "read_packets s = (qs, e)"
  using assms
proof (induction qs arbitrary: s)
  case Nil
  then show ?case by (simp add: read_packets.simps)
next
  case (Cons q qs)
  then obtain s' where s': "ReadPacket s = Inr (q, s')" and "drain read_frame (length qs) s' = (qs, rest)"
    by (auto simp: read_frame_Some split: option.splits prod.splits)
  then have "read_packets s' = (qs, e)"
    using Cons.IH Cons.prems(2) by blast
  with s' show ?case by (simp add: read_packets.simps [of s])
qed

lemma NewPacket_wf [simp]: "packet_wf (NewPacket ty trace payload)"
  by (simp add: packet_wf_def NewPacket_def)

section \<open>Properties\<close>

text \<open>
  Packet encoding round trip: a packet built by \<open>NewPacket\<close> with a payload of at most 8 MB
  encodes to 28 bytes and its payload, and decoding these bytes (whatever follows them) gives the
  packet back, all fields included; a larger payload is refused.
\<close>

theorem packet_roundtrip:
  "(length payload \<le> MaxPacketSize \<longrightarrow>
     (\<exists>data. Encode (NewPacket ty trace payload) = Inr data \<and> length data = 28 + length payload \<and>
        (\<forall>rest. DecodePacket (data @ rest) = Inr (NewPacket ty trace payload))))
   \<and> (length payload > MaxPacketSize \<longrightarrow>
     Encode (NewPacket ty trace payload) = Inl (PayloadTooLarge (length payload)))"
proof (intro conjI impI)
  let ?p = "NewPacket ty trace payload"
  have pl: "pkPayload ?p = payload"
    by (simp add: NewPacket_def)
  have wire: "on_wire MagicNumber ?p = ?p"
    by (simp add: on_wire_def NewPacket_def)
  assume "length payload \<le> MaxPacketSize"
  then obtain data where data: "Encode ?p = Inr data"
    using pl by (simp add: Encode_def)
  then show "\<exists>data. Encode ?p = Inr data \<and> length data = 28 + length payload \<and>
        (\<forall>rest. DecodePacket (data @ rest) = Inr ?p)"
    using Encode_length [OF _ data] DecodePacket_Encode [OF _ data] wire pl by auto
qed (simp add: Encode_def NewPacket_def)

theorem packet_roundtrip_witness:
  "\<exists>data. Encode (NewPacket PacketTypeHeartbeat [1, 2] [3, 4, 5]) = Inr data
     \<and> DecodePacket (data @ [9]) = Inr (NewPacket PacketTypeHeartbeat [1, 2] [3, 4, 5])"
proof -
  have "length [3, 4, 5 :: byte] \<le> MaxPacketSize" by (simp add: MaxPacketSize_def)
  then show ?thesis
    using packet_roundtrip [of "[3, 4, 5]" PacketTypeHeartbeat "[1, 2]"] by blast
qed



text \<open>
  Decoding is total below 4 GiB: on fewer than \<open>2 ^ 32\<close> bytes the 32-bit sum in the payload
  slice never wraps, so decoding never panics; it succeeds exactly when the 28-byte header is
  there with the right magic and the announced payload has arrived, and the payload it returns has
  the announced length.
\<close>

theorem decode_accepts:
  assumes "length data < 2 ^ 32"
  shows "DecodePacket data \<noteq> Inl SlicePanic
    \<and> ((\<exists>p. DecodePacket data = Inr p) \<longleftrightarrow>
        28 \<le> length data \<and> Uint32 (take 4 data) = MagicNumber \<and>
        28 + unat (Uint32 (take 4 (drop 8 data))) \<le> length data)
    \<and> (\<forall>p. DecodePacket data = Inr p \<longrightarrow>
        length (pkPayload p) = unat (pkLength p) \<and> packet_wf p \<and> pkMagic p = MagicNumber)"
proof -
  let ?len = "Uint32 (take 4 (drop 8 data))"
  have "unat (28 + ?len) = 28 + unat ?len" if "28 + unat ?len \<le> length data"
    using that assms by (simp add: unat_word_ariths)
  then show ?thesis
    by (auto simp: DecodePacket_def Let_def packet_wf_def)
qed

theorem decode_accepts_witness:
  "DecodePacket [0, 1, 2] \<noteq> Inl SlicePanic \<and> \<not> (\<exists>p. DecodePacket [0, 1, 2] = Inr p)"
  using decode_accepts [of "[0, 1, 2]"] by simp

text \<open>
  The stream reader bounds what a peer can make it allocate: an accepted packet carries at most
  8 MB and consumes exactly its 28 header bytes and its payload; but it accepts any four bytes in
  place of the magic number, so garbage with a plausible length field is taken for a packet.
\<close>

theorem read_packet_bounds:
  assumes "ReadPacket stream = Inr (p, rest)"
  shows "length (pkPayload p) \<le> MaxPacketSize \<and> length (pkPayload p) = unat (pkLength p)
    \<and> length stream = 28 + length (pkPayload p) + length rest
    \<and> (\<forall>m. length m = 4 \<longrightarrow> ReadPacket (m @ drop 4 stream) = Inr (p, rest))"
proof -
  have "ReadPacket (m @ drop 4 stream) = ReadPacket stream" if "length m = 4" for m
  proof -
    have "drop k (m @ drop 4 stream) = drop k stream" if "4 \<le> k" for k
      using that \<open>length m = 4\<close> by simp
    moreover have "(m @ drop 4 stream) ! k = stream ! k" if "4 \<le> k" "28 \<le> length stream" for k
      using that \<open>length m = 4\<close> by (simp add: nth_append)
    moreover have "length (m @ drop 4 stream) = length stream" if "28 \<le> length stream"
      using that \<open>length m = 4\<close> by simp
    ultimately show ?thesis
      using assms by (simp add: ReadPacket_stream Let_def split: if_splits)
  qed
  with assms show ?thesis
    by (auto simp: ReadPacket_stream Let_def split: if_splits)
qed

theorem read_packet_bounds_witness:
  "ReadPacket ([0, 0, 0, 0] @ drop 4 (packet_bytes (NewPacket PacketTypeDisconnect [] [])))
   = Inr (on_wire 0 (NewPacket PacketTypeDisconnect [] []), [])"
proof -
  have "packet_sendable (NewPacket PacketTypeDisconnect [] [])"
    by (simp add: packet_sendable_def) (simp add: NewPacket_def MaxPacketSize_def)
  then have "ReadPacket (packet_bytes (NewPacket PacketTypeDisconnect [] [])) =
      Inr (on_wire 0 (NewPacket PacketTypeDisconnect [] []), [])"
    using ReadPacket_Encode [of _ _ "[]"] Encode_sendable by (simp add: packet_sendable_def)
  from read_packet_bounds [OF this]
  have "length [0, 0, 0, 0 :: byte] = 4 \<longrightarrow>
      ReadPacket ([0, 0, 0, 0] @ drop 4 (packet_bytes (NewPacket PacketTypeDisconnect [] [])))
      = Inr (on_wire 0 (NewPacket PacketTypeDisconnect [] []), [])"
    by blast
  then show ?thesis by simp
qed

end
