(* ===== verification/Bootstrap_Token.thy ===== *)
theory Bootstrap_Token
  imports Kernel_Prelude
begin

text \<open>
  The one-time registration tokens of \<^verbatim>\<open>kernel/control/bootstrap_token.go\<close>.  A manager holds the
  configuration with its token list; each method takes the lock for the part that touches the
  list, so a method is one step.  The random bytes of a code, the outcome of writing the YAML file
  (\<open>save_ok\<close>) and \<^verbatim>\<open>time.ParseDuration\<close> are arguments.
\<close>

section \<open>Data\<close>

type_synonym token_status = string

definition BootstrapTokenStatusValid :: token_status where
  "BootstrapTokenStatusValid = ''valid''"

definition BootstrapTokenStatusUsed :: token_status where
  "BootstrapTokenStatusUsed = ''used''"

definition BootstrapTokenStatusExpired :: token_status where
  "BootstrapTokenStatusExpired = ''expired''"

definition BootstrapTokenStatusRevoked :: token_status where
  "BootstrapTokenStatusRevoked = ''revoked''"

lemmas token_status_defs =
  BootstrapTokenStatusValid_def BootstrapTokenStatusUsed_def
  BootstrapTokenStatusExpired_def BootstrapTokenStatusRevoked_def

lemma token_status_distinct [simp]:
  "BootstrapTokenStatusUsed \<noteq> BootstrapTokenStatusValid" "BootstrapTokenStatusValid \<noteq> BootstrapTokenStatusUsed"
  "BootstrapTokenStatusRevoked \<noteq> BootstrapTokenStatusValid" "BootstrapTokenStatusValid \<noteq> BootstrapTokenStatusRevoked"
  "BootstrapTokenStatusRevoked \<noteq> BootstrapTokenStatusUsed" "BootstrapTokenStatusUsed \<noteq> BootstrapTokenStatusRevoked"
  by (simp_all add: token_status_defs)

record BootstrapToken =
  tkCode :: string
  tkConnectorID :: string
  tkStatus :: token_status
  tkUsedAt :: "time option"
  tkUsedBy :: string
  tkCreatedAt :: time
  tkExpiresAt :: "time option"

record BootstrapConfig =
  bcEnabled :: bool
  bcDefaultExpiry :: string
  bcDefaultExpiryDuration :: time
  bcTokens :: "BootstrapToken list"

datatype token_error =
  RandomFailed | SaveFailed | ValidationDisabled | TokenInvalid | BoundToOther string
| TokenNotFound | TokenAlreadyUsed | ReadFailed | ParseFailed | InvalidDefaultExpiry

definition TokenIsValid :: "time \<Rightarrow> BootstrapToken \<Rightarrow> bool" where
  "TokenIsValid now t =
     (if tkStatus t \<noteq> BootstrapTokenStatusValid then False
      else case tkExpiresAt t of
        None \<Rightarrow> True
      | Some e \<Rightarrow> \<not> now > e)"

definition NewBootstrapConfig :: BootstrapConfig where
  "NewBootstrapConfig =
     \<lparr> bcEnabled = True, bcDefaultExpiry = ''168h'', bcDefaultExpiryDuration = 0, bcTokens = [] \<rparr>"

section \<open>Token codes\<close>

text \<open>
  Four random bytes as eight hex digits and the millisecond clock modulo \<open>2 ^ 32\<close> as eight more.
  \<open>rnd\<close> is the value of the four bytes read big-endian.
\<close>

definition GenerateBootstrapTokenCode :: "nat option \<Rightarrow> nat \<Rightarrow> token_error + string" where
  "GenerateBootstrapTokenCode rnd now_ns =
     (case rnd of
        None \<Rightarrow> Inl RandomFailed
      | Some r \<Rightarrow>
          Inr (''TSK-BOOT-'' @ hex_digits 8 r @ ''-''
               @ hex_digits 8 (now_ns div 1000000 mod 0x100000000)))"

section \<open>The manager\<close>

definition findTokenByCodeLocked :: "string \<Rightarrow> BootstrapConfig \<Rightarrow> BootstrapToken option" where
  "findTokenByCodeLocked code cfg = find (\<lambda>t. tkCode t = code) (bcTokens cfg)"

text \<open>The pointer \<^verbatim>\<open>findTokenByCodeLocked\<close> returns is written through: the first match changes.\<close>

fun update_token :: "string \<Rightarrow> (BootstrapToken \<Rightarrow> BootstrapToken) \<Rightarrow> BootstrapToken list \<Rightarrow> BootstrapToken list" where
  "update_token code f [] = []"
| "update_token code f (t # ts) = (if tkCode t = code then f t # ts else t # update_token code f ts)"

datatype load_result = FileMissing | FileUnreadable | FileMalformed | FileParsed BootstrapConfig

definition LoadTokenConfig ::
    "(string \<Rightarrow> time option) \<Rightarrow> load_result \<Rightarrow> BootstrapConfig \<Rightarrow> (token_error + unit) \<times> BootstrapConfig" where
  "LoadTokenConfig parse_duration file cfg =
     (case file of
        FileMissing \<Rightarrow> (Inr (), NewBootstrapConfig)
      | FileUnreadable \<Rightarrow> (Inl ReadFailed, cfg)
      | FileMalformed \<Rightarrow> (Inl ParseFailed, cfg)
      | FileParsed c \<Rightarrow>
          if bcDefaultExpiry c \<noteq> [] then
            (case parse_duration (bcDefaultExpiry c) of
               None \<Rightarrow> (Inl InvalidDefaultExpiry, cfg)
             | Some d \<Rightarrow> (Inr (), c\<lparr>bcDefaultExpiryDuration := d\<rparr>))
          else (Inr (), c\<lparr>bcDefaultExpiryDuration := seconds (168 * 3600)\<rparr>))"

definition SetDefaultExpiryDuration :: "time \<Rightarrow> BootstrapConfig \<Rightarrow> BootstrapConfig" where
  "SetDefaultExpiryDuration d cfg = cfg\<lparr>bcDefaultExpiryDuration := d\<rparr>"

definition new_token :: "time \<Rightarrow> string \<Rightarrow> string \<Rightarrow> time option \<Rightarrow> BootstrapConfig \<Rightarrow> BootstrapToken" where
  "new_token now code cid expiresIn cfg =
     \<lparr> tkCode = code, tkConnectorID = cid, tkStatus = BootstrapTokenStatusValid, tkUsedAt = None,
       tkUsedBy = [], tkCreatedAt = now,
       tkExpiresAt =
         (case expiresIn of
            Some d \<Rightarrow> if d > 0 then Some (now + d)
                      else if bcDefaultExpiryDuration cfg > 0
                           then Some (now + bcDefaultExpiryDuration cfg) else None
          | None \<Rightarrow> if bcDefaultExpiryDuration cfg > 0
                    then Some (now + bcDefaultExpiryDuration cfg) else None) \<rparr>"

text \<open>
  Each attempt of the retry recursion reads the clock and draws a code; an attempt is the pair of
  the two.  Running out of the attempts that are supplied is \<open>None\<close>: the Go code would go on.
\<close>

fun GenerateToken ::
    "string \<Rightarrow> time option \<Rightarrow> bool \<Rightarrow> (time \<times> (token_error + string)) list \<Rightarrow> BootstrapConfig \<Rightarrow>
     ((token_error + BootstrapToken) \<times> BootstrapConfig) option" where
  "GenerateToken cid expiresIn save_ok [] cfg = None"
| "GenerateToken cid expiresIn save_ok ((now, draw) # attempts) cfg =
     (case draw of
        Inl e \<Rightarrow> Some (Inl e, cfg)
      | Inr code \<Rightarrow>
          if code \<in> tkCode ` set (bcTokens cfg)
          then GenerateToken cid expiresIn save_ok attempts cfg
          else let t = new_token now code cid expiresIn cfg;
                   cfg' = cfg\<lparr>bcTokens := bcTokens cfg @ [t]\<rparr>
               in Some (if save_ok then Inr t else Inl SaveFailed, cfg'))"

definition ValidateToken :: "time \<Rightarrow> string \<Rightarrow> string \<Rightarrow> BootstrapConfig \<Rightarrow> token_error + BootstrapToken" where
  "ValidateToken now code cid cfg =
     (if \<not> bcEnabled cfg then Inl ValidationDisabled
      else case find (\<lambda>t. tkCode t = code) (bcTokens cfg) of
        None \<Rightarrow> Inl TokenNotFound
      | Some t \<Rightarrow>
          if \<not> TokenIsValid now t then Inl TokenInvalid
          else if tkConnectorID t \<noteq> [] \<and> tkConnectorID t \<noteq> cid then Inl (BoundToOther (tkConnectorID t))
          else Inr t)"

definition MarkTokenUsed ::
    "time \<Rightarrow> bool \<Rightarrow> string \<Rightarrow> string \<Rightarrow> BootstrapConfig \<Rightarrow> (token_error + unit) \<times> BootstrapConfig" where
  "MarkTokenUsed now save_ok code usedBy cfg =
     (case findTokenByCodeLocked code cfg of
        None \<Rightarrow> (Inl TokenNotFound, cfg)
      | Some t \<Rightarrow>
          if \<not> TokenIsValid now t then (Inl TokenInvalid, cfg)
          else let cfg' = cfg\<lparr>bcTokens := update_token code
                     (\<lambda>t. t\<lparr>tkStatus := BootstrapTokenStatusUsed, tkUsedAt := Some now, tkUsedBy := usedBy\<rparr>)
                     (bcTokens cfg)\<rparr>
               in (if save_ok then Inr () else Inl SaveFailed, cfg'))"

definition ListTokens :: "BootstrapConfig \<Rightarrow> BootstrapToken list" where
  "ListTokens cfg = bcTokens cfg"

definition RevokeToken :: "bool \<Rightarrow> string \<Rightarrow> BootstrapConfig \<Rightarrow> (token_error + unit) \<times> BootstrapConfig" where
  "RevokeToken save_ok code cfg =
     (case findTokenByCodeLocked code cfg of
        None \<Rightarrow> (Inl TokenNotFound, cfg)
      | Some t \<Rightarrow>
          if tkStatus t = BootstrapTokenStatusUsed then (Inl TokenAlreadyUsed, cfg)
          else let cfg' = cfg\<lparr>bcTokens := update_token code
                     (\<lambda>t. t\<lparr>tkStatus := BootstrapTokenStatusRevoked, tkExpiresAt := None\<rparr>)
                     (bcTokens cfg)\<rparr>
               in (if save_ok then Inr () else Inl SaveFailed, cfg'))"

definition TokenIsEnabled :: "BootstrapConfig \<Rightarrow> bool" where
  "TokenIsEnabled cfg = bcEnabled cfg"

section \<open>Looking a token up after an operation\<close>

named_theorems token_simps \<open>lookups in updated token lists\<close>

definition code_kept :: "(BootstrapToken \<Rightarrow> BootstrapToken) \<Rightarrow> bool" where
  "code_kept f \<longleftrightarrow> (\<forall>t. tkCode (f t) = tkCode t)"

lemma find_update_token [token_simps]:
  "code_kept f \<Longrightarrow> find (\<lambda>t. tkCode t = c) (update_token code f ts) =
     (if c = code then map_option f (find (\<lambda>t. tkCode t = c) ts) else find (\<lambda>t. tkCode t = c) ts)"
  by (induction ts) (auto simp: code_kept_def)

lemma codes_update_token [token_simps]:
  "code_kept f \<Longrightarrow> map tkCode (update_token code f ts) = map tkCode ts"
  by (induction ts) (auto simp: code_kept_def)

lemma code_kept_used [simp]:
  "code_kept (\<lambda>t. t\<lparr>tkStatus := st, tkUsedAt := at, tkUsedBy := by\<rparr>)"
  "code_kept (\<lambda>t. t\<lparr>tkStatus := st, tkExpiresAt := ex\<rparr>)"
  by (simp_all add: code_kept_def)

declare find_append [token_simps]

lemma find_code: "find (\<lambda>t. tkCode t = c) ts = Some t \<Longrightarrow> tkCode t = c \<and> t \<in> set ts"
  by (induction ts) (auto split: if_splits)

lemma find_code_None: "c \<notin> tkCode ` set ts \<longleftrightarrow> find (\<lambda>t. tkCode t = c) ts = None"
  by (force simp: find_None_iff)

section \<open>The token machine\<close>

text \<open>
  The operations a running manager offers; \<^verbatim>\<open>LoadConfig\<close> runs once at start-up and gives the
  initial state.
\<close>

inductive tok_step :: "BootstrapConfig \<Rightarrow> BootstrapConfig \<Rightarrow> bool" where
  generate: "GenerateToken cid ex ok attempts cfg = Some (res, cfg') \<Longrightarrow> tok_step cfg cfg'"
| mark: "MarkTokenUsed now ok code by cfg = (res, cfg') \<Longrightarrow> tok_step cfg cfg'"
| revoke: "RevokeToken ok code cfg = (res, cfg') \<Longrightarrow> tok_step cfg cfg'"
| set_expiry: "tok_step cfg (SetDefaultExpiryDuration d cfg)"

lemma GenerateToken_outcome:
  "GenerateToken cid ex ok attempts cfg = Some (res, cfg') \<Longrightarrow>
     (\<exists>e. res = Inl e) \<and> cfg' = cfg \<or>
     (\<exists>now code. (now, Inr code) \<in> set attempts \<and> code \<notin> tkCode ` set (bcTokens cfg) \<and>
        cfg' = cfg\<lparr>bcTokens := bcTokens cfg @ [new_token now code cid ex cfg]\<rparr> \<and>
        res = (if ok then Inr (new_token now code cid ex cfg) else Inl SaveFailed))"
proof (induction attempts)
  case (Cons a attempts)
  then show ?case
    by (cases a; cases "snd a") (auto simp: Let_def split: if_splits)
qed simp

lemma GenerateToken_cases:
  assumes "GenerateToken cid ex ok attempts cfg = Some (res, cfg')"
  obtains (failed) e where "res = Inl e" "cfg' = cfg"
  | (added) now code where "(now, Inr code) \<in> set attempts" "code \<notin> tkCode ` set (bcTokens cfg)"
      "cfg' = cfg\<lparr>bcTokens := bcTokens cfg @ [new_token now code cid ex cfg]\<rparr>"
      "res = (if ok then Inr (new_token now code cid ex cfg) else Inl SaveFailed)"
  using GenerateToken_outcome [OF assms] by blast

definition codes_distinct :: "BootstrapConfig \<Rightarrow> bool" where
  "codes_distinct cfg \<longleftrightarrow> distinct (map tkCode (bcTokens cfg))"

definition spent :: "string \<Rightarrow> BootstrapConfig \<Rightarrow> bool" where
  "spent code cfg \<longleftrightarrow>
     (\<exists>t. findTokenByCodeLocked code cfg = Some t \<and>
        tkStatus t \<in> {BootstrapTokenStatusUsed, BootstrapTokenStatusRevoked})"

definition used_by :: "string \<Rightarrow> string \<Rightarrow> time \<Rightarrow> BootstrapConfig \<Rightarrow> bool" where
  "used_by code who at cfg \<longleftrightarrow>
     (\<exists>t. findTokenByCodeLocked code cfg = Some t \<and> tkStatus t = BootstrapTokenStatusUsed \<and>
        tkUsedBy t = who \<and> tkUsedAt t = Some at)"

lemmas token_ops = MarkTokenUsed_def RevokeToken_def findTokenByCodeLocked_def Let_def

lemma tok_step_distinct: "tok_step cfg cfg' \<Longrightarrow> codes_distinct cfg \<Longrightarrow> codes_distinct cfg'"
proof (induction rule: tok_step.induct)
  case (generate cid ex ok attempts cfg res cfg')
  from generate(1) show ?case
    by (cases rule: GenerateToken_cases)
      (use generate(2) in \<open>auto simp: codes_distinct_def new_token_def\<close>)
qed (auto simp: codes_distinct_def token_ops SetDefaultExpiryDuration_def token_simps
       split: option.splits if_splits)

interpretation tokens: invariant_system "\<lambda>cfg. bcTokens cfg = []" tok_step codes_distinct
proof unfold_locales
  show "bcTokens cfg = [] \<Longrightarrow> codes_distinct cfg" for cfg
    by (simp add: codes_distinct_def)
qed (rule tok_step_distinct)

text \<open>A token that is in the list stays findable, with the same status unless it is the target.\<close>

lemma find_after_generate:
  assumes "GenerateToken cid ex ok attempts cfg = Some (res, cfg')"
    and "findTokenByCodeLocked code cfg = Some t"
  shows "findTokenByCodeLocked code cfg' = Some t"
  using assms(1) by (cases rule: GenerateToken_cases)
    (use assms(2) in \<open>auto simp: findTokenByCodeLocked_def token_simps\<close>)

lemma tok_step_spent: "tok_step cfg cfg' \<Longrightarrow> spent code cfg \<Longrightarrow> spent code cfg'"
proof (induction rule: tok_step.induct)
  case (generate cid ex ok attempts cfg res cfg')
  then show ?case using find_after_generate by (fastforce simp: spent_def)
qed (auto simp: spent_def token_ops SetDefaultExpiryDuration_def token_simps TokenIsValid_def
       split: option.splits if_splits)

lemma tok_step_used_by: "tok_step cfg cfg' \<Longrightarrow> used_by code who at cfg \<Longrightarrow> used_by code who at cfg'"
proof (induction rule: tok_step.induct)
  case (generate cid ex ok attempts cfg res cfg')
  then show ?case using find_after_generate by (fastforce simp: used_by_def)
qed (auto simp: used_by_def token_ops SetDefaultExpiryDuration_def token_simps TokenIsValid_def
       split: option.splits if_splits)

interpretation spent: stable_under tok_step "spent code" for code
  by unfold_locales (rule tok_step_spent)

interpretation used: stable_under tok_step "used_by code who at" for code who at
  by unfold_locales (rule tok_step_used_by)

lemma spent_rejected:
  assumes "spent code cfg"
  shows "\<nexists>t. ValidateToken now code cid cfg = Inr t"
    and "\<exists>e. MarkTokenUsed now ok code by cfg = (Inl e, cfg)"
  using assms by (auto simp: spent_def ValidateToken_def token_ops TokenIsValid_def split: if_splits)

section \<open>Properties\<close>

text \<open>
  A registration token is one-time: once a connector has marked it used, in every later state
  of the manager the record keeps the first user and time, no connector can validate it again and
  every further attempt to mark it fails without changing anything; a used token cannot be revoked.
\<close>

theorem token_used_once:
  assumes "MarkTokenUsed now ok code who cfg = (Inr (), cfg1)" and "tok_step\<^sup>*\<^sup>* cfg1 cfg2"
  shows "used_by code who now cfg2
    \<and> (\<forall>t' cid tok. ValidateToken t' code cid cfg2 \<noteq> Inr tok)
    \<and> (\<forall>t' ok' who'. \<exists>e. MarkTokenUsed t' ok' code who' cfg2 = (Inl e, cfg2))
    \<and> (\<forall>ok'. RevokeToken ok' code cfg2 = (Inl TokenAlreadyUsed, cfg2))"
proof -
  have "used_by code who now cfg1"
    using assms(1)
    by (auto simp: used_by_def token_ops token_simps split: option.splits if_splits)
  then have u: "used_by code who now cfg2"
    using assms(2) by (rule used.stable_run [rotated])
  then have sp: "spent code cfg2"
    by (auto simp: used_by_def spent_def)
  have "RevokeToken ok' code cfg2 = (Inl TokenAlreadyUsed, cfg2)" for ok'
    using u by (auto simp: used_by_def RevokeToken_def)
  then show ?thesis
    using u spent_rejected [OF sp] by blast
qed

definition demo_token :: BootstrapToken where
  "demo_token = \<lparr> tkCode = ''T1'', tkConnectorID = ''c1'', tkStatus = BootstrapTokenStatusValid,
     tkUsedAt = None, tkUsedBy = [], tkCreatedAt = 0, tkExpiresAt = Some 10 \<rparr>"

definition demo_config :: BootstrapConfig where
  "demo_config = NewBootstrapConfig\<lparr>bcTokens := [demo_token]\<rparr>"

theorem token_used_once_witness:
  "used_by ''T1'' ''c1'' 5 (snd (MarkTokenUsed 5 True ''T1'' ''c1'' demo_config))"
proof -
  have "MarkTokenUsed 5 True ''T1'' ''c1'' demo_config =
      (Inr (), snd (MarkTokenUsed 5 True ''T1'' ''c1'' demo_config))"
    by (simp add: token_ops TokenIsValid_def demo_config_def demo_token_def)
  then show ?thesis using token_used_once by blast
qed

text \<open>
  Validation is sound and complete: it returns a token exactly when validation is enabled, the
  first token with that code has status valid and has not expired, and it is unbound or bound to
  the requesting connector.  Generation keeps codes distinct, so that token is the only one.
\<close>

theorem validate_iff:
  "ValidateToken now code cid cfg = Inr t \<longleftrightarrow>
     bcEnabled cfg \<and> findTokenByCodeLocked code cfg = Some t \<and>
     tkStatus t = BootstrapTokenStatusValid \<and>
     (\<forall>e. tkExpiresAt t = Some e \<longrightarrow> now \<le> e) \<and>
     (tkConnectorID t = [] \<or> tkConnectorID t = cid)"
  by (auto simp: ValidateToken_def findTokenByCodeLocked_def TokenIsValid_def
      split: option.splits if_splits)

theorem validate_iff_witness:
  "ValidateToken 5 ''T1'' ''c1'' demo_config = Inr demo_token"
  using validate_iff [of 5 "''T1''" "''c1''" demo_config demo_token]
  by (simp add: demo_config_def demo_token_def NewBootstrapConfig_def findTokenByCodeLocked_def)

lemma GenerateToken_returns:
  assumes "\<forall>a \<in> set attempts. \<exists>c. snd a = Inr c"
    and "\<exists>now c. (now, Inr c) \<in> set attempts \<and> c \<notin> tkCode ` set (bcTokens cfg)"
  shows "\<exists>now code. code \<notin> tkCode ` set (bcTokens cfg) \<and>
     GenerateToken cid ex True attempts cfg =
       Some (Inr (new_token now code cid ex cfg),
             cfg\<lparr>bcTokens := bcTokens cfg @ [new_token now code cid ex cfg]\<rparr>)"
  using assms
proof (induction attempts)
  case (Cons a attempts)
  obtain now c where a: "a = (now, Inr c)"
    using Cons.prems(1) by (cases a) auto
  show ?case
  proof (cases "c \<in> tkCode ` set (bcTokens cfg)")
    case True
    then have "\<exists>now c. (now, Inr c) \<in> set attempts \<and> c \<notin> tkCode ` set (bcTokens cfg)"
      using Cons.prems(2) a by auto
    then obtain now' code where "code \<notin> tkCode ` set (bcTokens cfg)" and
      "GenerateToken cid ex True attempts cfg = Some (Inr (new_token now' code cid ex cfg),
         cfg\<lparr>bcTokens := bcTokens cfg @ [new_token now' code cid ex cfg]\<rparr>)"
      using Cons.IH Cons.prems(1) by auto
    then show ?thesis using True by (intro exI [of _ now'] exI [of _ code]) (simp add: a)
  next
    case False
    then show ?thesis using a by (auto simp: Let_def)
  qed
qed simp

text \<open>
  C39. Generating a token returns as soon as one of the attempts draws a code not in the list and
  no draw fails; the token it returns is bound to the connector, is stored, validates for it at
  that time while validation is enabled, and the codes stay pairwise distinct.
\<close>

theorem generate_token_returns:
  assumes "codes_distinct cfg" and "\<forall>a \<in> set attempts. \<exists>c. snd a = Inr c"
    and "\<exists>now c. (now, Inr c) \<in> set attempts \<and> c \<notin> tkCode ` set (bcTokens cfg)"
  shows "\<exists>t cfg'. GenerateToken cid ex True attempts cfg = Some (Inr t, cfg') \<and>
      tkConnectorID t = cid \<and> t \<in> set (ListTokens cfg') \<and> codes_distinct cfg' \<and>
      (bcEnabled cfg \<longrightarrow> ValidateToken (tkCreatedAt t) (tkCode t) cid cfg' = Inr t)"
proof -
  obtain now code where fresh: "code \<notin> tkCode ` set (bcTokens cfg)"
    and g: "GenerateToken cid ex True attempts cfg =
       Some (Inr (new_token now code cid ex cfg),
             cfg\<lparr>bcTokens := bcTokens cfg @ [new_token now code cid ex cfg]\<rparr>)"
    using GenerateToken_returns [OF assms(2,3)] by blast
  define t where "t = new_token now code cid ex cfg"
  define cfg' where "cfg' = cfg\<lparr>bcTokens := bcTokens cfg @ [t]\<rparr>"
  have valid: "TokenIsValid now t"
    by (simp add: t_def new_token_def TokenIsValid_def split: option.split)
  have fields: "tkConnectorID t = cid" "tkCode t = code" "tkCreatedAt t = now"
    by (simp_all add: t_def new_token_def)
  have "find (\<lambda>t. tkCode t = code) (bcTokens cfg') = Some t"
    using fresh fields by (simp add: cfg'_def find_code_None token_simps)
  then have "bcEnabled cfg \<longrightarrow> ValidateToken (tkCreatedAt t) (tkCode t) cid cfg' = Inr t"
    using fields valid by (simp add: ValidateToken_def cfg'_def)
  moreover have "codes_distinct cfg'"
    using tok_step_distinct [OF tok_step.generate [OF g] assms(1)] by (simp add: cfg'_def t_def)
  moreover have "t \<in> set (ListTokens cfg')"
    by (simp add: ListTokens_def cfg'_def)
  ultimately show ?thesis
    using g fields(1) unfolding cfg'_def t_def by blast
qed

theorem generate_token_returns_witness:
  "\<exists>t cfg'. GenerateToken ''c2'' None True [(3, Inr ''T1''), (4, Inr ''T2'')] demo_config = Some (Inr t, cfg')
     \<and> tkConnectorID t = ''c2''"
proof -
  let ?as = "[(3, Inr ''T1''), (4, Inr ''T2'')] :: (time \<times> (token_error + string)) list"
  have "(4, Inr ''T2'') \<in> set ?as \<and> ''T2'' \<notin> tkCode ` set (bcTokens demo_config)"
    by (simp add: demo_config_def demo_token_def)
  then have fresh: "\<exists>now c. (now, Inr c) \<in> set ?as \<and> c \<notin> tkCode ` set (bcTokens demo_config)"
    by blast
  have draws: "\<forall>a \<in> set ?as. \<exists>c. snd a = Inr c" by simp
  have "codes_distinct demo_config"
    by (simp add: codes_distinct_def demo_config_def)
  from generate_token_returns [OF this draws fresh, of "''c2''" None] show ?thesis by blast
qed

text \<open>
  Two generated codes are equal only if the four random bytes and the millisecond clocks
  modulo \<open>2 ^ 32\<close> are equal, and a code has 26 characters.
\<close>

theorem token_code_unique:
  assumes "GenerateBootstrapTokenCode (Some r) t = Inr c" and "GenerateBootstrapTokenCode (Some r') t' = Inr c'"
    and "r < 2 ^ 32" and "r' < 2 ^ 32"
  shows "(c = c' \<longleftrightarrow> r = r' \<and> t div 1000000 mod 2 ^ 32 = t' div 1000000 mod 2 ^ 32) \<and> length c = 26"
proof -
  let ?hex = "hex_digits 8" and ?ms = "\<lambda>t. t div 1000000 mod 2 ^ 32 :: nat"
  have c: "c = ''TSK-BOOT-'' @ ?hex r @ ''-'' @ ?hex (?ms t)"
    and c': "c' = ''TSK-BOOT-'' @ ?hex r' @ ''-'' @ ?hex (?ms t')"
    using assms(1,2) by (simp_all add: GenerateBootstrapTokenCode_def)
  have pow: "(16 :: nat) ^ 8 = 2 ^ 32" by simp
  have "c = c' \<longleftrightarrow> ?hex r = ?hex r' \<and> ?hex (?ms t) = ?hex (?ms t')"
    unfolding c c' by simp
  also have "\<dots> \<longleftrightarrow> r = r' \<and> ?ms t = ?ms t'"
    unfolding hex_digits_inject pow using assms(3,4) by simp
  finally show ?thesis by (simp add: c)
qed

theorem token_code_unique_witness:
  "length (case GenerateBootstrapTokenCode (Some 1) 7 of Inr c \<Rightarrow> c) = 26"
  using token_code_unique [of 1 7 "case GenerateBootstrapTokenCode (Some 1) 7 of Inr c \<Rightarrow> c" 1 7]
  by (simp add: GenerateBootstrapTokenCode_def)

text \<open>
  Without a token file the seven-day default does not apply: the default configuration leaves
  the parsed duration at zero, so a token generated without an explicit lifetime never expires.
\<close>

theorem default_config_never_expires:
  assumes "LoadTokenConfig parse FileMissing cfg0 = (Inr (), cfg)"
    and "GenerateToken cid None ok attempts cfg = Some (Inr t, cfg')"
  shows "tkExpiresAt t = None \<and> (\<forall>now. TokenIsValid now t)"
proof -
  have cfg: "cfg = NewBootstrapConfig"
    using assms(1) by (simp add: LoadTokenConfig_def)
  from assms(2) show ?thesis
    by (cases rule: GenerateToken_cases)
      (auto simp: cfg NewBootstrapConfig_def new_token_def TokenIsValid_def split: if_splits)
qed

theorem default_config_never_expires_witness:
  "TokenIsValid (seconds 100000000) (new_token 0 ''T'' ''c'' None NewBootstrapConfig)"
  using default_config_never_expires
    [of "\<lambda>_. None" demo_config NewBootstrapConfig "''c''" True "[(0, Inr ''T'')]"
      "new_token 0 ''T'' ''c'' None NewBootstrapConfig"]
  by (simp add: LoadTokenConfig_def Let_def NewBootstrapConfig_def)

end
