(* ===== verification/Channel_Types.thy ===== *)
theory Channel_Types
  imports Kernel_Prelude
begin

text \<open>
  The data of \<^verbatim>\<open>kernel/circulation/channel_manager.go\<close>: channels, proposals, packets, permission
  requests and the manager, and the role checks of a channel (\<^verbatim>\<open>IsParticipant\<close>, \<^verbatim>\<open>CanSend\<close>,
  \<^verbatim>\<open>CanReceive\<close>, \<^verbatim>\<open>IsSender\<close>).

  Go channels are lists of what they hold: \<open>chQueue\<close> is the 1000-slot \<^verbatim>\<open>dataQueue\<close> with a flag for
  \<^verbatim>\<open>close\<close>, \<open>chSubscribers\<close> maps a subscriber to the contents of its 100-slot channel.
  \<open>chPermLocked\<close> is the state of the mutex \<^verbatim>\<open>permissionMu\<close> between two calls; the other mutexes are
  released by \<^verbatim>\<open>defer\<close> on every path and only make the calls atomic.  \<open>chDistributors\<close> counts the
  \<^verbatim>\<open>startDataDistribution\<close> goroutines started for the channel.  What a call does outside the
  channel and the manager is a list of \<open>effect\<close>s.
\<close>

section \<open>Enumerations\<close>

type_synonym channel_status = string

definition ChannelStatusProposed :: channel_status where
  "ChannelStatusProposed = ''proposed''"

definition ChannelStatusActive :: channel_status where
  "ChannelStatusActive = ''active''"

definition ChannelStatusClosed :: channel_status where
  "ChannelStatusClosed = ''closed''"

lemmas channel_status_defs =
  ChannelStatusProposed_def ChannelStatusActive_def ChannelStatusClosed_def

lemma channel_status_distinct [simp]:
  "ChannelStatusProposed \<noteq> ChannelStatusActive" "ChannelStatusActive \<noteq> ChannelStatusProposed"
  "ChannelStatusProposed \<noteq> ChannelStatusClosed" "ChannelStatusClosed \<noteq> ChannelStatusProposed"
  "ChannelStatusActive \<noteq> ChannelStatusClosed" "ChannelStatusClosed \<noteq> ChannelStatusActive"
  by (simp_all add: channel_status_defs)

datatype NegotiationStatus =
  NegotiationStatusProposed | NegotiationStatusAccepted | NegotiationStatusRejected

type_synonym message_type = string

definition MessageTypeData :: message_type where
  "MessageTypeData = ''data''"

definition MessageTypeControl :: message_type where
  "MessageTypeControl = ''control''"

definition MessageTypeEvidence :: message_type where
  "MessageTypeEvidence = ''evidence''"

definition MessageTypeAck :: message_type where
  "MessageTypeAck = ''ack''"

lemmas message_type_defs =
  MessageTypeData_def MessageTypeControl_def MessageTypeEvidence_def MessageTypeAck_def

type_synonym evidence_mode = string
type_synonym evidence_strategy = string

definition EvidenceModeNone :: evidence_mode where
  "EvidenceModeNone = ''none''"

definition EvidenceModeInternal :: evidence_mode where
  "EvidenceModeInternal = ''internal''"

definition EvidenceStrategyAll :: evidence_strategy where
  "EvidenceStrategyAll = ''all''"

datatype ConnectorOnlineStatus =
  ConnectorStatusUnknown | ConnectorStatusOnline | ConnectorStatusGone

section \<open>Records\<close>

record ChannelProposal =
  prProposalID :: string
  prStatus :: NegotiationStatus
  prReason :: string
  prTimeoutSeconds :: int
  prCreatedAt :: time
  prSenderIDs :: "string list"
  prReceiverIDs :: "string list"
  prApproverID :: string
  prSenderApprovals :: "bool gomap"
  prReceiverApprovals :: "bool gomap"

record EvidenceConfig =
  ecMode :: evidence_mode
  ecStrategy :: evidence_strategy
  ecRetentionDays :: int
  ecCompressData :: bool

text \<open>
  \<open>dpAfterSent\<close> names the callback \<^verbatim>\<open>AfterSent func()\<close> when there is one.
\<close>

record DataPacket =
  dpChannelID :: string
  dpSequenceNumber :: int
  dpPayload :: string
  dpSignature :: string
  dpTimestamp :: int
  dpSenderID :: string
  dpSenderKernelID :: string
  dpTargetIDs :: "string list"
  dpMessageType :: message_type
  dpFlowID :: string
  dpIsFinal :: bool
  dpDataHash :: string
  dpIsAck :: bool
  dpAckEvidenceRecorded :: bool
  dpAfterSent :: "nat option"

record PermissionChangeRequest =
  rqRequestID :: string
  rqRequesterID :: string
  rqChannelID :: string
  rqChangeType :: string
  rqTargetID :: string
  rqReason :: string
  rqStatus :: string
  rqCreatedAt :: time
  rqApprovedAt :: "time option"
  rqApprovedBy :: string
  rqRejectedAt :: "time option"
  rqRejectedBy :: string
  rqRejectReason :: string

record Channel =
  chID :: string
  chName :: string
  chCreatorID :: string
  chApproverID :: string
  chSenderIDs :: "string list"
  chReceiverIDs :: "string list"
  chEncrypted :: bool
  chDataTopic :: string
  chStatus :: channel_status
  chCreatedAt :: time
  chClosedAt :: "time option"
  chLastActivity :: time
  chEvidenceConfig :: "EvidenceConfig option"
  chConfigFilePath :: string
  chProposal :: "ChannelProposal option"
  chQueue :: "DataPacket list"
  chQueueClosed :: bool
  chDistributors :: nat
  chSubscribers :: "DataPacket list gomap"
  chBuffer :: "DataPacket list"
  chMaxBufferSize :: nat
  chCurrentFlowID :: string
  chRequests :: "PermissionChangeRequest list"
  chPermLocked :: bool
  chRemoteReceivers :: "string gomap"

text \<open>
  The callbacks of the manager are fields: \<open>cmForward\<close> says whether \<^verbatim>\<open>forwardToKernel\<close> is set (its
  calls are effects), the two routing callbacks are functions that return the kernel of the hop.
\<close>

record ChannelManager =
  cmChannels :: "Channel gomap"
  cmConnectorStatus :: "ConnectorOnlineStatus gomap"
  cmConnectorBuffers :: "DataPacket list gomap"
  cmLastActivity :: "time gomap"
  cmHasConfigManager :: bool
  cmDefaultEvidence :: EvidenceConfig
  cmForward :: bool
  cmPermissionCallback :: bool
  cmUpdateCallback :: bool
  cmNextHop :: "(string \<Rightarrow> string \<Rightarrow> string option) option"
  cmPreviousHop :: "(string \<Rightarrow> string option) option"
  cmKernelID :: string

datatype effect =
  Forward string DataPacket bool
| CallAfterSent nat
| PermissionChanged string string string
| ChannelUpdateNotify string "string list"

datatype channel_error =
  EmptyChannelID | EmptyCreatorID | MissingParticipants | NoSenders | NoReceivers
| ChannelExists string | EmptySenderID | DuplicateSenderID string
| EmptyReceiverID | ReceiverConflicts string | ChannelNotFound | ProposalNotFound | ProposalExpired
| OnlyParticipantsAccept | OnlyParticipantsReject | NotProposed | AlreadyClosed
| PanicCloseOfClosedChannel | PanicSendOnClosedChannel | NotActive | SenderNotAuthorized string
| SubscriberNotAuthorized string | AlreadySubscribed | PushTimeout | BufferFull nat
| ForwardNotConfigured | ConfigReadFailed | ConfigParseFailed | ConfigNameMissing

definition NewChannelManager :: "EvidenceConfig \<Rightarrow> ChannelManager" where
  "NewChannelManager dflt =
     \<lparr> cmChannels = [], cmConnectorStatus = [], cmConnectorBuffers = [], cmLastActivity = [],
       cmHasConfigManager = False, cmDefaultEvidence = dflt, cmForward = False,
       cmPermissionCallback = False, cmUpdateCallback = False, cmNextHop = None,
       cmPreviousHop = None, cmKernelID = [] \<rparr>"

section \<open>Roles\<close>

text \<open>\<^verbatim>\<open>strings.HasSuffix(id, ":"+creatorID)\<close> or equality: the creator under either spelling.\<close>

definition is_self :: "string \<Rightarrow> string \<Rightarrow> bool" where
  "is_self creator i \<longleftrightarrow> i = creator \<or> suffix (CHR '':'' # creator) i"

text \<open>The part before the last colon, as \<^verbatim>\<open>connectorID[:idx]\<close> takes it.\<close>

definition last_kernel :: "string \<Rightarrow> string" where
  "last_kernel s = (if has_colon s then take (length s - length (raw_id s) - 1) s else [])"

definition IsParticipant :: "Channel \<Rightarrow> string \<Rightarrow> bool" where
  "IsParticipant c cid \<longleftrightarrow>
     list_ex (\<lambda>s. cid = raw_id s) (chSenderIDs c) \<or> list_ex (\<lambda>r. cid = raw_id r) (chReceiverIDs c)"

definition GetParticipants :: "Channel \<Rightarrow> string list" where
  "GetParticipants c = chSenderIDs c @ chReceiverIDs c"

definition can_send_as :: "string \<Rightarrow> string \<Rightarrow> bool" where
  "can_send_as cid s =
     (if cid = s then True
      else if has_colon s then
        raw_id cid = raw_id s \<or> cid = s \<or>
        (last_kernel cid \<noteq> [] \<and> last_kernel cid = last_kernel s \<and> raw_id cid = raw_id s)
      else raw_id cid = s)"

definition CanSend :: "Channel \<Rightarrow> string \<Rightarrow> bool" where
  "CanSend c cid \<longleftrightarrow> list_ex (can_send_as cid) (chSenderIDs c)"

definition can_receive_as :: "string \<Rightarrow> string \<Rightarrow> bool" where
  "can_receive_as cid r \<longleftrightarrow>
     cid = r \<or> (has_colon r \<and> raw_id cid = raw_id r) \<or> raw_id cid = r"

definition CanReceive :: "Channel \<Rightarrow> string \<Rightarrow> bool" where
  "CanReceive c cid \<longleftrightarrow> list_ex (can_receive_as cid) (chReceiverIDs c)"

definition IsSender :: "Channel \<Rightarrow> string \<Rightarrow> bool" where
  "IsSender c cid \<longleftrightarrow> list_ex (can_receive_as cid) (chSenderIDs c)"

text \<open>
  All of them compare bare names: the kernel qualifier decides nothing.  (\<open>can_receive_as\<close> is the
  test both \<^verbatim>\<open>CanReceive\<close> and \<^verbatim>\<open>IsSender\<close> apply to an entry.)
\<close>

lemma can_send_as_raw: "can_send_as cid s \<longleftrightarrow> raw_id cid = raw_id s"
  by (auto simp: can_send_as_def raw_id_bare)

lemma can_receive_as_raw: "can_receive_as cid r \<longleftrightarrow> raw_id cid = raw_id r"
  by (cases "has_colon r") (auto simp: can_receive_as_def raw_id_bare)

lemma CanSend_raw: "CanSend c cid \<longleftrightarrow> raw_id cid \<in> raw_id ` set (chSenderIDs c)"
  by (auto simp: CanSend_def can_send_as_raw list_ex_iff)

lemma CanReceive_raw: "CanReceive c cid \<longleftrightarrow> raw_id cid \<in> raw_id ` set (chReceiverIDs c)"
  by (auto simp: CanReceive_def can_receive_as_raw list_ex_iff)

lemma IsSender_raw: "IsSender c cid \<longleftrightarrow> raw_id cid \<in> raw_id ` set (chSenderIDs c)"
  by (auto simp: IsSender_def can_receive_as_raw list_ex_iff)

lemma IsParticipant_raw:
  "IsParticipant c cid \<longleftrightarrow> cid \<in> raw_id ` set (GetParticipants c)"
  by (auto simp: IsParticipant_def GetParticipants_def list_ex_iff)

lemmas role_raw = CanSend_raw CanReceive_raw IsSender_raw IsParticipant_raw

section \<open>Small operations on a channel\<close>

definition SetRemoteReceiver :: "string \<Rightarrow> string \<Rightarrow> Channel \<Rightarrow> Channel" where
  "SetRemoteReceiver cid kid c = c\<lparr>chRemoteReceivers := go_put cid kid (chRemoteReceivers c)\<rparr>"

definition GetRemoteKernelID :: "string \<Rightarrow> Channel \<Rightarrow> string option" where
  "GetRemoteKernelID cid c = go_get (chRemoteReceivers c) cid"

definition SetCurrentFlowID :: "string \<Rightarrow> Channel \<Rightarrow> Channel" where
  "SetCurrentFlowID flow c = c\<lparr>chCurrentFlowID := flow\<rparr>"

definition GetCurrentFlowID :: "Channel \<Rightarrow> string" where
  "GetCurrentFlowID c = chCurrentFlowID c"

definition GetOriginKernelID :: "Channel \<Rightarrow> string" where
  "GetOriginKernelID c =
     (case find has_colon (chSenderIDs c) of None \<Rightarrow> [] | Some s \<Rightarrow> kernel_part s)"

definition GetSubscriberCount :: "Channel \<Rightarrow> nat" where
  "GetSubscriberCount c = length (chSubscribers c)"

definition IsSubscribed :: "Channel \<Rightarrow> string \<Rightarrow> bool" where
  "IsSubscribed c sid \<longleftrightarrow> go_get (chSubscribers c) sid \<noteq> None"

section \<open>Properties\<close>

text \<open>
  Authorisation compares bare connector names only: sending, receiving and the sender test
  give the same answer for a connector of any kernel, so a connector of one kernel is authorised
  whenever a connector with the same name of another kernel is.
\<close>

theorem roles_ignore_kernel:
  assumes "\<not> has_colon x"
  shows "CanSend c (qualify k x) = CanSend c (qualify k' x)
    \<and> CanSend c (qualify k x) = IsSender c x \<and> CanReceive c (qualify k x) = CanReceive c x
    \<and> (qualify k' x \<in> set (chSenderIDs c) \<longrightarrow> CanSend c (qualify k x))
    \<and> (IsParticipant c x \<longleftrightarrow> CanSend c x \<or> CanReceive c x)"
  using assms by (force simp: role_raw GetParticipants_def id_simps)

definition empty_channel :: Channel where
  "empty_channel =
     \<lparr> chID = ''ch'', chName = [], chCreatorID = ''a'', chApproverID = ''a'', chSenderIDs = [],
       chReceiverIDs = [], chEncrypted = False, chDataTopic = [], chStatus = ChannelStatusActive,
       chCreatedAt = 0, chClosedAt = None, chLastActivity = 0, chEvidenceConfig = None,
       chConfigFilePath = [], chProposal = None, chQueue = [], chQueueClosed = False,
       chDistributors = 1, chSubscribers = [], chBuffer = [], chMaxBufferSize = 10000,
       chCurrentFlowID = [], chRequests = [], chPermLocked = False, chRemoteReceivers = [] \<rparr>"

theorem roles_ignore_kernel_witness:
  "CanSend (empty_channel\<lparr>chSenderIDs := [qualify ''k1'' ''a'']\<rparr>) (qualify ''k2'' ''a'')"
proof -
  let ?c = "empty_channel\<lparr>chSenderIDs := [qualify ''k1'' ''a'']\<rparr>"
  have "\<not> has_colon ''a''" and "qualify ''k1'' ''a'' \<in> set (chSenderIDs ?c)"
    by (simp_all add: has_colon_def)
  then show ?thesis
    using roles_ignore_kernel [of "''a''" ?c "''k2''" "''k1''"] by blast
qed

end
