(* ===== verification/Channel_Negotiation.thy ===== *)
theory Channel_Negotiation
  imports Channel_Types
begin

text \<open>
  Creating, negotiating, closing and cleaning up channels: the \<^verbatim>\<open>ChannelManager\<close> methods of
  \<^verbatim>\<open>kernel/circulation/channel_manager.go\<close> from \<^verbatim>\<open>CreateChannelWithID\<close> to
  \<^verbatim>\<open>CleanupInactiveChannels\<close>.  UUIDs are arguments.  \<open>neg_step\<close> is the machine of these methods;
  \<open>neg_ok\<close> is its invariant.
\<close>

section \<open>Building a channel\<close>

definition init_approvals :: "string \<Rightarrow> string list \<Rightarrow> bool gomap" where
  "init_approvals creator ids =
     foldl (\<lambda>m i. if is_self creator i then go_put i True m else m)
       (foldl (\<lambda>m i. go_put i False m) [] ids) ids"

definition add_remote :: "string \<Rightarrow> string list \<Rightarrow> string gomap \<Rightarrow> string gomap" where
  "add_remote kid ids m =
     foldl (\<lambda>m i. if has_colon i \<and> kernel_part i \<noteq> kid
                  then go_put (connector_part i) (kernel_part i) m else m) m ids"

fun check_sender_ids :: "string list \<Rightarrow> string list \<Rightarrow> channel_error + string list" where
  "check_sender_ids seen [] = Inr seen"
| "check_sender_ids seen (i # ids) =
     (if i = [] then Inl EmptySenderID
      else if i \<in> set seen then Inl (DuplicateSenderID i)
      else check_sender_ids (i # seen) ids)"

fun check_receiver_ids :: "string list \<Rightarrow> string list \<Rightarrow> channel_error + string list" where
  "check_receiver_ids seen [] = Inr seen"
| "check_receiver_ids seen (i # ids) =
     (if i = [] then Inl EmptyReceiverID
      else if i \<in> set seen then Inl (ReceiverConflicts i)
      else check_receiver_ids (i # seen) ids)"

definition check_participants :: "string \<Rightarrow> string list \<Rightarrow> string list \<Rightarrow> channel_error option" where
  "check_participants creator senders receivers =
     (if creator = [] then Some EmptyCreatorID
      else if senders = [] then Some NoSenders
      else if receivers = [] then Some NoReceivers
      else case check_sender_ids [] senders of
        Inl e \<Rightarrow> Some e
      | Inr seen \<Rightarrow> (case check_receiver_ids seen receivers of Inl e \<Rightarrow> Some e | Inr _ \<Rightarrow> None))"

text \<open>The fields every constructor sets in the same way.\<close>

definition fresh_channel ::
    "time \<Rightarrow> string \<Rightarrow> string \<Rightarrow> string \<Rightarrow> string list \<Rightarrow> string list \<Rightarrow> string \<Rightarrow> bool \<Rightarrow>
     EvidenceConfig option \<Rightarrow> string \<Rightarrow> channel_status \<Rightarrow> Channel" where
  "fresh_channel now cid creator approver senders receivers topic encrypted ev path st =
     \<lparr> chID = cid, chName = [], chCreatorID = creator, chApproverID = approver,
       chSenderIDs = senders, chReceiverIDs = receivers, chEncrypted = encrypted,
       chDataTopic = topic, chStatus = st, chCreatedAt = now, chClosedAt = None,
       chLastActivity = now, chEvidenceConfig = ev, chConfigFilePath = path, chProposal = None,
       chQueue = [], chQueueClosed = False, chDistributors = 0, chSubscribers = [], chBuffer = [],
       chMaxBufferSize = 10000, chCurrentFlowID = [], chRequests = [], chPermLocked = False,
       chRemoteReceivers = [] \<rparr>"

definition new_proposal ::
    "time \<Rightarrow> string \<Rightarrow> string \<Rightarrow> string \<Rightarrow> string list \<Rightarrow> string list \<Rightarrow> string \<Rightarrow> int \<Rightarrow> ChannelProposal" where
  "new_proposal now pid creator approver senders receivers reason timeout =
     \<lparr> prProposalID = pid, prStatus = NegotiationStatusProposed, prReason = reason,
       prTimeoutSeconds = timeout, prCreatedAt = now, prSenderIDs = senders,
       prReceiverIDs = receivers, prApproverID = approver,
       prSenderApprovals = init_approvals creator senders,
       prReceiverApprovals = init_approvals creator receivers \<rparr>"

definition CreateChannelWithID ::
    "time \<Rightarrow> string \<Rightarrow> string \<Rightarrow> string \<Rightarrow> string \<Rightarrow> string list \<Rightarrow> string list \<Rightarrow> string \<Rightarrow> bool \<Rightarrow>
     EvidenceConfig option \<Rightarrow> string \<Rightarrow> ChannelManager \<Rightarrow> (channel_error + Channel) \<times> ChannelManager" where
  "CreateChannelWithID now pid cid creator approver senders receivers topic encrypted ev path cm =
     (if cid = [] then (Inl EmptyChannelID, cm)
      else if creator = [] then (Inl EmptyCreatorID, cm)
      else if senders = [] \<or> receivers = [] then (Inl MissingParticipants, cm)
      else if go_get (cmChannels cm) cid \<noteq> None then (Inl (ChannelExists cid), cm)
      else let c = (fresh_channel now cid creator approver senders receivers topic encrypted ev path
                      ChannelStatusProposed)
                   \<lparr> chProposal := Some (new_proposal now pid creator approver senders receivers [] 300),
                     chRemoteReceivers := add_remote (cmKernelID cm) receivers
                                            (add_remote (cmKernelID cm) senders []) \<rparr>
           in (Inr c, cm\<lparr>cmChannels := go_put cid c (cmChannels cm)\<rparr>))"

definition ProposeChannel ::
    "time \<Rightarrow> string \<Rightarrow> string \<Rightarrow> string \<Rightarrow> string \<Rightarrow> string list \<Rightarrow> string list \<Rightarrow> string \<Rightarrow> bool \<Rightarrow>
     EvidenceConfig option \<Rightarrow> string \<Rightarrow> string \<Rightarrow> int \<Rightarrow> ChannelManager \<Rightarrow>
     (channel_error + Channel) \<times> ChannelManager" where
  "ProposeChannel now cid pid creator approver senders receivers topic encrypted ev path reason timeout cm =
     (case check_participants creator senders receivers of
        Some e \<Rightarrow> (Inl e, cm)
      | None \<Rightarrow>
          let timeout' = (if timeout \<le> 0 then 300 else timeout);
              c = (fresh_channel now cid creator approver senders receivers topic encrypted ev path
                     ChannelStatusProposed)
                  \<lparr> chProposal := Some (new_proposal now pid creator approver senders receivers
                                          reason timeout') \<rparr>
          in (Inr c, cm\<lparr>cmChannels := go_put cid c (cmChannels cm)\<rparr>))"

section \<open>Accepting and rejecting\<close>

definition proposal_expired :: "time \<Rightarrow> ChannelProposal \<Rightarrow> bool" where
  "proposal_expired now p \<longleftrightarrow> now - prCreatedAt p > seconds (prTimeoutSeconds p)"

definition candidate_ids :: "string \<Rightarrow> Channel \<Rightarrow> string \<Rightarrow> string list" where
  "candidate_ids kid c accepter =
     (let actual = raw_id accepter;
          c1 = accepter # (if actual \<noteq> accepter then [actual] else []);
          c2 = c1 @ (case go_get (chRemoteReceivers c) actual of
                       None \<Rightarrow> [] | Some k \<Rightarrow> [qualify k actual]);
          local = qualify kid actual
      in if kid \<noteq> [] \<and> \<not> has_colon accepter then
           (if local \<in> set c2 then c2 else c2 @ [local])
         else c2)"

definition approve_all :: "string list \<Rightarrow> bool gomap \<Rightarrow> bool gomap" where
  "approve_all cids m = foldl (\<lambda>m i. if go_get m i \<noteq> None then go_put i True m else m) m cids"

definition has_remote_participants :: "Channel \<Rightarrow> bool" where
  "has_remote_participants c \<longleftrightarrow>
     list_ex has_colon (chSenderIDs c) \<or> list_ex has_colon (chReceiverIDs c)"

definition all_approved :: "Channel \<Rightarrow> ChannelProposal \<Rightarrow> bool" where
  "all_approved c p =
     (if has_remote_participants c then
        list_all snd (prSenderApprovals p) \<and> list_all snd (prReceiverApprovals p)
      else
        list_all (\<lambda>(i, ok). has_colon i \<or> ok) (prSenderApprovals p) \<and>
        list_all (\<lambda>(i, ok). has_colon i \<or> ok) (prReceiverApprovals p))"

definition put_channel :: "string \<Rightarrow> Channel \<Rightarrow> ChannelManager \<Rightarrow> ChannelManager" where
  "put_channel k c cm = cm\<lparr>cmChannels := go_put k c (cmChannels cm)\<rparr>"

definition AcceptChannelProposal ::
    "time \<Rightarrow> string \<Rightarrow> string \<Rightarrow> ChannelManager \<Rightarrow> (channel_error + unit) \<times> ChannelManager" where
  "AcceptChannelProposal now channelID accepter cm =
     (case go_get (cmChannels cm) channelID of
        None \<Rightarrow> (Inl ChannelNotFound, cm)
      | Some c \<Rightarrow>
          if chStatus c = ChannelStatusActive then (Inr (), cm)
          else case chProposal c of
            None \<Rightarrow> (Inl ProposalNotFound, cm)
          | Some p \<Rightarrow>
              if proposal_expired now p then (Inl ProposalExpired, cm)
              else let cids = candidate_ids (cmKernelID cm) c accepter;
                       isSender = list_ex (\<lambda>i. go_get (prSenderApprovals p) i \<noteq> None) cids;
                       isReceiver = list_ex (\<lambda>i. go_get (prReceiverApprovals p) i \<noteq> None) cids;
                       p' = p\<lparr> prSenderApprovals := approve_all cids (prSenderApprovals p),
                               prReceiverApprovals := approve_all cids (prReceiverApprovals p) \<rparr>
                in if \<not> isSender \<and> \<not> isReceiver then (Inl OnlyParticipantsAccept, cm)
                   else if all_approved c p' then
                     (Inr (), put_channel channelID
                        (c\<lparr> chStatus := ChannelStatusActive,
                            chProposal := Some (p'\<lparr>prStatus := NegotiationStatusAccepted\<rparr>),
                            chLastActivity := now, chDistributors := chDistributors c + 1 \<rparr>) cm)
                   else (Inr (), put_channel channelID (c\<lparr>chProposal := Some p'\<rparr>) cm))"

definition RejectChannelProposal ::
    "time \<Rightarrow> string \<Rightarrow> string \<Rightarrow> ChannelManager \<Rightarrow> (channel_error + unit) \<times> ChannelManager" where
  "RejectChannelProposal now channelID rejecter cm =
     (case go_get (cmChannels cm) channelID of
        None \<Rightarrow> (Inl ChannelNotFound, cm)
      | Some c \<Rightarrow>
          if chStatus c \<noteq> ChannelStatusProposed then (Inl NotProposed, cm)
          else case chProposal c of
            None \<Rightarrow> (Inl ProposalNotFound, cm)
          | Some p \<Rightarrow>
              if rejecter \<notin> set (chSenderIDs c) \<and> rejecter \<notin> set (chReceiverIDs c)
              then (Inl OnlyParticipantsReject, cm)
              else if proposal_expired now p then (Inl ProposalExpired, cm)
              else (Inr (), put_channel channelID
                     (c\<lparr> chStatus := ChannelStatusClosed,
                         chProposal := Some (p\<lparr>prStatus := NegotiationStatusRejected\<rparr>),
                         chClosedAt := Some now, chLastActivity := now \<rparr>) cm))"

section \<open>Direct creation, lookup, closing, cleaning up\<close>

definition createChannelInternal ::
    "time \<Rightarrow> string \<Rightarrow> string \<Rightarrow> string \<Rightarrow> string list \<Rightarrow> string list \<Rightarrow> string \<Rightarrow> bool \<Rightarrow>
     EvidenceConfig option \<Rightarrow> string \<Rightarrow> ChannelManager \<Rightarrow> (channel_error + Channel) \<times> ChannelManager" where
  "createChannelInternal now cid creator approver senders receivers topic encrypted ev path cm =
     (case check_participants creator senders receivers of
        Some e \<Rightarrow> (Inl e, cm)
      | None \<Rightarrow>
          let c = (fresh_channel now cid creator approver senders receivers topic encrypted ev path
                     ChannelStatusActive)
                  \<lparr> chRemoteReceivers := add_remote (cmKernelID cm) receivers
                                           (add_remote (cmKernelID cm) senders []),
                    chDistributors := 1 \<rparr>
          in (Inr c, put_channel cid c cm))"

definition CreateChannel ::
    "time \<Rightarrow> string \<Rightarrow> string \<Rightarrow> string \<Rightarrow> string list \<Rightarrow> string list \<Rightarrow> string \<Rightarrow> bool \<Rightarrow>
     EvidenceConfig option \<Rightarrow> string \<Rightarrow> ChannelManager \<Rightarrow> (channel_error + Channel) \<times> ChannelManager" where
  "CreateChannel now cid creator approver senders receivers topic encrypted ev path cm =
     createChannelInternal now cid creator approver senders receivers topic encrypted
       (if ev = None \<and> cmHasConfigManager cm then Some (cmDefaultEvidence cm) else ev) path cm"

text \<open>What reading and parsing the JSON configuration file gives.\<close>

record ChannelConfigFile =
  ccChannelName :: string
  ccCreatorID :: string
  ccApproverID :: string
  ccSenderIDs :: "string list"
  ccReceiverIDs :: "string list"
  ccDataTopic :: string
  ccEncrypted :: bool
  ccEvidenceConfig :: "EvidenceConfig option"
  ccCreatedAt :: "time option"

datatype config_read = ConfigUnreadable | ConfigMalformed | ConfigParsed ChannelConfigFile

definition CreateChannelFromConfig ::
    "time \<Rightarrow> string \<Rightarrow> string \<Rightarrow> config_read \<Rightarrow> ChannelManager \<Rightarrow> (channel_error + Channel) \<times> ChannelManager" where
  "CreateChannelFromConfig now cid path file cm =
     (case file of
        ConfigUnreadable \<Rightarrow> (Inl ConfigReadFailed, cm)
      | ConfigMalformed \<Rightarrow> (Inl ConfigParseFailed, cm)
      | ConfigParsed cfg \<Rightarrow>
          if ccChannelName cfg = [] then (Inl ConfigNameMissing, cm)
          else let c = (fresh_channel now cid (ccCreatorID cfg) (ccApproverID cfg) (ccSenderIDs cfg)
                          (ccReceiverIDs cfg) (ccDataTopic cfg) (ccEncrypted cfg)
                          (ccEvidenceConfig cfg) path ChannelStatusActive)
                       \<lparr> chName := ccChannelName cfg,
                         chCreatedAt := (case ccCreatedAt cfg of None \<Rightarrow> now | Some t \<Rightarrow> t),
                         chRemoteReceivers := add_remote (cmKernelID cm) (ccReceiverIDs cfg)
                                                (add_remote (cmKernelID cm) (ccSenderIDs cfg) []),
                         chDistributors := 1 \<rparr>
               in (Inr c, put_channel (ccChannelName cfg) c cm))"

definition GetChannel :: "string \<Rightarrow> ChannelManager \<Rightarrow> channel_error + Channel" where
  "GetChannel channelID cm =
     (case go_get (cmChannels cm) channelID of None \<Rightarrow> Inl ChannelNotFound | Some c \<Rightarrow> Inr c)"

text \<open>
  Closing closes the data queue, which panics when it is closed already; the status is set before.
\<close>

definition CloseChannel ::
    "time \<Rightarrow> string \<Rightarrow> ChannelManager \<Rightarrow> (channel_error + unit) \<times> ChannelManager" where
  "CloseChannel now channelID cm =
     (case go_get (cmChannels cm) channelID of
        None \<Rightarrow> (Inl ChannelNotFound, cm)
      | Some c \<Rightarrow>
          if chStatus c = ChannelStatusClosed then (Inl AlreadyClosed, cm)
          else let c1 = c\<lparr>chStatus := ChannelStatusClosed, chClosedAt := Some now\<rparr>
               in if chQueueClosed c then (Inl PanicCloseOfClosedChannel, put_channel channelID c1 cm)
                  else (Inr (), put_channel channelID (c1\<lparr>chQueueClosed := True, chSubscribers := []\<rparr>) cm))"

definition ListChannels :: "ChannelManager \<Rightarrow> Channel list" where
  "ListChannels cm = map snd (cmChannels cm)"

definition ListActiveChannels :: "ChannelManager \<Rightarrow> Channel list" where
  "ListActiveChannels cm = filter (\<lambda>c. chStatus c = ChannelStatusActive) (map snd (cmChannels cm))"

definition ListChannelsByParticipant :: "string \<Rightarrow> ChannelManager \<Rightarrow> Channel list" where
  "ListChannelsByParticipant cid cm = filter (\<lambda>c. IsParticipant c cid) (map snd (cmChannels cm))"

definition cleanup_due :: "time \<Rightarrow> time \<Rightarrow> Channel \<Rightarrow> bool" where
  "cleanup_due now threshold c \<longleftrightarrow>
     chStatus c = ChannelStatusClosed \<and> now - chLastActivity c > threshold"

definition CleanupInactiveChannels :: "time \<Rightarrow> time \<Rightarrow> ChannelManager \<Rightarrow> nat \<times> ChannelManager" where
  "CleanupInactiveChannels now threshold cm =
     (length (filter (\<lambda>(k, c). cleanup_due now threshold c) (cmChannels cm)),
      cm\<lparr>cmChannels := filter (\<lambda>(k, c). \<not> cleanup_due now threshold c) (cmChannels cm)\<rparr>)"

section \<open>Lookup lemmas\<close>

named_theorems chan_simps \<open>approval maps, candidates and channel lookups\<close>

lemma go_get_put_fold:
  "go_get (foldl (\<lambda>m i. if P i then go_put i (f i) m else m) m ids) i =
     (if i \<in> set ids \<and> P i then Some (f i) else go_get m i)"
  by (induction ids arbitrary: m) (auto simp: gomap_simps)

lemma go_map_ok_put_fold:
  "go_map_ok m \<Longrightarrow> go_map_ok (foldl (\<lambda>m i. if P i then go_put i (f i) m else m) m ids)"
  by (induction ids arbitrary: m) auto

lemma go_get_init_approvals [chan_simps]:
  "go_get (init_approvals creator ids) i = (if i \<in> set ids then Some (is_self creator i) else None)"
  using go_get_put_fold [where P = "\<lambda>_. True" and f = "\<lambda>_. False"]
  by (simp add: init_approvals_def go_get_put_fold)

lemma init_approvals_ok [simp]: "go_map_ok (init_approvals creator ids)"
  using go_map_ok_put_fold [where P = "\<lambda>_. True" and f = "\<lambda>_. False" and m = "[]"]
  by (simp add: init_approvals_def go_map_ok_put_fold)

lemma go_get_approve_all [chan_simps]:
  "go_get (approve_all cids m) i =
     (if i \<in> set cids \<and> go_get m i \<noteq> None then Some True else go_get m i)"
  unfolding approve_all_def
proof (induction cids arbitrary: m)
  case (Cons a cids)
  show ?case
    by (simp only: foldl_Cons Cons.IH) (auto simp: gomap_simps)
qed simp

lemma approve_all_ok [simp]: "go_map_ok m \<Longrightarrow> go_map_ok (approve_all cids m)"
  unfolding approve_all_def by (induction cids arbitrary: m) auto

lemma list_all_values:
  "go_map_ok m \<Longrightarrow> list_all (\<lambda>(i, b). Q i \<or> b) m \<longleftrightarrow> (\<forall>i b. go_get m i = Some b \<longrightarrow> Q i \<or> b)"
  by (fastforce simp: list_all_iff go_get_mem)

lemma list_all_snd: "go_map_ok m \<Longrightarrow> list_all snd m \<longleftrightarrow> (\<forall>i b. go_get m i = Some b \<longrightarrow> b)"
  by (fastforce simp: list_all_iff go_get_mem)

lemma check_sender_ids_Inr:
  "check_sender_ids seen ids = Inr seen' \<longleftrightarrow>
     seen' = rev ids @ seen \<and> distinct ids \<and> [] \<notin> set ids \<and> set ids \<inter> set seen = {}"
  by (induction seen ids rule: check_sender_ids.induct) auto

lemma check_receiver_ids_Inr:
  "check_receiver_ids seen ids = Inr seen' \<longleftrightarrow>
     seen' = rev ids @ seen \<and> distinct ids \<and> [] \<notin> set ids \<and> set ids \<inter> set seen = {}"
  by (induction seen ids rule: check_receiver_ids.induct) auto

lemma check_participants_None [chan_simps]:
  "check_participants creator senders receivers = None \<longleftrightarrow>
     creator \<noteq> [] \<and> senders \<noteq> [] \<and> receivers \<noteq> [] \<and>
     distinct (senders @ receivers) \<and> [] \<notin> set (senders @ receivers)"
proof (cases "check_sender_ids [] senders")
  case (Inl e)
  then have "\<not> (distinct senders \<and> [] \<notin> set senders)"
    using check_sender_ids_Inr [of "[]" senders "rev senders"] by simp
  with Inl show ?thesis by (simp add: check_participants_def)
next
  case S: (Inr seen)
  then have seen: "seen = rev senders" and ss: "distinct senders" "[] \<notin> set senders"
    by (simp_all add: check_sender_ids_Inr)
  show ?thesis
  proof (cases "check_receiver_ids seen receivers")
    case (Inl e)
    then have "\<not> (distinct receivers \<and> [] \<notin> set receivers \<and> set receivers \<inter> set senders = {})"
      using check_receiver_ids_Inr [of seen receivers "rev receivers @ seen"] seen by simp
    with Inl S show ?thesis by (auto simp: check_participants_def)
  next
    case (Inr seen')
    then have "distinct receivers" "[] \<notin> set receivers" "set receivers \<inter> set senders = {}"
      using seen by (simp_all add: check_receiver_ids_Inr)
    with Inr S ss show ?thesis by (auto simp: check_participants_def)
  qed
qed

lemma go_get_put_channel [chan_simps]:
  "go_get (cmChannels (put_channel k c cm)) k' = (if k' = k then Some c else go_get (cmChannels cm) k')"
  by (simp add: put_channel_def gomap_simps)

lemma put_channel_ok [simp]: "go_map_ok (cmChannels cm) \<Longrightarrow> go_map_ok (cmChannels (put_channel k c cm))"
  by (simp add: put_channel_def)

lemma go_get_filter_values:
  "go_map_ok m \<Longrightarrow> go_get (filter (\<lambda>(k, v). P v) m) k =
     (case go_get m k of None \<Rightarrow> None | Some v \<Rightarrow> if P v then Some v else None)"
proof (induction m)
  case (Cons e m)
  have "go_get m (fst e) = None" using Cons.prems by (simp add: map_of_eq_None_iff)
  with Cons show ?case by (cases e) auto
qed simp

lemma go_get_cleanup:
  "go_map_ok (cmChannels cm) \<Longrightarrow> go_get (cmChannels (snd (CleanupInactiveChannels now th cm))) k =
     (case go_get (cmChannels cm) k of
        None \<Rightarrow> None | Some c \<Rightarrow> if cleanup_due now th c then None else Some c)"
  by (simp add: CleanupInactiveChannels_def go_get_filter_values split: option.split)

text \<open>Lookups stay lookups: the library rule that turns them into memberships is switched off.\<close>

declare map_of_eq_Some_iff [simp del]

section \<open>The negotiation machine\<close>

text \<open>
  Every method of this theory that changes the manager; a method that fails is a step to the same
  state.  \<open>cid\<close> and \<open>pid\<close> are the UUIDs it draws.
\<close>

inductive neg_step :: "ChannelManager \<Rightarrow> ChannelManager \<Rightarrow> bool" where
  create_with_id: "CreateChannelWithID now pid cid cr ap ss rs tp enc ev path cm = (res, cm')
     \<Longrightarrow> neg_step cm cm'"
| propose: "ProposeChannel now cid pid cr ap ss rs tp enc ev path why timeout cm = (res, cm')
     \<Longrightarrow> neg_step cm cm'"
| accept_proposal: "AcceptChannelProposal now k who cm = (res', cm') \<Longrightarrow> neg_step cm cm'"
| reject_proposal: "RejectChannelProposal now k who cm = (res', cm') \<Longrightarrow> neg_step cm cm'"
| create: "CreateChannel now cid cr ap ss rs tp enc ev path cm = (res, cm') \<Longrightarrow> neg_step cm cm'"
| create_from_config: "CreateChannelFromConfig now cid path file cm = (res, cm') \<Longrightarrow> neg_step cm cm'"
| close: "CloseChannel now k cm = (res', cm') \<Longrightarrow> neg_step cm cm'"
| cleanup: "CleanupInactiveChannels now th cm = (n, cm') \<Longrightarrow> neg_step cm cm'"

definition neg_init :: "ChannelManager \<Rightarrow> bool" where
  "neg_init cm \<longleftrightarrow> cmChannels cm = []"

text \<open>
  A channel under negotiation keeps the participants of its proposal, the approval maps are keyed
  by exactly these participants, and an active one has been approved by all of them.
\<close>

definition proposal_ok :: "Channel \<Rightarrow> ChannelProposal \<Rightarrow> bool" where
  "proposal_ok c p \<longleftrightarrow>
     go_map_ok (prSenderApprovals p) \<and> go_map_ok (prReceiverApprovals p) \<and>
     (\<forall>i. go_get (prSenderApprovals p) i \<noteq> None \<longleftrightarrow> i \<in> set (chSenderIDs c)) \<and>
     (\<forall>i. go_get (prReceiverApprovals p) i \<noteq> None \<longleftrightarrow> i \<in> set (chReceiverIDs c)) \<and>
     (chStatus c = ChannelStatusActive \<longrightarrow>
        prStatus p = NegotiationStatusAccepted \<and>
        (\<forall>i b. go_get (prSenderApprovals p) i = Some b \<longrightarrow> b) \<and>
        (\<forall>i b. go_get (prReceiverApprovals p) i = Some b \<longrightarrow> b))"

definition channel_ok :: "Channel \<Rightarrow> bool" where
  "channel_ok c \<longleftrightarrow> (\<forall>p. chProposal c = Some p \<longrightarrow> proposal_ok c p)"

definition neg_ok :: "ChannelManager \<Rightarrow> bool" where
  "neg_ok cm \<longleftrightarrow> go_map_ok (cmChannels cm) \<and> (\<forall>k c. go_get (cmChannels cm) k = Some c \<longrightarrow> channel_ok c)"

lemma neg_ok_put: "neg_ok cm \<Longrightarrow> channel_ok c \<Longrightarrow> neg_ok (put_channel k c cm)"
  by (auto simp: neg_ok_def chan_simps)

lemma neg_ok_get: "neg_ok cm \<Longrightarrow> go_get (cmChannels cm) k = Some c \<Longrightarrow> channel_ok c"
  by (auto simp: neg_ok_def)

text \<open>For the participants of the channel, the two branches of the approval test agree.\<close>

lemma all_approved_iff:
  assumes "proposal_ok c p"
  shows "all_approved c p \<longleftrightarrow>
     (\<forall>i b. go_get (prSenderApprovals p) i = Some b \<longrightarrow> b) \<and>
     (\<forall>i b. go_get (prReceiverApprovals p) i = Some b \<longrightarrow> b)"
proof (cases "has_remote_participants c")
  case True
  with assms show ?thesis by (simp add: all_approved_def proposal_ok_def list_all_snd)
next
  case False
  have ok: "go_map_ok (prSenderApprovals p)" "go_map_ok (prReceiverApprovals p)"
    using assms by (simp_all add: proposal_ok_def)
  have "\<not> has_colon i" if "go_get (prSenderApprovals p) i = Some b" for i b
  proof -
    have "i \<in> set (chSenderIDs c)" using that assms unfolding proposal_ok_def by force
    with False show ?thesis by (auto simp: has_remote_participants_def list_ex_iff)
  qed
  moreover have "\<not> has_colon i" if "go_get (prReceiverApprovals p) i = Some b" for i b
  proof -
    have "i \<in> set (chReceiverIDs c)" using that assms unfolding proposal_ok_def by force
    with False show ?thesis by (auto simp: has_remote_participants_def list_ex_iff)
  qed
  ultimately show ?thesis
    unfolding all_approved_def list_all_values [OF ok(1)] list_all_values [OF ok(2)]
    using False by (simp only: if_False) blast
qed

lemma new_proposal_ok:
  "chSenderIDs c = ss \<Longrightarrow> chReceiverIDs c = rs \<Longrightarrow> chStatus c = ChannelStatusProposed \<Longrightarrow>
   proposal_ok c (new_proposal now pid cr ap ss rs why timeout)"
  by (simp add: proposal_ok_def new_proposal_def chan_simps)

lemma approve_all_keys: "go_get (approve_all cids m) i = None \<longleftrightarrow> go_get m i = None"
  by (auto simp: chan_simps)

lemma approve_proposal_ok:
  assumes "proposal_ok c p" and "chStatus c \<noteq> ChannelStatusActive"
    and "p' = p\<lparr> prSenderApprovals := approve_all cids (prSenderApprovals p),
                  prReceiverApprovals := approve_all cids (prReceiverApprovals p) \<rparr>"
  shows "proposal_ok c p'"
  using assms by (simp add: proposal_ok_def approve_all_keys)

text \<open>Switching to active when every approval is given keeps the invariant.\<close>

lemma activate_ok:
  assumes "proposal_ok c p" and "all_approved c p"
  shows "channel_ok (c\<lparr> chStatus := ChannelStatusActive,
       chProposal := Some (p\<lparr>prStatus := NegotiationStatusAccepted\<rparr>),
       chLastActivity := now, chDistributors := n \<rparr>)"
  using assms all_approved_iff [OF assms(1)] by (simp add: channel_ok_def proposal_ok_def)

lemma channel_ok_no_proposal: "chProposal c = None \<Longrightarrow> channel_ok c"
  by (simp add: channel_ok_def)

lemma channel_ok_not_active:
  "channel_ok c \<Longrightarrow> channel_ok (c\<lparr>chStatus := ChannelStatusClosed, chClosedAt := t\<rparr>)"
  by (auto simp: channel_ok_def proposal_ok_def)



lemma CreateChannelWithID_ok:
  "neg_ok cm \<Longrightarrow> neg_ok (snd (CreateChannelWithID now pid cid cr ap ss rs tp enc ev path cm))"
  by (auto simp: CreateChannelWithID_def Let_def fresh_channel_def channel_ok_def new_proposal_ok
      simp flip: put_channel_def intro!: neg_ok_put)

lemma ProposeChannel_ok:
  "neg_ok cm \<Longrightarrow> neg_ok (snd (ProposeChannel now cid pid cr ap ss rs tp enc ev path why timeout cm))"
  by (auto simp: ProposeChannel_def Let_def fresh_channel_def channel_ok_def new_proposal_ok
      simp flip: put_channel_def intro!: neg_ok_put split: option.splits)

lemma AcceptChannelProposal_ok:
  assumes "neg_ok cm"
  shows "neg_ok (snd (AcceptChannelProposal now k who cm))"
proof (cases "go_get (cmChannels cm) k")
  case (Some c)
  then have "channel_ok c" using assms neg_ok_get by blast
  then have "proposal_ok c (p\<lparr> prSenderApprovals := approve_all cids (prSenderApprovals p),
                  prReceiverApprovals := approve_all cids (prReceiverApprovals p) \<rparr>)"
    if "chProposal c = Some p" and "chStatus c \<noteq> ChannelStatusActive" for p cids
    using that approve_proposal_ok unfolding channel_ok_def by blast
  moreover from this have "channel_ok (c\<lparr>chProposal := Some (p\<lparr>
        prSenderApprovals := approve_all cids (prSenderApprovals p),
        prReceiverApprovals := approve_all cids (prReceiverApprovals p) \<rparr>)\<rparr>)"
    if "chProposal c = Some p" and "chStatus c \<noteq> ChannelStatusActive" for p cids
    using that by (simp add: channel_ok_def proposal_ok_def)
  ultimately show ?thesis
    using Some assms
    by (auto simp: AcceptChannelProposal_def Let_def intro!: neg_ok_put activate_ok split: option.split)
qed (use assms in \<open>simp add: AcceptChannelProposal_def\<close>)

lemma RejectChannelProposal_ok:
  assumes "neg_ok cm"
  shows "neg_ok (snd (RejectChannelProposal now k who cm))"
  using assms neg_ok_get [OF assms]
  by (auto simp: RejectChannelProposal_def channel_ok_def proposal_ok_def
      intro!: neg_ok_put split: option.split)

lemma CreateChannel_ok:
  "neg_ok cm \<Longrightarrow> neg_ok (snd (CreateChannel now cid cr ap ss rs tp enc ev path cm))"
  by (auto simp: CreateChannel_def createChannelInternal_def Let_def fresh_channel_def
      intro!: neg_ok_put channel_ok_no_proposal split: option.split)

lemma CreateChannelFromConfig_ok:
  "neg_ok cm \<Longrightarrow> neg_ok (snd (CreateChannelFromConfig now cid path file cm))"
  by (auto simp: CreateChannelFromConfig_def Let_def fresh_channel_def
      intro!: neg_ok_put channel_ok_no_proposal split: config_read.split)

lemma CloseChannel_ok:
  assumes "neg_ok cm"
  shows "neg_ok (snd (CloseChannel now k cm))"
  using assms neg_ok_get [OF assms]
  by (auto simp: CloseChannel_def Let_def channel_ok_def proposal_ok_def
      intro!: neg_ok_put split: option.split)

lemma CleanupInactiveChannels_ok:
  assumes "neg_ok cm"
  shows "neg_ok (snd (CleanupInactiveChannels now th cm))"
proof -
  have "go_map_ok (cmChannels (snd (CleanupInactiveChannels now th cm)))"
    using assms by (simp add: neg_ok_def CleanupInactiveChannels_def distinct_map_filter)
  moreover have "channel_ok c"
    if "go_get (cmChannels (snd (CleanupInactiveChannels now th cm))) k = Some c" for k c
    using that assms
    by (auto simp: neg_ok_def go_get_cleanup split: option.splits if_splits)
  ultimately show ?thesis unfolding neg_ok_def by blast
qed

lemmas neg_ops_ok = CreateChannelWithID_ok ProposeChannel_ok AcceptChannelProposal_ok
  RejectChannelProposal_ok CreateChannel_ok CreateChannelFromConfig_ok CloseChannel_ok
  CleanupInactiveChannels_ok

interpretation neg: invariant_system neg_init neg_step neg_ok
proof
  show "neg_ok cm" if "neg_init cm" for cm
    using that by (simp add: neg_init_def neg_ok_def)
  show "neg_ok cm'" if "neg_step cm cm'" and "neg_ok cm" for cm cm'
    using that by (cases rule: neg_step.cases) (metis neg_ops_ok snd_conv)+
qed

section \<open>Helper lemmas for the properties\<close>

lemma candidate_ids_raw: "i \<in> set (candidate_ids kid c who) \<Longrightarrow> raw_id i = raw_id who"
  by (auto simp: candidate_ids_def Let_def id_simps split: if_splits option.splits)

lemma candidate_ids_self: "who \<in> set (candidate_ids kid c who)"
  by (auto simp: candidate_ids_def Let_def split: option.splits)

lemma accept_unfold:
  assumes "go_get (cmChannels cm) k = Some c" and "chStatus c \<noteq> ChannelStatusActive"
    and "chProposal c = Some p"
    and "cids = candidate_ids (cmKernelID cm) c who"
    and "p' = p\<lparr> prSenderApprovals := approve_all cids (prSenderApprovals p),
                 prReceiverApprovals := approve_all cids (prReceiverApprovals p) \<rparr>"
  shows "AcceptChannelProposal now k who cm =
    (if proposal_expired now p then (Inl ProposalExpired, cm)
     else if \<exists>i \<in> set cids. go_get (prSenderApprovals p) i \<noteq> None \<or> go_get (prReceiverApprovals p) i \<noteq> None
     then (Inr (), put_channel k
       (if all_approved c p' then
          c\<lparr> chStatus := ChannelStatusActive, chProposal := Some (p'\<lparr>prStatus := NegotiationStatusAccepted\<rparr>),
             chLastActivity := now, chDistributors := chDistributors c + 1 \<rparr>
        else c\<lparr>chProposal := Some p'\<rparr>) cm)
     else (Inl OnlyParticipantsAccept, cm))"
  using assms by (auto simp: AcceptChannelProposal_def Let_def list_ex_iff)

lemma all_true_on_keys:
  assumes "\<forall>i. m i \<noteq> None \<longleftrightarrow> i \<in> S"
  shows "(\<forall>i b. m i = Some b \<longrightarrow> b) \<longleftrightarrow> (\<forall>i \<in> S. m i = Some True)"
proof
  assume all: "\<forall>i b. m i = Some b \<longrightarrow> b"
  show "\<forall>i \<in> S. m i = Some True"
  proof
    fix i assume "i \<in> S"
    then obtain b where "m i = Some b" using assms by blast
    moreover from this all have b by blast
    ultimately show "m i = Some True" by simp
  qed
next
  assume "\<forall>i \<in> S. m i = Some True"
  then show "\<forall>i b. m i = Some b \<longrightarrow> b" using assms by force
qed

text \<open>What the approval test is meant to decide: every participant has said yes.\<close>

definition approved_by_all :: "Channel \<Rightarrow> ChannelProposal \<Rightarrow> bool" where
  "approved_by_all c p \<longleftrightarrow>
     (\<forall>i \<in> set (chSenderIDs c). go_get (prSenderApprovals p) i = Some True) \<and>
     (\<forall>i \<in> set (chReceiverIDs c). go_get (prReceiverApprovals p) i = Some True)"

lemma all_approved_members:
  assumes "proposal_ok c p"
  shows "all_approved c p \<longleftrightarrow> approved_by_all c p"
  unfolding all_approved_iff [OF assms] approved_by_all_def
  using assms all_true_on_keys [of "go_get (prSenderApprovals p)" "set (chSenderIDs c)"]
    all_true_on_keys [of "go_get (prReceiverApprovals p)" "set (chReceiverIDs c)"]
  unfolding proposal_ok_def by simp

lemma approve_all_on:
  "\<forall>i. go_get m i \<noteq> None \<longleftrightarrow> i \<in> S \<Longrightarrow>
   go_get (approve_all cids m) i = (if i \<in> set cids \<and> i \<in> S then Some True else go_get m i)"
  by (simp only: go_get_approve_all)

section \<open>Properties\<close>

text \<open>
  Whatever sequence of negotiation calls was made, a negotiated channel that is active has an
  accepted proposal, and every one of its senders and receivers, local or remote, has approved it.
\<close>

theorem active_channel_approved:
  assumes "reach neg_init neg_step cm" and "go_get (cmChannels cm) k = Some c"
    and "chProposal c = Some p" and "chStatus c = ChannelStatusActive"
  shows "prStatus p = NegotiationStatusAccepted
    \<and> (\<forall>i \<in> set (chSenderIDs c). go_get (prSenderApprovals p) i = Some True)
    \<and> (\<forall>i \<in> set (chReceiverIDs c). go_get (prReceiverApprovals p) i = Some True)"
proof -
  have "proposal_ok c p"
    using neg.reach_inv [OF assms(1)] assms(2,3) neg_ok_get unfolding channel_ok_def by blast
  with assms(4) show ?thesis
    unfolding proposal_ok_def using all_true_on_keys by blast
qed

definition demo_evidence :: EvidenceConfig where
  "demo_evidence = \<lparr> ecMode = EvidenceModeNone, ecStrategy = EvidenceStrategyAll,
     ecRetentionDays = 30, ecCompressData = True \<rparr>"

definition demo_propose :: ChannelManager where
  "demo_propose = snd (ProposeChannel 0 ''ch'' ''pr'' ''a'' ''a'' [''a''] [''b''] ''t'' False None [] [] 0
     (NewChannelManager demo_evidence))"

definition demo_accept :: ChannelManager where
  "demo_accept = snd (AcceptChannelProposal 1 ''ch'' ''b'' demo_propose)"

lemmas demo_neg_defs = demo_accept_def demo_propose_def NewChannelManager_def ProposeChannel_def
  check_participants_def fresh_channel_def new_proposal_def init_approvals_def is_self_def
  AcceptChannelProposal_def proposal_expired_def seconds_def candidate_ids_def raw_id_def
  has_colon_def approve_all_def all_approved_def has_remote_participants_def put_channel_def
  Let_def suffix_to_prefix all_bool_eq ex_bool_eq
  channel_status_defs

lemma demo_accept_reach: "reach neg_init neg_step demo_accept"
proof -
  let ?m = "NewChannelManager demo_evidence"
  have "reach neg_init neg_step ?m"
    by (rule reach_init) (simp add: neg_init_def NewChannelManager_def)
  moreover have "neg_step ?m demo_propose"
    unfolding demo_propose_def by (rule neg_step.propose [OF prod.collapse [symmetric]])
  moreover have "neg_step demo_propose demo_accept"
    unfolding demo_accept_def by (rule neg_step.accept_proposal [OF prod.collapse [symmetric]])
  ultimately show ?thesis by (blast intro: reach_step)
qed

theorem active_channel_approved_witness:
  "\<exists>c p. go_get (cmChannels demo_accept) ''ch'' = Some c \<and> chProposal c = Some p
     \<and> go_get (prReceiverApprovals p) ''b'' = Some True \<and> prStatus p = NegotiationStatusAccepted"
proof -
  obtain c p where c: "go_get (cmChannels demo_accept) ''ch'' = Some c" "chProposal c = Some p"
      "chStatus c = ChannelStatusActive" "''b'' \<in> set (chReceiverIDs c)"
    by (simp add: demo_neg_defs)
  with active_channel_approved [OF demo_accept_reach c(1-3)] show ?thesis by blast
qed

text \<open>
  A proposal is accepted for registration exactly when creator, senders and receivers are given,
  no identifier is empty and none occurs twice; the registered channel is then proposed, keeps the
  participants, starts with exactly the creator's own approvals and gets five minutes when no
  positive timeout is given.  A refused proposal changes nothing.
\<close>

theorem propose_channel_result:
  "(if creator \<noteq> [] \<and> senders \<noteq> [] \<and> receivers \<noteq> [] \<and> distinct (senders @ receivers)
       \<and> [] \<notin> set (senders @ receivers)
    then \<exists>c p. ProposeChannel now cid pid creator approver senders receivers topic enc ev path why timeout cm
                 = (Inr c, put_channel cid c cm)
         \<and> chStatus c = ChannelStatusProposed \<and> chSenderIDs c = senders \<and> chReceiverIDs c = receivers
         \<and> chProposal c = Some p \<and> prTimeoutSeconds p = (if timeout \<le> 0 then 300 else timeout)
         \<and> go_get (prSenderApprovals p) = (\<lambda>i. if i \<in> set senders then Some (is_self creator i) else None)
         \<and> go_get (prReceiverApprovals p) = (\<lambda>i. if i \<in> set receivers then Some (is_self creator i) else None)
    else \<exists>e. ProposeChannel now cid pid creator approver senders receivers topic enc ev path why timeout cm
                 = (Inl e, cm))"
proof (cases "check_participants creator senders receivers")
  case None
  then show ?thesis
    using check_participants_None [of creator senders receivers]
    by (auto simp: ProposeChannel_def Let_def put_channel_def fresh_channel_def new_proposal_def
        go_get_init_approvals)
next
  case (Some e)
  then have "\<not> (creator \<noteq> [] \<and> senders \<noteq> [] \<and> receivers \<noteq> [] \<and> distinct (senders @ receivers)
       \<and> [] \<notin> set (senders @ receivers))"
    using check_participants_None [of creator senders receivers] by simp
  with Some show ?thesis by (simp only: if_False) (simp add: ProposeChannel_def)
qed



text \<open>
  Closing is not final: a channel that was closed or rejected while its proposal has not expired
  is set to active again by the last missing approval, although its data queue stays closed, and
  closing it a second time then panics.
\<close>

theorem closed_channel_reactivated:
  assumes "go_get (cmChannels cm) k = Some c" and "chStatus c = ChannelStatusClosed"
    and "chProposal c = Some p" and "\<not> proposal_expired now p" and "proposal_ok c p"
    and "who \<in> set (GetParticipants c)"
    and "\<forall>i \<in> set (chSenderIDs c). i = who \<or> go_get (prSenderApprovals p) i = Some True"
    and "\<forall>i \<in> set (chReceiverIDs c). i = who \<or> go_get (prReceiverApprovals p) i = Some True"
    and "AcceptChannelProposal now k who cm = (res, cm')"
  shows "res = Inr () \<and> (\<exists>c'. go_get (cmChannels cm') k = Some c' \<and> chStatus c' = ChannelStatusActive
      \<and> chQueueClosed c' = chQueueClosed c \<and> chClosedAt c' = chClosedAt c)
    \<and> (chQueueClosed c \<longrightarrow> fst (CloseChannel now' k cm') = Inl PanicCloseOfClosedChannel)"
proof -
  define cids where "cids = candidate_ids (cmKernelID cm) c who"
  define q where "q = p\<lparr> prSenderApprovals := approve_all cids (prSenderApprovals p),
                prReceiverApprovals := approve_all cids (prReceiverApprovals p) \<rparr>"
  have na: "chStatus c \<noteq> ChannelStatusActive" using assms(2) by simp
  have who: "who \<in> set cids" unfolding cids_def by (rule candidate_ids_self)
  have keys: "\<forall>i. go_get (prSenderApprovals p) i \<noteq> None \<longleftrightarrow> i \<in> set (chSenderIDs c)"
      "\<forall>i. go_get (prReceiverApprovals p) i \<noteq> None \<longleftrightarrow> i \<in> set (chReceiverIDs c)"
    using assms(5) unfolding proposal_ok_def by blast+
  have "approved_by_all c q"
    using assms(7,8) who approve_all_on [OF keys(1)] approve_all_on [OF keys(2)]
    by (auto simp: approved_by_all_def q_def)
  then have all: "all_approved c q"
    using all_approved_members [OF approve_proposal_ok [OF assms(5) na q_def]] by blast
  have ex: "\<exists>i \<in> set cids. go_get (prSenderApprovals p) i \<noteq> None \<or> go_get (prReceiverApprovals p) i \<noteq> None"
    using who keys assms(6) unfolding GetParticipants_def by auto
  have "AcceptChannelProposal now k who cm = (Inr (), put_channel k
      (c\<lparr> chStatus := ChannelStatusActive, chProposal := Some (q\<lparr>prStatus := NegotiationStatusAccepted\<rparr>),
          chLastActivity := now, chDistributors := chDistributors c + 1 \<rparr>) cm)"
    using accept_unfold [OF assms(1) na assms(3) cids_def q_def, of now] assms(4) all ex by simp
  then show ?thesis
    using assms(9) by (simp add: chan_simps CloseChannel_def Let_def)
qed

definition demo_closed :: ChannelManager where
  "demo_closed = snd (CloseChannel 1 ''ch'' demo_propose)"

theorem closed_channel_reactivated_witness:
  "fst (CloseChannel 3 ''ch'' (snd (AcceptChannelProposal 2 ''ch'' ''b'' demo_closed)))
     = Inl PanicCloseOfClosedChannel"
proof -
  obtain c p where c: "go_get (cmChannels demo_closed) ''ch'' = Some c"
      "chStatus c = ChannelStatusClosed" "chProposal c = Some p" "\<not> proposal_expired 2 p"
      "proposal_ok c p" "''b'' \<in> set (GetParticipants c)"
      "\<forall>i \<in> set (chSenderIDs c). i = ''b'' \<or> go_get (prSenderApprovals p) i = Some True"
      "\<forall>i \<in> set (chReceiverIDs c). i = ''b'' \<or> go_get (prReceiverApprovals p) i = Some True"
      "chQueueClosed c"
    by (simp add: demo_closed_def CloseChannel_def demo_neg_defs proposal_ok_def GetParticipants_def)
  show ?thesis
    using closed_channel_reactivated [OF c(1-8) prod.collapse [symmetric], of 3] c(9) by simp
qed

text \<open>
  Cleaning up removes exactly the closed channels that have been inactive for longer than the
  threshold, leaves every other channel as it is, and returns how many channels went away.
\<close>

theorem cleanup_exact:
  assumes "go_map_ok (cmChannels cm)"
  shows "go_get (cmChannels (snd (CleanupInactiveChannels now th cm))) k =
      (case go_get (cmChannels cm) k of
         None \<Rightarrow> None
       | Some c \<Rightarrow> if chStatus c = ChannelStatusClosed \<and> chLastActivity c + th < now then None else Some c)
    \<and> fst (CleanupInactiveChannels now th cm) + length (ListChannels (snd (CleanupInactiveChannels now th cm)))
        = length (ListChannels cm)
    \<and> set (ListActiveChannels (snd (CleanupInactiveChannels now th cm))) = set (ListActiveChannels cm)"
proof -
  have "cleanup_due now th c \<longleftrightarrow> chStatus c = ChannelStatusClosed \<and> chLastActivity c + th < now" for c
    by (auto simp: cleanup_due_def)
  moreover have "set (ListActiveChannels (snd (CleanupInactiveChannels now th cm))) = set (ListActiveChannels cm)"
    by (force simp: ListActiveChannels_def CleanupInactiveChannels_def cleanup_due_def)
  moreover have "fst (CleanupInactiveChannels now th cm) + length (ListChannels (snd (CleanupInactiveChannels now th cm)))
        = length (ListChannels cm)"
    using sum_length_filter_compl [of "\<lambda>(k, c). cleanup_due now th c" "cmChannels cm"]
    by (simp add: CleanupInactiveChannels_def ListChannels_def case_prod_unfold)
  ultimately show ?thesis
    using go_get_cleanup [OF assms, of now th k] by (simp split: option.split)
qed

theorem cleanup_exact_witness:
  "go_get (cmChannels (snd (CleanupInactiveChannels 100 10 demo_closed))) ''ch'' = None"
proof -
  have "go_map_ok (cmChannels demo_closed)"
    by (simp add: demo_closed_def CloseChannel_def demo_neg_defs)
  moreover obtain c where "go_get (cmChannels demo_closed) ''ch'' = Some c"
      "chStatus c = ChannelStatusClosed" "chLastActivity c = 0"
    by (simp add: demo_closed_def CloseChannel_def demo_neg_defs)
  ultimately show ?thesis using cleanup_exact [of demo_closed 100 10 "''ch''"] by simp
qed

text \<open>
  A channel created from a configuration file is registered under its name and not under the
  channel identifier the call returns: looking it up by that identifier fails.
\<close>

theorem config_channel_lookup:
  assumes "CreateChannelFromConfig now cid path file cm = (Inr c, cm')"
    and "go_get (cmChannels cm) cid = None" and "chName c \<noteq> cid"
  shows "chID c = cid \<and> GetChannel (chID c) cm' = Inl ChannelNotFound
    \<and> GetChannel (chName c) cm' = Inr c \<and> chStatus c = ChannelStatusActive \<and> chProposal c = None"
proof -
  obtain cfg where "file = ConfigParsed cfg" and "ccChannelName cfg \<noteq> []"
    using assms(1) by (auto simp: CreateChannelFromConfig_def split: config_read.splits if_splits)
  with assms show ?thesis
    by (auto simp: CreateChannelFromConfig_def Let_def GetChannel_def chan_simps fresh_channel_def)
qed

definition demo_channel_config :: ChannelConfigFile where
  "demo_channel_config = \<lparr> ccChannelName = ''sensors'', ccCreatorID = ''a'', ccApproverID = ''a'',
     ccSenderIDs = [''a''], ccReceiverIDs = [''b''], ccDataTopic = ''t'', ccEncrypted = True,
     ccEvidenceConfig = None, ccCreatedAt = None \<rparr>"

theorem config_channel_lookup_witness:
  "GetChannel ''ch'' (snd (CreateChannelFromConfig 0 ''ch'' ''f'' (ConfigParsed demo_channel_config)
     (NewChannelManager demo_evidence))) = Inl ChannelNotFound"
proof -
  let ?r = "CreateChannelFromConfig 0 ''ch'' ''f'' (ConfigParsed demo_channel_config) (NewChannelManager demo_evidence)"
  obtain c cm' where r: "?r = (Inr c, cm')" and "chName c = ''sensors''"
    by (simp add: CreateChannelFromConfig_def demo_channel_config_def Let_def fresh_channel_def)
  then show ?thesis
    using config_channel_lookup [OF r] by (auto simp: NewChannelManager_def)
qed

end
