(* ===== verification/Channel_Sync.thy ===== *)
theory Channel_Sync
  imports Channel_Negotiation
begin

text \<open>
  The control messages that keep the copies of a channel on several kernels in step: the second half
  of \<^verbatim>\<open>kernel/circulation/channel_manager.go\<close> from \<^verbatim>\<open>ControlMessage\<close> to
  \<^verbatim>\<open>forwardControlMessageToRemoteKernels\<close>.

  JSON encoding is the argument \<open>marshal\<close> (\<open>None\<close> when \<^verbatim>\<open>json.Marshal\<close> fails).  What the code starts
  with \<^verbatim>\<open>go\<close> is part of the model of the call that starts it, after the call's own changes; a call of
  the callback \<^verbatim>\<open>forwardToKernel\<close> is the effect \<open>Forward\<close>.  Every constructor sets \<^verbatim>\<open>manager\<close> and
  \<^verbatim>\<open>remoteReceivers\<close>, so the \<^verbatim>\<open>nil\<close> tests on these two are not branches here.
\<close>

section \<open>Messages\<close>

record PermissionRequestMessage =
  pmRequestID :: string
  pmChannelID :: string
  pmChangeType :: string
  pmTargetID :: string
  pmReason :: string

record PermissionResultMessage =
  pnRequestID :: string
  pnChannelID :: string
  pnAction :: string
  pnApproverID :: string
  pnRejectReason :: string

record ChannelProposalMessage =
  cpProposalID :: string
  cpChannelID :: string
  cpCreatorID :: string
  cpSenderIDs :: "string list"
  cpReceiverIDs :: "string list"
  cpDataTopic :: string
  cpReason :: string

record ChannelUpdateMessage =
  cuChannelID :: string
  cuCreatorID :: string
  cuSenderIDs :: "string list"
  cuReceiverIDs :: "string list"
  cuStatus :: string

record ControlMessage =
  ctMessageType :: string
  ctTimestamp :: time
  ctSenderID :: string
  ctPermissionRequest :: "PermissionRequestMessage option"
  ctPermissionResult :: "PermissionResultMessage option"
  ctChannelProposal :: "ChannelProposalMessage option"
  ctChannelUpdate :: "ChannelUpdateMessage option"

definition control_message :: "string \<Rightarrow> time \<Rightarrow> string \<Rightarrow> ControlMessage" where
  "control_message ty t sender =
     \<lparr> ctMessageType = ty, ctTimestamp = t, ctSenderID = sender, ctPermissionRequest = None,
       ctPermissionResult = None, ctChannelProposal = None, ctChannelUpdate = None \<rparr>"

type_synonym marshal = "ControlMessage \<Rightarrow> string option"

text \<open>A packet literal of the source: the fields it leaves out have Go's zero values.\<close>

definition control_packet :: "string \<Rightarrow> int \<Rightarrow> string \<Rightarrow> string \<Rightarrow> int \<Rightarrow> DataPacket" where
  "control_packet chid seqno payload sender ts =
     \<lparr> dpChannelID = chid, dpSequenceNumber = seqno, dpPayload = payload, dpSignature = [],
       dpTimestamp = ts, dpSenderID = sender, dpSenderKernelID = [], dpTargetIDs = [],
       dpMessageType = MessageTypeControl, dpFlowID = [], dpIsFinal = False, dpDataHash = [],
       dpIsAck = False, dpAckEvidenceRecorded = False, dpAfterSent = None \<rparr>"

section \<open>Sending\<close>

definition qualify_sender :: "string \<Rightarrow> Channel \<Rightarrow> DataPacket \<Rightarrow> DataPacket" where
  "qualify_sender kid c packet =
     (if dpSenderID packet \<noteq> [] \<and> \<not> has_colon (dpSenderID packet) then
        packet\<lparr> dpSenderID := (case go_get (chRemoteReceivers c) (dpSenderID packet) of
                  Some remote \<Rightarrow> qualify remote (dpSenderID packet)
                | None \<Rightarrow> qualify kid (dpSenderID packet)) \<rparr>
      else packet)"

text \<open>\<^verbatim>\<open>m[k] = append(m[k], v)\<close>.\<close>

definition append_target :: "string \<Rightarrow> string \<Rightarrow> string list gomap \<Rightarrow> string list gomap" where
  "append_target k v m = go_put k ((case go_get m k of None \<Rightarrow> [] | Some xs \<Rightarrow> xs) @ [v]) m"

definition add_kernel_once :: "string \<Rightarrow> string \<Rightarrow> string list gomap \<Rightarrow> string list gomap" where
  "add_kernel_once kid k m = (if k \<noteq> kid \<and> go_get m k = None then append_target k [] m else m)"

definition control_kernels :: "string \<Rightarrow> Channel \<Rightarrow> string list gomap" where
  "control_kernels kid c =
     foldl (\<lambda>m i. if has_colon i then add_kernel_once kid (kernel_part i) m
                  else case go_get (chRemoteReceivers c) i of
                         None \<Rightarrow> m | Some k \<Rightarrow> add_kernel_once kid k m)
       (foldl (\<lambda>m i. if has_colon i \<and> kernel_part i \<noteq> kid then append_target (kernel_part i) [] m else m)
          [] (chSenderIDs c))
       (chReceiverIDs c)"

definition forwardControlMessageToRemoteKernels ::
    "DataPacket \<Rightarrow> ChannelManager \<Rightarrow> Channel \<Rightarrow> effect list" where
  "forwardControlMessageToRemoteKernels packet cm c =
     (if \<not> cmForward cm then []
      else map (\<lambda>(k, _). Forward k (qualify_sender (cmKernelID cm) c packet) False)
             (control_kernels (cmKernelID cm) c))"

text \<open>
  The \<^verbatim>\<open>select\<close> with a \<^verbatim>\<open>default\<close> branch drops the message when the queue is full and panics when it
  is closed.
\<close>

definition sendControlMessage ::
    "marshal \<Rightarrow> ControlMessage \<Rightarrow> ChannelManager \<Rightarrow> Channel \<Rightarrow> (channel_error + unit) \<times> Channel \<times> effect list" where
  "sendControlMessage marshal msg cm c =
     (case marshal msg of
        None \<Rightarrow> (Inr (), c, [])
      | Some payload \<Rightarrow>
          let packet = control_packet (chID c) (int (length (chBuffer c))) payload (ctSenderID msg)
                         (ctTimestamp msg div 1000000000)
          in if chQueueClosed c then (Inl PanicSendOnClosedChannel, c, [])
             else let c1 = (if length (chQueue c) < 1000 then c\<lparr>chQueue := chQueue c @ [packet]\<rparr> else c)
                  in (Inr (), c1,
                      if ctMessageType msg = ''permission_request'' \<or> ctMessageType msg = ''permission_result''
                      then forwardControlMessageToRemoteKernels packet cm c1 else []))"

definition broadcastPermissionRequest ::
    "marshal \<Rightarrow> time \<Rightarrow> PermissionChangeRequest \<Rightarrow> ChannelManager \<Rightarrow> Channel \<Rightarrow>
     (channel_error + unit) \<times> Channel \<times> effect list" where
  "broadcastPermissionRequest marshal now rq cm c =
     sendControlMessage marshal
       ((control_message ''permission_request'' now (rqRequesterID rq))
          \<lparr> ctPermissionRequest := Some \<lparr> pmRequestID = rqRequestID rq, pmChannelID = rqChannelID rq,
              pmChangeType = rqChangeType rq, pmTargetID = rqTargetID rq, pmReason = rqReason rq \<rparr> \<rparr>)
       cm c"

definition broadcastPermissionResult ::
    "marshal \<Rightarrow> time \<Rightarrow> string \<Rightarrow> string \<Rightarrow> string \<Rightarrow> string \<Rightarrow> ChannelManager \<Rightarrow> Channel \<Rightarrow>
     (channel_error + unit) \<times> Channel \<times> effect list" where
  "broadcastPermissionResult marshal now rid action approver why cm c =
     sendControlMessage marshal
       ((control_message ''permission_result'' now approver)
          \<lparr> ctPermissionResult := Some \<lparr> pnRequestID = rid, pnChannelID = chID c, pnAction = action,
              pnApproverID = approver, pnRejectReason = why \<rparr> \<rparr>)
       cm c"

definition broadcastChannelProposal ::
    "marshal \<Rightarrow> time \<Rightarrow> ChannelProposal \<Rightarrow> ChannelManager \<Rightarrow> Channel \<Rightarrow>
     (channel_error + unit) \<times> Channel \<times> effect list" where
  "broadcastChannelProposal marshal now p cm c =
     sendControlMessage marshal
       ((control_message ''channel_proposal'' now (prApproverID p))
          \<lparr> ctChannelProposal := Some \<lparr> cpProposalID = prProposalID p, cpChannelID = chID c,
              cpCreatorID = chCreatorID c, cpSenderIDs = prSenderIDs p, cpReceiverIDs = prReceiverIDs p,
              cpDataTopic = chDataTopic c, cpReason = prReason p \<rparr> \<rparr>)
       cm c"

section \<open>Channel updates\<close>

definition add_kernels_of :: "string \<Rightarrow> string list \<Rightarrow> bool gomap \<Rightarrow> bool gomap" where
  "add_kernels_of kid ids m =
     foldl (\<lambda>m i. if has_colon i \<and> kernel_part i \<noteq> kid then go_put (kernel_part i) True m else m) m ids"

definition update_kernels :: "string \<Rightarrow> Channel \<Rightarrow> bool gomap" where
  "update_kernels kid c =
     foldl (\<lambda>m k. if k \<noteq> kid then go_put k True m else m)
       (add_kernels_of kid (chReceiverIDs c) (add_kernels_of kid (chSenderIDs c) []))
       (map snd (chRemoteReceivers c))"

definition update_message :: "time \<Rightarrow> string \<Rightarrow> Channel \<Rightarrow> ControlMessage" where
  "update_message now kid c =
     (control_message ''channel_update'' now kid)
       \<lparr> ctChannelUpdate := Some \<lparr> cuChannelID = chID c, cuCreatorID = chCreatorID c,
           cuSenderIDs = chSenderIDs c, cuReceiverIDs = chReceiverIDs c, cuStatus = chStatus c \<rparr> \<rparr>"

definition notifyRemoteKernelsOfChannelUpdate ::
    "marshal \<Rightarrow> time \<Rightarrow> ChannelManager \<Rightarrow> Channel \<Rightarrow> effect list" where
  "notifyRemoteKernelsOfChannelUpdate marshal now cm c =
     (if \<not> cmForward cm then []
      else case marshal (update_message now (cmKernelID cm) c) of
        None \<Rightarrow> []
      | Some payload \<Rightarrow>
          map (\<lambda>(k, _). Forward k (control_packet (chID c) 0 payload (cmKernelID cm) 0) False)
            (update_kernels (cmKernelID cm) c))"

definition record_kernels :: "string list \<Rightarrow> string gomap \<Rightarrow> string gomap" where
  "record_kernels ids m =
     foldl (\<lambda>m i. if has_colon i then go_put (connector_part i) (kernel_part i) m else m) m ids"

definition added_local :: "string \<Rightarrow> string list \<Rightarrow> string list \<Rightarrow> string list" where
  "added_local kid old new =
     map (\<lambda>r. if has_colon r then connector_part r else r)
       (filter (\<lambda>r. r \<notin> set old \<and> (has_colon r \<longrightarrow> kernel_part r = kid)) new)"

definition handleChannelUpdate ::
    "ChannelUpdateMessage \<Rightarrow> ChannelManager \<Rightarrow> Channel \<Rightarrow> Channel \<times> effect list" where
  "handleChannelUpdate u cm c =
     (let c1 = c\<lparr> chSenderIDs := cuSenderIDs u, chReceiverIDs := cuReceiverIDs u,
                  chStatus := (if cuStatus u \<noteq> [] then cuStatus u else chStatus c),
                  chRemoteReceivers := record_kernels (cuReceiverIDs u)
                                         (record_kernels (cuSenderIDs u) (chRemoteReceivers c)) \<rparr>;
          added = added_local (cmKernelID cm) (chReceiverIDs c) (cuReceiverIDs u)
      in (c1, if cmUpdateCallback cm \<and> added \<noteq> [] then [ChannelUpdateNotify (chID c) added] else []))"

section \<open>Lemmas\<close>

text \<open>Folds that put keys computed from list entries: the domain, and the value under a key.\<close>

lemma go_keys_put_fold:
  "go_keys (foldl (\<lambda>m i. if P i then go_put (f i) (v i) m else m) m ids) =
     go_keys m \<union> f ` {i \<in> set ids. P i}"
  by (induction ids arbitrary: m) auto

lemma go_map_ok_key_fold:
  "go_map_ok m \<Longrightarrow> go_map_ok (foldl (\<lambda>m i. if P i then go_put (f i) (v i) m else m) m ids)"
  by (induction ids arbitrary: m) auto

lemma go_get_key_fold:
  "go_get (foldl (\<lambda>m i. if P i then go_put (f i) (v i) m else m) m ids) k = Some w \<Longrightarrow>
     go_get m k = Some w \<or> (\<exists>i \<in> set ids. P i \<and> f i = k \<and> v i = w)"
  by (induction ids arbitrary: m) (fastforce simp: gomap_simps split: if_splits)+

lemma update_kernels_ok: "go_map_ok (update_kernels kid c)"
  unfolding update_kernels_def add_kernels_of_def by (intro go_map_ok_key_fold) simp

lemma update_kernels_keys:
  "go_keys (update_kernels kid c) =
     (kernel_part ` {i \<in> set (GetParticipants c). has_colon i} \<union> snd ` set (chRemoteReceivers c)) - {kid}"
  unfolding update_kernels_def add_kernels_of_def go_keys_put_fold GetParticipants_def by auto

lemma append_target_keys [simp]: "go_keys (append_target k v m) = insert k (go_keys m)"
  by (simp add: append_target_def)

lemma append_target_ok [simp]: "go_map_ok m \<Longrightarrow> go_map_ok (append_target k v m)"
  by (simp add: append_target_def)

lemma add_kernel_once_keys [simp]:
  "go_keys (add_kernel_once kid k m) = go_keys m \<union> ({k} - {kid})"
  by (auto simp: add_kernel_once_def dest: go_get_in_keys)

lemma add_kernel_once_ok [simp]: "go_map_ok m \<Longrightarrow> go_map_ok (add_kernel_once kid k m)"
  by (simp add: add_kernel_once_def)

text \<open>The kernel a participant entry names: its prefix, or the recorded kernel of a bare name.\<close>

definition entry_kernel :: "Channel \<Rightarrow> string \<Rightarrow> string option" where
  "entry_kernel c i = (if has_colon i then Some (kernel_part i) else go_get (chRemoteReceivers c) i)"

lemma control_receivers_keys:
  "go_keys (foldl (\<lambda>m i. if has_colon i then add_kernel_once kid (kernel_part i) m
                  else case go_get (chRemoteReceivers c) i of
                         None \<Rightarrow> m | Some k \<Rightarrow> add_kernel_once kid k m) m ids) =
     go_keys m \<union> ({k. \<exists>i \<in> set ids. entry_kernel c i = Some k} - {kid})"
  by (induction ids arbitrary: m) (auto simp: entry_kernel_def split: option.split)

lemma control_senders_keys:
  "go_keys (foldl (\<lambda>m i. if has_colon i \<and> kernel_part i \<noteq> kid then append_target (kernel_part i) [] m else m) m ids)
     = go_keys m \<union> (kernel_part ` {i \<in> set ids. has_colon i} - {kid})"
  by (induction ids arbitrary: m) auto

lemma control_kernels_keys:
  "go_keys (control_kernels kid c) =
     (kernel_part ` {i \<in> set (chSenderIDs c). has_colon i} \<union>
      {k. \<exists>i \<in> set (chReceiverIDs c). entry_kernel c i = Some k}) - {kid}"
  unfolding control_kernels_def control_receivers_keys control_senders_keys by auto

lemma control_kernels_ok: "go_map_ok (control_kernels kid c)"
proof -
  have "go_map_ok (foldl (\<lambda>m i. if has_colon i \<and> kernel_part i \<noteq> kid then append_target (kernel_part i) [] m else m) m ids)"
    if "go_map_ok m" for m ids
    using that by (induction ids arbitrary: m) auto
  moreover have "go_map_ok (foldl (\<lambda>m i. if has_colon i then add_kernel_once kid (kernel_part i) m
                  else case go_get (chRemoteReceivers c) i of
                         None \<Rightarrow> m | Some k \<Rightarrow> add_kernel_once kid k m) m ids)"
    if "go_map_ok m" for m ids
    using that by (induction ids arbitrary: m) (auto split: option.split)
  ultimately show ?thesis unfolding control_kernels_def by simp
qed

lemma record_kernels_keys:
  "go_keys (record_kernels ids m) = go_keys m \<union> connector_part ` {i \<in> set ids. has_colon i}"
  by (simp add: record_kernels_def go_keys_put_fold)

text \<open>Overwriting: the recorded kernel of a name is that of an entry with this name.\<close>

lemma record_kernels_get:
  assumes "go_get (record_kernels ids m) x = Some k"
  shows "(\<exists>i \<in> set ids. has_colon i \<and> connector_part i = x \<and> kernel_part i = k) \<or>
     go_get m x = Some k \<and> (\<forall>i \<in> set ids. has_colon i \<longrightarrow> connector_part i \<noteq> x)"
  using assms unfolding record_kernels_def
  by (induction ids arbitrary: m) (fastforce simp: gomap_simps split: if_splits)+

lemma record_both_get:
  assumes "i \<in> set (ss @ rs)" and "has_colon i"
  shows "\<exists>j \<in> set (ss @ rs). has_colon j \<and> connector_part j = connector_part i \<and>
     go_get (record_kernels rs (record_kernels ss m)) (connector_part i) = Some (kernel_part j)"
proof -
  have "connector_part i \<in> go_keys (record_kernels rs (record_kernels ss m))"
    unfolding record_kernels_keys using assms by auto
  then obtain k where k: "go_get (record_kernels rs (record_kernels ss m)) (connector_part i) = Some k"
    using go_keys_get by blast
  from record_kernels_get [OF k] show ?thesis
  proof
    assume "\<exists>j \<in> set rs. has_colon j \<and> connector_part j = connector_part i \<and> kernel_part j = k"
    with k show ?thesis by auto
  next
    assume *: "go_get (record_kernels ss m) (connector_part i) = Some k \<and>
      (\<forall>j \<in> set rs. has_colon j \<longrightarrow> connector_part j \<noteq> connector_part i)"
    then have "i \<in> set ss" using assms by auto
    with record_kernels_get [of ss m "connector_part i" k] * assms(2) k show ?thesis by fastforce
  qed
qed

lemma qualified_iff: "has_colon r \<and> kernel_part r = k \<and> connector_part r = x \<longleftrightarrow>
    \<not> has_colon k \<and> r = qualify k x"
  by (metis connector_part_qualify has_colon_qualify kernel_part_no_colon kernel_part_qualify qualify_parts)

lemma added_local_iff:
  "x \<in> set (added_local kid old new) \<longleftrightarrow>
     (\<exists>r \<in> set new - set old. r = qualify kid x \<and> \<not> has_colon kid \<or> r = x \<and> \<not> has_colon r)"
proof -
  have "x \<in> set (added_local kid old new) \<longleftrightarrow>
     (\<exists>r \<in> set new - set old. (has_colon r \<and> kernel_part r = kid \<and> connector_part r = x) \<or> (r = x \<and> \<not> has_colon r))"
    by (auto simp: added_local_def image_iff split: if_splits)
  then show ?thesis unfolding qualified_iff by blast
qed

section \<open>Fan-out to kernels\<close>

text \<open>
  Two operations send one packet to a computed set of kernels.  Their contract: the table of kernels
  has no duplicate, is the set of kernels meant, and leaves the sending kernel out.
\<close>

locale kernel_fanout =
  fixes table :: "string \<Rightarrow> Channel \<Rightarrow> 'v gomap"
    and dest :: "string \<Rightarrow> Channel \<Rightarrow> string set"
  assumes table_ok: "go_map_ok (table kid c)"
    and table_keys: "go_keys (table kid c) = dest kid c"
    and not_self: "kid \<notin> dest kid c"
begin

lemma forward_iff:
  "Forward k p b \<in> set (map (\<lambda>(k, _). Forward k q False) (table kid c)) \<longleftrightarrow>
     k \<in> dest kid c \<and> p = q \<and> \<not> b"
  unfolding table_keys [symmetric] by force

lemma forward_once: "distinct (map (\<lambda>(k, _). Forward k q False) (table kid c))"
proof -
  have "map (\<lambda>(k, _). Forward k q False) (table kid c) = map (\<lambda>k. Forward k q False) (map fst (table kid c))"
    by auto
  then show ?thesis using table_ok by (simp add: distinct_map inj_on_def)
qed

lemma no_self_forward: "Forward kid p b \<notin> set (map (\<lambda>(k, _). Forward k q False) (table kid c))"
  using forward_iff not_self by blast

end

definition update_dest :: "string \<Rightarrow> Channel \<Rightarrow> string set" where
  "update_dest kid c =
     (kernel_part ` {i \<in> set (GetParticipants c). has_colon i} \<union> snd ` set (chRemoteReceivers c)) - {kid}"

definition control_dest :: "string \<Rightarrow> Channel \<Rightarrow> string set" where
  "control_dest kid c =
     (kernel_part ` {i \<in> set (chSenderIDs c). has_colon i} \<union>
      {k. \<exists>i \<in> set (chReceiverIDs c). entry_kernel c i = Some k}) - {kid}"

interpretation upd: kernel_fanout update_kernels update_dest
  by unfold_locales (simp_all add: update_kernels_ok update_kernels_keys update_dest_def)

interpretation ctl: kernel_fanout control_kernels control_dest
  by unfold_locales (simp_all add: control_kernels_ok control_kernels_keys control_dest_def)

section \<open>Properties\<close>

text \<open>
  When the participants of a channel have changed, every remote kernel that one of its senders,
  receivers or recorded connectors belongs to gets exactly one update, the kernel itself gets none,
  and the update carries the channel's identifier and the encoded current lists and status.
\<close>

theorem update_notification_exact:
  assumes "cmForward cm" and "marshal (update_message now (cmKernelID cm) c) = Some payload"
  shows "(\<forall>k p b. Forward k p b \<in> set (notifyRemoteKernelsOfChannelUpdate marshal now cm c) \<longleftrightarrow>
       k \<noteq> cmKernelID cm \<and> p = control_packet (chID c) 0 payload (cmKernelID cm) 0 \<and> \<not> b \<and>
       ((\<exists>i \<in> set (GetParticipants c). has_colon i \<and> kernel_part i = k) \<or>
        k \<in> snd ` set (chRemoteReceivers c)))
    \<and> distinct (notifyRemoteKernelsOfChannelUpdate marshal now cm c)"
proof -
  have eq: "notifyRemoteKernelsOfChannelUpdate marshal now cm c =
      map (\<lambda>(k, _). Forward k (control_packet (chID c) 0 payload (cmKernelID cm) 0) False)
        (update_kernels (cmKernelID cm) c)"
    using assms by (simp add: notifyRemoteKernelsOfChannelUpdate_def)
  show ?thesis
    unfolding eq upd.forward_iff using upd.forward_once by (auto simp: update_dest_def)
qed

definition demo_channel :: Channel where
  "demo_channel = empty_channel
     \<lparr> chSenderIDs := [qualify ''k1'' ''a''], chReceiverIDs := [qualify ''k2'' ''b'', qualify ''k3'' ''c''] \<rparr>"

definition demo_kernel :: ChannelManager where
  "demo_kernel = (NewChannelManager demo_evidence)\<lparr>cmForward := True, cmKernelID := ''k1''\<rparr>"

lemmas demo_sync_defs = demo_channel_def demo_kernel_def NewChannelManager_def empty_channel_def
  GetParticipants_def has_colon_def kernel_part_def connector_part_def qualify_def

theorem update_notification_exact_witness:
  "Forward ''k3'' (control_packet ''ch'' 0 ''json'' ''k1'' 0) False
     \<in> set (notifyRemoteKernelsOfChannelUpdate (\<lambda>_. Some ''json'') 0 demo_kernel demo_channel)"
proof -
  have "cmForward demo_kernel" "chID demo_channel = ''ch''" "cmKernelID demo_kernel = ''k1''"
      "\<exists>i \<in> set (GetParticipants demo_channel). has_colon i \<and> kernel_part i = ''k3''"
    by (simp_all add: demo_sync_defs)
  then show ?thesis
    using update_notification_exact [of demo_kernel "\<lambda>_. Some ''json''" 0 demo_channel "''json''"]
    by simp
qed


definition demo_remote :: ChannelManager where
  "demo_remote = (NewChannelManager demo_evidence)\<lparr>cmKernelID := ''k2'', cmUpdateCallback := True\<rparr>"


text \<open>
  A control packet that is forwarded names its sender with a kernel: the sender of the forwarded
  packet is qualified, its bare name is unchanged, and a local sender gets the identifier of this
  kernel.  The same packet goes to each remote kernel of the participants once.
\<close>

theorem forwarded_control_qualified:
  assumes "Forward k p b \<in> set (forwardControlMessageToRemoteKernels packet cm c)"
    and "dpSenderID packet \<noteq> []"
  shows "has_colon (dpSenderID p) \<and> raw_id (dpSenderID p) = raw_id (dpSenderID packet)
    \<and> dpPayload p = dpPayload packet \<and> dpMessageType p = dpMessageType packet
    \<and> (\<not> has_colon (dpSenderID packet) \<and> go_get (chRemoteReceivers c) (dpSenderID packet) = None \<longrightarrow>
         dpSenderID p = qualify (cmKernelID cm) (dpSenderID packet))
    \<and> k \<noteq> cmKernelID cm
    \<and> (\<forall>k'. Forward k' p b \<in> set (forwardControlMessageToRemoteKernels packet cm c) \<longleftrightarrow>
         k' \<in> control_dest (cmKernelID cm) c)
    \<and> distinct (forwardControlMessageToRemoteKernels packet cm c)"
proof -
  let ?q = "qualify_sender (cmKernelID cm) c packet"
  have fwd: "cmForward cm"
    using assms(1) by (auto simp: forwardControlMessageToRemoteKernels_def split: if_splits)
  then have eq: "forwardControlMessageToRemoteKernels packet cm c =
      map (\<lambda>(k, _). Forward k ?q False) (control_kernels (cmKernelID cm) c)"
    by (simp add: forwardControlMessageToRemoteKernels_def)
  have p: "p = ?q" "\<not> b" and k: "k \<in> control_dest (cmKernelID cm) c"
    using assms(1) unfolding eq ctl.forward_iff by blast+
  have "has_colon (dpSenderID ?q) \<and> raw_id (dpSenderID ?q) = raw_id (dpSenderID packet)
      \<and> dpPayload ?q = dpPayload packet \<and> dpMessageType ?q = dpMessageType packet"
    using assms(2) by (auto simp: qualify_sender_def id_simps split: option.split)
  moreover have "\<not> has_colon (dpSenderID packet) \<and> go_get (chRemoteReceivers c) (dpSenderID packet) = None \<longrightarrow>
         dpSenderID ?q = qualify (cmKernelID cm) (dpSenderID packet)"
    using assms(2) by (simp add: qualify_sender_def)
  ultimately show ?thesis
    unfolding eq ctl.forward_iff p(1) using ctl.forward_once ctl.not_self k p(2) by blast
qed

theorem forwarded_control_qualified_witness:
  "\<exists>p. Forward ''k2'' p False \<in> set (forwardControlMessageToRemoteKernels
          (control_packet ''ch'' 0 ''json'' ''a'' 0) demo_kernel demo_channel)
     \<and> dpSenderID p = qualify ''k1'' ''a''"
proof -
  let ?e = "forwardControlMessageToRemoteKernels (control_packet ''ch'' 0 ''json'' ''a'' 0) demo_kernel demo_channel"
  obtain p where p: "Forward ''k2'' p False \<in> set ?e"
    by (simp add: forwardControlMessageToRemoteKernels_def control_kernels_def append_target_def
        add_kernel_once_def demo_sync_defs)
  have "dpSenderID (control_packet ''ch'' 0 ''json'' ''a'' 0) = ''a''" "\<not> has_colon ''a''"
      "go_get (chRemoteReceivers demo_channel) ''a'' = None" "cmKernelID demo_kernel = ''k1''"
    by (simp_all add: control_packet_def demo_sync_defs)
  with forwarded_control_qualified [OF p] p show ?thesis by auto
qed

end
