(* ===== verification/Channel_Permissions.thy ===== *)
theory Channel_Permissions
  imports Channel_Sync
begin

text \<open>
  Changing the participants of an active channel: subscription requests of outsiders and permission
  changes of participants (\<^verbatim>\<open>RequestChannelSubscription\<close> to \<^verbatim>\<open>StorePermissionRequestFromRemote\<close> of
  \<^verbatim>\<open>kernel/circulation/channel_manager.go\<close>).

  All of these take the mutex \<^verbatim>\<open>permissionMu\<close>.  \<open>chPermLocked\<close> says that an earlier call returned
  without releasing it; a call then never returns, which is the value \<open>None\<close>.  The goroutines a call
  starts (broadcast, notification, callback) are part of its effects; a panic in one of them ends
  the process and is the error \<open>PermPanic\<close>.  Request identifiers are UUIDs, given as arguments.
\<close>

section \<open>Errors and helpers\<close>

datatype perm_error =
  PermNotActive | InvalidRole string | AlreadyParticipant | RequestExists | ApproverNotParticipant
| RequestNotFound | RequestNotPending string | AlreadySender string | AlreadyReceiver string
| ReceiverCannotSend string | SenderCannotReceive string | InvalidSubscriptionType string
| RequesterNotParticipant | InvalidChangeType string | TargetNotSender | TargetNotReceiver
| LastSender | LastReceiver | NotApprover | PermPanic

definition under_lock :: "Channel \<Rightarrow> 'a \<Rightarrow> 'a option" where
  "under_lock c r = (if chPermLocked c then None else Some r)"

definition find_request :: "string \<Rightarrow> Channel \<Rightarrow> PermissionChangeRequest option" where
  "find_request rid c = find (\<lambda>rq. rqRequestID rq = rid) (chRequests c)"

text \<open>Requests are pointers: a change to the one found is a change in the list.\<close>

fun update_first ::
    "string \<Rightarrow> (PermissionChangeRequest \<Rightarrow> PermissionChangeRequest) \<Rightarrow>
     PermissionChangeRequest list \<Rightarrow> PermissionChangeRequest list" where
  "update_first rid f [] = []"
| "update_first rid f (rq # rqs) = (if rqRequestID rq = rid then f rq # rqs else rq # update_first rid f rqs)"

definition set_request ::
    "string \<Rightarrow> (PermissionChangeRequest \<Rightarrow> PermissionChangeRequest) \<Rightarrow> Channel \<Rightarrow> Channel" where
  "set_request rid f c = c\<lparr>chRequests := update_first rid f (chRequests c)\<rparr>"

definition new_request ::
    "string \<Rightarrow> string \<Rightarrow> string \<Rightarrow> string \<Rightarrow> string \<Rightarrow> string \<Rightarrow> time \<Rightarrow> PermissionChangeRequest" where
  "new_request rid requester chid ty target why now =
     \<lparr> rqRequestID = rid, rqRequesterID = requester, rqChannelID = chid, rqChangeType = ty,
       rqTargetID = target, rqReason = why, rqStatus = ''pending'', rqCreatedAt = now,
       rqApprovedAt = None, rqApprovedBy = [], rqRejectedAt = None, rqRejectedBy = [],
       rqRejectReason = [] \<rparr>"

definition mark_approved :: "time \<Rightarrow> string \<Rightarrow> PermissionChangeRequest \<Rightarrow> PermissionChangeRequest" where
  "mark_approved now who rq = rq\<lparr>rqStatus := ''approved'', rqApprovedAt := Some now, rqApprovedBy := who\<rparr>"

section \<open>Subscription requests\<close>

definition RequestChannelSubscription ::
    "string \<Rightarrow> time \<Rightarrow> string \<Rightarrow> string \<Rightarrow> string \<Rightarrow> Channel \<Rightarrow>
     ((perm_error + PermissionChangeRequest) \<times> Channel) option" where
  "RequestChannelSubscription rid now sub role why c = under_lock c
     (if chStatus c \<noteq> ChannelStatusActive then (Inl PermNotActive, c)
      else if role \<noteq> ''sender'' \<and> role \<noteq> ''receiver'' then (Inl (InvalidRole role), c)
      else if IsParticipant c sub then (Inl AlreadyParticipant, c)
      else if list_ex (\<lambda>rq. rqRequesterID rq = sub \<and> rqStatus rq = ''pending'') (chRequests c)
      then (Inl RequestExists, c)
      else let rq = new_request rid sub [] (''add_'' @ role) sub why now
           in (Inr rq, c\<lparr>chRequests := chRequests c @ [rq]\<rparr>))"

definition subscription_sender :: "PermissionChangeRequest \<Rightarrow> string" where
  "subscription_sender rq =
     (if rqRequesterID rq \<noteq> [] \<and> has_colon (rqRequesterID rq) then rqRequesterID rq else rqTargetID rq)"

definition subscription_receiver :: "PermissionChangeRequest \<Rightarrow> string" where
  "subscription_receiver rq =
     (if rqRequesterID rq \<noteq> [] \<and> has_colon (rqRequesterID rq)
      then qualify (kernel_part (rqRequesterID rq)) (rqTargetID rq) else rqTargetID rq)"

definition apply_subscription :: "PermissionChangeRequest \<Rightarrow> Channel \<Rightarrow> perm_error + Channel" where
  "apply_subscription rq c =
     (let sid = subscription_sender rq; recv = subscription_receiver rq
      in if rqChangeType rq = ''add_sender'' then
           (if sid \<in> set (chSenderIDs c) then Inl (AlreadySender sid)
            else if sid \<in> set (chReceiverIDs c) then Inl (ReceiverCannotSend sid)
            else Inr (c\<lparr>chSenderIDs := chSenderIDs c @ [sid]\<rparr>))
         else if rqChangeType rq = ''add_receiver'' then
           (if recv \<in> set (chReceiverIDs c) then Inl (AlreadyReceiver recv)
            else if recv \<in> set (chSenderIDs c) then Inl (SenderCannotReceive recv)
            else Inr (c\<lparr>chReceiverIDs := chReceiverIDs c @ [recv]\<rparr>))
         else Inl (InvalidSubscriptionType (rqChangeType rq)))"

definition ApproveChannelSubscription ::
    "marshal \<Rightarrow> time \<Rightarrow> string \<Rightarrow> string \<Rightarrow> ChannelManager \<Rightarrow> Channel \<Rightarrow>
     ((perm_error + string) \<times> Channel \<times> effect list) option" where
  "ApproveChannelSubscription marshal now approver rid cm c = under_lock c
     (if \<not> IsParticipant c approver then (Inl ApproverNotParticipant, c, [])
      else case find_request rid c of
        None \<Rightarrow> (Inl RequestNotFound, c, [])
      | Some rq \<Rightarrow>
          if rqStatus rq \<noteq> ''pending'' then (Inl (RequestNotPending (rqStatus rq)), c, [])
          else case apply_subscription rq c of
            Inl e \<Rightarrow> (Inl e, c, [])
          | Inr c1 \<Rightarrow>
              let c2 = set_request rid (mark_approved now approver) c1
              in (Inr (rqTargetID rq), c2, notifyRemoteKernelsOfChannelUpdate marshal now cm c2))"

definition RejectChannelSubscription ::
    "time \<Rightarrow> string \<Rightarrow> string \<Rightarrow> string \<Rightarrow> Channel \<Rightarrow> ((perm_error + unit) \<times> Channel) option" where
  "RejectChannelSubscription now approver rid why c = under_lock c
     (if \<not> IsParticipant c approver then (Inl ApproverNotParticipant, c)
      else case find_request rid c of
        None \<Rightarrow> (Inl RequestNotFound, c)
      | Some rq \<Rightarrow>
          if rqStatus rq \<noteq> ''pending'' then (Inl (RequestNotPending (rqStatus rq)), c)
          else (Inr (), set_request rid (\<lambda>rq. rq\<lparr> rqStatus := ''rejected'', rqRejectedBy := approver,
                  rqRejectedAt := Some now, rqRejectReason := why \<rparr>) c))"

section \<open>Permission changes\<close>

definition check_change :: "string \<Rightarrow> string \<Rightarrow> Channel \<Rightarrow> perm_error option" where
  "check_change ty target c =
     (if ty = ''add_sender'' then
        (if CanSend c target then Some (AlreadySender target)
         else if CanReceive c target then Some (ReceiverCannotSend target) else None)
      else if ty = ''add_receiver'' then
        (if CanReceive c target then Some (AlreadyReceiver target)
         else if CanSend c target then Some (SenderCannotReceive target) else None)
      else if ty = ''remove_sender'' then
        (if \<not> CanSend c target then Some TargetNotSender
         else if length (chSenderIDs c) \<le> 1 then Some LastSender else None)
      else if ty = ''remove_receiver'' then
        (if \<not> CanReceive c target then Some TargetNotReceiver
         else if length (chReceiverIDs c) \<le> 1 then Some LastReceiver else None)
      else Some (InvalidChangeType ty))"

definition RequestPermissionChange ::
    "marshal \<Rightarrow> string \<Rightarrow> time \<Rightarrow> string \<Rightarrow> string \<Rightarrow> string \<Rightarrow> string \<Rightarrow> ChannelManager \<Rightarrow> Channel \<Rightarrow>
     ((perm_error + PermissionChangeRequest) \<times> Channel \<times> effect list) option" where
  "RequestPermissionChange marshal rid now requester ty target why cm c = under_lock c
     (if chStatus c \<noteq> ChannelStatusActive then (Inl PermNotActive, c, [])
      else if \<not> IsParticipant c requester then (Inl RequesterNotParticipant, c, [])
      else case check_change ty target c of
        Some e \<Rightarrow> (Inl e, c, [])
      | None \<Rightarrow>
          let rq = new_request rid requester (chID c) ty target why now;
              c1 = c\<lparr>chRequests := chRequests c @ [rq], chLastActivity := now\<rparr>
          in case broadcastPermissionRequest marshal now rq cm c1 of
               (Inl _, c2, effs) \<Rightarrow> (Inl PermPanic, c2, effs)
             | (Inr _, c2, effs) \<Rightarrow> (Inr rq, c2, effs))"

definition qualified_target :: "string \<Rightarrow> PermissionChangeRequest \<Rightarrow> string" where
  "qualified_target kid rq =
     (if has_colon (rqTargetID rq) then rqTargetID rq
      else if rqRequesterID rq \<noteq> [] \<and> has_colon (rqRequesterID rq)
      then qualify (kernel_part (rqRequesterID rq)) (rqTargetID rq)
      else qualify kid (rqTargetID rq))"

definition removed_sender :: "PermissionChangeRequest \<Rightarrow> string" where
  "removed_sender rq =
     (if \<not> has_colon (rqTargetID rq) \<and> rqRequesterID rq \<noteq> [] \<and> has_colon (rqRequesterID rq)
      then qualify (kernel_part (rqRequesterID rq)) (rqTargetID rq) else rqTargetID rq)"

definition apply_change :: "string \<Rightarrow> PermissionChangeRequest \<Rightarrow> Channel \<Rightarrow> perm_error + Channel" where
  "apply_change kid rq c =
     (let who = qualified_target kid rq
      in if rqChangeType rq = ''add_sender'' then
           (if who \<in> set (chReceiverIDs c) then Inl (ReceiverCannotSend who)
            else Inr (c\<lparr> chSenderIDs := chSenderIDs c @ [who],
                         chRemoteReceivers := add_remote kid (chReceiverIDs c) (chRemoteReceivers c) \<rparr>))
         else if rqChangeType rq = ''remove_sender'' then
           Inr (c\<lparr>chSenderIDs := remove1 (removed_sender rq) (chSenderIDs c)\<rparr>)
         else if rqChangeType rq = ''add_receiver'' then
           (if who \<in> set (chSenderIDs c) then Inl (SenderCannotReceive who)
            else Inr (c\<lparr> chReceiverIDs := chReceiverIDs c @ [who],
                         chRemoteReceivers := add_remote kid (chSenderIDs c) (chRemoteReceivers c) \<rparr>))
         else if rqChangeType rq = ''remove_receiver'' then
           Inr (c\<lparr>chReceiverIDs := remove1 (rqTargetID rq) (chReceiverIDs c)\<rparr>)
         else Inr c)"

definition last_match :: "string \<Rightarrow> string list \<Rightarrow> string" where
  "last_match target ids = foldl (\<lambda>acc i. if raw_id i = raw_id target then i else acc) target ids"

definition first_match :: "string \<Rightarrow> string list \<Rightarrow> string" where
  "first_match target ids =
     (case find (\<lambda>i. raw_id i = raw_id target) ids of None \<Rightarrow> target | Some i \<Rightarrow> i)"

definition resolved_target :: "PermissionChangeRequest \<Rightarrow> Channel \<Rightarrow> string" where
  "resolved_target rq c =
     (if rqChangeType rq = ''add_receiver'' then last_match (rqTargetID rq) (chReceiverIDs c)
      else if rqChangeType rq = ''add_sender'' then last_match (rqTargetID rq) (chSenderIDs c)
      else if rqChangeType rq = ''remove_receiver'' then first_match (rqTargetID rq) (chReceiverIDs c)
      else if rqChangeType rq = ''remove_sender'' then first_match (rqTargetID rq) (chSenderIDs c)
      else rqTargetID rq)"

text \<open>The error returns of this method leave the mutex locked.\<close>

definition ApprovePermissionChange ::
    "marshal \<Rightarrow> time \<Rightarrow> string \<Rightarrow> string \<Rightarrow> ChannelManager \<Rightarrow> Channel \<Rightarrow>
     ((perm_error + unit) \<times> Channel \<times> effect list) option" where
  "ApprovePermissionChange marshal now approver rid cm c = under_lock c
     (let fail = \<lambda>e. (Inl e, c\<lparr>chPermLocked := True\<rparr>, [])
      in if chStatus c \<noteq> ChannelStatusActive then fail PermNotActive
         else if approver \<noteq> chApproverID c then fail NotApprover
         else case find_request rid c of
           None \<Rightarrow> fail RequestNotFound
         | Some rq \<Rightarrow>
             if rqStatus rq \<noteq> ''pending'' then fail (RequestNotPending (rqStatus rq))
             else case apply_change (cmKernelID cm) rq c of
               Inl e \<Rightarrow> fail e
             | Inr c1 \<Rightarrow>
                 let c2 = (set_request rid (mark_approved now approver) c1)\<lparr>chLastActivity := now\<rparr>
                 in (Inr (), c2,
                     (if cmPermissionCallback cm
                      then [PermissionChanged (chID c) (resolved_target rq c2) (rqChangeType rq)] else [])
                     @ notifyRemoteKernelsOfChannelUpdate marshal now cm c2))"

definition RejectPermissionChange ::
    "marshal \<Rightarrow> time \<Rightarrow> string \<Rightarrow> string \<Rightarrow> string \<Rightarrow> ChannelManager \<Rightarrow> Channel \<Rightarrow>
     ((perm_error + unit) \<times> Channel \<times> effect list) option" where
  "RejectPermissionChange marshal now approver rid why cm c = under_lock c
     (if chStatus c \<noteq> ChannelStatusActive then (Inl PermNotActive, c, [])
      else if approver \<noteq> chApproverID c then (Inl NotApprover, c, [])
      else case find_request rid c of
        None \<Rightarrow> (Inl RequestNotFound, c, [])
      | Some rq \<Rightarrow>
          if rqStatus rq \<noteq> ''pending'' then (Inl (RequestNotPending (rqStatus rq)), c, [])
          else let c1 = (set_request rid (\<lambda>rq. rq\<lparr>rqStatus := ''rejected'', rqRejectReason := why\<rparr>) c)
                          \<lparr>chLastActivity := now\<rparr>
               in case broadcastPermissionResult marshal now rid ''rejected'' approver why cm c1 of
                    (Inl _, c2, effs) \<Rightarrow> (Inl PermPanic, c2, effs)
                  | (Inr _, c2, effs) \<Rightarrow> (Inr (), c2, effs))"

definition GetPermissionRequests :: "Channel \<Rightarrow> PermissionChangeRequest list option" where
  "GetPermissionRequests c = under_lock c (chRequests c)"

definition GetPermissionRequestByID :: "string \<Rightarrow> Channel \<Rightarrow> PermissionChangeRequest option option" where
  "GetPermissionRequestByID rid c = under_lock c (find_request rid c)"

definition StorePermissionRequestFromRemote ::
    "time \<Rightarrow> PermissionRequestMessage \<Rightarrow> string \<Rightarrow> Channel \<Rightarrow> Channel option" where
  "StorePermissionRequestFromRemote now m requester c = under_lock c
     (if find_request (pmRequestID m) c \<noteq> None then c
      else if pmChangeType m = ''add_sender'' \<and> CanReceive c (pmTargetID m) then c
      else if pmChangeType m = ''add_receiver'' \<and> CanSend c (pmTargetID m) then c
      else c\<lparr>chRequests := chRequests c @ [new_request (pmRequestID m) requester (pmChannelID m)
                (pmChangeType m) (pmTargetID m) (pmReason m) now]\<rparr>)"

section \<open>Lemmas\<close>

lemma under_lock_Some [simp]: "under_lock c r = Some r' \<longleftrightarrow> \<not> chPermLocked c \<and> r = r'"
  by (auto simp: under_lock_def)

lemma under_lock_None [simp]: "under_lock c r = None \<longleftrightarrow> chPermLocked c"
  by (simp add: under_lock_def)

lemma queue_self: "\<exists>q. c = c\<lparr>chQueue := q\<rparr>"
  by (rule exI [of _ "chQueue c"]) simp

lemma sendControlMessage_frame:
  "sendControlMessage marshal msg cm c = (res, c', effs) \<Longrightarrow> \<exists>q. c' = c\<lparr>chQueue := q\<rparr>"
  by (auto simp: sendControlMessage_def Let_def intro: queue_self split: option.splits if_splits)

lemma find_update_first:
  assumes "\<And>rq. rqRequestID (f rq) = rqRequestID rq"
  shows "find (\<lambda>rq. rqRequestID rq = rid') (update_first rid f rqs) =
    (if rid' = rid then map_option f (find (\<lambda>rq. rqRequestID rq = rid) rqs)
     else find (\<lambda>rq. rqRequestID rq = rid') rqs)"
  by (induction rqs) (auto simp: assms)

text \<open>What a change of participants can be, whichever of the two approvals made it.\<close>

definition roles_disjoint :: "Channel \<Rightarrow> bool" where
  "roles_disjoint c \<longleftrightarrow> set (chSenderIDs c) \<inter> set (chReceiverIDs c) = {}"

lemma apply_subscription_frame:
  assumes "apply_subscription rq c = Inr c'"
  shows "chRequests c' = chRequests c \<and> chPermLocked c' = chPermLocked c \<and> (roles_disjoint c \<longrightarrow> roles_disjoint c')"
  using assms by (auto simp: apply_subscription_def Let_def roles_disjoint_def split: if_splits)

lemma in_remove1: "x \<in> set (remove1 y xs) \<Longrightarrow> x \<in> set xs"
  using set_remove1_subset by fast

lemma apply_change_frame:
  assumes "apply_change kid rq c = Inr c'"
  shows "chRequests c' = chRequests c \<and> chPermLocked c' = chPermLocked c \<and> (roles_disjoint c \<longrightarrow> roles_disjoint c')"
  using assms
  by (auto simp: apply_change_def Let_def roles_disjoint_def disjoint_iff dest!: in_remove1 split: if_splits)

section \<open>The permission machine\<close>

inductive perm_step :: "ChannelManager \<Rightarrow> Channel \<Rightarrow> Channel \<Rightarrow> bool" for cm where
  request_subscription: "RequestChannelSubscription rid now sub role why c = Some (r1, c') \<Longrightarrow> perm_step cm c c'"
| approve_subscription: "ApproveChannelSubscription marshal now who rid cm c = Some (r2, c', effs)
     \<Longrightarrow> perm_step cm c c'"
| reject_subscription: "RejectChannelSubscription now who rid why c = Some (r3, c') \<Longrightarrow> perm_step cm c c'"
| request_change: "RequestPermissionChange marshal rid now who ty target why cm c = Some (r4, c', effs)
     \<Longrightarrow> perm_step cm c c'"
| approve_change: "ApprovePermissionChange marshal now who rid cm c = Some (r5, c', effs) \<Longrightarrow> perm_step cm c c'"
| reject_change: "RejectPermissionChange marshal now who rid why cm c = Some (r6, c', effs)
     \<Longrightarrow> perm_step cm c c'"
| store_remote: "StorePermissionRequestFromRemote now m who c = Some c' \<Longrightarrow> perm_step cm c c'"

text \<open>
  Every step is one of three: the participants stay and at most one pending request is added, or a
  pending request is decided; participants change only when it is approved.
\<close>

datatype perm_shape = Adds "PermissionChangeRequest list" | Decides string string

definition has_shape :: "Channel \<Rightarrow> Channel \<Rightarrow> perm_shape \<Rightarrow> bool" where
  "has_shape c c' sh \<longleftrightarrow> (case sh of
     Adds new \<Rightarrow>
       chRequests c' = chRequests c @ new \<and> (\<forall>rq \<in> set new. rqStatus rq = ''pending'') \<and>
       chSenderIDs c' = chSenderIDs c \<and> chReceiverIDs c' = chReceiverIDs c
   | Decides rid st \<Rightarrow>
       (\<exists>f rq. chRequests c' = update_first rid f (chRequests c) \<and> (\<forall>rq. rqRequestID (f rq) = rqRequestID rq)
          \<and> find_request rid c = Some rq \<and> rqStatus rq = ''pending'' \<and> (\<forall>rq. rqStatus (f rq) = st)) \<and>
       (st = ''approved'' \<and> (roles_disjoint c \<longrightarrow> roles_disjoint c') \<or>
        st = ''rejected'' \<and> chSenderIDs c' = chSenderIDs c \<and> chReceiverIDs c' = chReceiverIDs c))"

lemma shape_refl [intro]: "has_shape c c (Adds [])"
  by (simp add: has_shape_def)

lemma shape_queue: "has_shape c c' sh \<Longrightarrow> has_shape c (c'\<lparr>chQueue := q\<rparr>) sh"
  by (auto simp: has_shape_def roles_disjoint_def split: perm_shape.splits)

lemma new_request_pending [simp]: "rqStatus (new_request rid who chid ty target why now) = ''pending''"
  by (simp add: new_request_def)

lemma mark_approved_simps [simp]:
  "rqRequestID (mark_approved now who rq) = rqRequestID rq" "rqStatus (mark_approved now who rq) = ''approved''"
  by (simp_all add: mark_approved_def)

lemma approve_shape:
  assumes "find_request rid c = Some rq" and "rqStatus rq = ''pending''"
    and "chRequests c1 = chRequests c" and "roles_disjoint c \<longrightarrow> roles_disjoint c1"
  shows "has_shape c ((set_request rid (mark_approved now who) c1)\<lparr>chLastActivity := t\<rparr>) (Decides rid ''approved'')"
    and "has_shape c (set_request rid (mark_approved now who) c1) (Decides rid ''approved'')"
proof -
  have "\<exists>f rq. update_first rid (mark_approved now who) (chRequests c) = update_first rid f (chRequests c)
      \<and> (\<forall>rq. rqRequestID (f rq) = rqRequestID rq) \<and> find_request rid c = Some rq
      \<and> rqStatus rq = ''pending'' \<and> (\<forall>rq. rqStatus (f rq) = ''approved'')"
    using assms(1,2) by (intro exI [of _ "mark_approved now who"] exI [of _ rq]) simp
  then show "has_shape c ((set_request rid (mark_approved now who) c1)\<lparr>chLastActivity := t\<rparr>) (Decides rid ''approved'')"
    and "has_shape c (set_request rid (mark_approved now who) c1) (Decides rid ''approved'')"
    using assms(3,4) by (simp_all add: has_shape_def set_request_def roles_disjoint_def)
qed

lemma reject_shape:
  assumes "find_request rid c = Some rq" and "rqStatus rq = ''pending''"
    and "\<And>rq. rqRequestID (f rq) = rqRequestID rq" and "\<And>rq. rqStatus (f rq) = ''rejected''"
  shows "has_shape c ((set_request rid f c)\<lparr>chLastActivity := t\<rparr>) (Decides rid ''rejected'')"
    and "has_shape c (set_request rid f c) (Decides rid ''rejected'')"
  using assms by (auto simp: has_shape_def set_request_def)

lemma add_shape:
  "chRequests c' = chRequests c @ [new_request rid who chid ty target why now] \<Longrightarrow>
   chSenderIDs c' = chSenderIDs c \<Longrightarrow> chReceiverIDs c' = chReceiverIDs c \<Longrightarrow> \<exists>sh. has_shape c c' sh"
  by (intro exI [of _ "Adds [new_request rid who chid ty target why now]"]) (simp add: has_shape_def)

lemma idle_shape:
  "chRequests c' = chRequests c \<Longrightarrow>
   chSenderIDs c' = chSenderIDs c \<Longrightarrow> chReceiverIDs c' = chReceiverIDs c \<Longrightarrow> \<exists>sh. has_shape c c' sh"
  by (intro exI [of _ "Adds []"]) (simp add: has_shape_def)

lemma approve_shape_ex:
  assumes "find_request rid c = Some rq" and "rqStatus rq = ''pending''"
    and "chRequests c1 = chRequests c \<and> chPermLocked c1 = chPermLocked c \<and> (roles_disjoint c \<longrightarrow> roles_disjoint c1)"
    and "c2 = set_request rid (mark_approved now who) c1 \<or>
      c2 = (set_request rid (mark_approved now who) c1)\<lparr>chLastActivity := t\<rparr>"
  shows "\<exists>sh. has_shape c c2 sh"
  using approve_shape [OF assms(1,2), of c1] assms(3,4) by blast

lemma reject_shape_ex:
  assumes "find_request rid c = Some rq" and "rqStatus rq = ''pending''"
    and "c2 = set_request rid (\<lambda>rq. rq\<lparr>rqStatus := ''rejected'', rqRejectedBy := who,
                  rqRejectedAt := t', rqRejectReason := why\<rparr>) c \<or>
      c2 = (set_request rid (\<lambda>rq. rq\<lparr>rqStatus := ''rejected'', rqRejectReason := why\<rparr>) c)\<lparr>chLastActivity := t\<rparr>"
  shows "\<exists>sh. has_shape c c2 sh"
  using assms(3) by (elim disjE) (auto intro!: exI [of _ "Decides rid ''rejected''"] reject_shape [OF assms(1,2)])

lemma shape_queue_ex: "\<exists>sh. has_shape c c1 sh \<Longrightarrow> \<exists>q. c2 = c1\<lparr>chQueue := q\<rparr> \<Longrightarrow> \<exists>sh. has_shape c c2 sh"
  using shape_queue by blast

lemma request_subscription_shape:
  "RequestChannelSubscription rid now sub role why c = Some (r, c') \<Longrightarrow> \<exists>sh. has_shape c c' sh"
  by (auto simp: RequestChannelSubscription_def Let_def intro: add_shape idle_shape split: if_splits)

lemma approve_subscription_shape:
  assumes "ApproveChannelSubscription marshal now who rid cm c = Some (r, c', effs)"
  shows "\<exists>sh. has_shape c c' sh"
proof (cases "c' = c")
  case False
  then obtain rq c1 where "find_request rid c = Some rq" "rqStatus rq = ''pending''"
      "apply_subscription rq c = Inr c1" "c' = set_request rid (mark_approved now who) c1"
    using assms by (auto simp: ApproveChannelSubscription_def Let_def split: if_splits option.splits sum.splits)
  then show ?thesis by (auto intro: approve_shape_ex [OF _ _ apply_subscription_frame])
qed (blast intro: idle_shape)

lemma reject_subscription_shape:
  assumes "RejectChannelSubscription now who rid why c = Some (r, c')"
  shows "\<exists>sh. has_shape c c' sh"
proof (cases "c' = c")
  case False
  then obtain rq where "find_request rid c = Some rq" "rqStatus rq = ''pending''"
      "c' = set_request rid (\<lambda>rq. rq\<lparr>rqStatus := ''rejected'', rqRejectedBy := who,
                  rqRejectedAt := Some now, rqRejectReason := why\<rparr>) c"
    using assms by (auto simp: RejectChannelSubscription_def split: if_splits option.splits)
  then show ?thesis by (auto intro: reject_shape_ex)
qed (blast intro: idle_shape)

lemma request_change_shape:
  assumes "RequestPermissionChange marshal rid now who ty target why cm c = Some (r, c', effs)"
  shows "\<exists>sh. has_shape c c' sh"
proof (cases "c' = c")
  case False
  then obtain q where "c' = c\<lparr>chRequests := chRequests c @ [new_request rid who (chID c) ty target why now],
      chLastActivity := now, chQueue := q\<rparr>"
    using assms sendControlMessage_frame
    by (fastforce simp: RequestPermissionChange_def Let_def broadcastPermissionRequest_def
        split: if_splits option.splits prod.splits sum.splits)
  then show ?thesis by (intro add_shape) simp_all
qed (blast intro: idle_shape)

lemma approve_change_shape:
  assumes "ApprovePermissionChange marshal now who rid cm c = Some (r, c', effs)"
  shows "\<exists>sh. has_shape c c' sh"
proof (cases "c' = c\<lparr>chPermLocked := True\<rparr>")
  case True
  then show ?thesis by (intro idle_shape) simp_all
next
  case False
  then obtain rq c1 where "find_request rid c = Some rq" "rqStatus rq = ''pending''"
      "apply_change (cmKernelID cm) rq c = Inr c1"
      "c' = (set_request rid (mark_approved now who) c1)\<lparr>chLastActivity := now\<rparr>"
    using assms by (auto simp: ApprovePermissionChange_def Let_def split: if_splits option.splits sum.splits)
  then show ?thesis by (auto intro: approve_shape_ex [OF _ _ apply_change_frame])
qed

lemma reject_change_shape:
  assumes "RejectPermissionChange marshal now who rid why cm c = Some (r, c', effs)"
  shows "\<exists>sh. has_shape c c' sh"
proof (cases "c' = c")
  case False
  then obtain rq q where "find_request rid c = Some rq" "rqStatus rq = ''pending''"
      "c' = ((set_request rid (\<lambda>rq. rq\<lparr>rqStatus := ''rejected'', rqRejectReason := why\<rparr>) c)
             \<lparr>chLastActivity := now\<rparr>)\<lparr>chQueue := q\<rparr>"
    using assms sendControlMessage_frame
    by (fastforce simp: RejectPermissionChange_def Let_def broadcastPermissionResult_def
        split: if_splits option.splits prod.splits sum.splits)
  then show ?thesis
    using shape_queue_ex [OF reject_shape_ex [OF _ _ disjI2 [OF refl]]] by blast
qed (blast intro: idle_shape)

lemma store_remote_shape:
  "StorePermissionRequestFromRemote now m who c = Some c' \<Longrightarrow> \<exists>sh. has_shape c c' sh"
  by (auto simp: StorePermissionRequestFromRemote_def intro: add_shape idle_shape split: if_splits)

lemmas perm_shapes = request_subscription_shape approve_subscription_shape reject_subscription_shape
  request_change_shape approve_change_shape reject_change_shape store_remote_shape

lemma perm_step_shape: "perm_step cm c c' \<Longrightarrow> \<exists>sh. has_shape c c' sh"
  by (erule perm_step.cases) (blast intro: perm_shapes)+

lemma perm_step_unlocked: "perm_step cm c c' \<Longrightarrow> \<not> chPermLocked c"
  by (erule perm_step.cases)
    (auto simp: RequestChannelSubscription_def ApproveChannelSubscription_def RejectChannelSubscription_def
      RequestPermissionChange_def ApprovePermissionChange_def RejectPermissionChange_def
      StorePermissionRequestFromRemote_def)

lemma shape_roles: "has_shape c c' sh \<Longrightarrow> roles_disjoint c \<Longrightarrow> roles_disjoint c'"
  by (cases sh) (auto simp: has_shape_def roles_disjoint_def)

lemma perm_step_roles: "perm_step cm c c' \<Longrightarrow> roles_disjoint c \<Longrightarrow> roles_disjoint c'"
  using perm_step_shape shape_roles by blast

interpretation roles: stable_under "perm_step cm" roles_disjoint for cm
  by unfold_locales (rule perm_step_roles)

definition decided :: "string \<Rightarrow> string \<Rightarrow> Channel \<Rightarrow> bool" where
  "decided rid st c \<longleftrightarrow> st \<noteq> ''pending'' \<and> (\<exists>rq. find_request rid c = Some rq \<and> rqStatus rq = st)"

lemma shape_decided: "has_shape c c' sh \<Longrightarrow> decided rid st c \<Longrightarrow> decided rid st c'"
  by (cases sh)
    (auto simp: has_shape_def decided_def find_request_def find_append find_update_first split: option.splits)

interpretation req: stable_under "perm_step cm" "decided rid st" for cm rid st
  by unfold_locales (use perm_step_shape shape_decided in blast)

lemma approve_change_success:
  assumes "ApprovePermissionChange marshal now who rid cm c = Some (Inr (), c', effs)"
  obtains rq c1 where "chStatus c = ChannelStatusActive" "who = chApproverID c"
    "find_request rid c = Some rq" "rqStatus rq = ''pending''" "apply_change (cmKernelID cm) rq c = Inr c1"
    "c' = (set_request rid (mark_approved now who) c1)\<lparr>chLastActivity := now\<rparr>"
    "effs = (if cmPermissionCallback cm
             then [PermissionChanged (chID c) (resolved_target rq c') (rqChangeType rq)] else [])
            @ notifyRemoteKernelsOfChannelUpdate marshal now cm c'"
  using assms by (auto simp: ApprovePermissionChange_def Let_def split: if_splits option.splits sum.splits)

section \<open>Properties\<close>

text \<open>
  C21. No connector becomes both sender and receiver of a channel: no sequence of subscription
  requests, permission requests, approvals, rejections and requests from other kernels makes the two
  lists of identifiers overlap when they did not before.
\<close>

theorem roles_stay_disjoint:
  "(perm_step cm)\<^sup>*\<^sup>* c c' \<Longrightarrow> set (chSenderIDs c) \<inter> set (chReceiverIDs c) = {} \<Longrightarrow>
   set (chSenderIDs c') \<inter> set (chReceiverIDs c') = {}"
  using roles.stable_run unfolding roles_disjoint_def by blast

definition demo_perm :: Channel where
  "demo_perm = empty_channel\<lparr> chSenderIDs := [''a''], chReceiverIDs := [''b''] \<rparr>"

definition demo_perm_request :: "((perm_error + PermissionChangeRequest) \<times> Channel) option" where
  "demo_perm_request = RequestChannelSubscription ''r1'' 0 ''x'' ''receiver'' [] demo_perm"

definition demo_perm_pending :: Channel where
  "demo_perm_pending = snd (the demo_perm_request)"

definition demo_perm_approved :: Channel where
  "demo_perm_approved =
     fst (snd (the (ApproveChannelSubscription (\<lambda>_. None) 1 ''a'' ''r1'' demo_kernel demo_perm_pending)))"

lemmas demo_perm_defs = demo_perm_approved_def demo_perm_pending_def demo_perm_request_def demo_perm_def
  empty_channel_def RequestChannelSubscription_def under_lock_def IsParticipant_def raw_id_def
  new_request_def ApproveChannelSubscription_def find_request_def apply_subscription_def
  subscription_sender_def subscription_receiver_def has_colon_def set_request_def mark_approved_def
  channel_status_defs Let_def

lemma demo_perm_steps:
  "perm_step demo_kernel demo_perm demo_perm_pending"
  "perm_step demo_kernel demo_perm_pending demo_perm_approved"
proof -
  show "perm_step demo_kernel demo_perm demo_perm_pending"
    by (rule perm_step.request_subscription [of "''r1''" 0 "''x''" "''receiver''" "[]" demo_perm "fst (the demo_perm_request)"])
      (simp add: demo_perm_defs)
  show "perm_step demo_kernel demo_perm_pending demo_perm_approved"
    by (rule perm_step.approve_subscription [of "\<lambda>_. None" 1 "''a''" "''r1''" demo_kernel demo_perm_pending
          "Inr ''x''" demo_perm_approved "[]"])
      (simp add: demo_perm_defs notifyRemoteKernelsOfChannelUpdate_def)
qed

theorem roles_stay_disjoint_witness:
  "''x'' \<in> set (chReceiverIDs demo_perm_approved)
    \<and> set (chSenderIDs demo_perm_approved) \<inter> set (chReceiverIDs demo_perm_approved) = {}"
proof
  show "''x'' \<in> set (chReceiverIDs demo_perm_approved)" by (simp add: demo_perm_defs)
  have "(perm_step demo_kernel)\<^sup>*\<^sup>* demo_perm demo_perm_approved"
    using demo_perm_steps by (meson converse_rtranclp_into_rtranclp rtranclp.rtrancl_refl)
  moreover have "set (chSenderIDs demo_perm) \<inter> set (chReceiverIDs demo_perm) = {}"
    by (simp add: demo_perm_def)
  ultimately show "set (chSenderIDs demo_perm_approved) \<inter> set (chReceiverIDs demo_perm_approved) = {}"
    by (rule roles_stay_disjoint)
qed



text \<open>
  A request is decided once: a request that is approved or rejected keeps that status through
  every later sequence of operations.
\<close>

theorem request_decided_once:
  assumes "(perm_step cm)\<^sup>*\<^sup>* c c'"
    and "find_request rid c = Some rq" and "rqStatus rq \<noteq> ''pending''"
  shows "\<exists>rq'. find_request rid c' = Some rq' \<and> rqStatus rq' = rqStatus rq"
  using req.stable_run [OF assms(1), of rid "rqStatus rq"] assms(2,3) unfolding decided_def by blast

theorem request_decided_once_witness:
  "\<exists>rq. find_request ''r1'' (snd (the (RejectChannelSubscription 2 ''a'' ''r1'' [] demo_perm_approved))) = Some rq
    \<and> rqStatus rq = ''approved''"
proof -
  let ?c = "snd (the (RejectChannelSubscription 2 ''a'' ''r1'' [] demo_perm_approved))"
  obtain rq where rq: "find_request ''r1'' demo_perm_approved = Some rq" "rqStatus rq = ''approved''"
    by (simp add: demo_perm_defs)
  have "RejectChannelSubscription 2 ''a'' ''r1'' [] demo_perm_approved = Some (Inl (RequestNotPending ''approved''), ?c)"
    by (simp add: RejectChannelSubscription_def demo_perm_defs)
  then have "(perm_step demo_kernel)\<^sup>*\<^sup>* demo_perm_approved ?c"
    by (blast intro: perm_step.reject_subscription)
  from request_decided_once [OF this rq(1)] rq(2) show ?thesis by simp
qed

text \<open>
  A failed \<^verbatim>\<open>ApprovePermissionChange\<close> never releases the permission lock: after any of its error
  returns (wrong approver, unknown or decided request, conflicting role, inactive channel) no
  permission operation on that channel ever returns again, reading the requests included.
\<close>

theorem failed_approval_blocks:
  assumes "ApprovePermissionChange marshal now who rid cm c = Some (Inl e, c', effs)"
  shows "(\<forall>cm' c''. \<not> perm_step cm' c' c'')
    \<and> ApprovePermissionChange marshal' now' (chApproverID c') rid' cm' c' = None
    \<and> GetPermissionRequests c' = None \<and> GetPermissionRequestByID rid' c' = None"
proof -
  have "chPermLocked c'"
    using assms by (auto simp: ApprovePermissionChange_def Let_def split: if_splits option.splits sum.splits)
  then show ?thesis
    using perm_step_unlocked
    by (auto simp: ApprovePermissionChange_def GetPermissionRequests_def GetPermissionRequestByID_def)
qed

theorem failed_approval_blocks_witness:
  "GetPermissionRequests (fst (snd (the
     (ApprovePermissionChange (\<lambda>_. None) 2 ''b'' ''r1'' demo_kernel demo_perm_pending)))) = None"
proof -
  have "ApprovePermissionChange (\<lambda>_. None) 2 ''b'' ''r1'' demo_kernel demo_perm_pending
      = Some (Inl NotApprover, demo_perm_pending\<lparr>chPermLocked := True\<rparr>, [])"
    by (simp add: ApprovePermissionChange_def demo_perm_defs)
  from failed_approval_blocks [OF this] show ?thesis
    by (simp add: ApprovePermissionChange_def demo_perm_defs)
qed

text \<open>
  A successful \<^verbatim>\<open>ApprovePermissionChange\<close> was made by the channel's approver on an active channel
  for a pending request and makes the requested change to the one list it names: an added connector
  is appended with a kernel prefix and can act in its role, a removed identifier loses one
  occurrence; the other list stays, the lock is free, and the update is sent to the remote kernels.
\<close>

theorem approve_change_result:
  assumes "ApprovePermissionChange marshal now who rid cm c = Some (Inr (), c', effs)"
  shows "who = chApproverID c \<and> chStatus c = ChannelStatusActive \<and> \<not> chPermLocked c'
    \<and> (\<exists>rq. find_request rid c = Some rq \<and> rqStatus rq = ''pending''
        \<and> find_request rid c' = Some (mark_approved now who rq)
        \<and> (rqChangeType rq = ''add_sender'' \<longrightarrow> chReceiverIDs c' = chReceiverIDs c \<and> CanSend c' (rqTargetID rq)
             \<and> chSenderIDs c' = chSenderIDs c @ [qualified_target (cmKernelID cm) rq])
        \<and> (rqChangeType rq = ''add_receiver'' \<longrightarrow> chSenderIDs c' = chSenderIDs c \<and> CanReceive c' (rqTargetID rq)
             \<and> chReceiverIDs c' = chReceiverIDs c @ [qualified_target (cmKernelID cm) rq])
        \<and> (rqChangeType rq = ''remove_sender'' \<longrightarrow> chReceiverIDs c' = chReceiverIDs c
             \<and> chSenderIDs c' = remove1 (removed_sender rq) (chSenderIDs c))
        \<and> (rqChangeType rq = ''remove_receiver'' \<longrightarrow> chSenderIDs c' = chSenderIDs c
             \<and> chReceiverIDs c' = remove1 (rqTargetID rq) (chReceiverIDs c)))
    \<and> set (notifyRemoteKernelsOfChannelUpdate marshal now cm c') \<subseteq> set effs"
proof -
  obtain rq c1 where s: "chStatus c = ChannelStatusActive" "who = chApproverID c"
      "find_request rid c = Some rq" "rqStatus rq = ''pending''" "apply_change (cmKernelID cm) rq c = Inr c1"
      "c' = (set_request rid (mark_approved now who) c1)\<lparr>chLastActivity := now\<rparr>"
      "set (notifyRemoteKernelsOfChannelUpdate marshal now cm c') \<subseteq> set effs"
    using assms by (elim approve_change_success) auto
  have frame: "chRequests c1 = chRequests c" "chPermLocked c1 = chPermLocked c"
    using apply_change_frame [OF s(5)] by blast+
  have c': "chSenderIDs c' = chSenderIDs c1" "chReceiverIDs c' = chReceiverIDs c1" "\<not> chPermLocked c'"
    using frame s(6) assms by (simp_all add: set_request_def ApprovePermissionChange_def)
  have raw: "raw_id (qualified_target k rq) = raw_id (rqTargetID rq)" for k
    by (simp add: qualified_target_def raw_id_qualify raw_id_bare)
  have "find_request rid c' = Some (mark_approved now who rq)"
    using s(3) frame by (simp add: s(6) find_request_def set_request_def find_update_first)
  moreover have "(rqChangeType rq = ''add_sender'' \<longrightarrow> chReceiverIDs c1 = chReceiverIDs c
             \<and> chSenderIDs c1 = chSenderIDs c @ [qualified_target (cmKernelID cm) rq])
        \<and> (rqChangeType rq = ''add_receiver'' \<longrightarrow> chSenderIDs c1 = chSenderIDs c
             \<and> chReceiverIDs c1 = chReceiverIDs c @ [qualified_target (cmKernelID cm) rq])
        \<and> (rqChangeType rq = ''remove_sender'' \<longrightarrow> chReceiverIDs c1 = chReceiverIDs c
             \<and> chSenderIDs c1 = remove1 (removed_sender rq) (chSenderIDs c))
        \<and> (rqChangeType rq = ''remove_receiver'' \<longrightarrow> chSenderIDs c1 = chSenderIDs c
             \<and> chReceiverIDs c1 = remove1 (rqTargetID rq) (chReceiverIDs c))"
    using s(5) by (auto simp: apply_change_def Let_def split: if_splits)
  ultimately show ?thesis
    using s c' raw by (auto simp: CanSend_raw CanReceive_raw)
qed

theorem approve_change_result_witness:
  "chReceiverIDs (fst (snd (the
     (ApprovePermissionChange (\<lambda>_. None) 2 ''a'' ''r1'' demo_kernel demo_perm_pending)))) = [''b'', ''k1:x'']"
proof -
  let ?r = "ApprovePermissionChange (\<lambda>_. None) 2 ''a'' ''r1'' demo_kernel demo_perm_pending"
  obtain c' effs where r: "?r = Some (Inr (), c', effs)"
    by (simp add: ApprovePermissionChange_def apply_change_def qualified_target_def demo_perm_defs
        qualify_def demo_kernel_def)
  obtain rq where rq: "find_request ''r1'' demo_perm_pending = Some rq" "rqChangeType rq = ''add_receiver''"
      "qualified_target ''k1'' rq = ''k1:x''"
    by (simp add: demo_perm_defs qualified_target_def qualify_def)
  have "chReceiverIDs demo_perm_pending = [''b'']" "cmKernelID demo_kernel = ''k1''"
    by (simp_all add: demo_perm_defs demo_kernel_def)
  with approve_change_result [OF r] r rq show ?thesis by auto
qed

text \<open>
  The last sender can be removed: the guard against it is checked when a removal is requested and
  not when it is approved, so two removals requested while a channel has two senders, approved one
  after the other, leave it active with no sender at all.
\<close>

theorem last_sender_removed:
  assumes "chSenderIDs c = [s1, s2]" and "s1 \<noteq> s2"
    and "find_request r1 c = Some q1" and "rqChangeType q1 = ''remove_sender''" and "removed_sender q1 = s1"
    and "find_request r2 c = Some q2" and "rqChangeType q2 = ''remove_sender''" and "removed_sender q2 = s2"
    and "r1 \<noteq> r2" and "rqStatus q2 = ''pending''"
    and "ApprovePermissionChange marshal now who r1 cm c = Some (Inr (), c', effs)"
  shows "\<exists>c'' effs'. ApprovePermissionChange marshal now' who r2 cm c' = Some (Inr (), c'', effs')
    \<and> chSenderIDs c'' = [] \<and> chStatus c'' = ChannelStatusActive"
proof -
  obtain rq c1 where s: "chStatus c = ChannelStatusActive" "who = chApproverID c" "find_request r1 c = Some rq"
      "apply_change (cmKernelID cm) rq c = Inr c1"
      "c' = (set_request r1 (mark_approved now who) c1)\<lparr>chLastActivity := now\<rparr>"
    using assms(11) by (elim approve_change_success) auto
  have c1: "c1 = c\<lparr>chSenderIDs := [s2]\<rparr>"
    using s(3,4) assms(1-5) by (simp add: apply_change_def)
  have "\<not> chPermLocked c" using assms(11) by (simp add: ApprovePermissionChange_def)
  moreover have "find_request r2 c' = Some q2"
    using assms(6,9) by (simp add: s(5) c1 find_request_def set_request_def find_update_first)
  ultimately show ?thesis
    using s(1,2) assms(7,8,10)
    by (simp add: ApprovePermissionChange_def Let_def apply_change_def s(5) c1 set_request_def)
qed

definition demo_two_senders :: Channel where
  "demo_two_senders = empty_channel\<lparr> chSenderIDs := [''a'', ''d''], chReceiverIDs := [''b''] \<rparr>"

definition demo_removals :: Channel where
  "demo_removals =
     fst (snd (the (RequestPermissionChange (\<lambda>_. None) ''r2'' 0 ''a'' ''remove_sender'' ''d'' [] demo_kernel
       (fst (snd (the (RequestPermissionChange (\<lambda>_. None) ''r1'' 0 ''a'' ''remove_sender'' ''a'' [] demo_kernel
          demo_two_senders)))))))"

lemmas demo_change_defs = RequestPermissionChange_def check_change_def CanSend_def can_send_as_def
  CanReceive_def can_receive_as_def broadcastPermissionRequest_def sendControlMessage_def
  removed_sender_def apply_change_def ApprovePermissionChange_def demo_perm_defs

lemma demo_removals_eq:
  "demo_removals = demo_two_senders\<lparr>chRequests :=
     [new_request ''r1'' ''a'' ''ch'' ''remove_sender'' ''a'' [] 0,
      new_request ''r2'' ''a'' ''ch'' ''remove_sender'' ''d'' [] 0]\<rparr>"
  by (simp add: demo_removals_def demo_two_senders_def demo_change_defs)

theorem last_sender_removed_witness:
  "\<exists>c' c'' effs effs'.
     ApprovePermissionChange (\<lambda>_. None) 1 ''a'' ''r1'' demo_kernel demo_removals = Some (Inr (), c', effs)
   \<and> ApprovePermissionChange (\<lambda>_. None) 2 ''a'' ''r2'' demo_kernel c' = Some (Inr (), c'', effs')
   \<and> chSenderIDs c'' = []"
proof -
  have h: "chSenderIDs demo_removals = [''a'', ''d'']" "''a'' \<noteq> ''d''"
      "find_request ''r1'' demo_removals = Some (new_request ''r1'' ''a'' ''ch'' ''remove_sender'' ''a'' [] 0)"
      "rqChangeType (new_request ''r1'' ''a'' ''ch'' ''remove_sender'' ''a'' [] 0) = ''remove_sender''"
      "removed_sender (new_request ''r1'' ''a'' ''ch'' ''remove_sender'' ''a'' [] 0) = ''a''"
      "find_request ''r2'' demo_removals = Some (new_request ''r2'' ''a'' ''ch'' ''remove_sender'' ''d'' [] 0)"
      "rqChangeType (new_request ''r2'' ''a'' ''ch'' ''remove_sender'' ''d'' [] 0) = ''remove_sender''"
      "removed_sender (new_request ''r2'' ''a'' ''ch'' ''remove_sender'' ''d'' [] 0) = ''d''"
      "''r1'' \<noteq> ''r2''" "rqStatus (new_request ''r2'' ''a'' ''ch'' ''remove_sender'' ''d'' [] 0) = ''pending''"
    by (simp_all add: demo_removals_eq demo_two_senders_def find_request_def new_request_def removed_sender_def
        has_colon_def)
  obtain c' effs where a: "ApprovePermissionChange (\<lambda>_. None) 1 ''a'' ''r1'' demo_kernel demo_removals
      = Some (Inr (), c', effs)"
    by (simp add: demo_removals_eq demo_two_senders_def demo_change_defs)
  show ?thesis using a last_sender_removed [OF h a, of 2] by blast
qed

text \<open>
  Removing a receiver by its bare name can be approved without effect: the request is accepted
  because names are compared without their kernel, the approval looks for the exact identifier, and
  the request ends approved while the connector keeps receiving.
\<close>

theorem removed_receiver_stays:
  assumes "find_request rid c = Some rq" and "rqChangeType rq = ''remove_receiver''"
    and "CanReceive c (rqTargetID rq)" and "rqTargetID rq \<notin> set (chReceiverIDs c)"
    and "1 < length (chReceiverIDs c)"
    and "ApprovePermissionChange marshal now who rid cm c = Some (Inr (), c', effs)"
  shows "check_change ''remove_receiver'' (rqTargetID rq) c = None
    \<and> chReceiverIDs c' = chReceiverIDs c \<and> CanReceive c' (rqTargetID rq)
    \<and> map_option rqStatus (find_request rid c') = Some ''approved''"
proof -
  obtain c1 where s: "apply_change (cmKernelID cm) rq c = Inr c1"
      "c' = (set_request rid (mark_approved now who) c1)\<lparr>chLastActivity := now\<rparr>"
    using assms(1,6) by (elim approve_change_success) auto
  have c1: "c1 = c" using s(1) assms(2,4) by (simp add: apply_change_def remove1_idem)
  show ?thesis
    using assms by (simp add: s(2) c1 set_request_def check_change_def CanReceive_def find_request_def find_update_first)
qed

definition demo_qualified :: Channel where
  "demo_qualified = empty_channel\<lparr> chSenderIDs := [''a''], chReceiverIDs := [''k2:b'', ''k2:c''],
     chRequests := [new_request ''r1'' ''a'' ''ch'' ''remove_receiver'' ''b'' [] 0] \<rparr>"

theorem removed_receiver_stays_witness:
  "CanReceive (fst (snd (the (ApprovePermissionChange (\<lambda>_. None) 1 ''a'' ''r1'' demo_kernel demo_qualified)))) ''b''"
proof -
  have h: "find_request ''r1'' demo_qualified = Some (new_request ''r1'' ''a'' ''ch'' ''remove_receiver'' ''b'' [] 0)"
      "rqChangeType (new_request ''r1'' ''a'' ''ch'' ''remove_receiver'' ''b'' [] 0) = ''remove_receiver''"
      "CanReceive demo_qualified (rqTargetID (new_request ''r1'' ''a'' ''ch'' ''remove_receiver'' ''b'' [] 0))"
      "rqTargetID (new_request ''r1'' ''a'' ''ch'' ''remove_receiver'' ''b'' [] 0) \<notin> set (chReceiverIDs demo_qualified)"
      "1 < length (chReceiverIDs demo_qualified)"
    by (simp_all add: demo_qualified_def find_request_def new_request_def CanReceive_def can_receive_as_def
        has_colon_def raw_id_def)
  obtain c' effs where a: "ApprovePermissionChange (\<lambda>_. None) 1 ''a'' ''r1'' demo_kernel demo_qualified
      = Some (Inr (), c', effs)"
    by (simp add: demo_qualified_def demo_change_defs)
  show ?thesis using a removed_receiver_stays [OF h a] by (simp add: new_request_def)
qed

end
