(* ===== verification/Connector_Buffers.thy ===== *)
theory Connector_Buffers
  imports Channel_Negotiation
begin

text \<open>
  The restart-recovery half of \<^verbatim>\<open>ChannelManager\<close> (\<^verbatim>\<open>kernel/circulation/channel_manager.go\<close>,
  \<^verbatim>\<open>MarkConnectorOnline\<close> to \<^verbatim>\<open>CleanupExpiredConnectorBuffers\<close>): which connectors are connected, and the
  bounded buffer of packets kept for each connector that is not.  The bound is the interface
  \<open>bounded_fifo\<close>.
\<close>

section \<open>Operations\<close>

definition MarkConnectorOnline :: "time \<Rightarrow> string \<Rightarrow> ChannelManager \<Rightarrow> ChannelManager" where
  "MarkConnectorOnline now cid cm =
     cm\<lparr> cmConnectorStatus := go_put cid ConnectorStatusOnline (cmConnectorStatus cm),
         cmLastActivity := go_put cid now (cmLastActivity cm) \<rparr>"

definition MarkConnectorOffline :: "string \<Rightarrow> ChannelManager \<Rightarrow> ChannelManager" where
  "MarkConnectorOffline cid cm =
     cm\<lparr>cmConnectorStatus := go_put cid ConnectorStatusGone (cmConnectorStatus cm)\<rparr>"

definition IsConnectorOnline :: "ChannelManager \<Rightarrow> string \<Rightarrow> bool" where
  "IsConnectorOnline cm cid \<longleftrightarrow> go_get (cmConnectorStatus cm) cid = Some ConnectorStatusOnline"

definition IsConnectorRestarting :: "time \<Rightarrow> string \<Rightarrow> ChannelManager \<Rightarrow> bool" where
  "IsConnectorRestarting now cid cm =
     (case go_get (cmLastActivity cm) cid of None \<Rightarrow> False | Some t \<Rightarrow> now - t > seconds 5)"

text \<open>The copy that is buffered: the fields it leaves out have Go's zero values.\<close>

definition buffered_copy :: "DataPacket \<Rightarrow> DataPacket" where
  "buffered_copy p =
     p\<lparr>dpMessageType := [], dpIsAck := False, dpAckEvidenceRecorded := False, dpAfterSent := None\<rparr>"

definition buffer_of :: "ChannelManager \<Rightarrow> string \<Rightarrow> DataPacket list" where
  "buffer_of cm cid = (case go_get (cmConnectorBuffers cm) cid of None \<Rightarrow> [] | Some ps \<Rightarrow> ps)"

definition push_buffer :: "DataPacket \<Rightarrow> DataPacket list \<Rightarrow> DataPacket list" where
  "push_buffer p ps = (if length ps \<ge> 1000 then tl ps else ps) @ [buffered_copy p]"

definition BufferDataForOfflineConnector ::
    "string \<Rightarrow> DataPacket \<Rightarrow> ChannelManager \<Rightarrow> ChannelManager" where
  "BufferDataForOfflineConnector cid p cm =
     cm\<lparr>cmConnectorBuffers := go_put cid (push_buffer p (buffer_of cm cid)) (cmConnectorBuffers cm)\<rparr>"

definition GetBufferedDataForConnector ::
    "string \<Rightarrow> ChannelManager \<Rightarrow> DataPacket list \<times> ChannelManager" where
  "GetBufferedDataForConnector cid cm =
     (buffer_of cm cid, cm\<lparr>cmConnectorBuffers := go_put cid [] (cmConnectorBuffers cm)\<rparr>)"

definition buffer_expired :: "time \<Rightarrow> time \<Rightarrow> ChannelManager \<Rightarrow> string \<Rightarrow> bool" where
  "buffer_expired now maxAge cm cid \<longleftrightarrow>
     buffer_of cm cid \<noteq> [] \<and>
     (case go_get (cmLastActivity cm) cid of None \<Rightarrow> False | Some t \<Rightarrow> t < now - maxAge)"

definition drop_connector :: "string \<Rightarrow> ChannelManager \<Rightarrow> ChannelManager" where
  "drop_connector cid cm =
     cm\<lparr> cmConnectorBuffers := go_del cid (cmConnectorBuffers cm),
         cmLastActivity := go_del cid (cmLastActivity cm),
         cmConnectorStatus := go_del cid (cmConnectorStatus cm) \<rparr>"

definition CleanupExpiredConnectorBuffers :: "time \<Rightarrow> time \<Rightarrow> ChannelManager \<Rightarrow> nat \<times> ChannelManager" where
  "CleanupExpiredConnectorBuffers now maxAge cm =
     foldl (\<lambda>(n, cm) cid. if buffer_expired now maxAge cm cid then (n + 1, drop_connector cid cm) else (n, cm))
       (0, cm) (map fst (cmConnectorBuffers cm))"

section \<open>Bounded queues\<close>

text \<open>A queue of at most \<open>cap\<close> entries that forgets its oldest entry when a new one does not fit.\<close>

locale bounded_fifo =
  fixes push :: "'a \<Rightarrow> 'b list \<Rightarrow> 'b list" and enc :: "'a \<Rightarrow> 'b" and cap :: nat
  assumes push_last: "length q \<le> cap \<Longrightarrow> push x q = drop (length q + 1 - cap) (q @ [enc x])"
begin

lemma push_bound: "length q \<le> cap \<Longrightarrow> length (push x q) \<le> cap"
  by (simp add: push_last)

lemma push_all:
  "length q \<le> cap \<Longrightarrow> foldl (\<lambda>q x. push x q) q xs = drop (length q + length xs - cap) (q @ map enc xs)"
proof (induction xs arbitrary: q)
  case (Cons x xs)
  have "push x q = drop (length q + 1 - cap) (q @ [enc x])" using Cons.prems by (rule push_last)
  then have len: "length (push x q) = length q + 1 - (length q + 1 - cap)" by simp
  have "foldl (\<lambda>q x. push x q) q (x # xs) =
      drop (length (push x q) + length xs - cap) (push x q @ map enc xs)"
    using Cons.IH [of "push x q"] push_bound [OF Cons.prems] by simp
  also have "push x q @ map enc xs = drop (length q + 1 - cap) (q @ map enc (x # xs))"
    using Cons.prems by (cases cap) (simp_all add: push_last)
  also have "drop (length (push x q) + length xs - cap) (drop (length q + 1 - cap) (q @ map enc (x # xs))) =
      drop (length q + length (x # xs) - cap) (q @ map enc (x # xs))"
  proof -
    have "length (push x q) + length xs - cap + (length q + 1 - cap) = length q + length (x # xs) - cap"
      using Cons.prems len by simp
    then show ?thesis by (simp only: drop_drop)
  qed
  finally show ?case .
qed simp

end

interpretation cbuf: bounded_fifo push_buffer buffered_copy 1000
proof
  fix q :: "DataPacket list" and x
  assume "length q \<le> 1000"
  then show "push_buffer x q = drop (length q + 1 - 1000) (q @ [buffered_copy x])"
    by (cases "length q = 1000") (auto simp: push_buffer_def drop_Suc)
qed

section \<open>Lemmas\<close>

lemma buffer_of_push [simp]:
  "buffer_of (BufferDataForOfflineConnector cid p cm) cid' =
     (if cid' = cid then push_buffer p (buffer_of cm cid) else buffer_of cm cid')"
  by (simp add: BufferDataForOfflineConnector_def buffer_of_def gomap_simps)

lemma buffer_of_get [simp]:
  "buffer_of (snd (GetBufferedDataForConnector cid cm)) cid' = (if cid' = cid then [] else buffer_of cm cid')"
  by (simp add: GetBufferedDataForConnector_def buffer_of_def gomap_simps)

lemma buffer_of_pushes:
  "buffer_of (foldl (\<lambda>cm p. BufferDataForOfflineConnector cid p cm) cm ps) cid' =
     (if cid' = cid then foldl (\<lambda>q p. push_buffer p q) (buffer_of cm cid) ps else buffer_of cm cid')"
  by (induction ps arbitrary: cm) auto

lemma drop_connector_simps:
  "buffer_of (drop_connector k cm) cid = (if cid = k then [] else buffer_of cm cid)"
  "go_get (cmLastActivity (drop_connector k cm)) cid = (if cid = k then None else go_get (cmLastActivity cm) cid)"
  "go_get (cmConnectorStatus (drop_connector k cm)) cid =
     (if cid = k then None else go_get (cmConnectorStatus cm) cid)"
  by (simp_all add: drop_connector_def buffer_of_def gomap_simps)

lemma buffer_expired_drop:
  "buffer_expired now m (drop_connector k cm) cid \<longleftrightarrow> cid \<noteq> k \<and> buffer_expired now m cm cid"
  by (simp add: buffer_expired_def drop_connector_simps)

definition cleanup_loop :: "time \<Rightarrow> time \<Rightarrow> nat \<times> ChannelManager \<Rightarrow> string list \<Rightarrow> nat \<times> ChannelManager" where
  "cleanup_loop now m s ks =
     foldl (\<lambda>(n, cm) cid. if buffer_expired now m cm cid then (n + 1, drop_connector cid cm) else (n, cm)) s ks"

lemma cleanup_loop_Cons:
  "cleanup_loop now m (n, cm) (k # ks) =
     cleanup_loop now m (if buffer_expired now m cm k then (n + 1, drop_connector k cm) else (n, cm)) ks"
  by (simp add: cleanup_loop_def)

lemma cleanup_loop_result:
  "distinct ks \<Longrightarrow>
     buffer_of (snd (cleanup_loop now m (n, cm) ks)) cid =
       (if cid \<in> set ks \<and> buffer_expired now m cm cid then [] else buffer_of cm cid) \<and>
     IsConnectorOnline (snd (cleanup_loop now m (n, cm) ks)) cid =
       (\<not> (cid \<in> set ks \<and> buffer_expired now m cm cid) \<and> IsConnectorOnline cm cid) \<and>
     fst (cleanup_loop now m (n, cm) ks) = n + length (filter (buffer_expired now m cm) ks)"
proof (induction ks arbitrary: n cm)
  case (Cons k ks)
  have filt: "filter (\<lambda>a. a \<noteq> k \<and> buffer_expired now m cm a) ks = filter (buffer_expired now m cm) ks"
    using Cons.prems by (auto intro!: filter_cong)
  have online: "IsConnectorOnline (drop_connector k cm) cid \<longleftrightarrow> cid \<noteq> k \<and> IsConnectorOnline cm cid"
    by (simp add: IsConnectorOnline_def drop_connector_simps)
  show ?case
  proof (cases "buffer_expired now m cm k")
    case True
    then show ?thesis
      using Cons.IH [of "n + 1" "drop_connector k cm"] Cons.prems
      by (auto simp: cleanup_loop_Cons buffer_expired_drop drop_connector_simps online filt)
  next
    case False
    then show ?thesis
      using Cons.IH [of n cm] Cons.prems by (auto simp: cleanup_loop_Cons)
  qed
qed (simp add: cleanup_loop_def)

lemma buffer_in_keys: "buffer_of cm cid \<noteq> [] \<Longrightarrow> cid \<in> go_keys (cmConnectorBuffers cm)"
  by (auto simp: buffer_of_def dest: go_get_in_keys split: option.splits)

section \<open>Properties\<close>

text \<open>
  The buffer of an offline connector holds the newest 1000 packets in the order they came: pushing
  any sequence of packets keeps the last 1000 of the old contents followed by the copies, changes no
  other connector's buffer, and fetching returns exactly that and empties the buffer.
\<close>

theorem buffer_keeps_newest:
  assumes "length (buffer_of cm cid) \<le> 1000"
    and "cm' = foldl (\<lambda>cm p. BufferDataForOfflineConnector cid p cm) cm ps"
  shows "fst (GetBufferedDataForConnector cid cm') =
      drop (length (buffer_of cm cid) + length ps - 1000) (buffer_of cm cid @ map buffered_copy ps)
    \<and> length (buffer_of cm' cid) \<le> 1000
    \<and> (\<forall>x. x \<noteq> cid \<longrightarrow> buffer_of cm' x = buffer_of cm x)
    \<and> buffer_of (snd (GetBufferedDataForConnector cid cm')) cid = []"
proof -
  have "buffer_of cm' cid =
      drop (length (buffer_of cm cid) + length ps - 1000) (buffer_of cm cid @ map buffered_copy ps)"
    using cbuf.push_all [OF assms(1)] by (simp add: assms(2) buffer_of_pushes)
  moreover from this have "length (buffer_of cm' cid) \<le> 1000" by simp
  moreover have "\<forall>x. x \<noteq> cid \<longrightarrow> buffer_of cm' x = buffer_of cm x"
    by (simp add: assms(2) buffer_of_pushes)
  moreover have "fst (GetBufferedDataForConnector cid cm') = buffer_of cm' cid"
    by (simp add: GetBufferedDataForConnector_def)
  ultimately show ?thesis by (simp only: buffer_of_get) simp
qed

definition demo_packet :: DataPacket where
  "demo_packet = \<lparr> dpChannelID = ''ch'', dpSequenceNumber = 1, dpPayload = ''hello'', dpSignature = [],
     dpTimestamp = 0, dpSenderID = ''a'', dpSenderKernelID = [], dpTargetIDs = [],
     dpMessageType = MessageTypeData, dpFlowID = ''f'', dpIsFinal = False, dpDataHash = [],
     dpIsAck = False, dpAckEvidenceRecorded = False, dpAfterSent = None \<rparr>"

theorem buffer_keeps_newest_witness:
  "fst (GetBufferedDataForConnector ''b''
      (BufferDataForOfflineConnector ''b'' demo_packet (NewChannelManager demo_evidence)))
    = [buffered_copy demo_packet]"
proof -
  have "buffer_of (NewChannelManager demo_evidence) ''b'' = []"
    by (simp add: buffer_of_def NewChannelManager_def)
  then show ?thesis
    using buffer_keeps_newest [of "NewChannelManager demo_evidence" "''b''" _ "[demo_packet]", OF _ refl] by simp
qed

text \<open>
  The periodic cleaning drops exactly the connectors whose buffer is not empty and whose last
  activity is before the cutoff, forgets their status and counts them; the buffer of a connector
  that was never seen connected is kept whatever its age.
\<close>

theorem cleanup_buffers_exact:
  assumes "go_map_ok (cmConnectorBuffers cm)" and "CleanupExpiredConnectorBuffers now maxAge cm = (n, cm')"
  shows "buffer_of cm' cid = (if buffer_expired now maxAge cm cid then [] else buffer_of cm cid)
    \<and> (IsConnectorOnline cm' cid \<longleftrightarrow> IsConnectorOnline cm cid \<and> \<not> buffer_expired now maxAge cm cid)
    \<and> n = card {x. buffer_expired now maxAge cm x}
    \<and> (go_get (cmLastActivity cm) cid = None \<longrightarrow> buffer_of cm' cid = buffer_of cm cid)"
proof -
  have loop: "cleanup_loop now maxAge (0, cm) (map fst (cmConnectorBuffers cm)) = (n, cm')"
    using assms(2) by (simp add: CleanupExpiredConnectorBuffers_def cleanup_loop_def)
  have keys: "cid \<in> set (map fst (cmConnectorBuffers cm))" if "buffer_expired now maxAge cm cid" for cid
    using that buffer_in_keys unfolding buffer_expired_def by simp
  have "set (filter (buffer_expired now maxAge cm) (map fst (cmConnectorBuffers cm)))
      = {x. buffer_expired now maxAge cm x}"
    using keys by auto
  then have "length (filter (buffer_expired now maxAge cm) (map fst (cmConnectorBuffers cm)))
      = card {x. buffer_expired now maxAge cm x}"
    using assms(1) by (metis distinct_card distinct_filter)
  moreover have "\<not> buffer_expired now maxAge cm cid" if "go_get (cmLastActivity cm) cid = None"
    using that by (simp add: buffer_expired_def)
  ultimately show ?thesis
    using cleanup_loop_result [OF assms(1), of now maxAge 0 cm cid] keys unfolding loop by auto
qed

definition demo_offline :: ChannelManager where
  "demo_offline = BufferDataForOfflineConnector ''b'' demo_packet
     (MarkConnectorOffline ''b'' (MarkConnectorOnline 0 ''b'' (NewChannelManager demo_evidence)))"

theorem cleanup_buffers_exact_witness:
  "buffer_of (snd (CleanupExpiredConnectorBuffers 100 10 demo_offline)) ''b'' = []"
proof -
  have "go_map_ok (cmConnectorBuffers demo_offline)" "buffer_expired 100 10 demo_offline ''b''"
    by (simp_all add: demo_offline_def BufferDataForOfflineConnector_def MarkConnectorOffline_def
        MarkConnectorOnline_def NewChannelManager_def buffer_expired_def buffer_of_def push_buffer_def)
  then show ?thesis
    using cleanup_buffers_exact [OF _ prod.collapse [symmetric]] by simp
qed

end
