(* ===== verification/Channel_Delivery.thy ===== *)
theory Channel_Delivery
  imports Channel_Permissions Connector_Buffers
begin

text \<open>
  Moving data: \<^verbatim>\<open>PushData\<close>, \<^verbatim>\<open>Subscribe\<close>, \<^verbatim>\<open>SubscribeWithRecovery\<close>, \<^verbatim>\<open>Unsubscribe\<close> and the distribution
  loop of \<^verbatim>\<open>kernel/circulation/channel_manager.go\<close>.

  \<^verbatim>\<open>json.Unmarshal\<close> into a control message is the argument \<open>unmarshal\<close> (\<open>None\<close> on an error).  A send to
  a full Go channel with a timeout is modelled as it ends when nobody reads during the timeout:
  \<^verbatim>\<open>PushData\<close> returns its timeout error, the distribution loop drops the packet for that subscriber and
  the sender of buffered packets stops.  A call that never returns (the permission lock is held) is
  \<open>None\<close>.  The order in which \<^verbatim>\<open>range\<close> visits a map is the order of the association list.
\<close>

section \<open>Choosing the targets\<close>

record push_plan =
  plRemote :: "string list gomap"
  plLocal :: "string list"
  plOffline :: "string list"
  plHasSubscribers :: bool

definition push_allowed :: "Channel \<Rightarrow> DataPacket \<Rightarrow> bool" where
  "push_allowed c p =
     (if dpIsAck p then True
      else if dpMessageType p = MessageTypeEvidence then True
      else if dpMessageType p = MessageTypeControl then CanSend c (dpSenderID p)
      else CanSend c (dpSenderID p))"

text \<open>The reverse hop of an acknowledgement that belongs to another kernel.\<close>

definition ack_route :: "ChannelManager \<Rightarrow> DataPacket \<Rightarrow> (string \<times> string) option" where
  "ack_route cm p =
     (case cmPreviousHop cm of
        None \<Rightarrow> None
      | Some prev_hop \<Rightarrow>
          (case prev_hop (cmKernelID cm) of
             None \<Rightarrow> None
           | Some prev \<Rightarrow>
               if prev = [] \<or> prev = cmKernelID cm then None
               else map_option (\<lambda>t. (prev, t))
                 (find (\<lambda>t. has_colon t \<and> kernel_part t \<noteq> [] \<and> kernel_part t \<noteq> cmKernelID cm) (dpTargetIDs p))))"

definition add_offline :: "ChannelManager \<Rightarrow> Channel \<Rightarrow> string \<Rightarrow> push_plan \<Rightarrow> push_plan" where
  "add_offline cm c x pl =
     (if IsSubscribed c x then pl\<lparr>plHasSubscribers := True\<rparr>
      else if \<not> IsConnectorOnline cm x then pl\<lparr>plOffline := plOffline pl @ [x]\<rparr> else pl)"

definition directed_target :: "ChannelManager \<Rightarrow> Channel \<Rightarrow> DataPacket \<Rightarrow> push_plan \<Rightarrow> string \<Rightarrow> push_plan" where
  "directed_target cm c p pl t =
     (if has_colon t then pl\<lparr>plRemote := append_target (kernel_part t) (connector_part t) (plRemote pl)\<rparr>
      else if CanReceive c t \<or> dpIsAck p then
        pl\<lparr> plLocal := plLocal pl @ [t],
            plOffline := (if \<not> IsSubscribed c t \<and> \<not> IsConnectorOnline cm t
                          then plOffline pl @ [t] else plOffline pl) \<rparr>
      else pl)"

definition broadcast_target :: "ChannelManager \<Rightarrow> Channel \<Rightarrow> push_plan \<Rightarrow> string \<Rightarrow> push_plan" where
  "broadcast_target cm c pl r =
     (if has_colon r then
        (if kernel_part r = cmKernelID cm then add_offline cm c (connector_part r) pl
         else pl\<lparr>plRemote := append_target (kernel_part r) (connector_part r) (plRemote pl)\<rparr>)
      else case go_get (chRemoteReceivers c) r of
        Some k \<Rightarrow>
          if k = cmKernelID cm then add_offline cm c r pl
          else pl\<lparr>plRemote := append_target k r (plRemote pl)\<rparr>
      | None \<Rightarrow> add_offline cm c r pl)"

definition control_sender_target :: "ChannelManager \<Rightarrow> Channel \<Rightarrow> push_plan \<Rightarrow> string \<Rightarrow> push_plan" where
  "control_sender_target cm c pl s =
     (if has_colon s then pl\<lparr>plRemote := add_kernel_once (cmKernelID cm) (kernel_part s) (plRemote pl)\<rparr>
      else case go_get (chRemoteReceivers c) s of
        None \<Rightarrow> pl
      | Some k \<Rightarrow> pl\<lparr>plRemote := add_kernel_once (cmKernelID cm) k (plRemote pl)\<rparr>)"

definition empty_plan :: "Channel \<Rightarrow> push_plan" where
  "empty_plan c = \<lparr> plRemote = [], plLocal = [], plOffline = [], plHasSubscribers = chSubscribers c \<noteq> [] \<rparr>"

text \<open>\<open>None\<close>: there is no valid target and the call returns \<^verbatim>\<open>nil\<close> at once.\<close>

definition make_plan :: "ChannelManager \<Rightarrow> Channel \<Rightarrow> DataPacket \<Rightarrow> push_plan option" where
  "make_plan cm c p =
     (case (if dpIsAck p then ack_route cm p else None) of
        Some (prev, t) \<Rightarrow> Some ((empty_plan c)\<lparr>plRemote := [(prev, [t])], plHasSubscribers := False\<rparr>)
      | None \<Rightarrow>
          if dpIsAck p \<and> dpTargetIDs p = [] then None
          else if dpTargetIDs p \<noteq> [] then
            (let pl = foldl (directed_target cm c p) (empty_plan c) (dpTargetIDs p)
             in if plLocal pl = [] \<and> plRemote pl = [] then None else Some pl)
          else
            (let pl = foldl (broadcast_target cm c) (empty_plan c) (chReceiverIDs c)
             in Some (if dpMessageType p = MessageTypeControl
                      then foldl (control_sender_target cm c) pl (chSenderIDs c) else pl)))"

definition should_buffer :: "ChannelManager \<Rightarrow> Channel \<Rightarrow> DataPacket \<Rightarrow> bool" where
  "should_buffer cm c p =
     (if dpTargetIDs p \<noteq> [] then
        list_ex (\<lambda>t. (CanReceive c t \<or> dpIsAck p) \<and> \<not> IsSubscribed c t \<and> IsConnectorOnline cm t) (dpTargetIDs p)
      else
        list_ex (\<lambda>r. let l = (if has_colon r then connector_part r else r)
                     in (has_colon r \<longrightarrow> kernel_part r = cmKernelID cm) \<and>
                        \<not> IsSubscribed c l \<and> IsConnectorOnline cm l) (chReceiverIDs c))"

text \<open>The copy kept in the channel's buffer: it leaves out the message type and the ACK flag.\<close>

definition channel_copy :: "DataPacket \<Rightarrow> DataPacket" where
  "channel_copy p = p\<lparr>dpMessageType := [], dpIsAck := False\<rparr>"

section \<open>Forwarding\<close>

definition next_hop :: "ChannelManager \<Rightarrow> string \<Rightarrow> string" where
  "next_hop cm rk =
     (case cmNextHop cm of
        None \<Rightarrow> rk
      | Some f \<Rightarrow> (case f (cmKernelID cm) rk of
                    None \<Rightarrow> rk | Some k \<Rightarrow> if k \<noteq> [] then k else rk))"

definition out_packet :: "string \<Rightarrow> string list \<Rightarrow> DataPacket \<Rightarrow> DataPacket" where
  "out_packet rk cids p =
     p\<lparr> dpTargetIDs :=
          (if dpTargetIDs p = [] then []
           else case cids of
             [] \<Rightarrow> []
           | x # xs \<Rightarrow> (if has_colon x then x else qualify rk x) # xs) \<rparr>"

definition forward_one :: "ChannelManager \<Rightarrow> DataPacket \<Rightarrow> string \<times> string list \<Rightarrow> effect list" where
  "forward_one cm p = (\<lambda>(rk, cids).
     if rk = cmKernelID cm then [] else [Forward (next_hop cm rk) (out_packet rk cids p) (dpIsFinal p)])"

definition after_sent :: "DataPacket \<Rightarrow> effect list" where
  "after_sent p = (case dpAfterSent p of None \<Rightarrow> [] | Some n \<Rightarrow> [CallAfterSent n])"

section \<open>Pushing\<close>

type_synonym unmarshal = "string \<Rightarrow> ControlMessage option"
type_synonym push_result = "(channel_error + unit) \<times> Channel \<times> ChannelManager \<times> effect list"

definition push_to_targets ::
    "ChannelManager \<Rightarrow> Channel \<Rightarrow> DataPacket \<Rightarrow> push_plan \<Rightarrow> push_result" where
  "push_to_targets cm c p pl =
     (let cm1 = foldl (\<lambda>cm x. BufferDataForOfflineConnector x p cm) cm (plOffline pl);
          buf = should_buffer cm c p
      in if plHasSubscribers pl \<and> chQueueClosed c then (Inl PanicSendOnClosedChannel, c, cm1, [])
         else if plHasSubscribers pl \<and> length (chQueue c) \<ge> 1000 then (Inl PushTimeout, c, cm1, [])
         else let c1 = (if plHasSubscribers pl then c\<lparr>chQueue := chQueue c @ [p]\<rparr> else c)
              in if buf then
                   (if length (chBuffer c) \<ge> chMaxBufferSize c
                    then (Inl (BufferFull (chMaxBufferSize c)), c1, cm1, after_sent p)
                    else (Inr (), c1\<lparr>chBuffer := chBuffer c @ [channel_copy p]\<rparr>, cm1, after_sent p))
                 else if plRemote pl = [] then (Inr (), c1, cm1, after_sent p)
                 else if \<not> cmForward cm then (Inl ForwardNotConfigured, c1, cm1, after_sent p)
                 else (Inr (), c1, cm1, after_sent p @ concat (map (forward_one cm p) (plRemote pl))))"

definition push_data :: "time \<Rightarrow> ChannelManager \<Rightarrow> Channel \<Rightarrow> DataPacket \<Rightarrow> push_result" where
  "push_data now cm c p =
     (if chStatus c \<noteq> ChannelStatusActive then (Inl NotActive, c, cm, [])
      else if \<not> push_allowed c p then (Inl (SenderNotAuthorized (dpSenderID p)), c, cm, [])
      else let c0 = c\<lparr> chLastActivity := now,
                       chCurrentFlowID := (if dpFlowID p \<noteq> [] then dpFlowID p else chCurrentFlowID c) \<rparr>
           in case make_plan cm c0 p of
                None \<Rightarrow> (Inr (), c0, cm, [])
              | Some pl \<Rightarrow> push_to_targets cm c0 p pl)"

definition PushData ::
    "unmarshal \<Rightarrow> time \<Rightarrow> ChannelManager \<Rightarrow> Channel \<Rightarrow> DataPacket \<Rightarrow> push_result option" where
  "PushData unmarshal now cm c p =
     (case (if dpMessageType p = MessageTypeControl then unmarshal (dpPayload p) else None) of
        None \<Rightarrow> Some (push_data now cm c p)
      | Some msg \<Rightarrow>
          if ctMessageType msg = ''channel_update'' then
            (case ctChannelUpdate msg of
               None \<Rightarrow> Some (Inr (), c, cm, [])
             | Some u \<Rightarrow> (case handleChannelUpdate u cm c of (c', effs) \<Rightarrow> Some (Inr (), c', cm, effs)))
          else if ctMessageType msg = ''permission_request'' then
            (case ctPermissionRequest msg of
               None \<Rightarrow> Some (Inr (), c, cm, [])
             | Some r \<Rightarrow> map_option (\<lambda>c'. (Inr (), c', cm, []))
                           (StorePermissionRequestFromRemote now r (dpSenderID p) c))
          else Some (push_data now cm c p))"

section \<open>Subscribing and distributing\<close>

definition is_packet_sender :: "DataPacket \<Rightarrow> string \<Rightarrow> bool" where
  "is_packet_sender p sid \<longleftrightarrow>
     dpSenderID p = sid \<or>
     (dpSenderKernelID p \<noteq> [] \<and> dpSenderID p \<noteq> [] \<and> qualify (dpSenderKernelID p) (dpSenderID p) = sid)"

definition shouldSendToSubscriber :: "Channel \<Rightarrow> DataPacket \<Rightarrow> string \<Rightarrow> bool" where
  "shouldSendToSubscriber c p sid =
     (if is_packet_sender p sid then False
      else if \<not> dpIsAck p \<and> dpMessageType p \<noteq> MessageTypeEvidence \<and>
              list_ex (\<lambda>s. sid = raw_id s \<or> sid = s) (chSenderIDs c) then False
      else if \<not> dpIsAck p \<and> dpMessageType p \<noteq> MessageTypeEvidence \<and>
              \<not> list_ex (\<lambda>r. sid = raw_id r \<or> sid = r) (chReceiverIDs c) then False
      else if dpTargetIDs p = [] then True
      else list_ex (\<lambda>t. t = sid \<or> (has_colon t \<and> connector_part t = sid)) (dpTargetIDs p))"

definition subscriber_capacity :: nat where
  "subscriber_capacity = 100"

text \<open>The goroutine that sends what is buffered stops at the first packet that does not fit.\<close>

definition open_subscription ::
    "string \<Rightarrow> DataPacket list \<Rightarrow> Channel \<Rightarrow> Channel" where
  "open_subscription sid buffered c =
     c\<lparr>chSubscribers := go_put sid
         (take subscriber_capacity (filter (\<lambda>p. shouldSendToSubscriber c p sid) buffered)) (chSubscribers c)\<rparr>"

definition Subscribe ::
    "string \<Rightarrow> ChannelManager \<Rightarrow> Channel \<Rightarrow> (channel_error + unit) \<times> Channel \<times> ChannelManager" where
  "Subscribe sid cm c =
     (if chStatus c \<noteq> ChannelStatusActive then (Inl NotActive, c, cm)
      else if \<not> CanReceive c sid \<and> \<not> IsSender c sid then (Inl (SubscriberNotAuthorized sid), c, cm)
      else if IsSubscribed c sid then (Inl AlreadySubscribed, c, cm)
      else case GetBufferedDataForConnector sid cm of
        (ps, cm') \<Rightarrow> (Inr (), open_subscription sid (chBuffer c @ ps) c, cm'))"

definition SubscribeWithRecovery ::
    "string \<Rightarrow> bool \<Rightarrow> ChannelManager \<Rightarrow> Channel \<Rightarrow> (channel_error + unit) \<times> Channel \<times> ChannelManager" where
  "SubscribeWithRecovery sid recovery cm c =
     (if chStatus c \<noteq> ChannelStatusActive then (Inl NotActive, c, cm)
      else case (if recovery then GetBufferedDataForConnector sid cm else ([], cm)) of
        (ps, cm') \<Rightarrow> (Inr (), open_subscription sid (chBuffer c @ ps) c, cm'))"

definition Unsubscribe :: "string \<Rightarrow> Channel \<Rightarrow> Channel" where
  "Unsubscribe sid c = c\<lparr>chSubscribers := go_del sid (chSubscribers c)\<rparr>"

text \<open>One round of the distribution loop, and the loop until the queue is empty.\<close>

definition distribute :: "Channel \<Rightarrow> DataPacket \<Rightarrow> Channel" where
  "distribute c p =
     c\<lparr>chSubscribers := map (\<lambda>(sid, q).
         (sid, if shouldSendToSubscriber c p sid \<and> length q < subscriber_capacity then q @ [p] else q))
         (chSubscribers c)\<rparr>"

definition startDataDistribution :: "Channel \<Rightarrow> Channel" where
  "startDataDistribution c = foldl distribute (c\<lparr>chQueue := []\<rparr>) (chQueue c)"

section \<open>Lemmas\<close>

lemma add_offline_simps [simp]:
  "plRemote (add_offline cm c x pl) = plRemote pl" "plLocal (add_offline cm c x pl) = plLocal pl"
  by (simp_all add: add_offline_def)

lemma add_offline_has [simp]:
  "plHasSubscribers (add_offline cm c x pl) \<longleftrightarrow> plHasSubscribers pl \<or> IsSubscribed c x"
  by (simp add: add_offline_def)

lemma IsSubscribed_nonempty: "IsSubscribed c x \<Longrightarrow> chSubscribers c \<noteq> []"
  by (auto simp: IsSubscribed_def)

lemma broadcast_remote_keys:
  "go_keys (plRemote (foldl (broadcast_target cm c) pl rs)) =
     go_keys (plRemote pl) \<union> ({k. \<exists>r \<in> set rs. entry_kernel c r = Some k} - {cmKernelID cm})"
proof (induction rs arbitrary: pl)
  case (Cons r rs)
  have "go_keys (plRemote (broadcast_target cm c pl r)) =
      go_keys (plRemote pl) \<union> ({k. entry_kernel c r = Some k} - {cmKernelID cm})"
    by (auto simp: broadcast_target_def entry_kernel_def split: option.splits)
  with Cons.IH show ?case by auto
qed simp

lemma broadcast_has_subscribers:
  "plHasSubscribers (foldl (broadcast_target cm c) pl rs) \<longrightarrow> plHasSubscribers pl \<or> chSubscribers c \<noteq> []"
proof (induction rs arbitrary: pl)
  case (Cons r rs)
  have "plHasSubscribers (broadcast_target cm c pl r) \<longrightarrow> plHasSubscribers pl \<or> chSubscribers c \<noteq> []"
    by (auto simp: broadcast_target_def dest: IsSubscribed_nonempty split: option.splits)
  with Cons.IH show ?case by auto
qed simp

lemma broadcast_keeps_subscribers:
  "plHasSubscribers pl \<Longrightarrow> plHasSubscribers (foldl (broadcast_target cm c) pl rs)"
  by (induction rs arbitrary: pl) (auto simp: broadcast_target_def split: option.splits)

lemma broadcast_plan:
  assumes "dpTargetIDs p = []" and "\<not> dpIsAck p" and "dpMessageType p \<noteq> MessageTypeControl"
  obtains pl where "make_plan cm c p = Some pl" "plHasSubscribers pl \<longleftrightarrow> chSubscribers c \<noteq> []"
    "go_keys (plRemote pl) = {k. \<exists>r \<in> set (chReceiverIDs c). entry_kernel c r = Some k} - {cmKernelID cm}"
proof
  let ?pl = "foldl (broadcast_target cm c) (empty_plan c) (chReceiverIDs c)"
  show "make_plan cm c p = Some ?pl" using assms by (simp add: make_plan_def)
  show "plHasSubscribers ?pl \<longleftrightarrow> chSubscribers c \<noteq> []"
    using broadcast_has_subscribers broadcast_keeps_subscribers by (fastforce simp: empty_plan_def)
  show "go_keys (plRemote ?pl) = {k. \<exists>r \<in> set (chReceiverIDs c). entry_kernel c r = Some k} - {cmKernelID cm}"
    unfolding broadcast_remote_keys by (simp add: empty_plan_def)
qed

lemma PushData_plain:
  "dpMessageType p \<noteq> MessageTypeControl \<Longrightarrow> PushData um now cm c p = Some (push_data now cm c p)"
  by (simp add: PushData_def)

lemma forward_effect_iff:
  "Forward k q b \<in> set (concat (map (forward_one cm p) m)) \<longleftrightarrow>
     (\<exists>(rk, cids) \<in> set m. rk \<noteq> cmKernelID cm \<and> k = next_hop cm rk \<and> q = out_packet rk cids p \<and> b = dpIsFinal p)"
  by (auto simp: forward_one_def split: if_splits)

lemma after_sent_no_forward [simp]: "Forward k q b \<notin> set (after_sent p)"
  by (simp add: after_sent_def split: option.splits)

lemma push_to_targets_ok:
  assumes "push_to_targets cm c p pl = (Inr (), c', cm', effs)"
  shows "cm' = foldl (\<lambda>cm x. BufferDataForOfflineConnector x p cm) cm (plOffline pl)"
    and "chQueue c' = (if plHasSubscribers pl then chQueue c @ [p] else chQueue c)"
    and "chBuffer c' = (if should_buffer cm c p then chBuffer c @ [channel_copy p] else chBuffer c)"
    and "chSubscribers c' = chSubscribers c \<and> chSenderIDs c' = chSenderIDs c \<and> chReceiverIDs c' = chReceiverIDs c
       \<and> chStatus c' = chStatus c"
    and "effs = after_sent p @ (if should_buffer cm c p then []
           else concat (map (forward_one cm p) (plRemote pl)))"
  using assms by (auto simp: push_to_targets_def Let_def split: if_splits)

text \<open>The call keeps everything the two tests and the plan look at.\<close>

definition touched :: "time \<Rightarrow> DataPacket \<Rightarrow> Channel \<Rightarrow> Channel" where
  "touched now p c = c\<lparr> chLastActivity := now,
     chCurrentFlowID := (if dpFlowID p \<noteq> [] then dpFlowID p else chCurrentFlowID c) \<rparr>"

lemma touched_simps [simp]:
  "chSubscribers (touched now p c) = chSubscribers c" "chSenderIDs (touched now p c) = chSenderIDs c"
  "chReceiverIDs (touched now p c) = chReceiverIDs c" "chRemoteReceivers (touched now p c) = chRemoteReceivers c"
  "chQueue (touched now p c) = chQueue c" "chBuffer (touched now p c) = chBuffer c"
  "chStatus (touched now p c) = chStatus c" "chQueueClosed (touched now p c) = chQueueClosed c"
  "chMaxBufferSize (touched now p c) = chMaxBufferSize c"
  by (simp_all add: touched_def)

lemma same_view:
  assumes "chSubscribers c' = chSubscribers c" "chSenderIDs c' = chSenderIDs c"
    "chReceiverIDs c' = chReceiverIDs c"
  shows "IsSubscribed c' = IsSubscribed c" "CanReceive c' = CanReceive c" "CanSend c' = CanSend c"
    "should_buffer cm c' p = should_buffer cm c p" "shouldSendToSubscriber c' = shouldSendToSubscriber c"
proof -
  show sub: "IsSubscribed c' = IsSubscribed c" using assms(1) by (auto simp: IsSubscribed_def)
  show recv: "CanReceive c' = CanReceive c" using assms(3) by (auto simp: CanReceive_def)
  show "CanSend c' = CanSend c" using assms(2) by (auto simp: CanSend_def)
  show "should_buffer cm c' p = should_buffer cm c p"
    unfolding should_buffer_def sub recv assms(3) by simp
  show "shouldSendToSubscriber c' = shouldSendToSubscriber c"
    using assms(2,3) by (intro ext) (simp add: shouldSendToSubscriber_def)
qed

lemma entry_kernel_touched [simp]: "entry_kernel (touched now p c) = entry_kernel c"
  by (auto simp: entry_kernel_def)

lemma push_data_ok:
  assumes "push_data now cm c p = (Inr (), c', cm', effs)"
  shows "chStatus c = ChannelStatusActive \<and> push_allowed c p"
    and "make_plan cm (touched now p c) p = Some pl \<Longrightarrow>
      push_to_targets cm (touched now p c) p pl = (Inr (), c', cm', effs)"
  using assms by (auto simp: push_data_def touched_def Let_def split: if_splits option.splits)

subsection \<open>The distribution loop\<close>

lemma distribute_frame [simp]:
  "chSenderIDs (distribute c p) = chSenderIDs c" "chReceiverIDs (distribute c p) = chReceiverIDs c"
  "chQueue (distribute c p) = chQueue c" "chStatus (distribute c p) = chStatus c"
  by (simp_all add: distribute_def)

lemma shouldSend_distribute [simp]: "shouldSendToSubscriber (distribute c p) = shouldSendToSubscriber c"
  by (intro ext) (simp add: shouldSendToSubscriber_def)

lemma go_get_map_entries:
  "go_get (map (\<lambda>(k, v). (k, f k v)) m) k = map_option (f k) (go_get m k)"
  by (induction m) auto

lemma go_get_distribute:
  "go_get (chSubscribers (distribute c p)) sid = map_option (\<lambda>q.
     if shouldSendToSubscriber c p sid \<and> length q < subscriber_capacity then q @ [p] else q)
     (go_get (chSubscribers c) sid)"
  by (simp add: distribute_def go_get_map_entries)

lemma distribute_all:
  assumes "go_get (chSubscribers c) sid = Some q"
  shows "go_get (chSubscribers (foldl distribute c ps)) sid =
    Some (q @ take (subscriber_capacity - length q) (filter (\<lambda>p. shouldSendToSubscriber c p sid) ps))"
  using assms
proof (induction ps arbitrary: c q)
  case (Cons p ps)
  define q' where "q' = (if shouldSendToSubscriber c p sid \<and> length q < subscriber_capacity then q @ [p] else q)"
  have "go_get (chSubscribers (distribute c p)) sid = Some q'"
    using Cons.prems by (simp add: go_get_distribute q'_def)
  note ih = Cons.IH [OF this]
  show ?case
  proof (cases "length q < subscriber_capacity")
    case True
    then have "subscriber_capacity - length q = Suc (subscriber_capacity - Suc (length q))" by simp
    with ih True show ?thesis by (simp add: q'_def)
  next
    case False
    with ih show ?thesis by (simp add: q'_def)
  qed
qed simp

lemma distribute_all_frame [simp]:
  "chQueue (foldl distribute c ps) = chQueue c" "chSenderIDs (foldl distribute c ps) = chSenderIDs c"
  "chReceiverIDs (foldl distribute c ps) = chReceiverIDs c"
  by (induction ps arbitrary: c) auto

lemma business_recipient:
  assumes "shouldSendToSubscriber c p sid" and "\<not> dpIsAck p" and "dpMessageType p \<noteq> MessageTypeEvidence"
  shows "CanReceive c sid \<and> sid \<notin> set (chSenderIDs c) \<and> sid \<notin> raw_id ` set (chSenderIDs c) \<and> sid \<noteq> dpSenderID p"
  using assms
  by (auto simp: shouldSendToSubscriber_def is_packet_sender_def CanReceive_raw list_ex_iff split: if_splits)

lemma startDataDistribution_get:
  assumes "go_get (chSubscribers c) sid = Some q"
  shows "go_get (chSubscribers (startDataDistribution c)) sid =
    Some (q @ take (100 - length q) (filter (\<lambda>p. shouldSendToSubscriber c p sid) (chQueue c)))"
proof -
  have "shouldSendToSubscriber (c\<lparr>chQueue := []\<rparr>) = shouldSendToSubscriber c"
    by (rule same_view) simp_all
  then show ?thesis
    using distribute_all [of "c\<lparr>chQueue := []\<rparr>" sid q "chQueue c"] assms
    by (simp add: startDataDistribution_def subscriber_capacity_def)
qed

lemma Subscribe_success:
  "chStatus c = ChannelStatusActive \<Longrightarrow> CanReceive c s \<or> IsSender c s \<Longrightarrow> \<not> IsSubscribed c s \<Longrightarrow>
   Subscribe s cm c =
     (Inr (), open_subscription s (chBuffer c @ buffer_of cm s) c, snd (GetBufferedDataForConnector s cm))"
  by (auto simp: Subscribe_def GetBufferedDataForConnector_def)

lemma open_subscription_get:
  "\<exists>q. go_get (chSubscribers (open_subscription s ps c)) s = Some q \<and>
       q = take 100 (filter (\<lambda>p. shouldSendToSubscriber c p s) ps) \<and>
       (\<forall>x \<in> set q. shouldSendToSubscriber c x s)"
  by (auto simp: open_subscription_def gomap_simps subscriber_capacity_def dest: in_set_takeD)

section \<open>The delivery machine\<close>

text \<open>One channel and its manager under pushes, (un)subscriptions and distribution.\<close>

inductive dl_step :: "Channel \<times> ChannelManager \<Rightarrow> Channel \<times> ChannelManager \<Rightarrow> bool" where
  push: "PushData um now cm c p = Some (res, c', cm', effs) \<Longrightarrow> dl_step (c, cm) (c', cm')"
| subscribe: "Subscribe sid cm c = (res, c', cm') \<Longrightarrow> dl_step (c, cm) (c', cm')"
| recover: "SubscribeWithRecovery sid r cm c = (res, c', cm') \<Longrightarrow> dl_step (c, cm) (c', cm')"
| unsubscribe: "dl_step (c, cm) (Unsubscribe sid c, cm)"
| distribution: "dl_step (c, cm) (startDataDistribution c, cm)"

definition within_bounds :: "Channel \<times> ChannelManager \<Rightarrow> bool" where
  "within_bounds s \<longleftrightarrow> (case s of (c, cm) \<Rightarrow>
     length (chQueue c) \<le> 1000 \<and> length (chBuffer c) \<le> chMaxBufferSize c \<and>
     (\<forall>sid q. go_get (chSubscribers c) sid = Some q \<longrightarrow> length q \<le> 100) \<and>
     (\<forall>cid. length (buffer_of cm cid) \<le> 1000))"

definition dl_init :: "Channel \<times> ChannelManager \<Rightarrow> bool" where
  "dl_init s \<longleftrightarrow> (case s of (c, cm) \<Rightarrow>
     chQueue c = [] \<and> chBuffer c = [] \<and> chSubscribers c = [] \<and> cmConnectorBuffers cm = [])"

definition same_bounds :: "Channel \<Rightarrow> Channel \<Rightarrow> bool" where
  "same_bounds c c' \<longleftrightarrow> chMaxBufferSize c' = chMaxBufferSize c \<and> chSubscribers c' = chSubscribers c \<and>
     (length (chQueue c') \<le> length (chQueue c) \<or> length (chQueue c') \<le> 1000) \<and>
     (length (chBuffer c') \<le> length (chBuffer c) \<or> length (chBuffer c') \<le> chMaxBufferSize c)"

lemma buffers_bounded:
  "\<forall>cid. length (buffer_of cm cid) \<le> 1000 \<Longrightarrow>
   length (buffer_of (foldl (\<lambda>cm x. BufferDataForOfflineConnector x p cm) cm xs) cid) \<le> 1000"
  by (induction xs arbitrary: cm) (auto simp: cbuf.push_bound)

lemma push_to_targets_bounds:
  assumes "push_to_targets cm c p pl = (res, c', cm', effs)"
  shows "same_bounds c c' \<and> cm' = foldl (\<lambda>cm x. BufferDataForOfflineConnector x p cm) cm (plOffline pl)"
  using assms by (auto simp: push_to_targets_def Let_def same_bounds_def split: if_splits)

lemma push_data_bounds:
  assumes "push_data now cm c p = (res, c', cm', effs)"
  shows "same_bounds c c' \<and> (\<exists>xs. cm' = foldl (\<lambda>cm x. BufferDataForOfflineConnector x p cm) cm xs)"
proof -
  have idle: "same_bounds c c" "cm = foldl (\<lambda>cm x. BufferDataForOfflineConnector x p cm) cm []"
    by (simp_all add: same_bounds_def)
  consider "c' = c" "cm' = cm" | "c' = touched now p c" "cm' = cm"
    | pl where "push_to_targets cm (touched now p c) p pl = (res, c', cm', effs)"
  proof (cases "chStatus c = ChannelStatusActive \<and> push_allowed c p")
    case True
    then have "push_data now cm c p = (case make_plan cm (touched now p c) p of None \<Rightarrow> (Inr (), touched now p c, cm, [])
        | Some pl \<Rightarrow> push_to_targets cm (touched now p c) p pl)"
      unfolding push_data_def touched_def [symmetric] Let_def by simp
    then show thesis using assms that(2,3) by (cases "make_plan cm (touched now p c) p") simp_all
  next
    case False
    then have "c' = c" "cm' = cm" using assms by (auto simp: push_data_def split: if_splits)
    then show thesis by (rule that(1))
  qed
  then show ?thesis
  proof cases
    case 1
    with idle show ?thesis by blast
  next
    case 2
    then have "same_bounds c c'" by (simp add: same_bounds_def)
    with 2 idle(2) show ?thesis by blast
  next
    case 3
    from push_to_targets_bounds [OF this] show ?thesis by (auto simp: same_bounds_def)
  qed
qed

lemma PushData_bounds:
  assumes "PushData um now cm c p = Some (res, c', cm', effs)"
  shows "same_bounds c c' \<and> (\<exists>xs. cm' = foldl (\<lambda>cm x. BufferDataForOfflineConnector x p cm) cm xs)"
proof -
  have idle: "cm = foldl (\<lambda>cm x. BufferDataForOfflineConnector x p cm) cm []" by simp
  have store: "same_bounds c d" if "StorePermissionRequestFromRemote now r who c = Some d" for r who d
    using that by (auto simp: StorePermissionRequestFromRemote_def same_bounds_def split: if_splits)
  consider "push_data now cm c p = (res, c', cm', effs)" | "same_bounds c c'" "cm' = cm"
    using assms
    by (auto simp: PushData_def handleChannelUpdate_def Let_def same_bounds_def
        split: option.splits if_splits dest!: store)
  then show ?thesis using push_data_bounds idle by cases blast+
qed

lemma distribute_bounds:
  "\<forall>sid q. go_get (chSubscribers c) sid = Some q \<longrightarrow> length q \<le> 100 \<Longrightarrow>
   go_get (chSubscribers (startDataDistribution c)) sid = Some q' \<Longrightarrow> length q' \<le> 100"
proof -
  assume all: "\<forall>sid q. go_get (chSubscribers c) sid = Some q \<longrightarrow> length q \<le> 100"
    and q': "go_get (chSubscribers (startDataDistribution c)) sid = Some q'"
  have "go_get (chSubscribers (foldl distribute d ps)) sid = None" if "go_get (chSubscribers d) sid = None" for d ps
    using that by (induction ps arbitrary: d) (auto simp: go_get_distribute)
  from this [of "c\<lparr>chQueue := []\<rparr>" "chQueue c"] obtain q where q: "go_get (chSubscribers c) sid = Some q"
    using q' by (cases "go_get (chSubscribers c) sid") (auto simp: startDataDistribution_def)
  with all have "length q \<le> 100" by blast
  with startDataDistribution_get [OF q] q' show ?thesis by auto
qed

lemma distribute_fold_keeps [simp]:
  "chBuffer (foldl distribute c ps) = chBuffer c" "chMaxBufferSize (foldl distribute c ps) = chMaxBufferSize c"
  by (induction ps arbitrary: c) (auto simp: distribute_def)

lemma open_subscription_bounds:
  assumes "within_bounds (c, cm)"
  shows "within_bounds (open_subscription sid ps c, cm)"
  using assms by (auto simp: within_bounds_def open_subscription_def gomap_simps subscriber_capacity_def split: if_splits)

lemma get_buffered_bounds:
  "within_bounds (c, cm) \<Longrightarrow> within_bounds (c, snd (GetBufferedDataForConnector sid cm))"
  by (auto simp: within_bounds_def)

lemma subscribe_bounds:
  assumes "within_bounds (c, cm)"
  shows "Subscribe sid cm c = (res, c', cm') \<Longrightarrow> within_bounds (c', cm')"
    and "SubscribeWithRecovery sid r cm c = (res, c', cm') \<Longrightarrow> within_bounds (c', cm')"
  using assms open_subscription_bounds [OF get_buffered_bounds [OF assms]] open_subscription_bounds [OF assms]
  by (auto simp: Subscribe_def SubscribeWithRecovery_def split: if_splits prod.splits) (metis snd_conv)+

interpretation dl: invariant_system dl_init dl_step within_bounds
proof
  show "within_bounds s" if "dl_init s" for s
    using that by (auto simp: dl_init_def within_bounds_def buffer_of_def split: prod.splits)
  show "within_bounds t" if "dl_step s t" and "within_bounds s" for s t
    using that
  proof cases
    case (push um now cm c p res c' cm' effs)
    from PushData_bounds [OF push(3)] that(2) push(1,2) show ?thesis
      by (auto simp: within_bounds_def same_bounds_def buffers_bounded)
  next
    case (unsubscribe c cm sid)
    with that(2) show ?thesis by (auto simp: within_bounds_def Unsubscribe_def gomap_simps)
  next
    case (distribution c cm)
    with that(2) show ?thesis
      using distribute_bounds [of c]
      by (auto simp: within_bounds_def) (auto simp: startDataDistribution_def)
  qed (use that(2) subscribe_bounds in blast)+
qed

section \<open>Properties\<close>



text \<open>
  C15. The distribution loop is a fair FIFO: it empties the queue, and every subscriber's channel gets
  exactly the packets of the queue meant for it, in order and each once, as far as its 100 slots
  allow; the business packets among them go to authorised receivers only, never to a sender.
\<close>

theorem distribution_fifo:
  assumes "go_get (chSubscribers c) sid = Some q"
  shows "chQueue (startDataDistribution c) = []
    \<and> (\<exists>new. go_get (chSubscribers (startDataDistribution c)) sid = Some (q @ new)
        \<and> new = take (100 - length q) (filter (\<lambda>p. shouldSendToSubscriber c p sid) (chQueue c))
        \<and> (\<forall>p \<in> set new. \<not> dpIsAck p \<and> dpMessageType p \<noteq> MessageTypeEvidence \<longrightarrow>
             CanReceive c sid \<and> sid \<notin> set (chSenderIDs c) \<and> sid \<notin> raw_id ` set (chSenderIDs c) \<and> sid \<noteq> dpSenderID p))"
proof -
  let ?new = "take (100 - length q) (filter (\<lambda>p. shouldSendToSubscriber c p sid) (chQueue c))"
  have "\<forall>p \<in> set ?new. shouldSendToSubscriber c p sid" by (auto dest: in_set_takeD)
  moreover have "chQueue (startDataDistribution c) = []" by (simp add: startDataDistribution_def)
  ultimately show ?thesis
    using startDataDistribution_get [OF assms] business_recipient by blast
qed

definition demo_local :: Channel where
  "demo_local = empty_channel\<lparr> chSenderIDs := [''a''], chReceiverIDs := [''b''],
     chSubscribers := [(''b'', [])] \<rparr>"

lemmas demo_push_defs = PushData_def push_data_def push_allowed_def CanSend_def can_send_as_def make_plan_def
  broadcast_target_def directed_target_def add_offline_def empty_plan_def push_to_targets_def should_buffer_def
  IsSubscribed_def IsConnectorOnline_def demo_packet_def message_type_defs demo_sync_defs raw_id_def Let_def

theorem distribution_fifo_witness:
  "go_get (chSubscribers (startDataDistribution (demo_local\<lparr>chQueue := [demo_packet]\<rparr>))) ''b'' = Some [demo_packet]"
proof -
  have "go_get (chSubscribers (demo_local\<lparr>chQueue := [demo_packet]\<rparr>)) ''b'' = Some []"
      "shouldSendToSubscriber (demo_local\<lparr>chQueue := [demo_packet]\<rparr>) demo_packet ''b''"
    by (simp_all add: demo_local_def shouldSendToSubscriber_def is_packet_sender_def demo_packet_def raw_id_def)
  then show ?thesis
    using distribution_fifo [of "demo_local\<lparr>chQueue := [demo_packet]\<rparr>" "''b''" "[]"] by auto
qed

text \<open>
  C16. From push to subscriber: when a broadcast business packet is accepted, every subscribed
  receiver that is not a sender and has room finds it last in its channel after the distribution
  loop has run.
\<close>

theorem push_reaches_subscriber:
  assumes "dpTargetIDs p = []" and "\<not> dpIsAck p" and "dpMessageType p \<noteq> MessageTypeControl"
    and "PushData um now cm c p = Some (Inr (), c', cm', effs)"
    and "go_get (chSubscribers c) sid = Some q" and "length q + length (chQueue c) < 100"
    and "sid \<in> set (chReceiverIDs c) \<union> raw_id ` set (chReceiverIDs c)"
    and "sid \<notin> set (chSenderIDs c) \<union> raw_id ` set (chSenderIDs c)" and "\<not> is_packet_sender p sid"
  shows "\<exists>new. go_get (chSubscribers (startDataDistribution c')) sid = Some (q @ new @ [p])
     \<and> new = filter (\<lambda>p. shouldSendToSubscriber c p sid) (chQueue c)"
proof -
  have pd: "push_data now cm c p = (Inr (), c', cm', effs)"
    using assms(3,4) by (simp add: PushData_plain)
  obtain pl where pl: "make_plan cm (touched now p c) p = Some pl"
      "plHasSubscribers pl \<longleftrightarrow> chSubscribers (touched now p c) \<noteq> []"
    using broadcast_plan [OF assms(1-3)] by metis
  note ok = push_to_targets_ok [OF push_data_ok(2) [OF pd pl(1)]]
  have q: "chQueue c' = chQueue c @ [p]" using ok(2) pl(2) assms(5) by auto
  have sub: "chSubscribers c' = chSubscribers c" and snd: "chSenderIDs c' = chSenderIDs c"
    and rcv: "chReceiverIDs c' = chReceiverIDs c"
    using ok(4) by simp_all
  have send: "shouldSendToSubscriber c p sid"
    using assms(1,7,8,9) by (auto simp: shouldSendToSubscriber_def list_ex_iff)
  have len: "length (filter (\<lambda>p. shouldSendToSubscriber c p sid) (chQueue c @ [p])) \<le> 100 - length q"
    using assms(6) length_filter_le [of "\<lambda>p. shouldSendToSubscriber c p sid" "chQueue c @ [p]"] by simp
  show ?thesis
    using startDataDistribution_get [of c' sid q] assms(5) send len
    by (simp add: q sub same_view(5) [OF sub snd rcv])
qed

theorem push_reaches_subscriber_witness:
  "\<exists>c' cm' effs. PushData (\<lambda>_. None) 0 demo_kernel demo_local demo_packet = Some (Inr (), c', cm', effs)
     \<and> go_get (chSubscribers (startDataDistribution c')) ''b'' = Some [demo_packet]"
proof -
  have h: "dpTargetIDs demo_packet = []" "\<not> dpIsAck demo_packet" "dpMessageType demo_packet \<noteq> MessageTypeControl"
      "go_get (chSubscribers demo_local) ''b'' = Some []" "length ([]::DataPacket list) + length (chQueue demo_local) < 100"
      "''b'' \<in> set (chReceiverIDs demo_local) \<union> raw_id ` set (chReceiverIDs demo_local)"
      "''b'' \<notin> set (chSenderIDs demo_local) \<union> raw_id ` set (chSenderIDs demo_local)"
      "\<not> is_packet_sender demo_packet ''b''" "chQueue demo_local = []"
    by (simp_all add: demo_local_def demo_packet_def message_type_defs empty_channel_def is_packet_sender_def
        raw_id_def)
  obtain c' cm' effs where r: "PushData (\<lambda>_. None) 0 demo_kernel demo_local demo_packet = Some (Inr (), c', cm', effs)"
    by (simp add: demo_push_defs demo_local_def)
  show ?thesis using r push_reaches_subscriber [OF h(1-3) r h(4-8)] h(9) by auto
qed

lemma broadcast_effects:
  assumes "dpTargetIDs p = []" and "\<not> dpIsAck p" and "dpMessageType p \<noteq> MessageTypeControl"
    and "PushData um now cm c p = Some (Inr (), c', cm', effs)" and "\<not> should_buffer cm c p"
  shows "Forward k q b \<in> set effs \<longleftrightarrow> q = p \<and> b = dpIsFinal p \<and>
     (\<exists>rk \<in> {k. \<exists>r \<in> set (chReceiverIDs c). entry_kernel c r = Some k} - {cmKernelID cm}. k = next_hop cm rk)"
proof -
  have pd: "push_data now cm c p = (Inr (), c', cm', effs)"
    using assms(3,4) by (simp add: PushData_plain)
  obtain pl where pl: "make_plan cm (touched now p c) p = Some pl" and
      keys': "go_keys (plRemote pl) =
        {k. \<exists>r \<in> set (chReceiverIDs (touched now p c)). entry_kernel (touched now p c) r = Some k} - {cmKernelID cm}"
    by (rule broadcast_plan [OF assms(1-3), of cm "touched now p c"])
  note keys = keys' [unfolded touched_simps entry_kernel_touched]
  note ok = push_to_targets_ok [OF push_data_ok(2) [OF pd pl]]
  have "\<not> should_buffer cm (touched now p c) p" using assms(5) by (simp add: same_view(4) [of "touched now p c" c])
  then have effs: "effs = after_sent p @ concat (map (forward_one cm p) (plRemote pl))" using ok(5) by simp
  have out: "out_packet rk cids p = p" for rk cids
    using assms(1) by (simp add: out_packet_def)
  have "Forward k q b \<in> set effs \<longleftrightarrow> Forward k q b \<in> set (concat (map (forward_one cm p) (plRemote pl)))"
    unfolding effs set_append Un_iff by simp
  also have "\<dots> \<longleftrightarrow>
      (\<exists>rk \<in> go_keys (plRemote pl). rk \<noteq> cmKernelID cm \<and> k = next_hop cm rk \<and> q = p \<and> b = dpIsFinal p)"
    unfolding forward_effect_iff out by (simp add: case_prod_unfold)
  finally have "Forward k q b \<in> set effs \<longleftrightarrow>
      (\<exists>rk \<in> go_keys (plRemote pl). rk \<noteq> cmKernelID cm \<and> k = next_hop cm rk \<and> q = p \<and> b = dpIsFinal p)" .
  then show ?thesis unfolding keys by auto
qed

text \<open>
  A broadcast business packet that is accepted and not held back for a local receiver leaves for
  every remote kernel of the channel's receivers: the forwards are exactly one hop towards each such
  kernel, carry the packet unchanged, and none is addressed to this kernel's own receivers.
\<close>

theorem broadcast_forwards_exact:
  assumes "dpTargetIDs p = []" and "\<not> dpIsAck p" and "dpMessageType p \<noteq> MessageTypeControl"
    and "PushData um now cm c p = Some (Inr (), c', cm', effs)" and "\<not> should_buffer cm c p"
  shows "Forward k q b \<in> set effs \<longleftrightarrow> q = p \<and> b = dpIsFinal p \<and>
     (\<exists>r \<in> set (chReceiverIDs c). \<exists>rk. entry_kernel c r = Some rk \<and> rk \<noteq> cmKernelID cm \<and> k = next_hop cm rk)"
  using broadcast_effects [OF assms] by blast

theorem broadcast_forwards_exact_witness:
  "\<exists>c' cm' effs. PushData (\<lambda>_. None) 0 demo_kernel demo_channel demo_packet = Some (Inr (), c', cm', effs)
     \<and> Forward ''k3'' demo_packet False \<in> set effs"
proof -
  have h: "dpTargetIDs demo_packet = []" "\<not> dpIsAck demo_packet" "dpMessageType demo_packet \<noteq> MessageTypeControl"
      "\<not> should_buffer demo_kernel demo_channel demo_packet" "dpIsFinal demo_packet = False"
      "qualify ''k3'' ''c'' \<in> set (chReceiverIDs demo_channel)" "next_hop demo_kernel ''k3'' = ''k3''"
      "entry_kernel demo_channel (qualify ''k3'' ''c'') = Some ''k3''" "''k3'' \<noteq> cmKernelID demo_kernel"
    by (simp_all add: demo_push_defs entry_kernel_def next_hop_def)
  obtain c' cm' effs where r: "PushData (\<lambda>_. None) 0 demo_kernel demo_channel demo_packet = Some (Inr (), c', cm', effs)"
    by (simp add: demo_push_defs append_target_def)
  show ?thesis
    using r broadcast_forwards_exact [OF h(1-3) r h(4), of "''k3''" demo_packet False] h(5-9) by metis
qed

text \<open>
  Holding a packet back for one local receiver withholds it from all remote ones: whenever some
  addressed local receiver is connected but not subscribed, an accepted packet is not forwarded to
  any kernel.
\<close>

theorem buffering_stops_forwarding:
  assumes "dpMessageType p \<noteq> MessageTypeControl" and "should_buffer cm c p"
    and "PushData um now cm c p = Some (Inr (), c', cm', effs)"
  shows "\<forall>k q b. Forward k q b \<notin> set effs"
proof (cases "make_plan cm (touched now p c) p")
  case None
  then show ?thesis
    using assms(1,3) by (auto simp: PushData_plain push_data_def touched_def Let_def split: if_splits)
next
  case (Some pl)
  have "push_data now cm c p = (Inr (), c', cm', effs)" using assms(1,3) by (simp add: PushData_plain)
  note ok = push_to_targets_ok [OF push_data_ok(2) [OF this Some]]
  have "should_buffer cm (touched now p c) p" using assms(2) by (simp add: same_view(4) [of "touched now p c" c])
  then show ?thesis using ok(5) by simp
qed

definition demo_waiting :: ChannelManager where
  "demo_waiting = MarkConnectorOnline 0 ''w'' demo_kernel"

definition demo_mixed :: Channel where
  "demo_mixed = demo_channel\<lparr>chReceiverIDs := [qualify ''k2'' ''b'', ''w'']\<rparr>"

theorem buffering_stops_forwarding_witness:
  "\<exists>c' cm' effs. PushData (\<lambda>_. None) 0 demo_waiting demo_mixed demo_packet = Some (Inr (), c', cm', effs)
     \<and> qualify ''k2'' ''b'' \<in> set (chReceiverIDs demo_mixed) \<and> Forward ''k2'' demo_packet False \<notin> set effs"
proof -
  have h: "dpMessageType demo_packet \<noteq> MessageTypeControl" "should_buffer demo_waiting demo_mixed demo_packet"
      "qualify ''k2'' ''b'' \<in> set (chReceiverIDs demo_mixed)"
    by (simp_all add: demo_push_defs demo_mixed_def demo_waiting_def MarkConnectorOnline_def)
  obtain c' cm' effs where r: "PushData (\<lambda>_. None) 0 demo_waiting demo_mixed demo_packet = Some (Inr (), c', cm', effs)"
    by (simp add: demo_push_defs demo_mixed_def demo_waiting_def MarkConnectorOnline_def append_target_def)
  show ?thesis using r buffering_stops_forwarding [OF h(1,2) r] h(3) by blast
qed

text \<open>
  Directed packets lose targets over several hops: when two connectors of the same remote kernel
  are addressed and that kernel is reached through another one, only the first keeps its kernel
  prefix, and the intermediate kernel forwards the packet for the first connector alone.
\<close>

theorem multi_hop_loses_targets:
  assumes "\<not> has_colon rk" and "\<not> has_colon x" and "\<not> has_colon y"
    and "dpTargetIDs p = [qualify rk x, qualify rk y]" and "\<not> dpIsAck p" and "dpMessageType p \<noteq> MessageTypeControl"
    and "\<not> should_buffer cm c p" and "rk \<noteq> cmKernelID cm"
    and "PushData um now cm c p = Some (Inr (), c', cm', effs)"
    and "q = p\<lparr>dpTargetIDs := [qualify rk x, y]\<rparr>"
  shows "Forward (next_hop cm rk) q (dpIsFinal p) \<in> set effs
    \<and> (\<forall>cm2 c2 pl. make_plan cm2 c2 q = Some pl \<longrightarrow> go_get (plRemote pl) rk = Some [x])"
proof -
  have pd: "push_data now cm c p = (Inr (), c', cm', effs)"
    using assms(6,9) by (simp add: PushData_plain)
  have pl: "make_plan cm (touched now p c) p = Some ((empty_plan (touched now p c))\<lparr>plRemote := [(rk, [x, y])]\<rparr>)"
    using assms(1,4,5) by (simp add: make_plan_def directed_target_def append_target_def empty_plan_def id_simps)
  note ok = push_to_targets_ok [OF push_data_ok(2) [OF pd pl]]
  have "out_packet rk [x, y] p = q" using assms(2,4,10) by (simp add: out_packet_def)
  then have "Forward (next_hop cm rk) q (dpIsFinal p) \<in> set effs"
    using ok(5) assms(7,8) by (simp add: same_view(4) [of "touched now p c" c] forward_one_def)
  moreover have "go_get (plRemote pl) rk = Some [x]" if "make_plan cm2 c2 q = Some pl" for cm2 c2 pl
    using that assms(1,3,5,10)
    by (auto simp: make_plan_def directed_target_def append_target_def empty_plan_def id_simps Let_def
        split: if_splits)
  ultimately show ?thesis by blast
qed

definition demo_router :: ChannelManager where
  "demo_router = demo_kernel\<lparr>cmNextHop := Some (\<lambda>_ _. Some ''k2'')\<rparr>"

definition demo_directed :: DataPacket where
  "demo_directed = demo_packet\<lparr>dpTargetIDs := [qualify ''k3'' ''c'', qualify ''k3'' ''d'']\<rparr>"

theorem multi_hop_loses_targets_witness:
  "\<exists>c' cm' effs. PushData (\<lambda>_. None) 0 demo_router demo_channel demo_directed = Some (Inr (), c', cm', effs)
     \<and> Forward ''k2'' (demo_directed\<lparr>dpTargetIDs := [qualify ''k3'' ''c'', ''d'']\<rparr>) False \<in> set effs"
proof -
  have h: "\<not> has_colon ''k3''" "\<not> has_colon ''c''" "\<not> has_colon ''d''"
      "dpTargetIDs demo_directed = [qualify ''k3'' ''c'', qualify ''k3'' ''d'']" "\<not> dpIsAck demo_directed"
      "dpMessageType demo_directed \<noteq> MessageTypeControl" "\<not> should_buffer demo_router demo_channel demo_directed"
      "''k3'' \<noteq> cmKernelID demo_router"
    by (simp_all add: demo_push_defs demo_directed_def demo_router_def)
  have n: "next_hop demo_router ''k3'' = ''k2''" "dpIsFinal demo_directed = False"
    by (simp_all add: next_hop_def demo_router_def demo_directed_def demo_packet_def)
  obtain c' cm' effs where r: "PushData (\<lambda>_. None) 0 demo_router demo_channel demo_directed = Some (Inr (), c', cm', effs)"
    by (simp add: demo_push_defs demo_directed_def demo_router_def append_target_def)
  show ?thesis using r multi_hop_loses_targets [OF h r refl] n by auto
qed

text \<open>
  Channel updates are not authenticated: a control packet with a channel update is applied whoever
  sent it and whatever the state of the channel, so it replaces the participants and can set a
  proposed or closed channel to active without any approval; no distribution loop is started.
\<close>

theorem channel_update_unchecked:
  assumes "dpMessageType p = MessageTypeControl" and "unmarshal (dpPayload p) = Some msg"
    and "ctMessageType msg = ''channel_update''" and "ctChannelUpdate msg = Some u"
  shows "\<exists>c' effs. PushData unmarshal now cm c p = Some (Inr (), c', cm, effs)
    \<and> chSenderIDs c' = cuSenderIDs u \<and> chReceiverIDs c' = cuReceiverIDs u
    \<and> (cuStatus u \<noteq> [] \<longrightarrow> chStatus c' = cuStatus u)
    \<and> chProposal c' = chProposal c \<and> chDistributors c' = chDistributors c"
  using assms by (simp add: PushData_def handleChannelUpdate_def Let_def)

definition demo_takeover :: ControlMessage where
  "demo_takeover = (control_message ''channel_update'' 0 ''k9'')\<lparr> ctChannelUpdate := Some \<lparr> cuChannelID = ''ch'',
     cuCreatorID = ''x'', cuSenderIDs = [''x''], cuReceiverIDs = [''y''], cuStatus = ChannelStatusActive \<rparr> \<rparr>"

theorem channel_update_unchecked_witness:
  "\<exists>c' effs. PushData (\<lambda>_. Some demo_takeover) 0 demo_kernel
       (demo_local\<lparr>chStatus := ChannelStatusProposed\<rparr>) (control_packet ''ch'' 0 ''json'' ''k9'' 0)
     = Some (Inr (), c', demo_kernel, effs) \<and> chStatus c' = ChannelStatusActive \<and> chSenderIDs c' = [''x'']"
proof -
  let ?p = "control_packet ''ch'' 0 ''json'' ''k9'' 0"
  obtain u where h: "dpMessageType ?p = MessageTypeControl" "ctMessageType demo_takeover = ''channel_update''"
      "ctChannelUpdate demo_takeover = Some u" "cuStatus u = ChannelStatusActive" "cuSenderIDs u = [''x'']"
    by (simp add: control_packet_def demo_takeover_def control_message_def)
  have "cuStatus u \<noteq> []" using h(4) by (simp add: channel_status_defs)
  then show ?thesis
    using channel_update_unchecked [of ?p "\<lambda>_. Some demo_takeover" demo_takeover u 0 demo_kernel
        "demo_local\<lparr>chStatus := ChannelStatusProposed\<rparr>", OF h(1) refl h(2,3)] h(4,5) by fastforce
qed

text \<open>
  An acknowledgement for a sender that is offline is lost: it is stored in that sender's buffer
  without its ACK flag, and when the sender subscribes the buffer is emptied but the stored packet is
  filtered out as business data.
\<close>

theorem buffered_ack_lost:
  assumes "dpIsAck p" and "dpTargetIDs p = [s]" and "\<not> has_colon s" and "s \<in> set (chSenderIDs c)"
    and "dpMessageType p \<noteq> MessageTypeControl" and "\<not> IsSubscribed c s" and "\<not> IsConnectorOnline cm s"
    and "ack_route cm p = None" and "length (buffer_of cm s) < 1000"
    and "PushData um now cm c p = Some (Inr (), c', cm', effs)"
  shows "buffer_of cm' s = buffer_of cm s @ [buffered_copy p]
    \<and> (\<exists>c'' cm'' q. Subscribe s cm' c' = (Inr (), c'', cm'') \<and> buffer_of cm'' s = []
        \<and> go_get (chSubscribers c'') s = Some q \<and> buffered_copy p \<notin> set q)"
proof -
  have pd: "push_data now cm c p = (Inr (), c', cm', effs)"
    using assms(5,10) by (simp add: PushData_plain)
  have view: "IsSubscribed (touched now p c) = IsSubscribed c" by (rule same_view) simp_all
  have pl: "make_plan cm (touched now p c) p =
      Some ((empty_plan (touched now p c))\<lparr>plLocal := [s], plOffline := [s]\<rparr>)"
    using assms(1-3,6-8) by (simp add: make_plan_def directed_target_def empty_plan_def view)
  note ok = push_to_targets_ok [OF push_data_ok(2) [OF pd pl]]
  have buf: "buffer_of cm' s = buffer_of cm s @ [buffered_copy p]"
    using ok(1) assms(9) by (simp add: push_buffer_def)
  have lists: "chSubscribers c' = chSubscribers c" "chSenderIDs c' = chSenderIDs c" "chReceiverIDs c' = chReceiverIDs c"
    using ok(4) by simp_all
  have st: "chStatus c' = ChannelStatusActive" using ok(4) push_data_ok(1) [OF pd] by simp
  have no: "\<not> shouldSendToSubscriber c' (buffered_copy p) s"
    using assms(4) lists(2)
    by (auto simp: shouldSendToSubscriber_def buffered_copy_def MessageTypeEvidence_def list_ex_iff)
  have can: "IsSender c' s" using assms(4) lists(2) by (simp add: IsSender_raw)
  have "\<not> IsSubscribed c' s" using assms(6) same_view(1) [OF lists] by simp
  note sub = Subscribe_success [OF st disjI2 [OF can] this, of cm']
  obtain q where "go_get (chSubscribers (open_subscription s (chBuffer c' @ buffer_of cm' s) c')) s = Some q"
      "\<forall>x \<in> set q. shouldSendToSubscriber c' x s"
    using open_subscription_get by blast
  then show ?thesis using sub buf no by auto
qed

definition demo_ack :: DataPacket where
  "demo_ack = demo_packet\<lparr>dpIsAck := True, dpSenderID := ''b'', dpTargetIDs := [''a''], dpMessageType := MessageTypeAck\<rparr>"

theorem buffered_ack_lost_witness:
  "\<exists>c' cm' effs. PushData (\<lambda>_. None) 0 demo_kernel demo_local demo_ack = Some (Inr (), c', cm', effs)
     \<and> buffer_of cm' ''a'' = [buffered_copy demo_ack]
     \<and> (\<exists>c'' cm'' q. Subscribe ''a'' cm' c' = (Inr (), c'', cm'') \<and> buffer_of cm'' ''a'' = []
          \<and> go_get (chSubscribers c'') ''a'' = Some q \<and> buffered_copy demo_ack \<notin> set q)"
proof -
  have h: "dpIsAck demo_ack" "dpTargetIDs demo_ack = [''a'']" "\<not> has_colon ''a''" "''a'' \<in> set (chSenderIDs demo_local)"
      "dpMessageType demo_ack \<noteq> MessageTypeControl" "\<not> IsSubscribed demo_local ''a''"
      "\<not> IsConnectorOnline demo_kernel ''a''" "ack_route demo_kernel demo_ack = None"
      "length (buffer_of demo_kernel ''a'') < 1000" "buffer_of demo_kernel ''a'' = []"
    by (simp_all add: demo_push_defs demo_ack_def demo_local_def ack_route_def buffer_of_def)
  obtain c' cm' effs where r: "PushData (\<lambda>_. None) 0 demo_kernel demo_local demo_ack = Some (Inr (), c', cm', effs)"
    by (simp add: demo_push_defs demo_ack_def demo_local_def ack_route_def)
  show ?thesis using r buffered_ack_lost [OF h(1-9) r] h(10) by simp
qed

text \<open>
  The subscription the server uses does not check who subscribes: on an active channel it succeeds
  for every connector, participant or not, replaces an existing subscription of that name together
  with what was queued there, and the new subscriber receives every evidence packet broadcast in the
  channel that it did not send itself.
\<close>

theorem recovery_subscription_unchecked:
  assumes "chStatus c = ChannelStatusActive" and "chBuffer c = []" and "\<not> recovery"
  shows "\<exists>c'. SubscribeWithRecovery sid recovery cm c = (Inr (), c', cm) \<and> go_get (chSubscribers c') sid = Some []
    \<and> (\<forall>p. dpMessageType p = MessageTypeEvidence \<and> dpTargetIDs p = [] \<and> \<not> is_packet_sender p sid \<longrightarrow>
         go_get (chSubscribers (startDataDistribution (c'\<lparr>chQueue := [p]\<rparr>))) sid = Some [p])"
proof -
  let ?c = "open_subscription sid [] c"
  have get: "go_get (chSubscribers ?c) sid = Some []"
    using open_subscription_get [of sid "[]" c] by simp
  have "go_get (chSubscribers (startDataDistribution (?c\<lparr>chQueue := [p]\<rparr>))) sid = Some [p]"
    if "dpMessageType p = MessageTypeEvidence" "dpTargetIDs p = []" "\<not> is_packet_sender p sid" for p
    using startDataDistribution_get [of "?c\<lparr>chQueue := [p]\<rparr>" sid "[]"] get that
    by (simp add: shouldSendToSubscriber_def)
  then show ?thesis using assms get by (auto simp: SubscribeWithRecovery_def)
qed

theorem recovery_subscription_unchecked_witness:
  "\<not> CanReceive demo_local ''eve'' \<and> \<not> IsSender demo_local ''eve''
    \<and> (\<exists>c'. SubscribeWithRecovery ''eve'' False demo_kernel demo_local = (Inr (), c', demo_kernel)
         \<and> IsSubscribed c' ''eve'')"
proof -
  have "\<not> CanReceive demo_local ''eve''" "\<not> IsSender demo_local ''eve''"
      "chStatus demo_local = ChannelStatusActive" "chBuffer demo_local = []"
    by (simp_all add: demo_local_def CanReceive_def IsSender_def can_receive_as_def raw_id_def empty_channel_def)
  then show ?thesis
    using recovery_subscription_unchecked [of demo_local False "''eve''" demo_kernel]
    by (auto simp: IsSubscribed_def)
qed

text \<open>
  C17. Memory stays bounded: whatever packets, subscriptions and distributions a new channel sees, its
  queue never holds more than 1000 packets, its buffer never more than its configured size, no
  subscriber more than 100 and no offline connector more than 1000.
\<close>

theorem delivery_bounded:
  assumes "reach dl_init dl_step (c, cm)"
  shows "length (chQueue c) \<le> 1000 \<and> length (chBuffer c) \<le> chMaxBufferSize c
    \<and> (\<forall>sid q. go_get (chSubscribers c) sid = Some q \<longrightarrow> length q \<le> 100)
    \<and> (\<forall>cid. length (buffer_of cm cid) \<le> 1000)"
  using dl.reach_inv [OF assms] by (simp add: within_bounds_def)

theorem delivery_bounded_witness:
  "\<exists>c' cm'. reach dl_init dl_step (c', cm') \<and> length (chQueue c') \<le> 1000 \<and> length (buffer_of cm' ''b'') \<le> 1000"
proof -
  have "dl_init (demo_channel, demo_kernel)" by (simp add: dl_init_def demo_sync_defs)
  moreover have "dl_step (demo_channel, demo_kernel) (startDataDistribution demo_channel, demo_kernel)"
    by (rule dl_step.distribution)
  ultimately have "reach dl_init dl_step (startDataDistribution demo_channel, demo_kernel)"
    by (blast intro: reach.intros)
  from delivery_bounded [OF this] this show ?thesis by blast
qed

end
