(* ===== verification/Multi_Hop_Routes.thy ===== *)
theory Multi_Hop_Routes
  imports Kernel_Prelude
begin

text \<open>
  Multi-hop routes between kernels (\<^verbatim>\<open>kernel/server/multi_hop_config.go\<close>): the route configurations,
  their validation, and the two lookups the channel manager forwards by, \<^verbatim>\<open>GetNextHop\<close> for data and
  \<^verbatim>\<open>GetPreviousHop\<close> for acknowledgements.  Reading and writing the JSON files is reduced to its
  result, an argument.  \<open>hop_routing\<close> is the interface a forwarding kernel relies on.
\<close>

section \<open>Configurations\<close>

record MultiHop =
  mhHopID :: int
  mhFromKernel :: string
  mhFromAddress :: string
  mhToKernel :: string
  mhToAddress :: string
  mhToPort :: int
  mhAutoConnect :: bool

record MultiHopConfigFile =
  mcRouteName :: string
  mcName :: string
  mcDescription :: string
  mcCreatorID :: string
  mcHops :: "MultiHop list"
  mcEnabled :: bool
  mcCreatedAt :: "time option"
  mcUpdatedAt :: "time option"
  mcVersion :: int

record MultiHopRoute =
  mrRouteID :: string
  mrConfig :: MultiHopConfigFile
  mrStatus :: string
  mrCreatedAt :: time
  mrUpdatedAt :: time

record MultiHopConfigManager =
  hmConfigs :: "MultiHopConfigFile gomap"
  hmRoutes :: "MultiHopRoute gomap"

datatype hop_error =
  RouteNameEmpty | NoHops | HopFieldEmpty nat string | PortZero nat | WriteFailed | ReadFailed
| ParseFailed | DeleteFailed | RouteNotFound string | WrongHopID nat | NotContiguous nat | BadPort nat

datatype hop_file = HopFileUnreadable | HopFileMalformed | HopFileParsed MultiHopConfigFile

section \<open>Operations\<close>

text \<open>Hop numbers in errors count from one.\<close>

fun check_hops :: "nat \<Rightarrow> MultiHop list \<Rightarrow> hop_error option" where
  "check_hops n [] = None"
| "check_hops n (h # hs) =
     (if mhFromKernel h = [] then Some (HopFieldEmpty (n + 1) ''from_kernel'')
      else if mhFromAddress h = [] then Some (HopFieldEmpty (n + 1) ''from_address'')
      else if mhToKernel h = [] then Some (HopFieldEmpty (n + 1) ''to_kernel'')
      else if mhToAddress h = [] then Some (HopFieldEmpty (n + 1) ''to_address'')
      else if mhToPort h = 0 then Some (PortZero (n + 1))
      else check_hops (n + 1) hs)"

definition stamp_config :: "time \<Rightarrow> MultiHopConfigFile \<Rightarrow> MultiHopConfigFile" where
  "stamp_config now cfg =
     (let c1 = cfg\<lparr>mcUpdatedAt := Some now\<rparr>
      in if mcVersion cfg = 0 then c1\<lparr>mcVersion := 1, mcCreatedAt := Some now\<rparr>
         else c1\<lparr>mcVersion := mcVersion cfg + 1\<rparr>)"

text \<open>
  The configuration object the caller passed is stamped even when writing the file then fails; where
  the caller got it from \<^verbatim>\<open>LoadConfig\<close> (\<open>cached\<close>), it is the object the manager holds, which changes with it.
\<close>

definition SaveConfig ::
    "time \<Rightarrow> bool \<Rightarrow> bool \<Rightarrow> MultiHopConfigFile \<Rightarrow> MultiHopConfigManager \<Rightarrow>
     (hop_error + unit) \<times> MultiHopConfigFile \<times> MultiHopConfigManager" where
  "SaveConfig now write_ok cached cfg m =
     (if mcRouteName cfg = [] then (Inl RouteNameEmpty, cfg, m)
      else if mcHops cfg = [] then (Inl NoHops, cfg, m)
      else case check_hops 0 (mcHops cfg) of
        Some e \<Rightarrow> (Inl e, cfg, m)
      | None \<Rightarrow>
          let cfg' = stamp_config now cfg;
              m' = m\<lparr>hmConfigs := go_put (mcRouteName cfg) cfg' (hmConfigs m)\<rparr>
          in if write_ok then (Inr (), cfg', m')
             else (Inl WriteFailed, cfg', if cached then m' else m))"

definition LoadConfig ::
    "string \<Rightarrow> hop_file \<Rightarrow> MultiHopConfigManager \<Rightarrow> (hop_error + MultiHopConfigFile) \<times> MultiHopConfigManager" where
  "LoadConfig name file m =
     (case go_get (hmConfigs m) name of
        Some cfg \<Rightarrow> (Inr cfg, m)
      | None \<Rightarrow>
          (case file of
             HopFileUnreadable \<Rightarrow> (Inl ReadFailed, m)
           | HopFileMalformed \<Rightarrow> (Inl ParseFailed, m)
           | HopFileParsed cfg \<Rightarrow> (Inr cfg, m\<lparr>hmConfigs := go_put name cfg (hmConfigs m)\<rparr>)))"

definition loadAllConfigs :: "(string \<times> hop_file) list \<Rightarrow> MultiHopConfigManager \<Rightarrow> MultiHopConfigManager" where
  "loadAllConfigs files m = foldl (\<lambda>m (name, file). snd (LoadConfig name file m)) m files"

definition DeleteConfig ::
    "bool \<Rightarrow> string \<Rightarrow> MultiHopConfigManager \<Rightarrow> (hop_error + unit) \<times> MultiHopConfigManager" where
  "DeleteConfig remove_ok name m =
     (if \<not> remove_ok then (Inl DeleteFailed, m)
      else (Inr (), m\<lparr>hmConfigs := go_del name (hmConfigs m), hmRoutes := go_del name (hmRoutes m)\<rparr>))"

definition ListConfigs :: "MultiHopConfigManager \<Rightarrow> MultiHopConfigFile list" where
  "ListConfigs m = map snd (hmConfigs m)"

definition ListRoutes :: "MultiHopConfigManager \<Rightarrow> MultiHopRoute list" where
  "ListRoutes m = map snd (hmRoutes m)"

definition GetRoute :: "string \<Rightarrow> MultiHopConfigManager \<Rightarrow> MultiHopRoute option" where
  "GetRoute name m = go_get (hmRoutes m) name"

definition CreateRouteFromConfig ::
    "time \<Rightarrow> string \<Rightarrow> MultiHopConfigFile \<Rightarrow> MultiHopConfigManager \<Rightarrow> MultiHopRoute \<times> MultiHopConfigManager" where
  "CreateRouteFromConfig now rid cfg m =
     (let r = \<lparr> mrRouteID = rid, mrConfig = cfg, mrStatus = ''pending'', mrCreatedAt = now, mrUpdatedAt = now \<rparr>
      in (r, m\<lparr>hmRoutes := go_put (mcRouteName cfg) r (hmRoutes m)\<rparr>))"

definition UpdateRouteStatus ::
    "time \<Rightarrow> string \<Rightarrow> string \<Rightarrow> MultiHopConfigManager \<Rightarrow> (hop_error + unit) \<times> MultiHopConfigManager" where
  "UpdateRouteStatus now name st m =
     (case go_get (hmRoutes m) name of
        None \<Rightarrow> (Inl (RouteNotFound name), m)
      | Some r \<Rightarrow> (Inr (), m\<lparr>hmRoutes := go_put name (r\<lparr>mrStatus := st, mrUpdatedAt := now\<rparr>) (hmRoutes m)\<rparr>))"

fun validate_hops :: "nat \<Rightarrow> string \<Rightarrow> MultiHop list \<Rightarrow> hop_error option" where
  "validate_hops n prev [] = None"
| "validate_hops n prev (h # hs) =
     (if mhHopID h \<noteq> int n + 1 then Some (WrongHopID (n + 1))
      else if prev \<noteq> [] \<and> mhFromKernel h \<noteq> prev then Some (NotContiguous (n + 1))
      else if mhToPort h \<le> 0 \<or> mhToPort h > 65535 then Some (BadPort (n + 1))
      else validate_hops (n + 1) (mhToKernel h) hs)"

definition ValidateConfig :: "MultiHopConfigFile \<Rightarrow> hop_error option" where
  "ValidateConfig cfg =
     (if mcRouteName cfg = [] then Some RouteNameEmpty
      else if mcHops cfg = [] then Some NoHops
      else validate_hops 0 [] (mcHops cfg))"

definition GetEnabledConfigs :: "MultiHopConfigManager \<Rightarrow> MultiHopConfigFile list" where
  "GetEnabledConfigs m = filter mcEnabled (map snd (hmConfigs m))"

section \<open>Routing\<close>

text \<open>
  The first hop that starts at the current kernel and has the target at its end or later in the
  route, with its number.
\<close>

fun hop_towards :: "nat \<Rightarrow> string \<Rightarrow> string \<Rightarrow> MultiHop list \<Rightarrow> (MultiHop \<times> nat) option" where
  "hop_towards n cur target [] = None"
| "hop_towards n cur target (h # hs) =
     (if mhFromKernel h = cur \<and> (mhToKernel h = target \<or> list_ex (\<lambda>h'. mhToKernel h' = target) hs)
      then Some (h, n + 1) else hop_towards (n + 1) cur target hs)"

fun next_hop_in ::
    "string \<Rightarrow> string \<Rightarrow> MultiHopConfigFile list \<Rightarrow> (string \<times> string \<times> int \<times> nat \<times> nat) option" where
  "next_hop_in cur target [] = None"
| "next_hop_in cur target (cfg # cfgs) =
     (case (if mcEnabled cfg then hop_towards 0 cur target (mcHops cfg) else None) of
        Some (h, i) \<Rightarrow> Some (mhToKernel h, mhToAddress h, mhToPort h, i, length (mcHops cfg))
      | None \<Rightarrow> next_hop_in cur target cfgs)"

definition GetNextHop ::
    "string \<Rightarrow> string \<Rightarrow> MultiHopConfigManager \<Rightarrow> (string \<times> string \<times> int \<times> nat \<times> nat) option" where
  "GetNextHop cur target m =
     (if cur = target then None else next_hop_in cur target (map snd (hmConfigs m)))"

text \<open>
  Within a route: \<open>None\<close> when no hop ends at the kernel, otherwise the hop before the first that does
  (none for the first hop).
\<close>

fun hop_before :: "MultiHop option \<Rightarrow> string \<Rightarrow> MultiHop list \<Rightarrow> MultiHop option option" where
  "hop_before prev k [] = None"
| "hop_before prev k (h # hs) = (if mhToKernel h = k then Some prev else hop_before (Some h) k hs)"

fun previous_hop_in :: "string \<Rightarrow> MultiHopConfigFile list \<Rightarrow> (string \<times> string \<times> int) option" where
  "previous_hop_in k [] = None"
| "previous_hop_in k (cfg # cfgs) =
     (case (if mcEnabled cfg then hop_before None k (mcHops cfg) else None) of
        Some (Some h) \<Rightarrow> Some (mhToKernel h, mhToAddress h, mhToPort h)
      | Some None \<Rightarrow> None
      | None \<Rightarrow> previous_hop_in k cfgs)"

definition GetPreviousHop :: "string \<Rightarrow> MultiHopConfigManager \<Rightarrow> (string \<times> string \<times> int) option" where
  "GetPreviousHop k m = previous_hop_in k (map snd (hmConfigs m))"

fun route_for_pair :: "string \<Rightarrow> string \<Rightarrow> MultiHopConfigFile list \<Rightarrow> (string \<times> nat \<times> nat) option" where
  "route_for_pair cur target [] = None"
| "route_for_pair cur target (cfg # cfgs) =
     (case (if mcEnabled cfg then hop_towards 0 cur target (mcHops cfg) else None) of
        Some (h, i) \<Rightarrow> Some (mcRouteName cfg, i, length (mcHops cfg))
      | None \<Rightarrow> route_for_pair cur target cfgs)"

definition GetRouteForKernelPair ::
    "string \<Rightarrow> string \<Rightarrow> MultiHopConfigManager \<Rightarrow> (string \<times> nat \<times> nat) option" where
  "GetRouteForKernelPair cur target m = route_for_pair cur target (map snd (hmConfigs m))"

text \<open>What the channel manager uses of the two lookups: the kernel.\<close>

definition next_kernel :: "MultiHopConfigManager \<Rightarrow> string \<Rightarrow> string \<Rightarrow> string option" where
  "next_kernel m cur target = map_option fst (GetNextHop cur target m)"

definition previous_kernel :: "MultiHopConfigManager \<Rightarrow> string \<Rightarrow> string option" where
  "previous_kernel m k = map_option fst (GetPreviousHop k m)"

section \<open>The routing interface\<close>

text \<open>
  Kernels forward a packet by asking for the next hop until there is none; \<open>walk\<close> lists the kernels a
  packet visits, with fuel for the number of forwards.
\<close>

primrec walk :: "(string \<Rightarrow> string \<Rightarrow> string option) \<Rightarrow> nat \<Rightarrow> string \<Rightarrow> string \<Rightarrow> string list" where
  "walk nxt 0 cur target = [cur]"
| "walk nxt (Suc n) cur target =
     cur # (case nxt cur target of None \<Rightarrow> [] | Some k \<Rightarrow> walk nxt n k target)"

locale hop_routing =
  fixes nxt :: "'m \<Rightarrow> string \<Rightarrow> string \<Rightarrow> string option"
    and on_route :: "'m \<Rightarrow> string list \<Rightarrow> bool"
  assumes next_on_route:
      "on_route m path \<Longrightarrow> i < j \<Longrightarrow> j < length path \<Longrightarrow> nxt m (path ! i) (path ! j) = Some (path ! Suc i)"
    and next_at_target: "nxt m k k = None"
begin

lemma walk_path:
  assumes "on_route m path" and "i \<le> j" and "j < length path" and "j - i \<le> n"
  shows "walk (nxt m) n (path ! i) (path ! j) = take (Suc j - i) (drop i path)"
  using assms(2-4)
proof (induction "j - i" arbitrary: i n)
  case 0
  then have "i = j" by simp
  with 0 show ?case
    by (cases n) (simp_all add: next_at_target take_Suc_conv_app_nth Cons_nth_drop_Suc [symmetric])
next
  case (Suc d)
  then have "i < j" by simp
  then obtain n' where n: "n = Suc n'" using Suc.prems by (cases n) auto
  have "walk (nxt m) n (path ! i) (path ! j) = path ! i # walk (nxt m) n' (path ! Suc i) (path ! j)"
    using next_on_route [OF assms(1) \<open>i < j\<close> Suc.prems(2)] by (simp add: n)
  also have "walk (nxt m) n' (path ! Suc i) (path ! j) = take (Suc j - Suc i) (drop (Suc i) path)"
    using Suc n \<open>i < j\<close> by (intro Suc.hyps(1)) auto
  also have "path ! i # take (Suc j - Suc i) (drop (Suc i) path) = take (Suc j - i) (drop i path)"
    using \<open>i < j\<close> Suc.prems(2) by (simp add: Cons_nth_drop_Suc [symmetric] Suc_diff_le)
  finally show ?case .
qed

lemma walk_arrives:
  assumes "on_route m path" and "i \<le> j" and "j < length path" and "j - i \<le> n"
  shows "last (walk (nxt m) n (path ! i) (path ! j)) = path ! j"
    and "length (walk (nxt m) n (path ! i) (path ! j)) = j - i + 1"
  using walk_path [OF assms] assms(2,3) by (simp_all add: last_conv_nth)

end

section \<open>Lemmas\<close>

lemma check_hops_None:
  "check_hops n hops = None \<longleftrightarrow> (\<forall>h \<in> set hops. mhFromKernel h \<noteq> [] \<and> mhFromAddress h \<noteq> [] \<and>
     mhToKernel h \<noteq> [] \<and> mhToAddress h \<noteq> [] \<and> mhToPort h \<noteq> 0)"
  by (induction n hops rule: check_hops.induct) auto

lemma validate_hops_None:
  "validate_hops n prev hops = None \<longleftrightarrow>
     (\<forall>i < length hops. mhHopID (hops ! i) = int (n + i) + 1 \<and> 0 < mhToPort (hops ! i) \<and> mhToPort (hops ! i) \<le> 65535) \<and>
     (\<forall>i. Suc i < length hops \<longrightarrow> mhToKernel (hops ! i) \<noteq> [] \<longrightarrow>
        mhFromKernel (hops ! Suc i) = mhToKernel (hops ! i)) \<and>
     (prev \<noteq> [] \<longrightarrow> hops \<noteq> [] \<longrightarrow> mhFromKernel (hd hops) = prev)"
proof (induction n prev hops rule: validate_hops.induct)
  case (2 n prev h hs)
  have split: "(\<forall>i < length (h # hs). P ((h # hs) ! i) i) \<longleftrightarrow> P h 0 \<and> (\<forall>i < length hs. P (hs ! i) (Suc i))"
    for P :: "MultiHop \<Rightarrow> nat \<Rightarrow> bool"
    by (auto simp: less_Suc_eq_0_disj)
  have split': "(\<forall>i. Suc i < length (h # hs) \<longrightarrow> Q ((h # hs) ! i) ((h # hs) ! Suc i)) \<longleftrightarrow>
      (hs \<noteq> [] \<longrightarrow> Q h (hd hs)) \<and> (\<forall>i. Suc i < length hs \<longrightarrow> Q (hs ! i) (hs ! Suc i))"
    for Q :: "MultiHop \<Rightarrow> MultiHop \<Rightarrow> bool"
  proof -
    have "Q ((h # hs) ! i) ((h # hs) ! Suc i)"
      if "hs \<noteq> [] \<longrightarrow> Q h (hd hs)" "\<forall>i. Suc i < length hs \<longrightarrow> Q (hs ! i) (hs ! Suc i)" "Suc i < length (h # hs)" for i
      using that by (cases i) (auto simp: hd_conv_nth)
    moreover have "hs \<noteq> [] \<longrightarrow> Q h (hd hs)"
      if "\<forall>i. Suc i < length (h # hs) \<longrightarrow> Q ((h # hs) ! i) ((h # hs) ! Suc i)"
      using that [rule_format, of 0] by (auto simp: hd_conv_nth)
    moreover have "Q (hs ! i) (hs ! Suc i)"
      if "\<forall>i. Suc i < length (h # hs) \<longrightarrow> Q ((h # hs) ! i) ((h # hs) ! Suc i)" "Suc i < length hs" for i
      using that(1) [rule_format, of "Suc i"] that(2) by simp
    ultimately show ?thesis by blast
  qed
  show ?case
    unfolding split' [of "\<lambda>a b. mhToKernel a \<noteq> [] \<longrightarrow> mhFromKernel b = mhToKernel a"]
      split [of "\<lambda>x i. mhHopID x = int (n + i) + 1 \<and> 0 < mhToPort x \<and> mhToPort x \<le> 65535"]
    using 2 by (auto simp: algebra_simps)
qed simp

text \<open>The kernels of a route in order.\<close>

definition route_path :: "MultiHopConfigFile \<Rightarrow> string list" where
  "route_path cfg = (case mcHops cfg of [] \<Rightarrow> [] | h # hs \<Rightarrow> mhFromKernel h # map mhToKernel (h # hs))"

definition sole_route :: "MultiHopConfigManager \<Rightarrow> string list \<Rightarrow> bool" where
  "sole_route m path \<longleftrightarrow> (\<exists>cfg. GetEnabledConfigs m = [cfg] \<and> ValidateConfig cfg = None \<and>
     check_hops 0 (mcHops cfg) = None \<and> path = route_path cfg \<and> distinct path)"

lemma route_path_hops:
  assumes "ValidateConfig cfg = None" and "check_hops 0 (mcHops cfg) = None"
  shows "length (route_path cfg) = Suc (length (mcHops cfg))"
    and "i < length (mcHops cfg) \<Longrightarrow> mhFromKernel (mcHops cfg ! i) = route_path cfg ! i"
    and "i < length (mcHops cfg) \<Longrightarrow> mhToKernel (mcHops cfg ! i) = route_path cfg ! Suc i"
proof -
  have ne: "mcHops cfg \<noteq> []" and val: "validate_hops 0 [] (mcHops cfg) = None"
    using assms(1) by (auto simp: ValidateConfig_def split: if_splits)
  then obtain h hs where hops: "mcHops cfg = h # hs" by (cases "mcHops cfg") auto
  then have path: "route_path cfg = mhFromKernel h # map mhToKernel (mcHops cfg)"
    by (simp add: route_path_def)
  show "length (route_path cfg) = Suc (length (mcHops cfg))" by (simp add: path)
  show to: "mhToKernel (mcHops cfg ! i) = route_path cfg ! Suc i" if "i < length (mcHops cfg)" for i
    using that by (simp add: path)
  show "mhFromKernel (mcHops cfg ! i) = route_path cfg ! i" if "i < length (mcHops cfg)"
  proof (cases i)
    case 0
    then show ?thesis by (simp add: path hops)
  next
    case (Suc i')
    moreover have "mhToKernel (mcHops cfg ! i') \<noteq> []"
      using assms(2) that Suc unfolding check_hops_None by simp
    ultimately show ?thesis
      using val that to [of i'] unfolding validate_hops_None by simp
  qed
qed

lemma hop_towards_nth:
  assumes "i < length hops" and "\<forall>k < i. mhFromKernel (hops ! k) \<noteq> cur" and "mhFromKernel (hops ! i) = cur"
    and "i \<le> j" and "j < length hops" and "mhToKernel (hops ! j) = target"
  shows "hop_towards n cur target hops = Some (hops ! i, n + i + 1)"
  using assms
proof (induction hops arbitrary: i j n)
  case (Cons h hs)
  show ?case
  proof (cases i)
    case 0
    have "mhToKernel h = target \<or> list_ex (\<lambda>h'. mhToKernel h' = target) hs"
    proof (cases j)
      case (Suc j')
      then have "hs ! j' \<in> set hs" and "mhToKernel (hs ! j') = target" using Cons.prems by auto
      then show ?thesis by (auto simp: list_ex_iff)
    qed (use Cons.prems in simp)
    with 0 Cons.prems show ?thesis by simp
  next
    case (Suc i')
    then obtain j' where j: "j = Suc j'" using Cons.prems(4) by (cases j) auto
    have "mhFromKernel h \<noteq> cur" using Cons.prems(2) Suc by force
    moreover have "hop_towards (n + 1) cur target hs = Some (hs ! i', n + 1 + i' + 1)"
      by (rule Cons.IH [of i' j']) (use Cons.prems Suc j in auto)
    ultimately show ?thesis using Suc by simp
  qed
qed simp

lemma next_hop_in_enabled: "next_hop_in cur target cfgs = next_hop_in cur target (filter mcEnabled cfgs)"
  by (induction cfgs) (auto split: option.split)

lemma previous_hop_in_enabled: "previous_hop_in k cfgs = previous_hop_in k (filter mcEnabled cfgs)"
  by (induction cfgs) (auto split: option.split)

lemma enabled_eq: "GetEnabledConfigs m = [cfg] \<Longrightarrow> mcEnabled cfg"
  unfolding GetEnabledConfigs_def by (metis filter_eq_Cons_iff)

lemma sole_route_next:
  assumes "sole_route m path" and "i < j" and "j < length path"
  shows "next_kernel m (path ! i) (path ! j) = Some (path ! Suc i)"
proof -
  obtain cfg where cfg: "GetEnabledConfigs m = [cfg]" "ValidateConfig cfg = None"
      "check_hops 0 (mcHops cfg) = None" "path = route_path cfg" "distinct path"
    using assms(1) unfolding sole_route_def by blast
  note hops = route_path_hops [OF cfg(2,3), folded cfg(4)]
  obtain j' where j': "j = Suc j'" "i \<le> j'" using assms(2) by (cases j) auto
  have "hop_towards 0 (path ! i) (path ! j) (mcHops cfg) = Some (mcHops cfg ! i, 0 + i + 1)"
    by (rule hop_towards_nth [of _ _ _ j'])
      (use hops assms(2,3) cfg(5) j' in \<open>auto simp: nth_eq_iff_index_eq\<close>)
  then have "next_hop_in (path ! i) (path ! j) [cfg] =
      Some (mhToKernel (mcHops cfg ! i), mhToAddress (mcHops cfg ! i), mhToPort (mcHops cfg ! i), i + 1, length (mcHops cfg))"
    using enabled_eq [OF cfg(1)] by simp
  moreover have "path ! i \<noteq> path ! j" using assms(2,3) cfg(5) by (simp add: nth_eq_iff_index_eq)
  ultimately show ?thesis
    using cfg(1) hops assms(2,3) next_hop_in_enabled [of "path ! i" "path ! j" "map snd (hmConfigs m)"]
    by (simp add: next_kernel_def GetNextHop_def GetEnabledConfigs_def)
qed

interpretation routes: hop_routing next_kernel sole_route
  by unfold_locales (rule sole_route_next, simp_all add: next_kernel_def GetNextHop_def)

lemma sole_route_inj:
  "sole_route m path \<Longrightarrow> i < length path \<Longrightarrow> j < length path \<Longrightarrow> path ! i = path ! j \<longleftrightarrow> i = j"
  by (auto simp: sole_route_def nth_eq_iff_index_eq)

lemma sole_route_nonempty:
  assumes "sole_route m path" and "i < length path"
  shows "path ! i \<noteq> []"
proof -
  obtain cfg where cfg: "ValidateConfig cfg = None" "check_hops 0 (mcHops cfg) = None" "path = route_path cfg"
    using assms(1) unfolding sole_route_def by blast
  have "\<forall>x \<in> set path. x \<noteq> []"
    using cfg(2) unfolding cfg(3) check_hops_None route_path_def by (cases "mcHops cfg") auto
  then show ?thesis using assms(2) by simp
qed

lemma hop_towards_Some:
  "hop_towards n cur target hops = Some (h, k) \<Longrightarrow>
     \<exists>i < length hops. h = hops ! i \<and> k = n + i + 1 \<and> mhFromKernel h = cur \<and>
       (\<exists>j. i \<le> j \<and> j < length hops \<and> mhToKernel (hops ! j) = target)"
proof (induction n cur target hops rule: hop_towards.induct)
  case (2 n cur target h' hs)
  show ?case
  proof (cases "mhFromKernel h' = cur \<and> (mhToKernel h' = target \<or> list_ex (\<lambda>x. mhToKernel x = target) hs)")
    case True
    then have "\<exists>x \<in> set (h' # hs). mhToKernel x = target" by (auto simp: list_ex_iff)
    then have "\<exists>j < length (h' # hs). mhToKernel ((h' # hs) ! j) = target" by (metis in_set_conv_nth)
    with True 2(2) show ?thesis by (intro exI [of _ 0]) auto
  next
    case False
    then obtain i j where "i < length hs" "h = hs ! i" "k = n + 1 + i + 1" "mhFromKernel h = cur" "i \<le> j"
        "j < length hs" "mhToKernel (hs ! j) = target"
      using 2 by auto
    then show ?thesis by (intro exI [of _ "Suc i"] conjI exI [of _ "Suc j"]) auto
  qed
qed simp

lemma hop_towards_found:
  assumes "i \<le> j" and "j < length hops" and "mhFromKernel (hops ! i) = cur" and "mhToKernel (hops ! j) = target"
  shows "hop_towards n cur target hops \<noteq> None"
  using assms
proof (induction hops arbitrary: i j n)
  case (Cons h hs)
  show ?case
  proof (cases i)
    case 0
    have "(h # hs) ! j \<in> set (h # hs)" using Cons.prems(2) by (rule nth_mem)
    then have "mhToKernel h = target \<or> list_ex (\<lambda>x. mhToKernel x = target) hs"
      using Cons.prems(4) by (auto simp: list_ex_iff)
    then show ?thesis using 0 Cons.prems(3) by simp
  next
    case (Suc i')
    then obtain j' where "j = Suc j'" using Cons.prems(1) by (cases j) auto
    then have "hop_towards (n + 1) cur target hs \<noteq> None"
      using Suc Cons.prems by (intro Cons.IH [of i' j']) auto
    then show ?thesis by simp
  qed
qed simp

lemma hop_towards_None:
  "hop_towards n cur target hops = None \<longleftrightarrow>
     \<not> (\<exists>i j. i \<le> j \<and> j < length hops \<and> mhFromKernel (hops ! i) = cur \<and> mhToKernel (hops ! j) = target)"
proof
  assume "\<not> (\<exists>i j. i \<le> j \<and> j < length hops \<and> mhFromKernel (hops ! i) = cur \<and> mhToKernel (hops ! j) = target)"
  then show "hop_towards n cur target hops = None"
    by (cases "hop_towards n cur target hops") (auto dest!: hop_towards_Some)
qed (use hop_towards_found in blast)

lemma next_hop_in_Some:
  "next_hop_in cur target cfgs = Some (k, a, p, i, n) \<Longrightarrow>
     \<exists>cfg \<in> set cfgs. mcEnabled cfg \<and> n = length (mcHops cfg) \<and>
       (\<exists>h. hop_towards 0 cur target (mcHops cfg) = Some (h, i) \<and> k = mhToKernel h \<and> a = mhToAddress h \<and> p = mhToPort h)"
  by (induction cfgs) (auto split: option.splits if_splits)

lemma next_hop_in_None:
  "next_hop_in cur target cfgs = None \<longleftrightarrow>
     (\<forall>cfg \<in> set cfgs. mcEnabled cfg \<longrightarrow> hop_towards 0 cur target (mcHops cfg) = None)"
  by (induction cfgs) (auto split: option.splits)

lemma hop_before_nth:
  assumes "i < length hops" and "\<forall>k < i. mhToKernel (hops ! k) \<noteq> x" and "mhToKernel (hops ! i) = x"
  shows "hop_before prev x hops = Some (if i = 0 then prev else Some (hops ! (i - 1)))"
  using assms
proof (induction hops arbitrary: i prev)
  case (Cons h hs)
  show ?case
  proof (cases i)
    case (Suc i')
    have "mhToKernel h \<noteq> x" using Cons.prems(2) Suc by force
    moreover have "hop_before (Some h) x hs = Some (if i' = 0 then Some h else Some (hs ! (i' - 1)))"
      by (rule Cons.IH) (use Cons.prems Suc in auto)
    ultimately show ?thesis using Suc by (cases i') auto
  qed (use Cons.prems in simp)
qed simp

lemma sole_route_no_way_back:
  assumes "sole_route m path" and "j \<le> i" and "i < length path"
  shows "next_kernel m (path ! i) (path ! j) = None"
proof -
  obtain cfg where cfg: "GetEnabledConfigs m = [cfg]" "ValidateConfig cfg = None"
      "check_hops 0 (mcHops cfg) = None" "path = route_path cfg" "distinct path"
    using assms(1) unfolding sole_route_def by blast
  note hops = route_path_hops [OF cfg(2,3), folded cfg(4)]
  have "hop_towards 0 (path ! i) (path ! j) (mcHops cfg) = None"
    unfolding hop_towards_None using hops assms(2,3) cfg(5) by (auto simp: nth_eq_iff_index_eq)
  then have "next_hop_in (path ! i) (path ! j) [cfg] = None" by simp
  then show ?thesis
    using cfg(1) next_hop_in_enabled [of "path ! i" "path ! j" "map snd (hmConfigs m)"]
    by (simp add: next_kernel_def GetNextHop_def GetEnabledConfigs_def)
qed

lemma previous_on_route:
  assumes "sole_route m path" and "Suc i < length path"
  shows "previous_kernel m (path ! Suc i) = (if i = 0 then None else Some (path ! i))"
proof -
  obtain cfg where cfg: "GetEnabledConfigs m = [cfg]" "ValidateConfig cfg = None"
      "check_hops 0 (mcHops cfg) = None" "path = route_path cfg" "distinct path"
    using assms(1) unfolding sole_route_def by blast
  note hops = route_path_hops [OF cfg(2,3), folded cfg(4)]
  have before: "hop_before None (path ! Suc i) (mcHops cfg) = Some (if i = 0 then None else Some (mcHops cfg ! (i - 1)))"
    by (rule hop_before_nth) (use hops assms(2) cfg(5) in \<open>auto simp: nth_eq_iff_index_eq\<close>)
  have "mhToKernel (mcHops cfg ! (i - 1)) = path ! i" if "i \<noteq> 0"
    using hops(1) hops(3) [of "i - 1"] assms(2) that by simp
  then show ?thesis
    using before enabled_eq [OF cfg(1)] cfg(1) previous_hop_in_enabled [of "path ! Suc i" "map snd (hmConfigs m)"]
    by (simp add: previous_kernel_def GetPreviousHop_def GetEnabledConfigs_def)
qed

section \<open>Properties\<close>

definition demo_hop :: "int \<Rightarrow> string \<Rightarrow> string \<Rightarrow> MultiHop" where
  "demo_hop n a b = \<lparr> mhHopID = n, mhFromKernel = a, mhFromAddress = ''10.0.0.1'', mhToKernel = b,
     mhToAddress = ''10.0.0.2'', mhToPort = 50053, mhAutoConnect = True \<rparr>"

definition demo_route :: MultiHopConfigFile where
  "demo_route = \<lparr> mcRouteName = ''r'', mcName = ''r'', mcDescription = [], mcCreatorID = [],
     mcHops = [demo_hop 1 ''k3'' ''k2'', demo_hop 2 ''k2'' ''k1''], mcEnabled = True, mcCreatedAt = None,
     mcUpdatedAt = None, mcVersion = 0 \<rparr>"

definition demo_manager :: MultiHopConfigManager where
  "demo_manager = \<lparr> hmConfigs = [(''r'', demo_route)], hmRoutes = [] \<rparr>"

lemmas demo_route_defs = demo_hop_def demo_route_def demo_manager_def

lemma demo_sole_route: "sole_route demo_manager [''k3'', ''k2'', ''k1'']"
  unfolding sole_route_def
  by (rule exI [of _ demo_route])
    (simp add: demo_route_defs GetEnabledConfigs_def ValidateConfig_def route_path_def)

text \<open>
  C24. Data follows the route.  When one route is enabled, is accepted by the validation and visits
  distinct kernels, a packet that each kernel forwards to its next hop visits exactly the kernels of
  the route between its origin and its destination, in order, and stops there after as many forwards
  as there are hops between them.
\<close>

theorem next_hop_walk:
  assumes "sole_route m path" and "i \<le> j" and "j < length path" and "j - i \<le> n"
  shows "walk (next_kernel m) n (path ! i) (path ! j) = take (Suc j - i) (drop i path)"
  using assms by (rule routes.walk_path)

theorem next_hop_walk_witness:
  "walk (next_kernel demo_manager) 5 ''k3'' ''k1'' = [''k3'', ''k2'', ''k1'']"
  using next_hop_walk [OF demo_sole_route, of 0 2 5] by simp

text \<open>
  The next hop in general: among any number of enabled routes, \<^verbatim>\<open>GetNextHop\<close> answers exactly when some
  enabled route has a hop that starts at the current kernel and, there or later, a hop that ends at
  the target, and what it answers is the end of such a hop, with the hop's address, port, number and
  the length of the route.
\<close>

theorem next_hop_exact:
  assumes "cur \<noteq> target"
  shows "(GetNextHop cur target m = None \<longleftrightarrow>
      \<not> (\<exists>cfg \<in> set (GetEnabledConfigs m). \<exists>i j. i \<le> j \<and> j < length (mcHops cfg) \<and>
          mhFromKernel (mcHops cfg ! i) = cur \<and> mhToKernel (mcHops cfg ! j) = target))
    \<and> (\<forall>k a p i n. GetNextHop cur target m = Some (k, a, p, i, n) \<longrightarrow>
        (\<exists>cfg \<in> set (GetEnabledConfigs m). \<exists>h i' j. i = Suc i' \<and> n = length (mcHops cfg) \<and> i' \<le> j \<and> j < n \<and>
          h = mcHops cfg ! i' \<and> mhFromKernel h = cur \<and> mhToKernel (mcHops cfg ! j) = target \<and>
          k = mhToKernel h \<and> a = mhToAddress h \<and> p = mhToPort h))"
proof (intro conjI allI impI)
  show "GetNextHop cur target m = None \<longleftrightarrow>
      \<not> (\<exists>cfg \<in> set (GetEnabledConfigs m). \<exists>i j. i \<le> j \<and> j < length (mcHops cfg) \<and>
          mhFromKernel (mcHops cfg ! i) = cur \<and> mhToKernel (mcHops cfg ! j) = target)"
    using assms by (auto simp: GetNextHop_def next_hop_in_None hop_towards_None GetEnabledConfigs_def)
next
  fix k a p i n
  assume "GetNextHop cur target m = Some (k, a, p, i, n)"
  then obtain cfg h where cfg: "cfg \<in> set (GetEnabledConfigs m)" "n = length (mcHops cfg)"
      and found: "hop_towards 0 cur target (mcHops cfg) = Some (h, i)"
      and h: "k = mhToKernel h" "a = mhToAddress h" "p = mhToPort h"
    using assms by (auto simp: GetNextHop_def GetEnabledConfigs_def dest!: next_hop_in_Some)
  from hop_towards_Some [OF found] obtain i' j where "i = Suc i'" "h = mcHops cfg ! i'" "mhFromKernel h = cur"
      "i' \<le> j" "j < length (mcHops cfg)" "mhToKernel (mcHops cfg ! j) = target"
    by auto
  with cfg h show "\<exists>cfg \<in> set (GetEnabledConfigs m). \<exists>h i' j. i = Suc i' \<and> n = length (mcHops cfg) \<and> i' \<le> j \<and> j < n \<and>
      h = mcHops cfg ! i' \<and> mhFromKernel h = cur \<and> mhToKernel (mcHops cfg ! j) = target \<and>
      k = mhToKernel h \<and> a = mhToAddress h \<and> p = mhToPort h"
    by blast
qed

theorem next_hop_exact_witness:
  "GetNextHop ''k1'' ''k3'' demo_manager = None \<and> ''k1'' \<noteq> ''k3''"
proof -
  have "\<not> (\<exists>cfg \<in> set (GetEnabledConfigs demo_manager). \<exists>i j. i \<le> j \<and> j < length (mcHops cfg) \<and>
      mhFromKernel (mcHops cfg ! i) = ''k1'' \<and> mhToKernel (mcHops cfg ! j) = ''k3'')"
    by (auto simp: demo_route_defs GetEnabledConfigs_def nth_Cons' split: if_splits)
  then show ?thesis using next_hop_exact [of "''k1''" "''k3''" demo_manager] by simp
qed

text \<open>
  Acknowledgements do not reach the origin of a route hop by hop: \<^verbatim>\<open>GetPreviousHop\<close> gives every kernel
  after the second the kernel before it, but the second kernel none, although the origin is the kernel
  before it.
\<close>

theorem previous_hop_stops_early:
  assumes "sole_route m path" and "Suc i < length path"
  shows "previous_kernel m (path ! Suc i) = (if i = 0 then None else Some (path ! i))"
  using assms by (rule previous_on_route)

theorem previous_hop_stops_early_witness:
  "previous_kernel demo_manager ''k1'' = Some ''k2'' \<and> previous_kernel demo_manager ''k2'' = None"
  using previous_hop_stops_early [OF demo_sole_route, of 0] previous_hop_stops_early [OF demo_sole_route, of 1]
  by simp

text \<open>
  Saving and loading.  \<^verbatim>\<open>SaveConfig\<close> succeeds exactly when the route has a name and hops, every hop has its
  four names and a port, and the file is written; then \<^verbatim>\<open>LoadConfig\<close> returns the saved configuration
  with the time and version of the save, whatever the file holds.  The order, contiguity and port range
  that \<^verbatim>\<open>ValidateConfig\<close> tests are not required.
\<close>

theorem save_then_load:
  "case SaveConfig now write_ok cached cfg m of (r, cfg', m') \<Rightarrow>
     (r = Inr () \<longleftrightarrow> write_ok \<and> mcRouteName cfg \<noteq> [] \<and> mcHops cfg \<noteq> [] \<and>
        (\<forall>h \<in> set (mcHops cfg). mhFromKernel h \<noteq> [] \<and> mhFromAddress h \<noteq> [] \<and> mhToKernel h \<noteq> [] \<and>
           mhToAddress h \<noteq> [] \<and> mhToPort h \<noteq> 0)) \<and>
     (r = Inr () \<longrightarrow> LoadConfig (mcRouteName cfg) disk m' = (Inr cfg', m') \<and>
        cfg' = cfg\<lparr>mcUpdatedAt := Some now, mcVersion := mcVersion cfg + 1,
                   mcCreatedAt := (if mcVersion cfg = 0 then Some now else mcCreatedAt cfg)\<rparr> \<and>
        (\<forall>name. name \<noteq> mcRouteName cfg \<longrightarrow> go_get (hmConfigs m') name = go_get (hmConfigs m) name))"
  unfolding check_hops_None [symmetric, where n = 0]
  by (simp add: SaveConfig_def Let_def stamp_config_def LoadConfig_def gomap_simps split: option.split)

theorem save_then_load_witness:
  "LoadConfig ''r'' HopFileUnreadable (snd (snd (SaveConfig 7 True False demo_route demo_manager))) =
     (Inr (demo_route\<lparr>mcUpdatedAt := Some 7, mcVersion := 1, mcCreatedAt := Some 7\<rparr>),
      snd (snd (SaveConfig 7 True False demo_route demo_manager)))"
proof -
  have h: "mcRouteName demo_route = ''r''" "mcVersion demo_route = 0" "mcHops demo_route \<noteq> []"
      "\<forall>h \<in> set (mcHops demo_route). mhFromKernel h \<noteq> [] \<and> mhFromAddress h \<noteq> [] \<and> mhToKernel h \<noteq> [] \<and>
         mhToAddress h \<noteq> [] \<and> mhToPort h \<noteq> 0"
    by (simp_all add: demo_route_defs)
  show ?thesis
    using save_then_load [where now = 7 and write_ok = True and cached = False and cfg = demo_route and
        m = demo_manager and disk = HopFileUnreadable] h
    by (cases "SaveConfig 7 True False demo_route demo_manager") simp
qed

end
