(* ===== verification/Kernel_Signing.thy ===== *)
theory Kernel_Signing
  imports Kernel_Prelude "HOL-Library.Word"
begin

text \<open>
  The signatures of the kernel (\<^verbatim>\<open>kernel/security/signing.go\<close>): which text is signed with which key and
  against which certificate it is checked.  SHA-256 (a function to 256-bit words), RSA-PSS and Base64
  are the parameter \<open>crypto_lib\<close>, the key and certificate files the parameter \<open>key_files\<close> (\<open>None\<close>: missing
  or unreadable).  What the code relies on is stated as \<open>key_pair\<close> (what a key signs verifies under its
  certificate), \<open>no_forgery\<close> (a signature verifies for no other digest) and \<open>base64_ok\<close>.
\<close>

section \<open>Signing and checking\<close>

type_synonym digest = "256 word"

record ('k, 'p) crypto_lib =
  clSha256 :: "string \<Rightarrow> digest"
  clSignPSS :: "'k \<Rightarrow> digest \<Rightarrow> string option"
  clVerifyPSS :: "'p \<Rightarrow> digest \<Rightarrow> string \<Rightarrow> bool"
  clBase64 :: "string \<Rightarrow> string"
  clUnBase64 :: "string \<Rightarrow> string option"

record ('k, 'p) key_files =
  kfKernelKey :: "'k option"
  kfCaCert :: "'p option"
  kfKernelCert :: "'p option"
  kfConnectorCert :: "string \<Rightarrow> 'p option"

datatype sign_error = KeyUnavailable | SigningFailed | BadBase64 | SignatureInvalid | EmptySignature | NoCertificate

definition SignData :: "('k, 'p) crypto_lib \<Rightarrow> string \<Rightarrow> 'k \<Rightarrow> sign_error + string" where
  "SignData lib data k =
     (case clSignPSS lib k (clSha256 lib data) of
        None \<Rightarrow> Inl SigningFailed
      | Some s \<Rightarrow> Inr (clBase64 lib s))"

definition VerifySignature :: "('k, 'p) crypto_lib \<Rightarrow> string \<Rightarrow> string \<Rightarrow> 'p \<Rightarrow> sign_error option" where
  "VerifySignature lib data sig p =
     (case clUnBase64 lib sig of
        None \<Rightarrow> Some BadBase64
      | Some s \<Rightarrow> if clVerifyPSS lib p (clSha256 lib data) s then None else Some SignatureInvalid)"

definition evidence_data :: "string \<Rightarrow> string \<Rightarrow> string \<Rightarrow> string \<Rightarrow> int \<Rightarrow> string" where
  "evidence_data connector_id event_type channel_id data_hash ts =
     join CHR ''|'' [connector_id, event_type, channel_id, data_hash, show_int ts]"

definition GenerateEvidenceSignature ::
    "('k, 'p) crypto_lib \<Rightarrow> ('k, 'p) key_files \<Rightarrow> string \<Rightarrow> string \<Rightarrow> string \<Rightarrow> string \<Rightarrow> int \<Rightarrow> sign_error + string" where
  "GenerateEvidenceSignature lib files connector_id event_type channel_id data_hash ts =
     (case kfKernelKey files of
        None \<Rightarrow> Inl KeyUnavailable
      | Some k \<Rightarrow> SignData lib (evidence_data connector_id event_type channel_id data_hash ts) k)"

definition verified_by :: "('k, 'p) crypto_lib \<Rightarrow> string \<Rightarrow> string \<Rightarrow> 'p option \<Rightarrow> bool" where
  "verified_by lib data sig cert =
     (case cert of None \<Rightarrow> False | Some p \<Rightarrow> VerifySignature lib data sig p = None)"

definition VerifyEvidenceSignature ::
    "('k, 'p) crypto_lib \<Rightarrow> ('k, 'p) key_files \<Rightarrow> bool \<Rightarrow> string \<Rightarrow> string \<Rightarrow> string \<Rightarrow> string \<Rightarrow> string \<Rightarrow> int \<Rightarrow>
     sign_error option" where
  "VerifyEvidenceSignature lib files cross connector_id event_type channel_id data_hash sig ts =
     (if cross then None
      else if sig = [] then None
      else let data = evidence_data connector_id event_type channel_id data_hash ts
           in if verified_by lib data sig (kfCaCert files) then None
              else case kfConnectorCert files connector_id of
                     None \<Rightarrow> None
                   | Some p \<Rightarrow> VerifySignature lib data sig p)"

definition SignRecordHash :: "('k, 'p) crypto_lib \<Rightarrow> ('k, 'p) key_files \<Rightarrow> string \<Rightarrow> sign_error + string" where
  "SignRecordHash lib files h =
     (case kfKernelKey files of None \<Rightarrow> Inl KeyUnavailable | Some k \<Rightarrow> SignData lib h k)"

definition flow_data :: "string \<Rightarrow> int \<Rightarrow> string" where
  "flow_data tail_hash ts = join CHR ''|'' [tail_hash, show_int ts]"

definition GenerateFlowSignature ::
    "('k, 'p) crypto_lib \<Rightarrow> ('k, 'p) key_files \<Rightarrow> string \<Rightarrow> int \<Rightarrow> sign_error + string" where
  "GenerateFlowSignature lib files tail_hash ts =
     (case kfKernelKey files of None \<Rightarrow> Inl KeyUnavailable | Some k \<Rightarrow> SignData lib (flow_data tail_hash ts) k)"

text \<open>\<^verbatim>\<open>hex.EncodeToString\<close> of a byte string.\<close>

definition hex_encode :: "string \<Rightarrow> string" where
  "hex_encode s = concat (map (\<lambda>c. hex_digits 2 (of_char c)) s)"

definition KernelSign :: "('k, 'p) crypto_lib \<Rightarrow> ('k, 'p) key_files \<Rightarrow> string \<Rightarrow> string \<Rightarrow> sign_error + string" where
  "KernelSign lib files data_hash prev_signature =
     (case kfKernelKey files of
        None \<Rightarrow> Inl KeyUnavailable
      | Some k \<Rightarrow>
          let input = (if data_hash \<noteq> [] then data_hash @ prev_signature else prev_signature)
          in case clSignPSS lib k (clSha256 lib input) of
               None \<Rightarrow> Inl SigningFailed
             | Some s \<Rightarrow> Inr (hex_encode s))"

definition VerifyFlowSignature ::
    "('k, 'p) crypto_lib \<Rightarrow> ('k, 'p) key_files \<Rightarrow> string \<Rightarrow> int \<Rightarrow> string \<Rightarrow> sign_error option" where
  "VerifyFlowSignature lib files tail_hash ts sig =
     (if sig = [] then Some EmptySignature
      else let data = flow_data tail_hash ts
           in if verified_by lib data sig (kfCaCert files) then None
              else case kfKernelCert files of
                     None \<Rightarrow> Some NoCertificate
                   | Some p \<Rightarrow> VerifySignature lib data sig p)"

section \<open>What the code relies on\<close>

definition key_pair :: "('k, 'p) crypto_lib \<Rightarrow> 'k \<Rightarrow> 'p \<Rightarrow> bool" where
  "key_pair lib k p \<longleftrightarrow> (\<forall>d s. clSignPSS lib k d = Some s \<longrightarrow> clVerifyPSS lib p d s)"

definition no_forgery :: "('k, 'p) crypto_lib \<Rightarrow> 'k \<Rightarrow> 'p \<Rightarrow> bool" where
  "no_forgery lib k p \<longleftrightarrow> (\<forall>d d' s. clSignPSS lib k d = Some s \<longrightarrow> clVerifyPSS lib p d' s \<longrightarrow> d' = d)"

text \<open>Signatures have the length of the key, which is not zero.\<close>

definition base64_ok :: "('k, 'p) crypto_lib \<Rightarrow> bool" where
  "base64_ok lib \<longleftrightarrow> (\<forall>s. clUnBase64 lib (clBase64 lib s) = Some s) \<and> (\<forall>s. clBase64 lib s = [] \<longrightarrow> s = []) \<and>
     (\<forall>k d. clSignPSS lib k d \<noteq> Some [])"

lemma SignData_Inr:
  "SignData lib data k = Inr sig \<longleftrightarrow> (\<exists>s. clSignPSS lib k (clSha256 lib data) = Some s \<and> sig = clBase64 lib s)"
  by (auto simp: SignData_def split: option.splits)

lemma VerifySignature_signed:
  assumes "base64_ok lib" and "SignData lib data k = Inr sig"
  shows "key_pair lib k p \<Longrightarrow> VerifySignature lib data sig p = None"
    and "no_forgery lib k p \<Longrightarrow> VerifySignature lib data' sig p = None \<Longrightarrow> clSha256 lib data' = clSha256 lib data"
    and "sig \<noteq> []"
  using assms by (auto simp: SignData_Inr VerifySignature_def base64_ok_def key_pair_def no_forgery_def split: if_splits)

lemma GenerateFlowSignature_Inr:
  "GenerateFlowSignature lib files h ts = Inr sig \<longleftrightarrow>
     (\<exists>k. kfKernelKey files = Some k \<and> SignData lib (flow_data h ts) k = Inr sig)"
  by (auto simp: GenerateFlowSignature_def split: option.splits)

lemma flow_data_inject: "CHR ''|'' \<notin> set h \<Longrightarrow> flow_data h ts = flow_data h' ts' \<longleftrightarrow> h = h' \<and> ts = ts'"
  unfolding flow_data_def using join_inject [of "CHR ''|''" "[h, show_int ts]" "[h', show_int ts']"] by auto

lemma flow_signature_checks:
  assumes "base64_ok lib" and "GenerateFlowSignature lib files h ts = Inr sig"
    and "kfKernelKey files = Some k" and "kfKernelCert files = Some p" and "key_pair lib k p"
  shows "VerifyFlowSignature lib files h ts sig = None"
proof -
  have signed: "SignData lib (flow_data h ts) k = Inr sig" using assms(2,3) by (simp add: GenerateFlowSignature_Inr)
  show ?thesis
    using VerifySignature_signed(1,3) [OF assms(1) signed] assms(4,5) by (simp add: VerifyFlowSignature_def Let_def)
qed

lemma flow_signature_rejects:
  assumes "base64_ok lib" and "GenerateFlowSignature lib files h ts = Inr sig"
    and "kfKernelKey files = Some k" and "\<forall>p \<in> set_option (kfKernelCert files) \<union> set_option (kfCaCert files). no_forgery lib k p"
    and "clSha256 lib (flow_data h' ts') \<noteq> clSha256 lib (flow_data h ts)"
  shows "VerifyFlowSignature lib files h' ts' sig \<noteq> None"
proof -
  have signed: "SignData lib (flow_data h ts) k = Inr sig" using assms(2,3) by (simp add: GenerateFlowSignature_Inr)
  have "VerifySignature lib (flow_data h' ts') sig p \<noteq> None"
    if "kfKernelCert files = Some p \<or> kfCaCert files = Some p" for p
    using that assms(4,5) VerifySignature_signed(2) [OF assms(1) signed, of p "flow_data h' ts'"] by auto
  then show ?thesis
    by (cases "kfCaCert files"; cases "kfKernelCert files")
      (force simp: VerifyFlowSignature_def verified_by_def Let_def)+
qed

section \<open>Properties\<close>

text \<open>A toy signature: the digest itself in decimal, with a leading letter.\<close>

definition demo_lib :: "(nat, nat) crypto_lib" where
  "demo_lib = \<lparr> clSha256 = (\<lambda>s. of_nat (length s)), clSignPSS = (\<lambda>k d. Some (CHR ''s'' # show_nat (unat d))),
     clVerifyPSS = (\<lambda>p d s. s = CHR ''s'' # show_nat (unat d)), clBase64 = (\<lambda>s. s), clUnBase64 = (\<lambda>s. Some s) \<rparr>"

definition demo_files :: "(nat, nat) key_files" where
  "demo_files = \<lparr> kfKernelKey = Some 1, kfCaCert = None, kfKernelCert = Some 1, kfConnectorCert = (\<lambda>_. Some 1) \<rparr>"

lemma demo_lib_ok: "base64_ok demo_lib" "key_pair demo_lib k p" "no_forgery demo_lib k p"
proof -
  have "d' = d" if "show_nat (unat d) = show_nat (unat d')" for d d' :: digest
    using that digits_value_show by (metis unsigned_word_eqI)
  then show "base64_ok demo_lib" "key_pair demo_lib k p" "no_forgery demo_lib k p"
    by (auto simp: base64_ok_def key_pair_def no_forgery_def demo_lib_def)
qed

text \<open>
  Flow signatures: what \<^verbatim>\<open>GenerateFlowSignature\<close> signs is accepted by \<^verbatim>\<open>VerifyFlowSignature\<close> for the same hash and
  time whatever the CA certificate is, and for no other hash or time, as long as SHA-256 separates the
  two texts and the signature is not a forgery.
\<close>

theorem flow_signature_exact:
  assumes "base64_ok lib" and "GenerateFlowSignature lib files h ts = Inr sig"
    and "kfKernelKey files = Some k" and "kfKernelCert files = Some p" and "key_pair lib k p"
    and "\<forall>q \<in> insert p (set_option (kfCaCert files)). no_forgery lib k q"
    and "CHR ''|'' \<notin> set h" and "clSha256 lib (flow_data h' ts') = clSha256 lib (flow_data h ts) \<longrightarrow> flow_data h' ts' = flow_data h ts"
  shows "VerifyFlowSignature lib files h' ts' sig = None \<longleftrightarrow> h' = h \<and> ts' = ts"
proof
  assume v: "VerifyFlowSignature lib files h' ts' sig = None"
  have "\<forall>q \<in> set_option (kfKernelCert files) \<union> set_option (kfCaCert files). no_forgery lib k q"
    using assms(4,6) by simp
  then have "clSha256 lib (flow_data h' ts') = clSha256 lib (flow_data h ts)"
    using v flow_signature_rejects [OF assms(1-3)] by blast
  then have "flow_data h ts = flow_data h' ts'" using assms(8) by simp
  then show "h' = h \<and> ts' = ts" using assms(7) by (simp add: flow_data_inject)
qed (use flow_signature_checks [OF assms(1-5)] in simp)

theorem flow_signature_exact_witness:
  "\<exists>sig. GenerateFlowSignature demo_lib demo_files ''h'' 7 = Inr sig
     \<and> VerifyFlowSignature demo_lib demo_files ''h'' 7 sig = None
     \<and> VerifyFlowSignature demo_lib demo_files ''h'' 77 sig \<noteq> None"
proof -
  obtain sig where g: "GenerateFlowSignature demo_lib demo_files ''h'' 7 = Inr sig"
    by (simp add: GenerateFlowSignature_def SignData_def demo_lib_def demo_files_def)
  have f: "kfKernelKey demo_files = Some 1" "kfKernelCert demo_files = Some 1" "kfCaCert demo_files = None"
    by (simp_all add: demo_files_def)
  have d: "clSha256 demo_lib (flow_data ''h'' 77) \<noteq> clSha256 demo_lib (flow_data ''h'' 7)"
    by (simp add: demo_lib_def flow_data_def show_int_def show_nat.simps)
  show ?thesis
    using g d flow_signature_exact [OF demo_lib_ok(1) g f(1,2) demo_lib_ok(2), of "''h''" 7]
      flow_signature_exact [OF demo_lib_ok(1) g f(1,2) demo_lib_ok(2), of "''h''" 77]
    by (auto simp: f(3) demo_lib_ok)
qed

text \<open>
  Evidence signatures are made with the kernel's key but never checked against the kernel's certificate:
  a genuine signature is rejected as soon as the connector has a certificate of its own, while any text
  at all is accepted across kernels, without a signature, or when there is no certificate to check with.
\<close>

theorem evidence_signature_key_mismatch:
  assumes "base64_ok lib" and "kfKernelKey files = Some k"
    and "GenerateEvidenceSignature lib files c e ch h ts = Inr sig"
    and "\<forall>q \<in> set_option (kfCaCert files) \<union> set_option (kfConnectorCert files c). \<forall>d s. clSignPSS lib k d = Some s \<longrightarrow> \<not> clVerifyPSS lib q d s"
  shows "(kfConnectorCert files c \<noteq> None \<longrightarrow> VerifyEvidenceSignature lib files False c e ch h sig ts = Some SignatureInvalid)
    \<and> VerifyEvidenceSignature lib files True c e ch' h' sig' ts' = None
    \<and> VerifyEvidenceSignature lib files False c e ch' h' [] ts' = None
    \<and> (kfConnectorCert files c = None \<longrightarrow> VerifyEvidenceSignature lib files False c e ch' h' sig' ts' = None)"
proof -
  have signed: "SignData lib (evidence_data c e ch h ts) k = Inr sig"
    using assms(2,3) by (simp add: GenerateEvidenceSignature_def)
  have "VerifySignature lib (evidence_data c e ch h ts) sig q = Some SignatureInvalid"
    if "kfCaCert files = Some q \<or> kfConnectorCert files c = Some q" for q
    using that signed assms(1,4) by (auto simp: SignData_Inr VerifySignature_def base64_ok_def)
  then show ?thesis
    using VerifySignature_signed(3) [OF assms(1) signed]
    by (auto simp: VerifyEvidenceSignature_def verified_by_def Let_def split: option.splits)
qed

text \<open>A second toy signature that depends on the key.\<close>

definition demo_keyed_lib :: "(nat, nat) crypto_lib" where
  "demo_keyed_lib = demo_lib\<lparr>clVerifyPSS := (\<lambda>p d s. p = 1 \<and> s = CHR ''s'' # show_nat (unat d))\<rparr>"

theorem evidence_signature_key_mismatch_witness:
  "\<exists>sig. GenerateEvidenceSignature demo_keyed_lib (demo_files\<lparr>kfConnectorCert := (\<lambda>_. Some 2)\<rparr>) ''c'' ''e'' ''ch'' ''h'' 7 = Inr sig
     \<and> VerifyEvidenceSignature demo_keyed_lib (demo_files\<lparr>kfConnectorCert := (\<lambda>_. Some 2)\<rparr>) False ''c'' ''e'' ''ch'' ''h'' sig 7 \<noteq> None"
proof -
  let ?files = "demo_files\<lparr>kfConnectorCert := (\<lambda>_. Some 2)\<rparr>"
  have ok: "base64_ok demo_keyed_lib" "kfKernelKey ?files = Some 1" "kfConnectorCert ?files ''c'' \<noteq> None"
      "\<forall>q \<in> set_option (kfCaCert ?files) \<union> set_option (kfConnectorCert ?files ''c'').
         \<forall>d s. clSignPSS demo_keyed_lib 1 d = Some s \<longrightarrow> \<not> clVerifyPSS demo_keyed_lib q d s"
    by (simp_all add: base64_ok_def demo_keyed_lib_def demo_lib_def demo_files_def)
  obtain sig where g: "GenerateEvidenceSignature demo_keyed_lib ?files ''c'' ''e'' ''ch'' ''h'' 7 = Inr sig"
    by (simp add: GenerateEvidenceSignature_def SignData_def demo_keyed_lib_def demo_lib_def demo_files_def)
  show ?thesis using g evidence_signature_key_mismatch [OF ok(1,2) g ok(4)] ok(3) by auto
qed

end
