(* ===== verification/Hash_Chain.thy ===== *)
theory Hash_Chain
  imports Kernel_Signing
begin

text \<open>
  What the evidence log and the business data chain share: SHA-256 sums in hexadecimal, and lists in
  which every element names the hash of the one before it.
\<close>

section \<open>Hashes as text\<close>

text \<open>\<^verbatim>\<open>hex.EncodeToString\<close> of the 32 bytes of a SHA-256 sum.\<close>

definition hash_text :: "(string \<Rightarrow> digest) \<Rightarrow> string \<Rightarrow> string" where
  "hash_text sha t = hex_digits 64 (unat (sha t))"

lemma hash_text_nonempty [simp]: "hash_text sha t \<noteq> []"
  by (simp add: hash_text_def flip: length_greater_0_conv)

lemma hash_text_inject: "hash_text sha t = hash_text sha t' \<longleftrightarrow> sha t = sha t'"
proof -
  have "unat w mod 16 ^ 64 = unat w" for w :: digest
  proof -
    have "unat w < 2 ^ 256" using unsigned_less [of w, where 'a = nat] by simp
    then show ?thesis by simp
  qed
  then show ?thesis
    unfolding hash_text_def hex_digits_inject by (simp add: word_unat_eq_iff)
qed

lemma hex_digits_set: "set (hex_digits k n) \<subseteq> set ''0123456789abcdef''"
proof (induction k arbitrary: n)
  case (Suc k)
  have "hex_digit n \<in> set ''0123456789abcdef''"
    unfolding hex_digit_def by (rule nth_mem) simp
  with Suc show ?case by simp
qed simp

section \<open>Hash chains\<close>

text \<open>Each element names the hash of the one before it, the first one \<open>p\<close>; \<open>chain_tip\<close> is the last hash.\<close>

fun linked :: "('r \<Rightarrow> string) \<Rightarrow> ('r \<Rightarrow> string) \<Rightarrow> string \<Rightarrow> 'r list \<Rightarrow> bool" where
  "linked prev h p [] \<longleftrightarrow> True"
| "linked prev h p (r # rs) \<longleftrightarrow> prev r = p \<and> linked prev h (h r) rs"

definition chain_tip :: "('r \<Rightarrow> string) \<Rightarrow> string \<Rightarrow> 'r list \<Rightarrow> string" where
  "chain_tip h p rs = (if rs = [] then p else h (last rs))"

lemma linked_append_one: "linked prev h p (rs @ [r]) \<longleftrightarrow> linked prev h p rs \<and> prev r = chain_tip h p rs"
  by (induction rs arbitrary: p) (auto simp: chain_tip_def)

lemma chain_tip_append [simp]: "chain_tip h p (rs @ [r]) = h r"
  by (simp add: chain_tip_def)

lemma linked_update:
  "prev r' = prev (rs ! i) \<Longrightarrow> h r' = h (rs ! i) \<Longrightarrow> linked prev h p (rs[i := r']) \<longleftrightarrow> linked prev h p rs"
  by (induction rs arbitrary: i p) (auto split: nat.splits)

lemma chain_tip_update: "h r' = h (rs ! i) \<Longrightarrow> chain_tip h p (rs[i := r']) = chain_tip h p rs"
  by (cases "i = length rs - 1") (auto simp: chain_tip_def last_conv_nth nth_list_update)

lemma linked_tl: "rs \<noteq> [] \<Longrightarrow> linked prev h (h (hd rs)) (tl rs) \<longleftrightarrow> linked prev h (prev (hd rs)) rs"
  by (cases rs) auto

text \<open>
  The interface of a chain whose hash is taken of a text: the text determines what a plain element
  holds and the hash it names, and no hash is empty.  Then the last hash determines the whole chain,
  unless two of the texts involved collide.
\<close>

locale hash_chain =
  fixes prev :: "'r \<Rightarrow> string" and text_of :: "'r \<Rightarrow> string" and hash :: "string \<Rightarrow> string"
    and body :: "'r \<Rightarrow> 'b" and plain :: "'r \<Rightarrow> bool"
  assumes text_commits: "plain r \<Longrightarrow> text_of r = text_of r' \<Longrightarrow> body r = body r' \<and> prev r = prev r'"
    and hash_nonempty: "hash t \<noteq> []"
begin

lemma tip_commits:
  assumes "linked prev (\<lambda>r. hash (text_of r)) [] rs" and "linked prev (\<lambda>r. hash (text_of r)) [] rs'"
    and "chain_tip (\<lambda>r. hash (text_of r)) [] rs = chain_tip (\<lambda>r. hash (text_of r)) [] rs'"
    and "\<forall>r \<in> set rs. plain r"
    and "\<forall>r \<in> set rs. \<forall>r' \<in> set rs'. hash (text_of r) = hash (text_of r') \<longrightarrow> text_of r = text_of r'"
  shows "map body rs = map body rs'"
  using assms
proof (induction rs arbitrary: rs' rule: rev_induct)
  case Nil
  then show ?case using hash_nonempty by (auto simp: chain_tip_def split: if_splits) (metis)
next
  case (snoc r rs)
  obtain ss r' where ss: "rs' = ss @ [r']"
    using snoc.prems(3) hash_nonempty by (cases rs' rule: rev_cases) (auto simp: chain_tip_def)
  have "text_of r = text_of r'" using snoc.prems(3,5) by (simp add: ss)
  then have eq: "body r = body r'" "prev r = prev r'" using text_commits snoc.prems(4) by auto
  have "map body rs = map body ss"
    by (rule snoc.IH) (use snoc.prems eq(2) in \<open>auto simp: ss linked_append_one\<close>)
  with eq(1) show ?case by (simp add: ss)
qed

end

end
