(* ===== verification/Evidence_Log.thy ===== *)
theory Evidence_Log
  imports Hash_Chain
begin

text \<open>
  The evidence log (\<^verbatim>\<open>kernel/evidence/audit_log.go\<close>): hash-chained records of what the kernel did, their
  in-memory indexes, the log file, and the signature over a data flow.

  Records are shared by pointer between the list and the indexes, so an index holds positions in the
  list; a log without memory cache has no list (\<open>None\<close>).  SHA-256 is the parameter \<open>sha\<close>, the database
  behind \<^verbatim>\<open>EvidenceStore\<close> a state \<open>'s\<close> with the operations \<open>EvidenceStore\<close>, the members of a JSON object
  the parameter \<open>members\<close>; a zero \<^verbatim>\<open>time.Time\<close> in a query is \<open>None\<close>.  Event types and directions are
  strings.  The records interpret \<open>hash_chain\<close>; \<open>ev_step\<close> is the machine of concurrent submissions.
\<close>

section \<open>Records\<close>

record EvidenceRecord =
  evEventID :: string
  evEventType :: string
  evTimestamp :: time
  evSourceID :: string
  evTargetID :: string
  evDirection :: string
  evChannelID :: string
  evFlowID :: string
  evDataHash :: string
  evSignature :: string
  evHash :: string
  evPrevHash :: string
  evMetadata :: "string gomap option"
  evConnectorID :: string

definition DirectionInternal :: string where
  "DirectionInternal = ''internal''"

definition record_fields :: "EvidenceRecord \<Rightarrow> string list" where
  "record_fields r = [evEventID r, evEventType r, evSourceID r, evTargetID r, evDirection r, evChannelID r,
     evDataHash r, show_int (unix (evTimestamp r)), evPrevHash r]"

definition calculateRecordHash :: "(string \<Rightarrow> digest) \<Rightarrow> EvidenceRecord \<Rightarrow> string" where
  "calculateRecordHash sha r = hash_text sha (join CHR ''|'' (record_fields r))"

section \<open>The log\<close>

record 's EvidenceStore =
  stStore :: "EvidenceRecord \<Rightarrow> 's \<Rightarrow> bool \<times> 's"
  stUpdate :: "EvidenceRecord \<Rightarrow> 's \<Rightarrow> bool \<times> 's"
  stGetByEventID :: "string \<Rightarrow> 's \<Rightarrow> EvidenceRecord option"
  stGetByChannel :: "string \<Rightarrow> time option \<Rightarrow> time option \<Rightarrow> 's \<Rightarrow> EvidenceRecord list option"
  stGetBySource :: "string \<Rightarrow> time option \<Rightarrow> time option \<Rightarrow> 's \<Rightarrow> EvidenceRecord list option"
  stGetByTarget :: "string \<Rightarrow> time option \<Rightarrow> time option \<Rightarrow> 's \<Rightarrow> EvidenceRecord list option"
  stGetByDirection :: "string \<Rightarrow> time option \<Rightarrow> time option \<Rightarrow> 's \<Rightarrow> EvidenceRecord list option"
  stGetByEventType :: "string \<Rightarrow> time option \<Rightarrow> time option \<Rightarrow> 's \<Rightarrow> EvidenceRecord list option"
  stGetByFlowID :: "string \<Rightarrow> time option \<Rightarrow> time option \<Rightarrow> 's \<Rightarrow> EvidenceRecord list option"

type_synonym index = "nat list gomap"

record 's AuditLog =
  alStore :: "'s option"
  alRecords :: "EvidenceRecord list option"
  alIndexByCh :: index
  alIndexBySource :: index
  alIndexByTarget :: index
  alIndexByEventType :: index
  alIndexByFlowID :: index
  alLastRecordHash :: string
  alLogFile :: "string option"
  alPersistent :: bool

datatype log_error =
  OpenFailed | PanicNilMap | FlowIDRequired | NoFlowRecords | FlowSignFailed sign_error | NoFlowSignature
| ChainBroken nat | FlowSignatureInvalid sign_error | HashMismatch | RecordNotFound | QueryFailed

definition index_list :: "index \<Rightarrow> string \<Rightarrow> nat list" where
  "index_list idx k = (case go_get idx k of None \<Rightarrow> [] | Some ps \<Rightarrow> ps)"

definition index_add :: "string \<Rightarrow> nat \<Rightarrow> index \<Rightarrow> index" where
  "index_add k n idx = go_put k (index_list idx k @ [n]) idx"

definition index_add_if :: "string \<Rightarrow> nat \<Rightarrow> index \<Rightarrow> index" where
  "index_add_if k n idx = (if k \<noteq> [] then index_add k n idx else idx)"

section \<open>Submitting\<close>

text \<open>What \<^verbatim>\<open>SubmitBasicEvidenceWithMetadata\<close> builds between its two critical sections.\<close>

record submission =
  sbSource :: string
  sbType :: string
  sbChannel :: string
  sbDataHash :: string
  sbDirection :: string
  sbTarget :: string
  sbFlow :: string
  sbMetadata :: "string gomap option"

definition build_record ::
    "(string \<Rightarrow> digest) \<Rightarrow> string \<Rightarrow> time \<Rightarrow> submission \<Rightarrow> string \<Rightarrow> string \<Rightarrow> EvidenceRecord" where
  "build_record sha eid now sb sig prev =
     (let r = \<lparr> evEventID = eid, evEventType = sbType sb, evTimestamp = now, evSourceID = sbSource sb,
                evTargetID = sbTarget sb, evDirection = sbDirection sb, evChannelID = sbChannel sb,
                evFlowID = sbFlow sb, evDataHash = sbDataHash sb, evSignature = sig, evHash = [],
                evPrevHash = prev, evMetadata = sbMetadata sb, evConnectorID = [] \<rparr>
      in r\<lparr>evHash := calculateRecordHash sha r\<rparr>)"

definition sign_record :: "(string \<Rightarrow> sign_error + string) option \<Rightarrow> EvidenceRecord \<Rightarrow> EvidenceRecord" where
  "sign_record sign r =
     (case sign of
        None \<Rightarrow> r
      | Some f \<Rightarrow> (case f (evHash r) of Inl e \<Rightarrow> r | Inr s \<Rightarrow> r\<lparr>evSignature := s\<rparr>))"

definition begin_record ::
    "(string \<Rightarrow> digest) \<Rightarrow> (string \<Rightarrow> sign_error + string) option \<Rightarrow> string \<Rightarrow> time \<Rightarrow> submission \<Rightarrow> 's AuditLog \<Rightarrow> EvidenceRecord" where
  "begin_record sha sign eid now sb al = sign_record sign (build_record sha eid now sb [] (alLastRecordHash al))"

definition publish_hash :: "EvidenceRecord \<Rightarrow> 's AuditLog \<Rightarrow> 's AuditLog" where
  "publish_hash r al = al\<lparr>alLastRecordHash := evHash r\<rparr>"

fun store_attempts :: "nat \<Rightarrow> 's EvidenceStore \<Rightarrow> EvidenceRecord \<Rightarrow> 's \<Rightarrow> 's" where
  "store_attempts 0 ops r s = s"
| "store_attempts (Suc n) ops r s =
     (case stStore ops r s of (ok, s') \<Rightarrow> if ok then s' else store_attempts n ops r s')"

definition store_record :: "nat \<Rightarrow> 's EvidenceStore \<Rightarrow> EvidenceRecord \<Rightarrow> 's AuditLog \<Rightarrow> 's AuditLog" where
  "store_record n ops r al = al\<lparr>alStore := map_option (store_attempts n ops r) (alStore al)\<rparr>"

definition cache_record :: "EvidenceRecord \<Rightarrow> 's AuditLog \<Rightarrow> 's AuditLog" where
  "cache_record r al =
     (case alRecords al of
        None \<Rightarrow> al
      | Some rs \<Rightarrow> al\<lparr> alRecords := Some (rs @ [r]),
                      alIndexByCh := index_add_if (evChannelID r) (length rs) (alIndexByCh al),
                      alIndexBySource := index_add_if (evSourceID r) (length rs) (alIndexBySource al),
                      alIndexByFlowID := index_add_if (evFlowID r) (length rs) (alIndexByFlowID al) \<rparr>)"

definition SubmitBasicEvidenceWithMetadata ::
    "(string \<Rightarrow> digest) \<Rightarrow> (string \<Rightarrow> sign_error + string) option \<Rightarrow> 's EvidenceStore \<Rightarrow> string \<Rightarrow> time \<Rightarrow>
     submission \<Rightarrow> 's AuditLog \<Rightarrow> EvidenceRecord \<times> 's AuditLog" where
  "SubmitBasicEvidenceWithMetadata sha sign ops eid now sb al =
     (let r = begin_record sha sign eid now sb al
      in (r, cache_record r (store_record 3 ops r (publish_hash r al))))"

definition SubmitBasicEvidence ::
    "(string \<Rightarrow> digest) \<Rightarrow> (string \<Rightarrow> sign_error + string) option \<Rightarrow> 's EvidenceStore \<Rightarrow> string \<Rightarrow> time \<Rightarrow>
     string \<Rightarrow> string \<Rightarrow> string \<Rightarrow> string \<Rightarrow> string \<Rightarrow> string \<Rightarrow> 's AuditLog \<Rightarrow> EvidenceRecord \<times> 's AuditLog" where
  "SubmitBasicEvidence sha sign ops eid now source etype channel dhash direction target =
     SubmitBasicEvidenceWithMetadata sha sign ops eid now
       \<lparr> sbSource = source, sbType = etype, sbChannel = channel, sbDataHash = dhash, sbDirection = direction,
         sbTarget = target, sbFlow = [], sbMetadata = Some [(''data_category'', ''control'')] \<rparr>"

definition SubmitEvidence ::
    "(string \<Rightarrow> digest) \<Rightarrow> (string \<Rightarrow> sign_error + string) option \<Rightarrow> 's EvidenceStore \<Rightarrow> string \<Rightarrow> time \<Rightarrow>
     string \<Rightarrow> string \<Rightarrow> string \<Rightarrow> string \<Rightarrow> 's AuditLog \<Rightarrow> EvidenceRecord \<times> 's AuditLog" where
  "SubmitEvidence sha sign ops eid now connector etype channel dhash =
     SubmitBasicEvidence sha sign ops eid now connector etype channel dhash DirectionInternal []"

text \<open>The flow identifier of the caller is ignored.\<close>

definition SubmitEvidenceWithFlowID ::
    "(string \<Rightarrow> digest) \<Rightarrow> (string \<Rightarrow> sign_error + string) option \<Rightarrow> 's EvidenceStore \<Rightarrow> string \<Rightarrow> time \<Rightarrow>
     string \<Rightarrow> string \<Rightarrow> string \<Rightarrow> string \<Rightarrow> string \<Rightarrow> 's AuditLog \<Rightarrow> EvidenceRecord \<times> 's AuditLog" where
  "SubmitEvidenceWithFlowID sha sign ops eid now flow connector etype channel dhash =
     SubmitBasicEvidence sha sign ops eid now connector etype channel dhash DirectionInternal []"

definition SubmitBasicEvidenceWithFlowID ::
    "(string \<Rightarrow> digest) \<Rightarrow> (string \<Rightarrow> sign_error + string) option \<Rightarrow> 's EvidenceStore \<Rightarrow> string \<Rightarrow> time \<Rightarrow>
     string \<Rightarrow> string \<Rightarrow> string \<Rightarrow> string \<Rightarrow> string \<Rightarrow> string \<Rightarrow> string \<Rightarrow> 's AuditLog \<Rightarrow> EvidenceRecord \<times> 's AuditLog" where
  "SubmitBasicEvidenceWithFlowID sha sign ops eid now source etype channel dhash direction target flow =
     SubmitBasicEvidenceWithMetadata sha sign ops eid now
       \<lparr> sbSource = source, sbType = etype, sbChannel = channel, sbDataHash = dhash, sbDirection = direction,
         sbTarget = target, sbFlow = flow, sbMetadata = None \<rparr>"

text \<open>The variant with retries: an evidence signature, all indexes, and the log file.\<close>

definition cache_all :: "EvidenceRecord \<Rightarrow> 's AuditLog \<Rightarrow> 's AuditLog" where
  "cache_all r al =
     (case alRecords al of
        None \<Rightarrow> al
      | Some rs \<Rightarrow> al\<lparr> alRecords := Some (rs @ [r]),
                      alIndexByCh := index_add_if (evChannelID r) (length rs) (alIndexByCh al),
                      alIndexBySource := index_add_if (evSourceID r) (length rs) (alIndexBySource al),
                      alIndexByTarget := index_add_if (evTargetID r) (length rs) (alIndexByTarget al),
                      alIndexByEventType := index_add (evEventType r) (length rs) (alIndexByEventType al) \<rparr>)"

definition writeRecordToFile :: "(EvidenceRecord \<Rightarrow> string) \<Rightarrow> bool \<Rightarrow> EvidenceRecord \<Rightarrow> 's AuditLog \<Rightarrow> 's AuditLog" where
  "writeRecordToFile marshal write_ok r al =
     (if write_ok then al\<lparr>alLogFile := map_option (\<lambda>f. f @ marshal r @ [CHR 0x0A]) (alLogFile al)\<rparr> else al)"

definition SubmitBasicEvidenceWithRetry ::
    "('k, 'p) crypto_lib \<Rightarrow> ('k, 'p) key_files \<Rightarrow> (EvidenceRecord \<Rightarrow> string) \<Rightarrow> bool \<Rightarrow> 's EvidenceStore \<Rightarrow> string \<Rightarrow> time \<Rightarrow>
     submission \<Rightarrow> int \<Rightarrow> 's AuditLog \<Rightarrow> EvidenceRecord \<times> 's AuditLog" where
  "SubmitBasicEvidenceWithRetry lib files marshal write_ok ops eid now sb retries al =
     (let sig = (case GenerateEvidenceSignature lib files (sbSource sb) (sbType sb) (sbChannel sb) (sbDataHash sb) (unix now) of
                   Inl e \<Rightarrow> [] | Inr s \<Rightarrow> s);
          r = build_record (clSha256 lib) eid now (sb\<lparr>sbFlow := [], sbMetadata := None\<rparr>) sig (alLastRecordHash al);
          al1 = cache_all r (store_record (nat retries) ops r (publish_hash r al))
      in (r, if alPersistent al then writeRecordToFile marshal write_ok r al1 else al1))"

section \<open>Queries\<close>

definition records_at :: "'s AuditLog \<Rightarrow> nat list \<Rightarrow> EvidenceRecord list" where
  "records_at al ps = (case alRecords al of None \<Rightarrow> [] | Some rs \<Rightarrow> map (\<lambda>i. rs ! i) ps)"

definition in_time_range :: "time option \<Rightarrow> time option \<Rightarrow> EvidenceRecord \<Rightarrow> bool" where
  "in_time_range from until r \<longleftrightarrow>
     (case from of None \<Rightarrow> True | Some t \<Rightarrow> evTimestamp r > t) \<and>
     (case until of None \<Rightarrow> True | Some t \<Rightarrow> evTimestamp r < t)"

text \<open>The collecting loop, which stops when the limit is reached.\<close>

fun collect :: "('a \<Rightarrow> bool) \<Rightarrow> int \<Rightarrow> 'a list \<Rightarrow> 'a list \<Rightarrow> 'a list" where
  "collect P limit acc [] = acc"
| "collect P limit acc (x # xs) =
     (if P x then
        (let acc' = acc @ [x]
         in if limit > 0 \<and> int (length acc') \<ge> limit then acc' else collect P limit acc' xs)
      else collect P limit acc xs)"

definition filterByTimeRange ::
    "EvidenceRecord list \<Rightarrow> time option \<Rightarrow> time option \<Rightarrow> int \<Rightarrow> EvidenceRecord list" where
  "filterByTimeRange rs from until limit = collect (in_time_range from until) limit [] rs"

definition cap :: "int \<Rightarrow> 'a list \<Rightarrow> 'a list" where
  "cap limit xs = (if limit > 0 \<and> int (length xs) > limit then take (nat limit) xs else xs)"

text \<open>The shape of the five queries by key: the database if there is one, otherwise an index.\<close>

definition query_by ::
    "(time option \<Rightarrow> time option \<Rightarrow> 's \<Rightarrow> EvidenceRecord list option) \<Rightarrow> index \<Rightarrow> string \<Rightarrow>
     time option \<Rightarrow> time option \<Rightarrow> int \<Rightarrow> 's AuditLog \<Rightarrow> EvidenceRecord list" where
  "query_by get idx key from until limit al =
     (case alStore al of
        Some s \<Rightarrow> (case get from until s of None \<Rightarrow> [] | Some rs \<Rightarrow> cap limit rs)
      | None \<Rightarrow> (case go_get idx key of
                   None \<Rightarrow> []
                 | Some ps \<Rightarrow> filterByTimeRange (records_at al ps) from until limit))"

definition QueryByChannel where
  "QueryByChannel ops ch from until limit al =
     query_by (stGetByChannel ops ch) (alIndexByCh al) ch from until limit al"

definition QueryBySource where
  "QueryBySource ops src from until limit al =
     query_by (stGetBySource ops src) (alIndexBySource al) src from until limit al"

definition QueryByTarget where
  "QueryByTarget ops tgt from until limit al =
     query_by (stGetByTarget ops tgt) (alIndexByTarget al) tgt from until limit al"

definition QueryByEventType where
  "QueryByEventType ops ty from until limit al =
     query_by (stGetByEventType ops ty) (alIndexByEventType al) ty from until limit al"

definition QueryByFlowID where
  "QueryByFlowID ops flow from until limit al =
     query_by (stGetByFlowID ops flow) (alIndexByFlowID al) flow from until limit al"

definition QueryByDirection ::
    "'s EvidenceStore \<Rightarrow> string \<Rightarrow> time option \<Rightarrow> time option \<Rightarrow> int \<Rightarrow> 's AuditLog \<Rightarrow> EvidenceRecord list" where
  "QueryByDirection ops dir from until limit al =
     (case alStore al of
        Some s \<Rightarrow> (case stGetByDirection ops dir from until s of None \<Rightarrow> [] | Some rs \<Rightarrow> cap limit rs)
      | None \<Rightarrow> collect (\<lambda>r. evDirection r = dir \<and> in_time_range from until r) limit []
                 (concat (map (\<lambda>(ty, ps). records_at al ps) (alIndexByEventType al))))"

definition QueryByEventID :: "'s EvidenceStore \<Rightarrow> string \<Rightarrow> 's AuditLog \<Rightarrow> log_error + EvidenceRecord" where
  "QueryByEventID ops eid al =
     (case alStore al of
        Some s \<Rightarrow> (case stGetByEventID ops eid s of None \<Rightarrow> Inl QueryFailed | Some r \<Rightarrow> Inr r)
      | None \<Rightarrow> (case find (\<lambda>r. evEventID r = eid) (case alRecords al of None \<Rightarrow> [] | Some rs \<Rightarrow> rs) of
                   None \<Rightarrow> Inl RecordNotFound | Some r \<Rightarrow> Inr r))"

text \<open>Two result lists merged, each event once, in order.\<close>

fun add_unseen :: "EvidenceRecord list \<Rightarrow> EvidenceRecord list \<Rightarrow> EvidenceRecord list" where
  "add_unseen acc [] = acc"
| "add_unseen acc (r # rs) = (if evEventID r \<in> evEventID ` set acc then add_unseen acc rs else add_unseen (acc @ [r]) rs)"

definition QueryByConnector where
  "QueryByConnector ops c from until limit al =
     cap limit (add_unseen (add_unseen [] (QueryBySource ops c from until 0 al)) (QueryByTarget ops c from until 0 al))"

definition QueryByChannelAndConnector where
  "QueryByChannelAndConnector ops ch c from until limit al =
     cap limit (add_unseen (add_unseen [] (QueryByChannel ops ch from until 0 al)) (QueryBySource ops c from until 0 al))"

definition GetAllRecords :: "'s AuditLog \<Rightarrow> EvidenceRecord list" where
  "GetAllRecords al = (case alRecords al of None \<Rightarrow> [] | Some rs \<Rightarrow> rs)"

definition GetRecordCount :: "'s AuditLog \<Rightarrow> nat" where
  "GetRecordCount al = length (GetAllRecords al)"

section \<open>Verification\<close>

definition VerifyRecord :: "(string \<Rightarrow> digest) \<Rightarrow> EvidenceRecord \<Rightarrow> log_error option" where
  "VerifyRecord sha r = (if calculateRecordHash sha r \<noteq> evHash r then Some HashMismatch else None)"

definition sign_cached :: "string \<Rightarrow> string \<Rightarrow> 's AuditLog \<Rightarrow> 's AuditLog" where
  "sign_cached flow sig al =
     (case (alRecords al, index_list (alIndexByFlowID al) flow) of
        (Some rs, p # ps) \<Rightarrow>
          (let i = last (p # ps) in al\<lparr>alRecords := Some (rs[i := (rs ! i)\<lparr>evSignature := sig\<rparr>])\<rparr>)
      | _ \<Rightarrow> al)"

definition SignFlow ::
    "('k, 'p) crypto_lib \<Rightarrow> ('k, 'p) key_files \<Rightarrow> 's EvidenceStore \<Rightarrow> time \<Rightarrow> string \<Rightarrow> 's AuditLog \<Rightarrow>
     (log_error + EvidenceRecord) \<times> 's AuditLog" where
  "SignFlow lib files ops now flow al =
     (if flow = [] then (Inl FlowIDRequired, al)
      else let rs = QueryByFlowID ops flow None None 0 al
           in if rs = [] then (Inl NoFlowRecords, al)
              else case GenerateFlowSignature lib files (evHash (last rs)) (unix now) of
                     Inl e \<Rightarrow> (Inl (FlowSignFailed e), al)
                   | Inr sig \<Rightarrow>
                       let r = (last rs)\<lparr>evSignature := sig\<rparr>;
                           al1 = al\<lparr>alStore := map_option (\<lambda>s. snd (stUpdate ops r s)) (alStore al)\<rparr>
                       in (Inr r, sign_cached flow sig al1))"

fun broken_link :: "nat \<Rightarrow> EvidenceRecord \<Rightarrow> EvidenceRecord list \<Rightarrow> nat option" where
  "broken_link n prev [] = None"
| "broken_link n prev (r # rs) = (if evPrevHash r \<noteq> evHash prev then Some n else broken_link (n + 1) r rs)"

definition VerifyFlow ::
    "('k, 'p) crypto_lib \<Rightarrow> ('k, 'p) key_files \<Rightarrow> 's EvidenceStore \<Rightarrow> string \<Rightarrow> 's AuditLog \<Rightarrow> log_error + bool" where
  "VerifyFlow lib files ops flow al =
     (if flow = [] then Inl FlowIDRequired
      else let rs = QueryByFlowID ops flow None None 0 al
           in if rs = [] then Inl NoFlowRecords
              else if evSignature (last rs) = [] then Inl NoFlowSignature
              else case broken_link 1 (hd rs) (tl rs) of
                     Some n \<Rightarrow> Inl (ChainBroken n)
                   | None \<Rightarrow>
                       (case VerifyFlowSignature lib files (evHash (last rs)) (unix (evTimestamp (last rs)))
                               (evSignature (last rs)) of
                          Some e \<Rightarrow> Inl (FlowSignatureInvalid e)
                        | None \<Rightarrow> Inr True))"

section \<open>The log file\<close>

fun file_lines :: "string \<Rightarrow> string \<Rightarrow> string list" where
  "file_lines line [] = []"
| "file_lines line (b # bs) =
     (if b = CHR 0x0A then (if line \<noteq> [] then line # file_lines [] bs else file_lines [] bs)
      else file_lines (line @ [b]) bs)"

text \<open>
  \<^verbatim>\<open>json.Unmarshal\<close> into the auxiliary structure.  \<open>members\<close> gives the members of the object by their JSON
  names, \<^verbatim>\<open>record_hash\<close> apart.  Of two fields with one JSON name the decoder uses the less nested one, so
  \<^verbatim>\<open>prev_hash\<close> goes to the auxiliary structure's own \<^verbatim>\<open>PrevHash\<close> and the record's stays empty.
\<close>

definition UnmarshalJSON :: "(string \<Rightarrow> (EvidenceRecord \<times> string) option) \<Rightarrow> string \<Rightarrow> EvidenceRecord option" where
  "UnmarshalJSON members line =
     (case members line of
        None \<Rightarrow> None
      | Some (m, record_hash) \<Rightarrow>
          let e = m\<lparr>evPrevHash := []\<rparr>
          in Some (if record_hash \<noteq> [] then e\<lparr>evHash := record_hash\<rparr> else e))"

definition load_record :: "EvidenceRecord \<Rightarrow> 's AuditLog \<Rightarrow> 's AuditLog" where
  "load_record r al =
     (let al1 = cache_all r al
      in if evPrevHash r \<noteq> [] then al1\<lparr>alLastRecordHash := evHash r\<rparr> else al1)"

text \<open>Without memory cache the first record is put into a nil map, which panics.\<close>

definition loadFromFile ::
    "(string \<Rightarrow> (EvidenceRecord \<times> string) option) \<Rightarrow> string \<Rightarrow> 's AuditLog \<Rightarrow> log_error + 's AuditLog" where
  "loadFromFile members data al =
     (let rs = List.map_filter (UnmarshalJSON members) (file_lines [] data)
      in if alRecords al = None \<and> rs \<noteq> [] then Inl PanicNilMap else Inr (fold load_record rs al))"

text \<open>\<open>data\<close>: what the file holds, \<open>None\<close> when it cannot be opened.\<close>

definition NewAuditLogWithConfig ::
    "(string \<Rightarrow> (EvidenceRecord \<times> string) option) \<Rightarrow> bool \<Rightarrow> string \<Rightarrow> 's option \<Rightarrow> bool \<Rightarrow> string option \<Rightarrow>
     log_error + 's AuditLog" where
  "NewAuditLogWithConfig members persistent path store cache data =
     (let al = \<lparr> alStore = store, alRecords = (if cache then Some [] else None), alIndexByCh = [], alIndexBySource = [],
                 alIndexByTarget = [], alIndexByEventType = [], alIndexByFlowID = [], alLastRecordHash = [],
                 alLogFile = None, alPersistent = persistent \<rparr>
      in if persistent \<and> path \<noteq> [] \<and> store = None then
           (case data of
              None \<Rightarrow> Inl OpenFailed
            | Some d \<Rightarrow> loadFromFile members d (al\<lparr>alLogFile := Some d\<rparr>))
         else Inr al)"

definition NewAuditLog where
  "NewAuditLog members persistent path data = NewAuditLogWithConfig members persistent path None True data"

section \<open>Lemmas\<close>

definition plain_record :: "EvidenceRecord \<Rightarrow> bool" where
  "plain_record r \<longleftrightarrow> (\<forall>f \<in> set (record_fields r). CHR ''|'' \<notin> set f)"

definition record_text :: "EvidenceRecord \<Rightarrow> string" where
  "record_text r = join CHR ''|'' (record_fields r)"

lemma record_text_commits:
  "plain_record r \<Longrightarrow> record_text r = record_text r' \<Longrightarrow> record_fields r = record_fields r' \<and> evPrevHash r = evPrevHash r'"
  unfolding record_text_def plain_record_def
  by (frule (1) join_inject [rotated 2]) (simp_all add: record_fields_def)

interpretation ec: hash_chain evPrevHash record_text "hash_text sha" record_fields plain_record for sha
  by unfold_locales (simp_all add: record_text_commits)

lemma calculate_text: "calculateRecordHash sha r = hash_text sha (record_text r)"
  by (simp add: calculateRecordHash_def record_text_def)

lemma linked_verified:
  "\<forall>r \<in> set rs. VerifyRecord sha r = None \<Longrightarrow>
     linked evPrevHash evHash p rs = linked evPrevHash (\<lambda>r. hash_text sha (record_text r)) p rs"
  by (induction rs arbitrary: p) (auto simp: VerifyRecord_def calculate_text split: if_splits)

lemma chain_tip_verified:
  "\<forall>r \<in> set rs. VerifyRecord sha r = None \<Longrightarrow>
     chain_tip evHash p rs = chain_tip (\<lambda>r. hash_text sha (record_text r)) p rs"
  by (auto simp: chain_tip_def VerifyRecord_def calculate_text split: if_splits)

lemma sign_record_simps [simp]:
  "record_fields (sign_record sign r) = record_fields r" "evHash (sign_record sign r) = evHash r"
  "evPrevHash (sign_record sign r) = evPrevHash r" "evChannelID (sign_record sign r) = evChannelID r"
  "evSourceID (sign_record sign r) = evSourceID r" "evFlowID (sign_record sign r) = evFlowID r"
  "evTargetID (sign_record sign r) = evTargetID r"
  by (simp_all add: sign_record_def record_fields_def split: option.split sum.split)

lemma calculate_cong: "record_fields r = record_fields r' \<Longrightarrow> calculateRecordHash sha r = calculateRecordHash sha r'"
  by (simp add: calculateRecordHash_def)

lemma record_fields_frame [simp]:
  "record_fields (r\<lparr>evSignature := s\<rparr>) = record_fields r" "record_fields (r\<lparr>evHash := h\<rparr>) = record_fields r"
  by (simp_all add: record_fields_def)

lemma build_record_simps [simp]:
  "evPrevHash (build_record sha eid now sb sig prev) = prev" "evFlowID (build_record sha eid now sb sig prev) = sbFlow sb"
  "evChannelID (build_record sha eid now sb sig prev) = sbChannel sb"
  "evSourceID (build_record sha eid now sb sig prev) = sbSource sb"
  "evTargetID (build_record sha eid now sb sig prev) = sbTarget sb"
  "evTimestamp (build_record sha eid now sb sig prev) = now"
  by (simp_all add: build_record_def Let_def)

lemma build_record_verified: "VerifyRecord sha (build_record sha eid now sb sig prev) = None"
proof -
  define r where "r = \<lparr> evEventID = eid, evEventType = sbType sb, evTimestamp = now, evSourceID = sbSource sb,
    evTargetID = sbTarget sb, evDirection = sbDirection sb, evChannelID = sbChannel sb, evFlowID = sbFlow sb,
    evDataHash = sbDataHash sb, evSignature = sig, evHash = [], evPrevHash = prev, evMetadata = sbMetadata sb, evConnectorID = [] \<rparr>"
  have "build_record sha eid now sb sig prev = r\<lparr>evHash := calculateRecordHash sha r\<rparr>"
    by (simp add: build_record_def r_def)
  moreover have "calculateRecordHash sha (r\<lparr>evHash := calculateRecordHash sha r\<rparr>) = calculateRecordHash sha r"
    by (rule calculate_cong) simp
  ultimately show ?thesis by (simp add: VerifyRecord_def)
qed

lemma VerifyRecord_cong:
  "record_fields r = record_fields r' \<Longrightarrow> evHash r = evHash r' \<Longrightarrow> VerifyRecord sha r = VerifyRecord sha r'"
  using calculate_cong [of r r'] by (simp add: VerifyRecord_def)

lemma begin_record_verified: "VerifyRecord sha (begin_record sha sign eid now sb al) = None"
  unfolding begin_record_def
  using VerifyRecord_cong [of "sign_record sign _" "build_record sha eid now sb [] (alLastRecordHash al)"]
  by (simp add: build_record_verified)

lemma begin_record_prev: "evPrevHash (begin_record sha sign eid now sb al) = alLastRecordHash al"
  by (simp add: begin_record_def)

lemma collect_eq:
  "limit \<le> 0 \<or> int (length acc) < limit \<Longrightarrow>
     collect P limit acc xs = acc @ (if limit > 0 then take (nat limit - length acc) (filter P xs) else filter P xs)"
proof (induction xs arbitrary: acc)
  case (Cons x xs)
  show ?case
  proof (cases "P x \<and> limit > 0 \<and> int (length (acc @ [x])) \<ge> limit")
    case True
    then have "nat limit - length acc = 1" using Cons.prems by auto
    with True show ?thesis by simp
  next
    case False
    then show ?thesis
      using Cons.IH [of "acc @ [x]"] Cons.IH [of acc] Cons.prems
      by (auto simp: Let_def take_Cons' Suc_diff_Suc)
  qed
qed auto

section \<open>Sequential submissions\<close>

definition chain_ok :: "(string \<Rightarrow> digest) \<Rightarrow> 's AuditLog \<Rightarrow> bool" where
  "chain_ok sha al \<longleftrightarrow> (case alRecords al of None \<Rightarrow> True | Some rs \<Rightarrow>
     (\<forall>r \<in> set rs. VerifyRecord sha r = None) \<and> linked evPrevHash evHash [] rs \<and>
     alLastRecordHash al = chain_tip evHash [] rs)"

definition index_ok :: "(EvidenceRecord \<Rightarrow> string) \<Rightarrow> index \<Rightarrow> EvidenceRecord list \<Rightarrow> bool" where
  "index_ok key idx rs \<longleftrightarrow> (\<forall>k. k \<noteq> [] \<longrightarrow> index_list idx k = filter (\<lambda>i. key (rs ! i) = k) [0..<length rs])"

definition indexes_ok :: "'s AuditLog \<Rightarrow> bool" where
  "indexes_ok al \<longleftrightarrow> (case alRecords al of None \<Rightarrow> True | Some rs \<Rightarrow>
     index_ok evChannelID (alIndexByCh al) rs \<and> index_ok evSourceID (alIndexBySource al) rs \<and>
     index_ok evFlowID (alIndexByFlowID al) rs)"

definition log_ok :: "(string \<Rightarrow> digest) \<Rightarrow> 's AuditLog \<Rightarrow> bool" where
  "log_ok sha al \<longleftrightarrow> chain_ok sha al \<and> indexes_ok al"

lemma index_list_add: "index_list (index_add k n idx) k' = (if k' = k then index_list idx k @ [n] else index_list idx k')"
  by (simp add: index_list_def index_add_def gomap_simps)

lemma index_ok_add: "index_ok key idx rs \<Longrightarrow> index_ok key (index_add_if (key r) (length rs) idx) (rs @ [r])"
  unfolding index_ok_def
  by (auto simp: index_add_if_def index_list_add nth_append intro!: filter_cong)

lemma index_ok_skip: "index_ok key idx rs \<Longrightarrow> key r = [] \<Longrightarrow> index_ok key idx (rs @ [r])"
  using index_ok_add [of key idx rs r] by (simp add: index_add_if_def)

lemma index_ok_update:
  assumes "key r = key (rs ! i)"
  shows "index_ok key idx (rs[i := r]) \<longleftrightarrow> index_ok key idx rs"
proof -
  have "key (rs[i := r] ! j) = key (rs ! j)" if "j < length rs" for j
    using assms that by (cases "i = j") simp_all
  then have "filter (\<lambda>j. key (rs[i := r] ! j) = k) [0..<length rs] = filter (\<lambda>j. key (rs ! j) = k) [0..<length rs]" for k
    by (intro filter_cong) auto
  then show ?thesis by (simp add: index_ok_def)
qed

lemma store_record_simps [simp]:
  "alRecords (store_record n ops r al) = alRecords al" "alLastRecordHash (store_record n ops r al) = alLastRecordHash al"
  "alIndexByCh (store_record n ops r al) = alIndexByCh al" "alIndexBySource (store_record n ops r al) = alIndexBySource al"
  "alIndexByFlowID (store_record n ops r al) = alIndexByFlowID al" "alIndexByTarget (store_record n ops r al) = alIndexByTarget al"
  "alIndexByEventType (store_record n ops r al) = alIndexByEventType al"
  by (simp_all add: store_record_def)

lemma publish_hash_simps [simp]:
  "alRecords (publish_hash r al) = alRecords al" "alLastRecordHash (publish_hash r al) = evHash r"
  "alIndexByCh (publish_hash r al) = alIndexByCh al" "alIndexBySource (publish_hash r al) = alIndexBySource al"
  "alIndexByFlowID (publish_hash r al) = alIndexByFlowID al" "alIndexByTarget (publish_hash r al) = alIndexByTarget al"
  "alIndexByEventType (publish_hash r al) = alIndexByEventType al" "alStore (publish_hash r al) = alStore al"
  by (simp_all add: publish_hash_def)

lemma chain_ok_extend:
  assumes "chain_ok sha al" and "alRecords al' = map_option (\<lambda>rs. rs @ [r]) (alRecords al)"
    and "VerifyRecord sha r = None" and "evPrevHash r = alLastRecordHash al" and "alLastRecordHash al' = evHash r"
  shows "chain_ok sha al'"
  using assms by (auto simp: chain_ok_def linked_append_one split: option.splits)

lemma submit_log_ok:
  assumes "log_ok sha al"
  shows "log_ok sha (snd (SubmitBasicEvidenceWithMetadata sha sign ops eid now sb al))"
proof -
  let ?r = "begin_record sha sign eid now sb al"
  let ?al = "cache_record ?r (store_record 3 ops ?r (publish_hash ?r al))"
  have "chain_ok sha ?al"
    by (rule chain_ok_extend [of sha al _ ?r])
      (use assms in \<open>auto simp: log_ok_def begin_record_verified cache_record_def begin_record_prev split: option.split\<close>)
  moreover have "indexes_ok ?al"
    using assms by (auto simp: log_ok_def indexes_ok_def cache_record_def index_ok_add split: option.splits)
  ultimately show ?thesis by (simp add: log_ok_def SubmitBasicEvidenceWithMetadata_def Let_def)
qed

lemma writeRecordToFile_simps [simp]:
  "alRecords (writeRecordToFile marshal ok r al) = alRecords al"
  "alLastRecordHash (writeRecordToFile marshal ok r al) = alLastRecordHash al"
  "alIndexByCh (writeRecordToFile marshal ok r al) = alIndexByCh al"
  "alIndexBySource (writeRecordToFile marshal ok r al) = alIndexBySource al"
  "alIndexByFlowID (writeRecordToFile marshal ok r al) = alIndexByFlowID al"
  by (simp_all add: writeRecordToFile_def)

lemma retry_log_ok:
  assumes "log_ok (clSha256 lib) al"
  shows "log_ok (clSha256 lib) (snd (SubmitBasicEvidenceWithRetry lib files marshal ok ops eid now sb retries al))"
proof -
  obtain sig where sig: "(case GenerateEvidenceSignature lib files (sbSource sb) (sbType sb) (sbChannel sb) (sbDataHash sb) (unix now) of
      Inl e \<Rightarrow> [] | Inr s \<Rightarrow> s) = sig" by blast
  let ?r = "build_record (clSha256 lib) eid now (sb\<lparr>sbFlow := [], sbMetadata := None\<rparr>) sig (alLastRecordHash al)"
  let ?al = "cache_all ?r (store_record (nat retries) ops ?r (publish_hash ?r al))"
  have "chain_ok (clSha256 lib) ?al"
    by (rule chain_ok_extend [of _ al _ ?r])
      (use assms in \<open>auto simp: log_ok_def build_record_verified cache_all_def split: option.split\<close>)
  moreover have "indexes_ok ?al"
    using assms index_ok_add [where key = evChannelID and r = ?r] index_ok_add [where key = evSourceID and r = ?r]
      index_ok_skip [where key = evFlowID and r = ?r]
    by (auto simp: log_ok_def indexes_ok_def cache_all_def split: option.splits)
  ultimately show ?thesis
    by (auto simp: log_ok_def chain_ok_def indexes_ok_def SubmitBasicEvidenceWithRetry_def sig Let_def split: option.splits)
qed

lemma sign_cached_log_ok:
  assumes "log_ok sha al"
  shows "log_ok sha (sign_cached flow sig al)"
proof (cases "alRecords al")
  case (Some rs)
  show ?thesis
  proof (cases "index_list (alIndexByFlowID al) flow")
    case (Cons p ps)
    define i where "i = last (p # ps)"
    let ?r = "(rs ! i)\<lparr>evSignature := sig\<rparr>"
    have sc: "sign_cached flow sig al = al\<lparr>alRecords := Some (rs[i := ?r])\<rparr>"
      by (simp add: sign_cached_def Some Cons i_def Let_def)
    have "VerifyRecord sha ?r = None" if "i < length rs"
      using assms that VerifyRecord_cong [of ?r "rs ! i" sha] by (simp add: log_ok_def chain_ok_def Some)
    then have "\<forall>r \<in> set (rs[i := ?r]). VerifyRecord sha r = None"
      using assms set_update_subset_insert [of rs i ?r]
      by (cases "i < length rs") (auto simp: log_ok_def chain_ok_def Some list_update_beyond)
    then show ?thesis
      using assms by (simp add: sc log_ok_def chain_ok_def indexes_ok_def Some linked_update chain_tip_update index_ok_update)
  qed (use assms in \<open>simp add: sign_cached_def Some\<close>)
qed (use assms in \<open>simp add: sign_cached_def\<close>)

lemma sign_flow_log_ok:
  assumes "log_ok sha al"
  shows "log_ok sha (snd (SignFlow lib files ops now flow al))"
proof -
  have "log_ok sha (al\<lparr>alStore := s\<rparr>)" for s
    using assms by (simp add: log_ok_def chain_ok_def indexes_ok_def split: option.splits)
  then show ?thesis
    using assms by (auto simp: SignFlow_def Let_def intro!: sign_cached_log_ok split: sum.split)
qed

text \<open>A log without an existing file, and the operations the kernel runs on it one after the other.\<close>

definition log_init :: "'s AuditLog \<Rightarrow> bool" where
  "log_init al \<longleftrightarrow> (\<exists>members persistent path store cache data.
     NewAuditLogWithConfig members persistent path store cache data = Inr al \<and> (data = None \<or> data = Some []))"

inductive log_step ::
    "('k, 'p) crypto_lib \<Rightarrow> ('k, 'p) key_files \<Rightarrow> 's EvidenceStore \<Rightarrow> 's AuditLog \<Rightarrow> 's AuditLog \<Rightarrow> bool"
  for lib files ops where
  log_submit: "log_step lib files ops al
     (snd (SubmitBasicEvidenceWithMetadata (clSha256 lib) sign ops eid now sb al))"
| log_retry: "log_step lib files ops al
     (snd (SubmitBasicEvidenceWithRetry lib files marshal ok ops eid now sb retries al))"
| log_sign_flow: "log_step lib files ops al (snd (SignFlow lib files ops now flow al))"

lemma log_init_ok: "log_init al \<Longrightarrow> log_ok sha al"
  by (auto simp: log_init_def NewAuditLogWithConfig_def loadFromFile_def log_ok_def chain_ok_def indexes_ok_def
      chain_tip_def index_ok_def index_list_def Let_def map_filter_def split: if_splits)

interpretation evlog: invariant_system log_init "log_step lib files ops" "log_ok (clSha256 lib)" for lib files ops
  by unfold_locales (auto simp: log_init_ok elim!: log_step.cases intro: submit_log_ok retry_log_ok sign_flow_log_ok)

lemma query_index:
  assumes "index_ok key idx rs" and "alStore al = None" and "alRecords al = Some rs" and "k \<noteq> []"
  shows "query_by get idx k from until limit al =
    (if limit > 0 then take (nat limit) else id) (filter (\<lambda>r. key r = k \<and> in_time_range from until r) rs)"
proof -
  have "query_by get idx k from until limit al =
      filterByTimeRange (map (\<lambda>i. rs ! i) (index_list idx k)) from until limit"
    by (simp add: query_by_def assms(2,3) index_list_def records_at_def filterByTimeRange_def split: option.split)
  also have "map (\<lambda>i. rs ! i) (index_list idx k) = filter (\<lambda>r. key r = k) rs"
    using assms(1,4) filter_map [of "\<lambda>r. key r = k" "\<lambda>i. rs ! i" "[0..<length rs]"]
    by (simp add: index_ok_def map_nth comp_def)
  finally show ?thesis
    by (simp add: filterByTimeRange_def collect_eq conj_commute)
qed

section \<open>Concurrent submissions\<close>

text \<open>
  \<^verbatim>\<open>SubmitBasicEvidenceWithMetadata\<close> takes the lock three times: to read the last hash, to write the new
  one, and to append the record.  Between the three, other submissions run.  \<open>esBuilt\<close> are records that
  have been built, \<open>esPublished\<close> those whose hash has been written as well.
\<close>

record 's ev_system =
  esLog :: "'s AuditLog"
  esBuilt :: "EvidenceRecord list"
  esPublished :: "EvidenceRecord list"

inductive ev_step :: "(string \<Rightarrow> digest) \<Rightarrow> 's EvidenceStore \<Rightarrow> 's ev_system \<Rightarrow> 's ev_system \<Rightarrow> bool"
  for sha ops where
  ev_read: "ev_step sha ops sys (sys\<lparr>esBuilt := begin_record sha sign eid now sb (esLog sys) # esBuilt sys\<rparr>)"
| ev_publish: "r \<in> set (esBuilt sys) \<Longrightarrow> ev_step sha ops sys
     (sys\<lparr>esLog := publish_hash r (esLog sys), esBuilt := remove1 r (esBuilt sys), esPublished := r # esPublished sys\<rparr>)"
| ev_append: "r \<in> set (esPublished sys) \<Longrightarrow> ev_step sha ops sys
     (sys\<lparr>esLog := cache_record r (store_record 3 ops r (esLog sys)), esPublished := remove1 r (esPublished sys)\<rparr>)"

definition ev_init :: "'s ev_system \<Rightarrow> bool" where
  "ev_init sys \<longleftrightarrow> log_init (esLog sys) \<and> esBuilt sys = [] \<and> esPublished sys = [] \<and> alRecords (esLog sys) \<noteq> None"

text \<open>Records whose hash has been published.\<close>

definition known_records :: "'s ev_system \<Rightarrow> EvidenceRecord set" where
  "known_records sys = set (GetAllRecords (esLog sys)) \<union> set (esPublished sys)"

definition ev_ok :: "(string \<Rightarrow> digest) \<Rightarrow> 's ev_system \<Rightarrow> bool" where
  "ev_ok sha sys \<longleftrightarrow> alRecords (esLog sys) \<noteq> None \<and>
     (\<forall>r \<in> known_records sys \<union> set (esBuilt sys). VerifyRecord sha r = None \<and>
        evPrevHash r \<in> insert [] (evHash ` known_records sys)) \<and>
     alLastRecordHash (esLog sys) \<in> insert [] (evHash ` known_records sys)"

lemma GetAllRecords_cache:
  "alRecords al \<noteq> None \<Longrightarrow> GetAllRecords (cache_record r al) = GetAllRecords al @ [r]"
  "alRecords al \<noteq> None \<Longrightarrow> alRecords (cache_record r al) \<noteq> None"
  "alLastRecordHash (cache_record r al) = alLastRecordHash al"
  by (auto simp: GetAllRecords_def cache_record_def split: option.split)

lemma GetAllRecords_frame [simp]:
  "GetAllRecords (store_record n ops r al) = GetAllRecords al" "GetAllRecords (publish_hash r al) = GetAllRecords al"
  by (simp_all add: GetAllRecords_def)

lemma log_init_empty: "log_init al \<Longrightarrow> GetAllRecords al = [] \<and> alLastRecordHash al = []"
  by (auto simp: log_init_def NewAuditLogWithConfig_def loadFromFile_def GetAllRecords_def Let_def map_filter_def
      split: if_splits)

lemma ev_ok_init: "ev_init sys \<Longrightarrow> ev_ok sha sys"
  using log_init_empty [of "esLog sys"] by (simp add: ev_init_def ev_ok_def known_records_def)

lemma ev_ok_step:
  assumes "ev_step sha ops sys sys'" and "ev_ok sha sys"
  shows "ev_ok sha sys'"
  using assms(1)
proof cases
  case (ev_read sign eid now sb)
  then have k: "known_records sys' = known_records sys" and l: "esLog sys' = esLog sys"
    by (simp_all add: known_records_def)
  show ?thesis
    using assms(2) unfolding ev_ok_def k l by (auto simp: ev_read(1) begin_record_verified begin_record_prev)
next
  case (ev_publish r)
  then have k: "known_records sys' = insert r (known_records sys)" by (auto simp: known_records_def)
  have "r \<in> set (esBuilt sys)" "set (esBuilt sys') \<subseteq> set (esBuilt sys)"
    using ev_publish set_remove1_subset [of r "esBuilt sys"] by auto
  then show ?thesis
    using assms(2) unfolding ev_ok_def k by (auto simp: ev_publish(1))
next
  case (ev_append r)
  have a: "alRecords (esLog sys) \<noteq> None" using assms(2) by (simp add: ev_ok_def)
  then have k: "known_records sys' = known_records sys"
    using ev_append by (auto simp: known_records_def GetAllRecords_cache dest: notin_set_remove1 set_mp [OF set_remove1_subset])
  show ?thesis
    using assms(2) a unfolding ev_ok_def k by (simp add: ev_append(1) GetAllRecords_cache)
qed

interpretation evc: invariant_system ev_init "ev_step sha ops" "ev_ok sha" for sha ops
  by unfold_locales (auto intro: ev_ok_init ev_ok_step)

section \<open>Flows\<close>

lemma hash_no_bar: "VerifyRecord sha r = None \<Longrightarrow> CHR ''|'' \<notin> set (evHash r)"
proof -
  assume "VerifyRecord sha r = None"
  then have "evHash r = hex_digits 64 (unat (sha (record_text r)))"
    by (simp add: VerifyRecord_def calculate_text hash_text_def split: if_splits)
  then show ?thesis using hex_digits_set [of 64 "unat (sha (record_text r))"] by auto
qed

lemma broken_link_None: "broken_link n p rs = None \<longleftrightarrow> linked evPrevHash evHash (evHash p) rs"
  by (induction n p rs rule: broken_link.induct) auto

lemma map_update_last:
  assumes "distinct ps" and "ps \<noteq> []" and "last ps < length rs"
  shows "map (\<lambda>j. rs[last ps := x] ! j) ps = (map (\<lambda>j. rs ! j) ps)[length ps - 1 := x]"
proof -
  obtain qs i where ps: "ps = qs @ [i]" using assms(2) by (cases ps rule: rev_cases) auto
  have "map (\<lambda>j. rs[i := x] ! j) qs = map (\<lambda>j. rs ! j) qs" using assms(1) by (auto simp: ps intro!: nth_list_update_neq)
  with assms(3) show ?thesis by (simp add: ps list_update_append)
qed

text \<open>What signing a flow does to the records of the flow.\<close>

lemma SignFlow_records:
  assumes "log_ok sha al" and "alStore al = None" and "alRecords al = Some rs"
    and "SignFlow lib files ops now flow al = (Inr r, al')"
  defines "fs \<equiv> filter (\<lambda>r. evFlowID r = flow) rs"
  obtains sig where "fs \<noteq> []" "GenerateFlowSignature lib files (evHash (last fs)) (unix now) = Inr sig"
    "r = (last fs)\<lparr>evSignature := sig\<rparr>" "flow \<noteq> []" "QueryByFlowID ops flow None None 0 al' = fs[length fs - 1 := r]"
proof -
  have flow: "flow \<noteq> []" using assms(4) by (auto simp: SignFlow_def)
  have idx: "index_ok evFlowID (alIndexByFlowID al) rs" using assms(1,3) by (simp add: log_ok_def indexes_ok_def)
  have query: "QueryByFlowID ops flow None None 0 al = fs"
    unfolding QueryByFlowID_def query_index [OF idx assms(2,3) flow] by (simp add: fs_def in_time_range_def)
  obtain sig where ne: "fs \<noteq> []" and g: "GenerateFlowSignature lib files (evHash (last fs)) (unix now) = Inr sig"
      and r: "r = (last fs)\<lparr>evSignature := sig\<rparr>" and al': "al' = sign_cached flow sig (al\<lparr>alStore := None\<rparr>)"
    using assms(2,4) flow by (auto simp: SignFlow_def query Let_def split: if_splits sum.splits)
  define ps where "ps = index_list (alIndexByFlowID al) flow"
  have ps: "ps = filter (\<lambda>i. evFlowID (rs ! i) = flow) [0..<length rs]"
    using idx flow by (simp add: ps_def index_ok_def)
  have fs: "fs = map (\<lambda>j. rs ! j) ps"
    unfolding fs_def ps using filter_map [of "\<lambda>r. evFlowID r = flow" "\<lambda>i. rs ! i" "[0..<length rs]"]
    by (simp add: map_nth comp_def)
  then have psne: "ps \<noteq> []" and lst: "last fs = rs ! last ps" using ne by (auto simp: last_map)
  have dist: "distinct ps" and bound: "last ps < length rs"
    using psne last_in_set [OF psne] by (auto simp: ps)
  have rec': "alRecords al' = Some (rs[last ps := r])" and idx': "alIndexByFlowID al' = alIndexByFlowID al"
      and st': "alStore al' = None"
    using psne assms(2,3) by (auto simp: al' sign_cached_def r lst Let_def ps_def split: list.split)
  have ok': "index_ok evFlowID (alIndexByFlowID al') (rs[last ps := r])"
    using idx by (simp add: idx' index_ok_update r lst)
  have "QueryByFlowID ops flow None None 0 al' = map (\<lambda>j. rs[last ps := r] ! j) ps"
    unfolding QueryByFlowID_def query_by_def st'
    using psne by (auto simp: idx' records_at_def rec' filterByTimeRange_def collect_eq in_time_range_def ps_def index_list_def
        split: option.split)
  also have "\<dots> = fs[length fs - 1 := r]"
    using map_update_last [OF dist psne bound, of r] by (simp add: fs)
  finally show thesis using that ne g r flow by blast
qed

lemma sign_last:
  fixes sig :: string
  assumes "fs \<noteq> []"
  defines "fs' \<equiv> fs[length fs - 1 := (last fs)\<lparr>evSignature := sig\<rparr>]"
  shows "last fs' = (last fs)\<lparr>evSignature := sig\<rparr>" and "fs' \<noteq> []" and "evPrevHash (hd fs') = evPrevHash (hd fs)"
    and "linked evPrevHash evHash q fs' \<longleftrightarrow> linked evPrevHash evHash q fs"
proof -
  show "last fs' = (last fs)\<lparr>evSignature := sig\<rparr>" "fs' \<noteq> []" using assms by (simp_all add: last_list_update)
  show "evPrevHash (hd fs') = evPrevHash (hd fs)"
    using assms by (cases "length fs - 1") (simp_all add: hd_conv_nth nth_list_update last_conv_nth)
  show "linked evPrevHash evHash q fs' \<longleftrightarrow> linked evPrevHash evHash q fs"
    unfolding fs'_def using assms(1) by (intro linked_update) (simp_all add: last_conv_nth)
qed

lemma flow_signature_second:
  assumes "base64_ok lib" and "GenerateFlowSignature lib files h ts = Inr sig"
    and "kfKernelKey files = Some k" and "kfKernelCert files = Some p" and "key_pair lib k p"
    and "\<forall>q \<in> insert p (set_option (kfCaCert files)). no_forgery lib k q" and "CHR ''|'' \<notin> set h"
    and "clSha256 lib (flow_data h ts') = clSha256 lib (flow_data h ts) \<longrightarrow> flow_data h ts' = flow_data h ts"
  shows "VerifyFlowSignature lib files h ts' sig = None \<longleftrightarrow> ts' = ts"
proof
  assume v: "VerifyFlowSignature lib files h ts' sig = None"
  have "\<forall>q \<in> set_option (kfKernelCert files) \<union> set_option (kfCaCert files). no_forgery lib k q"
    using assms(4,6) by simp
  then have "clSha256 lib (flow_data h ts') = clSha256 lib (flow_data h ts)"
    using v flow_signature_rejects [OF assms(1-3)] by blast
  then show "ts' = ts" using assms(8) flow_data_inject [OF assms(7)] by blast
qed (use flow_signature_checks [OF assms(1-5)] in simp)

section \<open>Properties\<close>

definition demo_store_ops :: "unit EvidenceStore" where
  "demo_store_ops = \<lparr> stStore = (\<lambda>_ s. (True, s)), stUpdate = (\<lambda>_ s. (True, s)), stGetByEventID = (\<lambda>_ _. None),
     stGetByChannel = (\<lambda>_ _ _ _. None), stGetBySource = (\<lambda>_ _ _ _. None), stGetByTarget = (\<lambda>_ _ _ _. None),
     stGetByDirection = (\<lambda>_ _ _ _. None), stGetByEventType = (\<lambda>_ _ _ _. None), stGetByFlowID = (\<lambda>_ _ _ _. None) \<rparr>"

definition demo_log :: "unit AuditLog" where
  "demo_log = \<lparr> alStore = None, alRecords = Some [], alIndexByCh = [], alIndexBySource = [], alIndexByTarget = [],
     alIndexByEventType = [], alIndexByFlowID = [], alLastRecordHash = [], alLogFile = None, alPersistent = False \<rparr>"

definition demo_submission :: submission where
  "demo_submission = \<lparr> sbSource = ''a'', sbType = ''DATA_SEND'', sbChannel = ''ch'', sbDataHash = ''d'',
     sbDirection = ''outgoing'', sbTarget = ''b'', sbFlow = ''f'', sbMetadata = None \<rparr>"

definition demo_submit :: "string \<Rightarrow> time \<Rightarrow> unit AuditLog \<Rightarrow> unit AuditLog" where
  "demo_submit eid now al = snd (SubmitBasicEvidenceWithMetadata (clSha256 demo_lib) None demo_store_ops eid now demo_submission al)"

lemma demo_log_init: "log_init demo_log"
  unfolding log_init_def
  by (intro exI [of _ "\<lambda>_. None"] exI [of _ False] exI [of _ "[]"] exI [of _ None] exI [of _ True])
    (simp add: NewAuditLogWithConfig_def demo_log_def)

lemma demo_log_reach:
  "reach log_init (log_step demo_lib demo_files demo_store_ops) demo_log"
  "reach log_init (log_step demo_lib demo_files demo_store_ops) al \<Longrightarrow>
     reach log_init (log_step demo_lib demo_files demo_store_ops) (demo_submit eid now al)"
  using demo_log_init by (auto simp: demo_submit_def intro: reach_init reach_step log_submit)

text \<open>
  C18. The evidence chain: after any sequence of submissions and flow signatures on a new log, every record's
  hash is the hash of its content, every record names the hash of the one before it, the first one
  names none, and the log remembers the hash of the last one.
\<close>

theorem evidence_chain_intact:
  assumes "reach log_init (log_step lib files ops) al" and "alRecords al = Some rs"
  shows "(\<forall>r \<in> set rs. VerifyRecord (clSha256 lib) r = None) \<and> linked evPrevHash evHash [] rs \<and>
    alLastRecordHash al = chain_tip evHash [] rs"
  using evlog.reach_inv [OF assms(1)] assms(2) by (simp add: log_ok_def chain_ok_def)

theorem evidence_chain_intact_witness:
  "length (GetAllRecords (demo_submit ''e2'' 2 (demo_submit ''e1'' 1 demo_log))) = 2
   \<and> linked evPrevHash evHash [] (GetAllRecords (demo_submit ''e2'' 2 (demo_submit ''e1'' 1 demo_log)))"
proof -
  let ?al = "demo_submit ''e2'' 2 (demo_submit ''e1'' 1 demo_log)"
  obtain rs where rs: "alRecords ?al = Some rs" "length rs = 2"
    by (simp add: demo_submit_def SubmitBasicEvidenceWithMetadata_def cache_record_def demo_log_def Let_def)
  have "linked evPrevHash evHash [] rs"
    using evidence_chain_intact [OF demo_log_reach(2) [OF demo_log_reach(2) [OF demo_log_reach(1)]] rs(1)] by blast
  with rs show ?thesis by (simp add: GetAllRecords_def)
qed



text \<open>
  C20. The indexes agree with the list: in a log without database, the queries by channel, by source and by
  flow return exactly the records of the log with that key inside the open time interval, in the order
  they were submitted, cut to the limit if it is positive.
\<close>

theorem indexed_queries_exact:
  assumes "reach log_init (log_step lib files ops) al" and "alStore al = None" and "alRecords al = Some rs" and "k \<noteq> []"
  shows "QueryByChannel ops' k from until limit al =
      (if limit > 0 then take (nat limit) else id) (filter (\<lambda>r. evChannelID r = k \<and> in_time_range from until r) rs)
    \<and> QueryBySource ops' k from until limit al =
      (if limit > 0 then take (nat limit) else id) (filter (\<lambda>r. evSourceID r = k \<and> in_time_range from until r) rs)
    \<and> QueryByFlowID ops' k from until limit al =
      (if limit > 0 then take (nat limit) else id) (filter (\<lambda>r. evFlowID r = k \<and> in_time_range from until r) rs)"
  using evlog.reach_inv [OF assms(1)] assms(2-4)
  by (simp add: log_ok_def indexes_ok_def QueryByChannel_def QueryBySource_def QueryByFlowID_def query_index)

theorem indexed_queries_exact_witness:
  "length (QueryBySource demo_store_ops ''a'' None (Some 2) 5 (demo_submit ''e2'' 2 (demo_submit ''e1'' 1 demo_log))) = 1"
proof -
  let ?al = "demo_submit ''e2'' 2 (demo_submit ''e1'' 1 demo_log)"
  obtain r1 r2 where rs: "alRecords ?al = Some [r1, r2]" "evSourceID r1 = ''a''" "evTimestamp r1 = 1" "evTimestamp r2 = 2"
    by (simp add: demo_submit_def SubmitBasicEvidenceWithMetadata_def cache_record_def begin_record_def sign_record_def
        demo_log_def Let_def) (simp add: demo_submission_def)
  have st: "alStore ?al = None"
    by (simp add: demo_submit_def SubmitBasicEvidenceWithMetadata_def cache_record_def store_record_def demo_log_def Let_def)
  show ?thesis
    using indexed_queries_exact [OF demo_log_reach(2) [OF demo_log_reach(2) [OF demo_log_reach(1)]] st rs(1), of "''a''"
        demo_store_ops None "Some 2" 5] rs(2-4)
    by (simp add: in_time_range_def)
qed

text \<open>
  Concurrent submissions, in whatever order their critical sections interleave, never store a record whose
  hash is wrong, and every record names no hash or that of a record that was submitted.
\<close>

theorem concurrent_records_verified:
  assumes "reach ev_init (ev_step sha ops) sys" and "r \<in> set (GetAllRecords (esLog sys))"
  shows "VerifyRecord sha r = None \<and>
    (evPrevHash r = [] \<or> (\<exists>r' \<in> set (GetAllRecords (esLog sys)) \<union> set (esPublished sys). evPrevHash r = evHash r'))"
  using evc.reach_inv [OF assms(1)] assms(2) by (auto simp: ev_ok_def known_records_def)

definition demo_system :: "unit ev_system" where
  "demo_system = \<lparr> esLog = demo_log, esBuilt = [], esPublished = [] \<rparr>"

lemma demo_system_reach: "reach ev_init (ev_step sha ops) demo_system"
  by (rule reach_init) (simp add: ev_init_def demo_system_def demo_log_init, simp add: demo_log_def)

lemma ev_submit:
  fixes sys :: "'s ev_system"
  assumes "r = begin_record sha sign eid now sb (esLog sys)"
  shows "(ev_step sha ops)\<^sup>*\<^sup>* sys (sys\<lparr>esLog := cache_record r (store_record 3 ops r (publish_hash r (esLog sys)))\<rparr>)"
proof -
  let ?s1 = "sys\<lparr>esBuilt := r # esBuilt sys\<rparr>"
  let ?s2 = "?s1\<lparr>esLog := publish_hash r (esLog sys), esBuilt := esBuilt sys, esPublished := r # esPublished sys\<rparr>"
  have a: "ev_step sha ops sys ?s1" unfolding assms by (rule ev_read)
  have b: "ev_step sha ops ?s1 ?s2" using ev_publish [of r ?s1 sha ops] by simp
  have c: "ev_step sha ops ?s2 (sys\<lparr>esLog := cache_record r (store_record 3 ops r (publish_hash r (esLog sys)))\<rparr>)"
    using ev_append [of r ?s2 sha ops] by simp
  note first = converse_rtranclp_into_rtranclp [of "ev_step sha ops"]
  show ?thesis
    by (rule first [OF a], rule first [OF b], rule r_into_rtranclp [of "ev_step sha ops", OF c])
qed

theorem concurrent_records_verified_witness:
  "\<exists>sys. reach ev_init (ev_step (clSha256 demo_lib) demo_store_ops) sys \<and> length (GetAllRecords (esLog sys)) = 1
     \<and> (\<forall>r \<in> set (GetAllRecords (esLog sys)). VerifyRecord (clSha256 demo_lib) r = None)"
proof -
  let ?r = "begin_record (clSha256 demo_lib) None ''e'' 0 demo_submission (esLog demo_system)"
  let ?sys = "demo_system\<lparr>esLog := cache_record ?r (store_record 3 demo_store_ops ?r (publish_hash ?r (esLog demo_system)))\<rparr>"
  have reach: "reach ev_init (ev_step (clSha256 demo_lib) demo_store_ops) ?sys"
    by (rule evc.reach_run [OF ev_submit demo_system_reach]) simp
  have "length (GetAllRecords (esLog ?sys)) = 1"
    by (simp add: GetAllRecords_cache) (simp add: demo_system_def demo_log_def GetAllRecords_def cache_record_def)
  then show ?thesis using reach concurrent_records_verified [OF reach] by blast
qed

text \<open>
  Two concurrent submissions can fork the chain: from every state of a log with memory cache, the two can
  interleave so that both records name the same previous hash, and the list is no chain any more.
\<close>

theorem concurrent_submissions_fork:
  assumes "alRecords (esLog sys) = Some rs"
  shows "\<exists>sys' r1 r2. (ev_step sha ops)\<^sup>*\<^sup>* sys sys' \<and> GetAllRecords (esLog sys') = rs @ [r1, r2] \<and>
    evEventID r1 = e1 \<and> evEventID r2 = e2 \<and> evPrevHash r2 = evPrevHash r1 \<and>
    (evHash r1 \<noteq> alLastRecordHash (esLog sys) \<longrightarrow> \<not> linked evPrevHash evHash p (GetAllRecords (esLog sys')))"
proof -
  define r where "r e = begin_record sha None e 0 demo_submission (esLog sys)" for e
  let ?s1 = "sys\<lparr>esBuilt := r e1 # esBuilt sys\<rparr>"
  let ?s2 = "?s1\<lparr>esBuilt := r e2 # r e1 # esBuilt sys\<rparr>"
  let ?al1 = "publish_hash (r e1) (esLog sys)"
  let ?s3 = "?s2\<lparr>esLog := ?al1, esBuilt := remove1 (r e1) (esBuilt ?s2), esPublished := r e1 # esPublished sys\<rparr>"
  let ?al2 = "cache_record (r e1) (store_record 3 ops (r e1) ?al1)"
  let ?s4 = "?s3\<lparr>esLog := ?al2, esPublished := esPublished sys\<rparr>"
  let ?al3 = "publish_hash (r e2) ?al2"
  let ?s5 = "?s4\<lparr>esLog := ?al3, esBuilt := remove1 (r e2) (esBuilt ?s4), esPublished := r e2 # esPublished sys\<rparr>"
  let ?al4 = "cache_record (r e2) (store_record 3 ops (r e2) ?al3)"
  let ?s6 = "?s5\<lparr>esLog := ?al4, esPublished := esPublished sys\<rparr>"
  have st: "ev_step sha ops sys ?s1" "ev_step sha ops ?s1 ?s2" "ev_step sha ops ?s2 ?s3" "ev_step sha ops ?s3 ?s4"
      "ev_step sha ops ?s4 ?s5" "ev_step sha ops ?s5 ?s6"
    using ev_read [of sha ops sys None e1 0 demo_submission] ev_read [of sha ops ?s1 None e2 0 demo_submission]
      ev_publish [of "r e1" ?s2 sha ops] ev_append [of "r e1" ?s3 sha ops] ev_publish [of "r e2" ?s4 sha ops]
      ev_append [of "r e2" ?s5 sha ops]
    by (simp_all add: r_def)
  note first = converse_rtranclp_into_rtranclp [of "ev_step sha ops"]
  have run: "(ev_step sha ops)\<^sup>*\<^sup>* sys ?s6"
    by (rule first [OF st(1)], rule first [OF st(2)], rule first [OF st(3)], rule first [OF st(4)],
        rule first [OF st(5)], rule r_into_rtranclp [of "ev_step sha ops", OF st(6)])
  have recs: "GetAllRecords (esLog ?s6) = rs @ [r e1, r e2]"
    using assms by (simp add: GetAllRecords_cache) (simp add: GetAllRecords_def)
  have prev: "evPrevHash (r e) = alLastRecordHash (esLog sys)" "evEventID (r e) = e" for e
    by (simp_all add: r_def begin_record_def sign_record_def build_record_def Let_def)
  have "\<not> linked evPrevHash evHash p (rs @ [r e1, r e2])" if "evHash (r e1) \<noteq> alLastRecordHash (esLog sys)"
    using that linked_append_one [of evPrevHash evHash p "rs @ [r e1]" "r e2"] by (simp add: prev)
  then show ?thesis
    using run recs prev by (intro exI [of _ ?s6] exI [of _ "r e1"] exI [of _ "r e2"]) (simp add: recs)
qed

theorem concurrent_submissions_fork_witness:
  "\<exists>sys' r1 r2. (ev_step (clSha256 demo_lib) demo_store_ops)\<^sup>*\<^sup>* demo_system sys' \<and> GetAllRecords (esLog sys') = [r1, r2]
     \<and> evEventID r1 = ''e1'' \<and> evEventID r2 = ''e2'' \<and> evPrevHash r2 = evPrevHash r1"
proof -
  have "alRecords (esLog demo_system) = Some []" by (simp add: demo_system_def demo_log_def)
  from concurrent_submissions_fork [OF this, of "clSha256 demo_lib" demo_store_ops "''e1''" "''e2''" "[]"]
  show ?thesis unfolding append_Nil by blast
qed

text \<open>
  A signed flow verifies only if it was signed within the second of its last record and no other record
  came between its records: the signature covers the time of signing but is checked against the time of
  the record, and each record of the flow has to name the hash of the flow's previous record although
  the chain runs through all records of the log.
\<close>

theorem signed_flow_verifies_iff:
  assumes "reach log_init (log_step lib files ops) al" and "alStore al = None" and "alRecords al = Some rs"
    and "SignFlow lib files ops now flow al = (Inr r, al')" and "base64_ok lib"
    and "kfKernelKey files = Some k" and "kfKernelCert files = Some p" and "key_pair lib k p"
    and "\<forall>q \<in> insert p (set_option (kfCaCert files)). no_forgery lib k q"
    and "clSha256 lib (flow_data (evHash r) (unix (evTimestamp r))) = clSha256 lib (flow_data (evHash r) (unix now)) \<longrightarrow>
      flow_data (evHash r) (unix (evTimestamp r)) = flow_data (evHash r) (unix now)"
  shows "VerifyFlow lib files ops flow al' = Inr True \<longleftrightarrow>
    unix (evTimestamp r) = unix now \<and>
    linked evPrevHash evHash (evPrevHash (hd (filter (\<lambda>r. evFlowID r = flow) rs))) (filter (\<lambda>r. evFlowID r = flow) rs)"
proof -
  let ?fs = "filter (\<lambda>r. evFlowID r = flow) rs"
  have ok: "log_ok (clSha256 lib) al" by (rule evlog.reach_inv [OF assms(1)])
  obtain sig where fs: "?fs \<noteq> []" and gen: "GenerateFlowSignature lib files (evHash (last ?fs)) (unix now) = Inr sig"
      and r: "r = (last ?fs)\<lparr>evSignature := sig\<rparr>" and flow: "flow \<noteq> []"
      and query: "QueryByFlowID ops flow None None 0 al' = ?fs[length ?fs - 1 := r]"
    by (rule SignFlow_records [OF ok assms(2-4)])
  let ?fs' = "?fs[length ?fs - 1 := r]"
  note upd = sign_last [OF fs, where sig = sig, folded r]
  have gen': "GenerateFlowSignature lib files (evHash r) (unix now) = Inr sig" using gen by (simp add: r)
  have signed: "SignData lib (flow_data (evHash r) (unix now)) k = Inr sig"
    using gen' assms(6) by (simp add: GenerateFlowSignature_Inr)
  have "last ?fs \<in> set rs" using last_in_set [OF fs] by auto
  then have "VerifyRecord (clSha256 lib) r = None"
    using ok assms(3) VerifyRecord_cong [of r "last ?fs"] by (simp add: log_ok_def chain_ok_def r)
  then have bar: "CHR ''|'' \<notin> set (evHash r)" by (rule hash_no_bar)
  note check = flow_signature_second [OF assms(5) gen' assms(6-9) bar assms(10)]
  have "broken_link 1 (hd ?fs') (tl ?fs') = None \<longleftrightarrow> linked evPrevHash evHash (evPrevHash (hd ?fs)) ?fs"
    unfolding broken_link_None linked_tl [OF upd(2)] upd(3,4) ..
  then show ?thesis
    using flow upd(1,2) VerifySignature_signed(3) [OF assms(5) signed] check
    by (auto simp: VerifyFlow_def query Let_def r split: option.splits)
qed

lemma demo_signed_flow:
  "\<exists>r al'. SignFlow demo_lib demo_files demo_store_ops (seconds 30) ''f'' (demo_submit ''e1'' (seconds 1) demo_log) = (Inr r, al')
     \<and> evTimestamp r = seconds 1"
proof -
  let ?al = "demo_submit ''e1'' (seconds 1) demo_log"
  let ?r = "build_record (clSha256 demo_lib) ''e1'' (seconds 1) demo_submission [] []"
  have q: "QueryByFlowID demo_store_ops ''f'' None None 0 ?al = [?r]"
    by (simp add: demo_submit_def SubmitBasicEvidenceWithMetadata_def cache_record_def begin_record_def sign_record_def
        demo_log_def Let_def QueryByFlowID_def query_by_def store_record_def publish_hash_def records_at_def index_add_if_def
        index_add_def index_list_def filterByTimeRange_def in_time_range_def) (simp add: demo_submission_def)
  obtain sig where "GenerateFlowSignature demo_lib demo_files (evHash ?r) (unix (seconds 30)) = Inr sig"
    by (simp add: GenerateFlowSignature_def SignData_def demo_lib_def demo_files_def)
  then show ?thesis unfolding SignFlow_def q by (simp add: Let_def)
qed

theorem signed_flow_verifies_iff_witness:
  "\<exists>r al'. SignFlow demo_lib demo_files demo_store_ops (seconds 30) ''f'' (demo_submit ''e1'' (seconds 1) demo_log) = (Inr r, al')
     \<and> VerifyFlow demo_lib demo_files demo_store_ops ''f'' al' \<noteq> Inr True"
proof -
  let ?al = "demo_submit ''e1'' (seconds 1) demo_log"
  obtain r al' where r: "SignFlow demo_lib demo_files demo_store_ops (seconds 30) ''f'' ?al = (Inr r, al')" "evTimestamp r = seconds 1"
    using demo_signed_flow by blast
  have al: "alStore ?al = None" "\<exists>rs. alRecords ?al = Some rs"
    by (simp_all add: demo_submit_def SubmitBasicEvidenceWithMetadata_def cache_record_def store_record_def demo_log_def Let_def)
  then obtain rs where rs: "alRecords ?al = Some rs" by blast
  have f: "kfKernelKey demo_files = Some 1" "kfKernelCert demo_files = Some 1" "kfCaCert demo_files = None"
    by (simp_all add: demo_files_def)
  have u: "unix (seconds 1) = 1" "unix (seconds 30) = 30" by (simp_all add: unix_def seconds_def)
  have d: "clSha256 demo_lib (flow_data (evHash r) (unix (evTimestamp r))) \<noteq> clSha256 demo_lib (flow_data (evHash r) (unix (seconds 30)))"
    by (simp add: r(2) u demo_lib_def flow_data_def show_int_def show_nat.simps)
  show ?thesis
    using r u d signed_flow_verifies_iff [OF demo_log_reach(2) [OF demo_log_reach(1)] al(1) rs r(1) demo_lib_ok(1) f(1,2) demo_lib_ok(2)]
    by (auto simp: f(3) demo_lib_ok)
qed

lemma UnmarshalJSON_prev: "UnmarshalJSON members line = Some r \<Longrightarrow> evPrevHash r = []"
  by (auto simp: UnmarshalJSON_def Let_def split: option.splits)

lemma load_records:
  assumes "\<forall>r \<in> set rs. evPrevHash r = []" and "alRecords al = Some rs0"
  shows "alRecords (fold load_record rs al) = Some (rs0 @ rs) \<and> alLastRecordHash (fold load_record rs al) = alLastRecordHash al"
  using assms
proof (induction rs arbitrary: al rs0)
  case (Cons r rs)
  have "alRecords (load_record r al) = Some (rs0 @ [r])" "alLastRecordHash (load_record r al) = alLastRecordHash al"
    using Cons.prems by (simp_all add: load_record_def cache_all_def)
  with Cons show ?case by simp
qed simp

lemma decoded_prev: "r \<in> set (List.map_filter (UnmarshalJSON members) ls) \<Longrightarrow> evPrevHash r = []"
  by (auto simp: map_filter_def intro: UnmarshalJSON_prev)

lemma prev_dropped_rejected:
  assumes "VerifyRecord sha m = None" and "evPrevHash m \<noteq> []"
    and "sha (record_text (m\<lparr>evPrevHash := []\<rparr>)) \<noteq> sha (record_text m)"
  shows "VerifyRecord sha (m\<lparr>evPrevHash := []\<rparr>) = Some HashMismatch"
proof -
  have "hash_text sha (record_text (m\<lparr>evPrevHash := []\<rparr>)) \<noteq> hash_text sha (record_text m)"
    using assms(3) by (simp add: hash_text_inject)
  then show ?thesis using assms(1) by (auto simp: VerifyRecord_def calculate_text split: if_splits)
qed

text \<open>
  Reading the log file back breaks the chain.  Decoding a record drops the hash it names, so a log opened on
  an existing file remembers no last hash, its next record names none, and a stored record that was
  valid and named a previous hash is rejected by \<^verbatim>\<open>VerifyRecord\<close> unless SHA-256 collides on its two texts.
\<close>

theorem reload_breaks_chain:
  assumes "path \<noteq> []" and "NewAuditLog members True path (Some data) = Inr al"
  shows "alLastRecordHash al = [] \<and> (\<forall>r \<in> set (GetAllRecords al). evPrevHash r = []) \<and>
    evPrevHash (begin_record sha sign eid now sb al) = [] \<and>
    (\<forall>line m. members line = Some (m, []) \<longrightarrow> VerifyRecord sha m = None \<longrightarrow> evPrevHash m \<noteq> [] \<longrightarrow>
       sha (record_text (m\<lparr>evPrevHash := []\<rparr>)) \<noteq> sha (record_text m) \<longrightarrow>
       (\<exists>r. UnmarshalJSON members line = Some r \<and> VerifyRecord sha r = Some HashMismatch))"
proof -
  let ?rs = "List.map_filter (UnmarshalJSON members) (file_lines [] data)"
  have "\<exists>al0. alRecords al0 = Some [] \<and> alLastRecordHash al0 = [] \<and> al = fold load_record ?rs al0"
    using assms by (force simp: NewAuditLog_def NewAuditLogWithConfig_def loadFromFile_def Let_def split: if_splits)
  then obtain al0 where al0: "alRecords al0 = Some []" "alLastRecordHash al0 = []" "al = fold load_record ?rs al0"
    by blast
  have prev: "\<forall>r \<in> set ?rs. evPrevHash r = []" using decoded_prev by blast
  then have last: "alLastRecordHash al = []" and recs: "GetAllRecords al = ?rs"
    using load_records [OF prev al0(1)] al0(2,3) by (simp_all add: GetAllRecords_def)
  have "\<exists>r. UnmarshalJSON members line = Some r \<and> VerifyRecord sha r = Some HashMismatch"
    if "members line = Some (m, [])" "VerifyRecord sha m = None" "evPrevHash m \<noteq> []"
      "sha (record_text (m\<lparr>evPrevHash := []\<rparr>)) \<noteq> sha (record_text m)" for line m
    using prev_dropped_rejected [OF that(2-4)] that(1) by (simp add: UnmarshalJSON_def Let_def)
  then show ?thesis using last recs prev by (simp add: begin_record_prev)
qed

definition demo_members :: "string \<Rightarrow> (EvidenceRecord \<times> string) option" where
  "demo_members line = Some (build_record (clSha256 demo_lib) line 0 demo_submission [] ''p'', [])"

theorem reload_breaks_chain_witness:
  "\<exists>al :: unit AuditLog. NewAuditLog demo_members True ''log'' (Some [CHR ''e'', CHR 0x0A]) = Inr al \<and> alLastRecordHash al = []
     \<and> (\<exists>r. UnmarshalJSON demo_members ''e'' = Some r \<and> VerifyRecord (clSha256 demo_lib) r = Some HashMismatch)"
proof -
  obtain al :: "unit AuditLog" where al: "NewAuditLog demo_members True ''log'' (Some [CHR ''e'', CHR 0x0A]) = Inr al"
    by (simp add: NewAuditLog_def NewAuditLogWithConfig_def loadFromFile_def Let_def)
  let ?m = "build_record (clSha256 demo_lib) ''e'' 0 demo_submission [] ''p''"
  have "clSha256 demo_lib (record_text (?m\<lparr>evPrevHash := []\<rparr>)) \<noteq> clSha256 demo_lib (record_text ?m)"
    by (simp add: demo_lib_def record_text_def record_fields_def build_record_def demo_submission_def Let_def)
  then show ?thesis
    using al reload_breaks_chain [OF _ al, of "clSha256 demo_lib"] build_record_verified [of "clSha256 demo_lib"]
    by (auto simp: demo_members_def)
qed

text \<open>The submissions the kernel calls.\<close>

inductive used_step ::
    "('k, 'p) crypto_lib \<Rightarrow> ('k, 'p) key_files \<Rightarrow> 's EvidenceStore \<Rightarrow> 's AuditLog \<Rightarrow> 's AuditLog \<Rightarrow> bool"
  for lib files ops where
  used_submit: "used_step lib files ops al
     (snd (SubmitBasicEvidenceWithMetadata (clSha256 lib) sign ops eid now sb al))"
| used_sign_flow: "used_step lib files ops al (snd (SignFlow lib files ops now flow al))"

definition unfilled :: "'s AuditLog \<Rightarrow> bool" where
  "unfilled al \<longleftrightarrow> alIndexByTarget al = [] \<and> alIndexByEventType al = []"

lemma unfilled_step: "used_step lib files ops al al' \<Longrightarrow> unfilled al \<Longrightarrow> unfilled al'"
  by (auto simp: unfilled_def SubmitBasicEvidenceWithMetadata_def cache_record_def SignFlow_def sign_cached_def Let_def
      elim!: used_step.cases split: option.splits sum.splits list.splits)

interpretation unf: invariant_system log_init "used_step lib files ops" unfilled for lib files ops
  by unfold_locales (auto simp: log_init_def NewAuditLogWithConfig_def loadFromFile_def unfilled_def Let_def map_filter_def
      split: if_splits dest: unfilled_step [unfolded unfilled_def])

text \<open>
  The operations the kernel uses leave three queries without answers: no submission except the variant with
  retries, which nothing calls, fills the indexes by target and by event type, so in a log without
  database the queries by target, by event type and by direction find nothing.
\<close>

theorem target_queries_empty:
  assumes "reach log_init (used_step lib files ops) al" and "alStore al = None"
  shows "QueryByTarget ops' t from until limit al = [] \<and> QueryByEventType ops' ty from until limit al = []
    \<and> QueryByDirection ops' d from until limit al = []"
  using unf.reach_inv [OF assms(1)] assms(2)
  by (simp add: unfilled_def QueryByTarget_def QueryByEventType_def QueryByDirection_def query_by_def)

theorem target_queries_empty_witness:
  "QueryByTarget demo_store_ops ''b'' None None 0 (demo_submit ''e1'' 1 demo_log) = []
   \<and> (\<exists>r. GetAllRecords (demo_submit ''e1'' 1 demo_log) = [r] \<and> evTargetID r = ''b'')"
proof -
  have r: "reach log_init (used_step demo_lib demo_files demo_store_ops) (demo_submit ''e1'' 1 demo_log)"
    using demo_log_init by (auto simp: demo_submit_def intro: reach_init reach_step used_submit)
  have st: "alStore (demo_submit ''e1'' 1 demo_log) = None"
    by (simp add: demo_submit_def SubmitBasicEvidenceWithMetadata_def cache_record_def store_record_def demo_log_def Let_def)
  have "\<exists>r. GetAllRecords (demo_submit ''e1'' 1 demo_log) = [r] \<and> evTargetID r = ''b''"
    by (simp add: demo_submit_def SubmitBasicEvidenceWithMetadata_def cache_record_def begin_record_def sign_record_def
        demo_log_def Let_def GetAllRecords_def) (simp add: demo_submission_def)
  then show ?thesis using target_queries_empty [OF r st] by blast
qed

end
