(* ===== verification/Business_Chain.thy ===== *)
theory Business_Chain
  imports Hash_Chain
begin

text \<open>
  The business data chain: per channel a table of data hashes and signatures, kept by every connector
  (\<^verbatim>\<open>connector/database/store.go\<close>, \<^verbatim>\<open>connector/database/hash_chain.go\<close>) and every kernel
  (\<^verbatim>\<open>kernel/database/business_chain_store.go\<close>, \<^verbatim>\<open>kernel/server/business_chain_manager.go\<close>).

  A MySQL table is the list of its rows in the order of their identifiers, which the insertions number
  from one; the \<^verbatim>\<open>SELECT\<close> statements are filters of that list.  Each statement can fail: its argument
  \<open>ok\<close> says whether it succeeds, \<open>None\<close> is the error.  SHA-256 is the parameter \<open>sha\<close>.
\<close>

section \<open>The tables\<close>

record BusinessChainRecord =
  brID :: int
  brChannelID :: string
  brDataHash :: string
  brPrevHash :: string
  brPrevSignature :: string
  brSignature :: string
  brTimestamp :: time

text \<open>The kernel's rows carry the connector as well.\<close>

record KernelChainRecord = BusinessChainRecord +
  brConnectorID :: string

type_synonym 'a rows = "'a BusinessChainRecord_scheme list"

definition is_data :: "'a BusinessChainRecord_scheme \<Rightarrow> bool" where
  "is_data r \<longleftrightarrow> brDataHash r \<noteq> []"

definition channel_rows :: "string \<Rightarrow> 'a rows \<Rightarrow> 'a rows" where
  "channel_rows ch t = filter (\<lambda>r. brChannelID r = ch) t"

definition last_row :: "'a rows \<Rightarrow> 'a BusinessChainRecord_scheme option" where
  "last_row rs = (if rs = [] then None else Some (last rs))"

text \<open>\<^verbatim>\<open>AppendChainRecord\<close> of the connector and \<^verbatim>\<open>InsertRecord\<close> of the kernel are the same statement.\<close>

definition AppendChainRecord ::
    "bool \<Rightarrow> 'a BusinessChainRecord_scheme \<Rightarrow> 'a rows \<Rightarrow> int option \<times> 'a rows" where
  "AppendChainRecord ok r t =
     (if ok then (Some (int (length t) + 1), t @ [r\<lparr>brID := int (length t) + 1\<rparr>]) else (None, t))"

definition InsertRecord :: "bool \<Rightarrow> KernelChainRecord \<Rightarrow> KernelChainRecord list \<Rightarrow> int option \<times> KernelChainRecord list" where
  "InsertRecord ok r t = AppendChainRecord ok r t"

definition GetLastRecordByChannel :: "bool \<Rightarrow> string \<Rightarrow> 'a rows \<Rightarrow> 'a BusinessChainRecord_scheme option option" where
  "GetLastRecordByChannel ok ch t = (if ok then Some (last_row (filter is_data (channel_rows ch t))) else None)"

definition GetLastRecordWithAck :: "bool \<Rightarrow> string \<Rightarrow> 'a rows \<Rightarrow> 'a BusinessChainRecord_scheme option option" where
  "GetLastRecordWithAck ok ch t = (if ok then Some (last_row (channel_rows ch t)) else None)"

definition GetRecordsByChannel :: "bool \<Rightarrow> string \<Rightarrow> 'a rows \<Rightarrow> 'a rows option" where
  "GetRecordsByChannel ok ch t = (if ok then Some (channel_rows ch t) else None)"

definition GetRecordByID :: "bool \<Rightarrow> int \<Rightarrow> 'a rows \<Rightarrow> 'a BusinessChainRecord_scheme option option" where
  "GetRecordByID ok i t = (if ok then Some (find (\<lambda>r. brID r = i) t) else None)"

definition GetLastRecord :: "bool \<Rightarrow> string \<Rightarrow> KernelChainRecord list \<Rightarrow> KernelChainRecord option option" where
  "GetLastRecord ok ch t = (if ok then Some (last_row (filter is_data (channel_rows ch t))) else None)"

definition GetLastRecordByConnector ::
    "bool \<Rightarrow> string \<Rightarrow> string \<Rightarrow> KernelChainRecord list \<Rightarrow> KernelChainRecord option option" where
  "GetLastRecordByConnector ok c ch t =
     (if ok then Some (last_row (filter (\<lambda>r. brConnectorID r = c \<and> is_data r) (channel_rows ch t))) else None)"

text \<open>A negative \<^verbatim>\<open>LIMIT\<close> is an error of the statement.\<close>

definition GetRecords :: "bool \<Rightarrow> string \<Rightarrow> int \<Rightarrow> KernelChainRecord list \<Rightarrow> KernelChainRecord list option" where
  "GetRecords ok ch limit t = (if ok \<and> limit \<ge> 0 then Some (take (nat limit) (channel_rows ch t)) else None)"

definition GetAckRecords :: "bool \<Rightarrow> string \<Rightarrow> KernelChainRecord list \<Rightarrow> KernelChainRecord list option" where
  "GetAckRecords ok ch t = (if ok then Some (filter (\<lambda>r. \<not> is_data r) (channel_rows ch t)) else None)"

definition ChainRecordCount :: "bool \<Rightarrow> string \<Rightarrow> KernelChainRecord list \<Rightarrow> nat option" where
  "ChainRecordCount ok ch t = (if ok then Some (length (channel_rows ch t)) else None)"

section \<open>The connector's chain\<close>

datatype chain_error = ReadChainFailed | SaveChainFailed | ChainStoreMissing | HashChainBroken int

definition chain_row :: "string \<Rightarrow> string \<Rightarrow> string \<Rightarrow> string \<Rightarrow> string \<Rightarrow> time \<Rightarrow> BusinessChainRecord" where
  "chain_row ch dh ph ps sig now =
     \<lparr> brID = 0, brChannelID = ch, brDataHash = dh, brPrevHash = ph, brPrevSignature = ps, brSignature = sig,
       brTimestamp = now \<rparr>"

text \<open>\<open>dataHash\<close> covers the data followed by the previous hash; the \<open>signature\<close> is an encoding of its input.\<close>

definition data_hash :: "(string \<Rightarrow> digest) \<Rightarrow> string \<Rightarrow> string \<Rightarrow> string" where
  "data_hash sha data prev = hash_text sha (data @ prev)"

definition BuildAndSignDataHash ::
    "(string \<Rightarrow> digest) \<Rightarrow> bool \<Rightarrow> bool \<Rightarrow> time \<Rightarrow> string \<Rightarrow> string \<Rightarrow> string \<Rightarrow> BusinessChainRecord list \<Rightarrow>
     (chain_error + string \<times> string) \<times> BusinessChainRecord list" where
  "BuildAndSignDataHash sha read_ok write_ok now data ch prev_signature t =
     (case GetLastRecordByChannel read_ok ch t of
        None \<Rightarrow> (Inl ReadChainFailed, t)
      | Some rec \<Rightarrow>
          let prev = (case rec of None \<Rightarrow> [] | Some r \<Rightarrow> brDataHash r);
              dh = data_hash sha data prev;
              sig = hex_encode (dh @ prev_signature)
          in case AppendChainRecord write_ok (chain_row ch dh prev prev_signature sig now) t of
               (None, t') \<Rightarrow> (Inl SaveChainFailed, t')
             | (Some i, t') \<Rightarrow> (Inr (dh, sig), t'))"

definition ReceiveAndSign ::
    "(string \<Rightarrow> digest) \<Rightarrow> bool \<Rightarrow> bool \<Rightarrow> time \<Rightarrow> string \<Rightarrow> string \<Rightarrow> string \<Rightarrow> BusinessChainRecord list \<Rightarrow>
     (chain_error + string) \<times> BusinessChainRecord list" where
  "ReceiveAndSign sha read_ok write_ok now data ch source_signature t =
     (case GetLastRecordByChannel read_ok ch t of
        None \<Rightarrow> (Inl ReadChainFailed, t)
      | Some rec \<Rightarrow>
          let prev = (case rec of None \<Rightarrow> [] | Some r \<Rightarrow> brDataHash r);
              dh = data_hash sha data prev;
              sig = hex_encode (dh @ source_signature)
          in case AppendChainRecord write_ok (chain_row ch dh prev source_signature sig now) t of
               (None, t') \<Rightarrow> (Inl SaveChainFailed, t')
             | (Some i, t') \<Rightarrow> (Inr sig, t'))"

definition is_ack_of :: "string \<Rightarrow> 'a BusinessChainRecord_scheme \<Rightarrow> bool" where
  "is_ack_of ps r \<longleftrightarrow> brDataHash r = [] \<and> brPrevSignature r = ps"

definition HandleAck ::
    "bool \<Rightarrow> bool \<Rightarrow> time \<Rightarrow> string \<Rightarrow> string \<Rightarrow> string \<Rightarrow> BusinessChainRecord list \<Rightarrow>
     (chain_error + unit) \<times> BusinessChainRecord list" where
  "HandleAck read_ok write_ok now ch prev_signature sig t =
     (if (case GetRecordsByChannel read_ok ch t of None \<Rightarrow> False | Some rs \<Rightarrow> list_ex (is_ack_of prev_signature) rs)
      then (Inr (), t)
      else case AppendChainRecord write_ok (chain_row ch [] [] prev_signature sig now) t of
             (None, t') \<Rightarrow> (Inl SaveChainFailed, t')
           | (Some i, t') \<Rightarrow> (Inr (), t'))"

definition RecordChainData ::
    "bool \<Rightarrow> time \<Rightarrow> string \<Rightarrow> string \<Rightarrow> string \<Rightarrow> string \<Rightarrow> string \<Rightarrow> BusinessChainRecord list \<Rightarrow>
     (chain_error + unit) \<times> BusinessChainRecord list" where
  "RecordChainData write_ok now ch dh ph ps sig t =
     (case AppendChainRecord write_ok (chain_row ch dh ph ps sig now) t of
        (None, t') \<Rightarrow> (Inl SaveChainFailed, t')
      | (Some i, t') \<Rightarrow> (Inr (), t'))"

definition ConnectorLastDataHash :: "bool \<Rightarrow> string \<Rightarrow> 'a rows \<Rightarrow> chain_error + string" where
  "ConnectorLastDataHash ok ch t =
     (case GetLastRecordByChannel ok ch t of
        None \<Rightarrow> Inl ReadChainFailed
      | Some None \<Rightarrow> Inr []
      | Some (Some r) \<Rightarrow> Inr (brDataHash r))"

text \<open>The data row before position \<open>n\<close>, searched downwards.\<close>

fun data_row_before :: "'a rows \<Rightarrow> nat \<Rightarrow> 'a BusinessChainRecord_scheme option" where
  "data_row_before rs 0 = None"
| "data_row_before rs (Suc j) = (if brDataHash (rs ! j) \<noteq> [] then Some (rs ! j) else data_row_before rs j)"

definition chain_predecessor :: "'a rows \<Rightarrow> nat \<Rightarrow> 'a BusinessChainRecord_scheme" where
  "chain_predecessor rs i =
     (let p = rs ! (i - 1)
      in if brDataHash p = [] then (case data_row_before rs (i - 1) of None \<Rightarrow> p | Some r \<Rightarrow> r) else p)"

fun verify_rows :: "'a rows \<Rightarrow> nat list \<Rightarrow> chain_error option" where
  "verify_rows rs [] = None"
| "verify_rows rs (i # is) =
     (if brDataHash (rs ! i) = [] then verify_rows rs is
      else if i = 0 then verify_rows rs is
      else if brPrevHash (rs ! i) \<noteq> brDataHash (chain_predecessor rs i) then Some (HashChainBroken (brID (rs ! i)))
      else verify_rows rs is)"

definition VerifyChain :: "bool \<Rightarrow> string \<Rightarrow> 'a rows \<Rightarrow> chain_error + bool" where
  "VerifyChain ok ch t =
     (case GetRecordsByChannel ok ch t of
        None \<Rightarrow> Inl ReadChainFailed
      | Some rs \<Rightarrow>
          if rs = [] then Inr True
          else case verify_rows rs [0..<length rs] of Some e \<Rightarrow> Inl e | None \<Rightarrow> Inr True)"

section \<open>The kernel's chain\<close>

definition kernel_row :: "string \<Rightarrow> string \<Rightarrow> string \<Rightarrow> string \<Rightarrow> string \<Rightarrow> string \<Rightarrow> time \<Rightarrow> KernelChainRecord" where
  "kernel_row c ch dh ph ps sig now =
     \<lparr> brID = 0, brChannelID = ch, brDataHash = dh, brPrevHash = ph, brPrevSignature = ps, brSignature = sig,
       brTimestamp = now, brConnectorID = c \<rparr>"

text \<open>The manager's store is \<open>None\<close> when the kernel runs without database.\<close>

definition RecordDataHash ::
    "bool \<Rightarrow> time \<Rightarrow> string \<Rightarrow> string \<Rightarrow> string \<Rightarrow> string \<Rightarrow> string \<Rightarrow> string \<Rightarrow> KernelChainRecord list option \<Rightarrow>
     (chain_error + unit) \<times> KernelChainRecord list option" where
  "RecordDataHash ok now c ch dh ph ps sig store =
     (case store of
        None \<Rightarrow> (Inl ChainStoreMissing, None)
      | Some t \<Rightarrow> (case InsertRecord ok (kernel_row c ch dh ph ps sig now) t of
                     (None, t') \<Rightarrow> (Inl SaveChainFailed, Some t')
                   | (Some i, t') \<Rightarrow> (Inr (), Some t')))"

definition RecordAck ::
    "bool \<Rightarrow> bool \<Rightarrow> time \<Rightarrow> string \<Rightarrow> string \<Rightarrow> string \<Rightarrow> string \<Rightarrow> KernelChainRecord list option \<Rightarrow>
     (chain_error + unit) \<times> KernelChainRecord list option" where
  "RecordAck read_ok write_ok now c ch ps sig store =
     (case store of
        None \<Rightarrow> (Inl ChainStoreMissing, None)
      | Some t \<Rightarrow>
          if (case GetRecords read_ok ch 100 t of None \<Rightarrow> False | Some rs \<Rightarrow> list_ex (is_ack_of ps) rs) then (Inr (), Some t)
          else case InsertRecord write_ok (kernel_row c ch [] [] ps sig now) t of
                 (None, t') \<Rightarrow> (Inl SaveChainFailed, Some t')
               | (Some i, t') \<Rightarrow> (Inr (), Some t'))"

definition GetLastDataHash :: "bool \<Rightarrow> string \<Rightarrow> KernelChainRecord list option \<Rightarrow> chain_error + string \<times> string" where
  "GetLastDataHash ok ch store =
     (case store of
        None \<Rightarrow> Inl ChainStoreMissing
      | Some t \<Rightarrow> (case GetLastRecord ok ch t of
                     None \<Rightarrow> Inl ReadChainFailed
                   | Some None \<Rightarrow> Inr ([], [])
                   | Some (Some r) \<Rightarrow> Inr (brDataHash r, brPrevHash r)))"

text \<open>The query service: success flag, rows and total count (zero when counting fails).\<close>

definition QueryChain ::
    "bool \<Rightarrow> bool \<Rightarrow> string \<Rightarrow> int \<Rightarrow> KernelChainRecord list option \<Rightarrow> bool \<times> KernelChainRecord list \<times> nat" where
  "QueryChain read_ok count_ok ch limit store =
     (case store of
        None \<Rightarrow> (False, [], 0)
      | Some t \<Rightarrow> (case GetRecords read_ok ch (if limit \<le> 0 then 100 else limit) t of
                     None \<Rightarrow> (False, [], 0)
                   | Some rs \<Rightarrow> (True, rs, case ChainRecordCount count_ok ch t of None \<Rightarrow> 0 | Some n \<Rightarrow> n)))"

section \<open>Lemmas\<close>

lemma data_row_before_tip:
  "n \<le> length rs \<Longrightarrow> (case data_row_before rs n of None \<Rightarrow> [] | Some r \<Rightarrow> brDataHash r) =
     chain_tip brDataHash [] (filter is_data (take n rs))"
  by (induction n) (auto simp: take_Suc_conv_app_nth is_data_def chain_tip_def)

lemma chain_predecessor_tip:
  assumes "0 < i" and "i \<le> length rs"
  shows "brDataHash (chain_predecessor rs i) = chain_tip brDataHash [] (filter is_data (take i rs))"
proof -
  obtain j where i: "i = Suc j" "j < length rs" using assms by (cases i) auto
  show ?thesis
    using data_row_before_tip [of j rs] i
    by (auto simp: chain_predecessor_def take_Suc_conv_app_nth is_data_def Let_def chain_tip_def split: option.splits)
qed

lemma verify_rows_None:
  "verify_rows rs is = None \<longleftrightarrow>
     (\<forall>i \<in> set is. is_data (rs ! i) \<longrightarrow> i \<noteq> 0 \<longrightarrow> brPrevHash (rs ! i) = brDataHash (chain_predecessor rs i))"
  by (induction rs "is" rule: verify_rows.induct) (auto simp: is_data_def)

text \<open>The links the verification looks at, row by row.\<close>

definition rows_linked :: "'a rows \<Rightarrow> bool" where
  "rows_linked rs \<longleftrightarrow> (\<forall>i < length rs. is_data (rs ! i) \<longrightarrow> i \<noteq> 0 \<longrightarrow>
     brPrevHash (rs ! i) = chain_tip brDataHash [] (filter is_data (take i rs)))"

lemma verify_rows_linked: "verify_rows rs [0..<length rs] = None \<longleftrightarrow> rows_linked rs"
  by (auto simp: verify_rows_None rows_linked_def chain_predecessor_tip)

lemma rows_linked_snoc:
  "rows_linked (rs @ [r]) \<longleftrightarrow> rows_linked rs \<and>
     (is_data r \<longrightarrow> rs \<noteq> [] \<longrightarrow> brPrevHash r = chain_tip brDataHash [] (filter is_data rs))"
  unfolding rows_linked_def by (auto simp: nth_append less_Suc_eq)

text \<open>The first hash the chain starts from: the first row's own if that is a data row, otherwise none.\<close>

definition chain_start :: "'a rows \<Rightarrow> string" where
  "chain_start rs = (if rs \<noteq> [] \<and> is_data (hd rs) then brPrevHash (hd rs) else [])"

lemma chain_start_snoc: "rs \<noteq> [] \<Longrightarrow> chain_start (rs @ [r]) = chain_start rs"
  by (simp add: chain_start_def)

lemma rows_linked_iff: "rows_linked rs \<longleftrightarrow> linked brPrevHash brDataHash (chain_start rs) (filter is_data rs)"
proof (induction rs rule: rev_induct)
  case (snoc r rs)
  show ?case
  proof (cases "rs = []")
    case False
    have tip: "chain_tip brDataHash (chain_start rs) (filter is_data rs) = chain_tip brDataHash [] (filter is_data rs)"
      using False by (cases rs) (auto simp: chain_tip_def chain_start_def filter_empty_conv)
    show ?thesis
      using snoc False by (auto simp: rows_linked_snoc chain_start_snoc linked_append_one tip)
  qed (auto simp: rows_linked_def chain_start_def)
qed (simp add: rows_linked_def)

lemma channel_rows_append:
  "channel_rows ch (t @ [r]) = channel_rows ch t @ (if brChannelID r = ch then [r] else [])"
  by (simp add: channel_rows_def)

lemma last_data_tip:
  "(case last_row rs of None \<Rightarrow> [] | Some r \<Rightarrow> brDataHash r) = chain_tip brDataHash [] rs"
  by (simp add: last_row_def chain_tip_def)

lemma AppendChainRecord_rows: "AppendChainRecord ok r t = (i, t') \<Longrightarrow> t' = t \<or> t' = t @ [r\<lparr>brID := int (length t) + 1\<rparr>]"
  by (auto simp: AppendChainRecord_def split: if_splits)

lemma row_frame [simp]:
  "brChannelID (r\<lparr>brID := i\<rparr>) = brChannelID r" "brDataHash (r\<lparr>brID := i\<rparr>) = brDataHash r"
  "brPrevHash (r\<lparr>brID := i\<rparr>) = brPrevHash r" "is_data (r\<lparr>brID := i\<rparr>) = is_data r"
  "is_ack_of ps (r\<lparr>brID := i\<rparr>) = is_ack_of ps r"
  by (simp_all add: is_data_def is_ack_of_def)

lemma chain_row_simps [simp]:
  "brChannelID (chain_row ch dh ph ps sig now) = ch" "brDataHash (chain_row ch dh ph ps sig now) = dh"
  "brPrevHash (chain_row ch dh ph ps sig now) = ph" "brPrevSignature (chain_row ch dh ph ps sig now) = ps"
  by (simp_all add: chain_row_def)

lemma kernel_row_simps [simp]:
  "brChannelID (kernel_row c ch dh ph ps sig now) = ch" "brDataHash (kernel_row c ch dh ph ps sig now) = dh"
  "brPrevSignature (kernel_row c ch dh ph ps sig now) = ps"
  by (simp_all add: kernel_row_def)

text \<open>Every channel's rows start from nothing and are linked.\<close>

definition chain_table_ok :: "'a rows \<Rightarrow> bool" where
  "chain_table_ok t \<longleftrightarrow> (\<forall>ch. linked brPrevHash brDataHash [] (filter is_data (channel_rows ch t)))"

lemma chain_table_ok_append:
  assumes "chain_table_ok t"
    and "is_data r \<longrightarrow> brPrevHash r = chain_tip brDataHash [] (filter is_data (channel_rows (brChannelID r) t))"
  shows "chain_table_ok (t @ [r\<lparr>brID := i\<rparr>])"
  using assms by (auto simp: chain_table_ok_def channel_rows_append linked_append_one)

lemma chain_start_ok: "linked brPrevHash brDataHash [] (filter is_data rs) \<Longrightarrow> chain_start rs = []"
  by (cases rs) (auto simp: chain_start_def)

section \<open>The connector's operations\<close>

inductive chain_step :: "(string \<Rightarrow> digest) \<Rightarrow> BusinessChainRecord list \<Rightarrow> BusinessChainRecord list \<Rightarrow> bool" for sha where
  chain_build: "chain_step sha t (snd (BuildAndSignDataHash sha read_ok write_ok now data ch ps t))"
| chain_receive: "chain_step sha t (snd (ReceiveAndSign sha read_ok write_ok now data ch ps t))"
| chain_ack: "chain_step sha t (snd (HandleAck read_ok write_ok now ch ps sig t))"

lemma append_snd: "snd (case AppendChainRecord ok r t of (None, t') \<Rightarrow> (Inl e, t') | (Some i, t') \<Rightarrow> (v, t')) =
    (if ok then t @ [r\<lparr>brID := int (length t) + 1\<rparr>] else t)"
  by (simp add: AppendChainRecord_def)

lemma signed_row_rows:
  "t' = snd (BuildAndSignDataHash sha read_ok write_ok now data ch ps t) \<or>
   t' = snd (ReceiveAndSign sha read_ok write_ok now data ch ps t) \<Longrightarrow>
     t' = t \<or> (\<exists>dh sig i. t' = t @ [(chain_row ch dh (chain_tip brDataHash [] (filter is_data (channel_rows ch t))) ps sig now)\<lparr>brID := i\<rparr>])"
  by (cases read_ok)
    (auto simp: BuildAndSignDataHash_def ReceiveAndSign_def GetLastRecordByChannel_def last_data_tip append_snd Let_def
      split: if_splits)

lemma HandleAck_rows:
  "snd (HandleAck read_ok write_ok now ch ps sig t) = t \<or>
     (\<exists>i. snd (HandleAck read_ok write_ok now ch ps sig t) = t @ [(chain_row ch [] [] ps sig now)\<lparr>brID := i\<rparr>])"
  by (auto simp: HandleAck_def split: option.splits prod.splits dest!: AppendChainRecord_rows)

lemma chain_step_ok: "chain_step sha t t' \<Longrightarrow> chain_table_ok t \<Longrightarrow> chain_table_ok t'"
proof (induction rule: chain_step.induct)
  case (chain_build t read_ok write_ok now data ch ps)
  then show ?case
    using signed_row_rows [OF disjI1 [OF refl], of sha read_ok write_ok now data ch ps t]
    by (auto intro!: chain_table_ok_append)
next
  case (chain_receive t read_ok write_ok now data ch ps)
  then show ?case
    using signed_row_rows [OF disjI2 [OF refl], of sha read_ok write_ok now data ch ps t]
    by (auto intro!: chain_table_ok_append)
next
  case (chain_ack t read_ok write_ok now ch ps sig)
  then show ?case
    using HandleAck_rows [of read_ok write_ok now ch ps sig t]
    by (auto simp: is_data_def intro!: chain_table_ok_append)
qed

interpretation bch: invariant_system "\<lambda>t. t = []" "chain_step sha" chain_table_ok for sha
  by unfold_locales (simp add: chain_table_ok_def channel_rows_def, rule chain_step_ok)

lemma VerifyChain_iff:
  "VerifyChain True ch t = Inr True \<longleftrightarrow>
     linked brPrevHash brDataHash (chain_start (channel_rows ch t)) (filter is_data (channel_rows ch t))"
  using verify_rows_linked [of "channel_rows ch t"] rows_linked_iff [of "channel_rows ch t"]
  by (cases "verify_rows (channel_rows ch t) [0..<length (channel_rows ch t)]")
    (auto simp: VerifyChain_def GetRecordsByChannel_def)

section \<open>Properties\<close>

definition demo_table :: "BusinessChainRecord list" where
  "demo_table = snd (BuildAndSignDataHash (clSha256 demo_lib) True True 0 ''x'' ''ch'' []
     (snd (HandleAck True True 0 ''ch'' ''s'' ''t'' [])))"

lemma demo_table_reach: "reach (\<lambda>t. t = []) (chain_step (clSha256 demo_lib)) demo_table"
  unfolding demo_table_def
  by (rule reach_step, rule reach_step, rule reach_init, rule refl, rule chain_ack, rule chain_build)

text \<open>
  The scan of \<^verbatim>\<open>VerifyChain\<close> is the linkage of the data rows: it accepts a channel's rows exactly when every
  data row after the first row names the hash of the data row before it, acknowledgements skipped, and
  none if there is no data row before it; the hash named by a leading data row is not checked.
\<close>

theorem verify_chain_exact:
  "VerifyChain True ch t = Inr True \<longleftrightarrow>
     linked brPrevHash brDataHash
       (if channel_rows ch t \<noteq> [] \<and> is_data (hd (channel_rows ch t)) then brPrevHash (hd (channel_rows ch t)) else [])
       (filter is_data (channel_rows ch t))"
  by (simp add: VerifyChain_iff chain_start_def)

text \<open>
  Whatever a connector sends, receives and acknowledges, in any order and with any failing statement of
  its database, the chain of every channel verifies.
\<close>

theorem connector_chain_verifies:
  assumes "reach (\<lambda>t. t = []) (chain_step sha) t"
  shows "VerifyChain True ch t = Inr True"
proof -
  have "linked brPrevHash brDataHash [] (filter is_data (channel_rows ch t))"
    using bch.reach_inv [OF assms] by (simp add: chain_table_ok_def)
  then show ?thesis by (simp add: VerifyChain_iff chain_start_ok)
qed

theorem connector_chain_verifies_witness: "VerifyChain True ''ch'' demo_table = Inr True \<and> length demo_table = 2"
proof -
  have "length demo_table = 2"
    by (simp add: demo_table_def BuildAndSignDataHash_def HandleAck_def GetLastRecordByChannel_def GetRecordsByChannel_def
        AppendChainRecord_def Let_def channel_rows_def)
  then show ?thesis using connector_chain_verifies [OF demo_table_reach] by simp
qed

text \<open>
  A connector records an acknowledgement once: when its reads succeed, an accepted acknowledgement is in the
  table exactly once, and handling it again, with whatever signature, changes nothing.
\<close>

theorem ack_recorded_once:
  assumes "length (filter (is_ack_of ps) (channel_rows ch t)) \<le> 1" and "HandleAck True w now ch ps sig t = (Inr (), t')"
  shows "length (filter (is_ack_of ps) (channel_rows ch t')) = 1 \<and> HandleAck True w' now' ch ps sig' t' = (Inr (), t')"
proof (cases "list_ex (is_ack_of ps) (channel_rows ch t)")
  case True
  then have t': "t' = t" using assms(2) by (simp add: HandleAck_def GetRecordsByChannel_def)
  have "filter (is_ack_of ps) (channel_rows ch t) \<noteq> []" using True by (simp add: filter_empty_conv list_ex_iff)
  then show ?thesis
    using True assms(1) t' by (cases "filter (is_ack_of ps) (channel_rows ch t)") (auto simp: HandleAck_def GetRecordsByChannel_def)
next
  case False
  then have t': "t' = t @ [(chain_row ch [] [] ps sig now)\<lparr>brID := int (length t) + 1\<rparr>]"
    using assms(2) by (auto simp: HandleAck_def GetRecordsByChannel_def AppendChainRecord_def split: if_splits)
  have ack: "is_ack_of ps (chain_row ch [] [] ps sig now)" "brChannelID (chain_row ch [] [] ps sig now) = ch"
    by (simp_all add: is_ack_of_def chain_row_def)
  have "filter (is_ack_of ps) (channel_rows ch t) = []" using False by (simp add: filter_empty_conv list_ex_iff)
  then show ?thesis using ack by (simp add: t' channel_rows_append HandleAck_def GetRecordsByChannel_def)
qed

theorem ack_recorded_once_witness:
  "\<exists>t'. HandleAck True True 0 ''ch'' ''s'' ''t'' [] = (Inr (), t') \<and> HandleAck True True 1 ''ch'' ''s'' ''u'' t' = (Inr (), t')"
proof -
  obtain t' where t': "HandleAck True True 0 ''ch'' ''s'' ''t'' [] = (Inr (), t')"
    by (simp add: HandleAck_def GetRecordsByChannel_def AppendChainRecord_def channel_rows_def)
  then show ?thesis using ack_recorded_once [OF _ t', of True 1 "''u''"] by (simp add: channel_rows_def)
qed

text \<open>
  The kernel records acknowledgements several times once a channel has a hundred rows: it looks for an
  earlier copy among the first hundred rows only, so an acknowledgement that is not there is inserted
  every time it arrives.
\<close>

theorem kernel_ack_duplicated:
  assumes "100 \<le> length (channel_rows ch t)" and "\<not> list_ex (is_ack_of ps) (take 100 (channel_rows ch t))"
  shows "\<exists>t1 t2. RecordAck True True now c ch ps sig (Some t) = (Inr (), Some t1) \<and>
    RecordAck True True now' c' ch ps sig' (Some t1) = (Inr (), Some t2) \<and>
    length (filter (is_ack_of ps) (channel_rows ch t2)) = length (filter (is_ack_of ps) (channel_rows ch t)) + 2"
proof -
  have rec: "RecordAck True True n k ch ps s (Some t') = (Inr (), Some (t' @ [(kernel_row k ch [] [] ps s n)\<lparr>brID := int (length t') + 1\<rparr>]))"
    if "\<not> list_ex (is_ack_of ps) (take 100 (channel_rows ch t'))" for n k s t'
    using that by (simp add: RecordAck_def GetRecords_def InsertRecord_def AppendChainRecord_def)
  have row: "is_ack_of ps (kernel_row k ch [] [] ps s n)" "brChannelID (kernel_row k ch [] [] ps s n) = ch" for k s n
    by (simp_all add: is_ack_of_def kernel_row_def)
  let ?t1 = "t @ [(kernel_row c ch [] [] ps sig now)\<lparr>brID := int (length t) + 1\<rparr>]"
  have "\<not> list_ex (is_ack_of ps) (take 100 (channel_rows ch ?t1))"
    using assms by (simp add: channel_rows_append)
  from rec [OF assms(2), of now c sig] rec [OF this, of now' c' sig'] show ?thesis
    using row by (auto simp: channel_rows_def)
qed

definition demo_busy :: "KernelChainRecord list" where
  "demo_busy = replicate 100 (kernel_row [] ''ch'' ''d'' [] [] [] 0)"

theorem kernel_ack_duplicated_witness:
  "\<exists>t1 t2. RecordAck True True 0 [] ''ch'' ''s'' ''t'' (Some demo_busy) = (Inr (), Some t1) \<and>
     RecordAck True True 1 [] ''ch'' ''s'' ''t'' (Some t1) = (Inr (), Some t2) \<and>
     length (filter (is_ack_of ''s'') (channel_rows ''ch'' t2)) = length (filter (is_ack_of ''s'') (channel_rows ''ch'' demo_busy)) + 2"
proof -
  have rows: "channel_rows ''ch'' demo_busy = demo_busy" by (simp add: channel_rows_def demo_busy_def kernel_row_def)
  have "100 \<le> length (channel_rows ''ch'' demo_busy)" "\<not> list_ex (is_ack_of ''s'') (take 100 (channel_rows ''ch'' demo_busy))"
    unfolding rows by (auto simp: demo_busy_def list_ex_iff is_ack_of_def kernel_row_def)
  then show ?thesis by (rule kernel_ack_duplicated)
qed

end
