(* ===== verification/Notifications.thy ===== *)
theory Notifications
  imports Connector_Registry Channel_Negotiation
begin

text \<open>
  Channel notifications (\<^verbatim>\<open>kernel/server/channel_service.go\<close>, the part on \<^verbatim>\<open>NotificationManager\<close>,
  \<^verbatim>\<open>notifyParticipant\<close> and \<^verbatim>\<open>WaitForChannelNotification\<close>): a connector that listens has a Go channel of ten
  slots, and a notification goes to it or, for a connector of another kernel, to that kernel.

  Go channels are shared by the table and by the stream that reads them, so they live in a store
  (\<open>nmChans\<close>) and are named by their position; \<open>nmTable\<close> is the map from listeners.  Retries of
  \<^verbatim>\<open>Notify\<close> let other goroutines run: the argument \<open>others\<close> is what they do before each attempt.
  \<^verbatim>\<open>autoSubscribe\<close> calls \<^verbatim>\<open>AddParticipant\<close>, which does nothing.
\<close>

section \<open>The notification manager\<close>

record ChannelNotification =
  cnChannelId :: string
  cnCreatorId :: string
  cnSenderIds :: "string list"
  cnReceiverIds :: "string list"
  cnEncrypted :: bool
  cnDataTopic :: string
  cnCreatedAt :: int
  cnNegotiationStatus :: NegotiationStatus
  cnProposalId :: string
  cnEvidenceConfig :: "EvidenceConfig option"

record notify_chan =
  ncQueue :: "ChannelNotification list"
  ncOpen :: bool

record NotificationManager =
  nmTable :: "nat gomap"
  nmChans :: "notify_chan list"

definition NewNotificationManager :: NotificationManager where
  "NewNotificationManager = \<lparr> nmTable = [], nmChans = [] \<rparr>"

definition notify_capacity :: nat where
  "notify_capacity = 10"

definition close_chan :: "nat option \<Rightarrow> NotificationManager \<Rightarrow> NotificationManager" where
  "close_chan i nm =
     (case i of None \<Rightarrow> nm | Some j \<Rightarrow> nm\<lparr>nmChans := (nmChans nm)[j := (nmChans nm ! j)\<lparr>ncOpen := False\<rparr>]\<rparr>)"

definition nm_Register :: "string \<Rightarrow> NotificationManager \<Rightarrow> nat \<times> NotificationManager" where
  "nm_Register r nm =
     (let nm' = close_chan (go_get (nmTable nm) r) nm; i = length (nmChans nm')
      in (i, nm'\<lparr>nmChans := nmChans nm' @ [\<lparr> ncQueue = [], ncOpen = True \<rparr>], nmTable := go_put r i (nmTable nm')\<rparr>))"

definition nm_Unregister :: "string \<Rightarrow> NotificationManager \<Rightarrow> NotificationManager" where
  "nm_Unregister r nm =
     (case go_get (nmTable nm) r of
        None \<Rightarrow> nm
      | Some i \<Rightarrow> (close_chan (Some i) nm)\<lparr>nmTable := go_del r (nmTable nm)\<rparr>)"

datatype send_result = Sent | SendTimedOut | PanicSendOnClosed

definition chan_send :: "nat \<Rightarrow> ChannelNotification \<Rightarrow> NotificationManager \<Rightarrow> send_result \<times> NotificationManager" where
  "chan_send i n nm =
     (let c = nmChans nm ! i in
      if \<not> ncOpen c then (PanicSendOnClosed, nm)
      else if length (ncQueue c) \<ge> notify_capacity then (SendTimedOut, nm)
      else (Sent, nm\<lparr>nmChans := (nmChans nm)[i := c\<lparr>ncQueue := ncQueue c @ [n]\<rparr>]\<rparr>))"

text \<open>
  \<^verbatim>\<open>Notify\<close> tries four times and returns no error whatever happens; the result says whether the
  notification was put into a channel.
\<close>

definition max_retries :: nat where
  "max_retries = 3"

function notify_from ::
    "(nat \<Rightarrow> NotificationManager \<Rightarrow> NotificationManager) \<Rightarrow> nat \<Rightarrow> string \<Rightarrow> ChannelNotification \<Rightarrow>
     NotificationManager \<Rightarrow> bool \<times> NotificationManager" where
  "notify_from others a r n nm =
     (if a > max_retries then (False, nm)
      else let nm' = others a nm in
           case go_get (nmTable nm') r of
             None \<Rightarrow> notify_from others (Suc a) r n nm'
           | Some i \<Rightarrow>
               (case chan_send i n nm' of
                  (Sent, nm'') \<Rightarrow> (True, nm'')
                | (SendTimedOut, nm'') \<Rightarrow> notify_from others (Suc a) r n nm''
                | (PanicSendOnClosed, nm'') \<Rightarrow> (False, nm'')))"
  by pat_completeness auto
termination by (relation "measure (\<lambda>(others, a, r, n, nm). Suc max_retries - a)") auto

declare notify_from.simps [simp del]

definition Notify ::
    "(nat \<Rightarrow> NotificationManager \<Rightarrow> NotificationManager) \<Rightarrow> string \<Rightarrow> ChannelNotification \<Rightarrow>
     NotificationManager \<Rightarrow> bool \<times> NotificationManager" where
  "Notify others r n nm = notify_from others 0 r n nm"

text \<open>
  \<^verbatim>\<open>WaitForChannelNotification\<close>: a stream registers (\<open>nm_Register\<close>), forwards what it reads from its own
  channel (\<open>stream_read\<close>), and when it ends unregisters its receiver by name.
\<close>

definition stream_read :: "nat \<Rightarrow> NotificationManager \<Rightarrow> ChannelNotification option \<times> NotificationManager" where
  "stream_read i nm =
     (case ncQueue (nmChans nm ! i) of
        [] \<Rightarrow> (None, nm)
      | n # ns \<Rightarrow> (Some n, nm\<lparr>nmChans := (nmChans nm)[i := (nmChans nm ! i)\<lparr>ncQueue := ns\<rparr>]\<rparr>))"

definition stream_sees_close :: "nat \<Rightarrow> NotificationManager \<Rightarrow> bool" where
  "stream_sees_close i nm \<longleftrightarrow> \<not> ncOpen (nmChans nm ! i) \<and> ncQueue (nmChans nm ! i) = []"

definition stream_end :: "string \<Rightarrow> NotificationManager \<Rightarrow> NotificationManager" where
  "stream_end r nm = nm_Unregister r nm"

section \<open>Notifying participants\<close>

record NotifyChannelRequest =
  nrReceiverId :: string
  nrChannelId :: string
  nrSenderId :: string
  nrDataTopic :: string

datatype notify_error = KernelNotConnected string | IdentityUnreachable string | RemoteNotifyFailed string

datatype notice = RemoteNotify string NotifyChannelRequest

text \<open>The sender field carries the kernel, the proposal and the status, joined by bars.\<close>

definition sender_with_meta :: "string \<Rightarrow> ChannelNotification \<Rightarrow> string" where
  "sender_with_meta kid n =
     (let s = (if cnProposalId n \<noteq> [] then kid @ ''|'' @ cnProposalId n else kid)
      in case cnNegotiationStatus n of
           NegotiationStatusAccepted \<Rightarrow> s @ ''|'' @ ''ACCEPTED''
         | NegotiationStatusRejected \<Rightarrow> s @ ''|'' @ ''REJECTED''
         | NegotiationStatusProposed \<Rightarrow> s)"

text \<open>\<^verbatim>\<open>strings.SplitN(s, "|", 3)\<close> as \<^verbatim>\<open>NotifyChannelCreated\<close> uses it: kernel, proposal and status.\<close>

definition split_bar :: "string \<Rightarrow> string \<times> string option" where
  "split_bar s =
     (if CHR ''|'' \<in> set s then (takeWhile (\<lambda>c. c \<noteq> CHR ''|'') s, Some (tl (dropWhile (\<lambda>c. c \<noteq> CHR ''|'') s))) else (s, None))"

definition parse_sender :: "string \<Rightarrow> string \<times> string \<times> string" where
  "parse_sender s =
     (case split_bar s of
        (k, None) \<Rightarrow> (k, [], [])
      | (k, Some rest) \<Rightarrow>
          (case split_bar rest of
             (p, None) \<Rightarrow> (k, p, [])
           | (p, Some st) \<Rightarrow> (k, p, st)))"

text \<open>
  \<open>conn\<close> says whether a kernel is connected, \<open>reach_id\<close> whether its identity service can be reached and
  \<open>call\<close> whether the remote call succeeds.
\<close>

record remote_env =
  reConn :: "string \<Rightarrow> bool"
  reIdentity :: "string \<Rightarrow> bool"
  reCall :: "string \<Rightarrow> NotifyChannelRequest \<Rightarrow> bool"

definition notifyParticipant ::
    "remote_env \<Rightarrow> (nat \<Rightarrow> NotificationManager \<Rightarrow> NotificationManager) \<Rightarrow> string \<Rightarrow> ChannelManager \<Rightarrow> string \<Rightarrow>
     ChannelNotification \<Rightarrow> NotificationManager \<Rightarrow> notify_error option \<times> NotificationManager \<times> notice list" where
  "notifyParticipant env others kid cm pid n nm =
     (let remote = (case GetChannel (cnChannelId n) cm of
                      Inl e \<Rightarrow> []
                    | Inr c \<Rightarrow> (case GetRemoteKernelID pid c of None \<Rightarrow> [] | Some k \<Rightarrow> k));
          k = (if remote \<noteq> [] then remote else kernel_part pid);
          cid = (if remote \<noteq> [] then pid else connector_part pid);
          req = \<lparr> nrReceiverId = cid, nrChannelId = cnChannelId n, nrSenderId = sender_with_meta kid n,
                  nrDataTopic = cnDataTopic n \<rparr>
      in if remote = [] \<and> \<not> has_colon pid then (None, snd (Notify others pid n nm), [])
         else if k = kid then (None, snd (Notify others cid n nm), [])
         else if \<not> reConn env k then (Some (KernelNotConnected k), nm, [])
         else if \<not> reIdentity env k then (Some (IdentityUnreachable k), nm, [])
         else (if reCall env k req then None else Some (RemoteNotifyFailed k), nm, [RemoteNotify k req]))"

text \<open>\<^verbatim>\<open>notifyChannelCreated\<close>: the notification of a channel that was created active, and who gets it.\<close>

definition proto_evidence :: "EvidenceConfig option \<Rightarrow> EvidenceConfig option" where
  "proto_evidence ec = map_option (\<lambda>e. e\<lparr>ecRetentionDays := (ecRetentionDays e + 2 ^ 31) mod 2 ^ 32 - 2 ^ 31\<rparr>) ec"

definition created_notification :: "Channel \<Rightarrow> ChannelNotification" where
  "created_notification c =
     \<lparr> cnChannelId = chID c, cnCreatorId = chCreatorID c, cnSenderIds = chSenderIDs c, cnReceiverIds = chReceiverIDs c,
       cnEncrypted = chEncrypted c, cnDataTopic = chDataTopic c, cnCreatedAt = unix (chCreatedAt c),
       cnNegotiationStatus = NegotiationStatusAccepted, cnProposalId = [],
       cnEvidenceConfig = proto_evidence (chEvidenceConfig c) \<rparr>"

definition created_targets :: "Channel \<Rightarrow> string list" where
  "created_targets c =
     chSenderIDs c @ chReceiverIDs c @
     (if chCreatorID c \<in> set (chSenderIDs c) \<or> chCreatorID c \<in> set (chReceiverIDs c) then [] else [chCreatorID c])"

fun notify_all ::
    "remote_env \<Rightarrow> (nat \<Rightarrow> NotificationManager \<Rightarrow> NotificationManager) \<Rightarrow> string \<Rightarrow> ChannelManager \<Rightarrow> string list \<Rightarrow>
     ChannelNotification \<Rightarrow> NotificationManager \<Rightarrow> NotificationManager \<times> notice list" where
  "notify_all env others kid cm [] n nm = (nm, [])"
| "notify_all env others kid cm (p # ps) n nm =
     (case notifyParticipant env others kid cm p n nm of
        (e, nm', out) \<Rightarrow> (case notify_all env others kid cm ps n nm' of (nm'', out') \<Rightarrow> (nm'', out @ out')))"

definition notifyChannelCreated ::
    "remote_env \<Rightarrow> (nat \<Rightarrow> NotificationManager \<Rightarrow> NotificationManager) \<Rightarrow> string \<Rightarrow> ChannelManager \<Rightarrow> Channel \<Rightarrow>
     NotificationManager \<Rightarrow> NotificationManager \<times> notice list" where
  "notifyChannelCreated env others kid cm c nm =
     notify_all env others kid cm (created_targets c) (created_notification c) nm"

text \<open>
  \<^verbatim>\<open>sendChannelRecoveryNotifications\<close> of the identity service: the active channels of a restarted connector,
  at most twenty rounds, until a round in which every notification returned without error; \<^verbatim>\<open>Notify\<close>
  never returns one.
\<close>

definition recovery_targets :: "string \<Rightarrow> ChannelManager \<Rightarrow> Channel list" where
  "recovery_targets cid cm = filter (\<lambda>c. chStatus c = ChannelStatusActive \<and> IsParticipant c cid) (map snd (cmChannels cm))"

definition recovery_round ::
    "(nat \<Rightarrow> NotificationManager \<Rightarrow> NotificationManager) \<Rightarrow> string \<Rightarrow> Channel list \<Rightarrow> NotificationManager \<Rightarrow> NotificationManager" where
  "recovery_round others cid cs nm = foldl (\<lambda>nm c. snd (Notify others cid (created_notification c) nm)) nm cs"

fun recovery_rounds ::
    "(nat \<Rightarrow> NotificationManager \<Rightarrow> NotificationManager) \<Rightarrow> string \<Rightarrow> Channel list \<Rightarrow> nat \<Rightarrow> NotificationManager \<Rightarrow> NotificationManager" where
  "recovery_rounds others cid cs 0 nm = nm"
| "recovery_rounds others cid cs (Suc k) nm =
     (let nm' = recovery_round others cid cs nm in if cs \<noteq> [] then nm' else recovery_rounds others cid cs k nm')"

definition sendChannelRecoveryNotifications ::
    "(nat \<Rightarrow> NotificationManager \<Rightarrow> NotificationManager) \<Rightarrow> string \<Rightarrow> ChannelManager \<Rightarrow> NotificationManager \<Rightarrow> NotificationManager" where
  "sendChannelRecoveryNotifications others cid cm nm = recovery_rounds others cid (recovery_targets cid cm) 20 nm"

section \<open>The machine of listeners\<close>

declare map_of_eq_Some_iff [simp del]

text \<open>
  An attempt of \<^verbatim>\<open>Notify\<close> looks the listener up and sends; a stream ends when its channel is closed and empty,
  when its context is done or when it cannot write.
\<close>

inductive notify_step :: "NotificationManager \<Rightarrow> NotificationManager \<Rightarrow> bool" where
  step_register: "notify_step nm (snd (nm_Register r nm))"
| step_attempt: "go_get (nmTable nm) r = Some i \<Longrightarrow> notify_step nm (snd (chan_send i n nm))"
| step_read: "i < length (nmChans nm) \<Longrightarrow> notify_step nm (snd (stream_read i nm))"
| step_end: "notify_step nm (stream_end r nm)"

text \<open>The table names exactly the open channels, each for one listener, and none holds more than ten notifications.\<close>

definition listeners_ok :: "NotificationManager \<Rightarrow> bool" where
  "listeners_ok nm \<longleftrightarrow>
     (\<forall>r i. go_get (nmTable nm) r = Some i \<longrightarrow> i < length (nmChans nm) \<and> ncOpen (nmChans nm ! i)) \<and>
     (\<forall>r r' i. go_get (nmTable nm) r = Some i \<longrightarrow> go_get (nmTable nm) r' = Some i \<longrightarrow> r = r') \<and>
     (\<forall>i < length (nmChans nm). ncOpen (nmChans nm ! i) \<longrightarrow> (\<exists>r. go_get (nmTable nm) r = Some i)) \<and>
     (\<forall>i < length (nmChans nm). length (ncQueue (nmChans nm ! i)) \<le> notify_capacity)"

text \<open>The invariant reads the channels only through their openness and the length of their queues.\<close>

lemma listeners_ok_mono:
  assumes "listeners_ok nm" and "length (nmChans nm') = length (nmChans nm)" and "nmTable nm' = nmTable nm"
    and "\<And>j. j < length (nmChans nm) \<Longrightarrow> ncOpen (nmChans nm' ! j) = ncOpen (nmChans nm ! j)"
    and "\<And>j. j < length (nmChans nm) \<Longrightarrow> length (ncQueue (nmChans nm' ! j)) \<le> notify_capacity"
  shows "listeners_ok nm'"
  using assms unfolding listeners_ok_def by metis

lemma listeners_ok_set_queue:
  assumes "listeners_ok nm" and "length q \<le> notify_capacity"
  shows "listeners_ok (nm\<lparr>nmChans := (nmChans nm)[i := (nmChans nm ! i)\<lparr>ncQueue := q\<rparr>]\<rparr>)"
proof (rule listeners_ok_mono [OF assms(1)])
  fix j assume j: "j < length (nmChans nm)"
  then have "length (ncQueue (nmChans nm ! j)) \<le> notify_capacity" using assms(1) by (simp add: listeners_ok_def)
  then show "length (ncQueue (nmChans (nm\<lparr>nmChans := (nmChans nm)[i := (nmChans nm ! i)\<lparr>ncQueue := q\<rparr>]\<rparr>) ! j)) \<le> notify_capacity"
    using assms(2) j by (simp add: nth_update_in)
qed (auto simp: nth_update_in)

lemma listeners_ok_get:
  assumes "listeners_ok nm" and "go_get (nmTable nm) r = Some i"
  shows "i < length (nmChans nm)" and "ncOpen (nmChans nm ! i)"
  using assms by (auto simp: listeners_ok_def)

lemma register_eq:
  "snd (nm_Register r nm) =
     (let nm' = nm_Unregister r nm
      in nm'\<lparr>nmChans := nmChans nm' @ [\<lparr> ncQueue = [], ncOpen = True \<rparr>], nmTable := go_put r (length (nmChans nm')) (nmTable nm)\<rparr>)"
  by (auto simp: nm_Register_def nm_Unregister_def close_chan_def Let_def split: option.split)

lemma unregister_table: "go_get (nmTable (nm_Unregister r nm)) r' = (if r' = r then None else go_get (nmTable nm) r')"
  by (auto simp: nm_Unregister_def close_chan_def gomap_simps split: option.split)

lemma unregister_length [simp]: "length (nmChans (nm_Unregister r nm)) = length (nmChans nm)"
  by (auto simp: nm_Unregister_def close_chan_def split: option.split)

lemma unregister_open:
  assumes "listeners_ok nm" and "j < length (nmChans nm)"
  shows "ncOpen (nmChans (nm_Unregister r nm) ! j) \<longleftrightarrow> ncOpen (nmChans nm ! j) \<and> go_get (nmTable nm) r \<noteq> Some j"
  using assms by (auto simp: nm_Unregister_def close_chan_def nth_update_in split: option.split)

lemma unregister_queue: "j < length (nmChans nm) \<Longrightarrow> ncQueue (nmChans (nm_Unregister r nm) ! j) = ncQueue (nmChans nm ! j)"
  by (auto simp: nm_Unregister_def close_chan_def nth_update_in split: option.split)

lemma listeners_ok_unregister:
  assumes "listeners_ok nm"
  shows "listeners_ok (nm_Unregister r nm)"
proof -
  have lt: "i < length (nmChans nm)" "ncOpen (nmChans nm ! i)" if "go_get (nmTable nm) r' = Some i" for r' i
    using assms that by (simp_all add: listeners_ok_def)
  have inj: "r' = r''" if "go_get (nmTable nm) r' = Some i" "go_get (nmTable nm) r'' = Some i" for r' r'' i
    using assms that by (auto simp: listeners_ok_def)
  have q: "length (ncQueue (nmChans nm ! i)) \<le> notify_capacity" if "i < length (nmChans nm)" for i
    using assms that by (simp add: listeners_ok_def)
  have ex: "\<exists>r'. go_get (nmTable nm) r' = Some i" if "i < length (nmChans nm)" "ncOpen (nmChans nm ! i)" for i
    using assms that by (simp add: listeners_ok_def)
  show ?thesis
    unfolding listeners_ok_def unregister_length
    by (auto simp: unregister_table unregister_queue unregister_open [OF assms] lt q split: if_splits dest: lt inj ex)
qed

lemma listeners_ok_add:
  assumes "listeners_ok nm" and "go_get (nmTable nm) r = None"
    and t: "\<And>r'. go_get t r' = (if r' = r then Some (length (nmChans nm)) else go_get (nmTable nm) r')"
  shows "listeners_ok (nm\<lparr>nmChans := nmChans nm @ [\<lparr> ncQueue = [], ncOpen = True \<rparr>], nmTable := t\<rparr>)"
proof -
  have lt: "i < length (nmChans nm)" if "go_get (nmTable nm) r' = Some i" for r' i
    using assms(1) that by (simp add: listeners_ok_def)
  then show ?thesis
    using assms(1,2) unfolding listeners_ok_def
    by (auto simp: t nth_append less_Suc_eq dest: lt split: if_splits) (metis nat_neq_iff option.distinct(1))+
qed

lemma listeners_ok_register: "listeners_ok nm \<Longrightarrow> listeners_ok (snd (nm_Register r nm))"
  unfolding register_eq Let_def
  by (rule listeners_ok_add) (auto simp: listeners_ok_unregister unregister_table gomap_simps)

lemma listeners_ok_send: "listeners_ok nm \<Longrightarrow> listeners_ok (snd (chan_send i n nm))"
  by (auto simp: chan_send_def Let_def intro!: listeners_ok_set_queue)

lemma listeners_ok_read: "listeners_ok nm \<Longrightarrow> i < length (nmChans nm) \<Longrightarrow> listeners_ok (snd (stream_read i nm))"
proof -
  assume nm: "listeners_ok nm" and i: "i < length (nmChans nm)"
  have "length (ncQueue (nmChans nm ! i)) \<le> notify_capacity" using nm i by (simp add: listeners_ok_def)
  then show ?thesis using nm by (auto simp: stream_read_def intro!: listeners_ok_set_queue split: list.split)
qed

lemma notify_step_ok: "notify_step nm nm' \<Longrightarrow> listeners_ok nm \<Longrightarrow> listeners_ok nm'"
  by (induction rule: notify_step.induct)
    (auto simp: stream_end_def intro: listeners_ok_register listeners_ok_send listeners_ok_read listeners_ok_unregister)

definition notify_init :: "NotificationManager \<Rightarrow> bool" where
  "notify_init nm \<longleftrightarrow> nm = NewNotificationManager"

interpretation listeners: invariant_system notify_init notify_step listeners_ok
proof unfold_locales
  show "notify_init nm \<Longrightarrow> listeners_ok nm" for nm
    by (simp add: notify_init_def NewNotificationManager_def listeners_ok_def)
qed (rule notify_step_ok)

section \<open>Properties\<close>

definition demo_notification :: ChannelNotification where
  "demo_notification =
     \<lparr> cnChannelId = ''ch'', cnCreatorId = ''a'', cnSenderIds = [''a''], cnReceiverIds = [''b''], cnEncrypted = False,
       cnDataTopic = ''t'', cnCreatedAt = 0, cnNegotiationStatus = NegotiationStatusAccepted, cnProposalId = [], cnEvidenceConfig = None \<rparr>"

definition demo_listener :: NotificationManager where
  "demo_listener = snd (nm_Register ''b'' NewNotificationManager)"

lemma demo_listener_eq: "demo_listener = \<lparr> nmTable = [(''b'', 0)], nmChans = [\<lparr> ncQueue = [], ncOpen = True \<rparr>] \<rparr>"
  by (simp add: demo_listener_def nm_Register_def NewNotificationManager_def close_chan_def Let_def)

lemma demo_listener_reach: "reach notify_init notify_step demo_listener"
  unfolding demo_listener_def by (rule reach_step, rule reach_init, simp add: notify_init_def, rule step_register)

text \<open>
  C25. Whoever listens, stops and is notified, in whatever order: a listener is registered exactly if its channel is
  open, no channel serves two listeners, and no channel holds more than ten notifications.
\<close>

theorem listeners_consistent:
  assumes "reach notify_init notify_step nm"
  shows "(\<forall>i < length (nmChans nm). ncOpen (nmChans nm ! i) \<longleftrightarrow> (\<exists>!r. go_get (nmTable nm) r = Some i))
    \<and> (\<forall>i < length (nmChans nm). length (ncQueue (nmChans nm ! i)) \<le> 10)"
  using listeners.reach_inv [OF assms] unfolding listeners_ok_def notify_capacity_def by metis

theorem listeners_consistent_witness: "\<exists>!r. go_get (nmTable demo_listener) r = Some 0"
proof -
  have "0 < length (nmChans demo_listener)" "ncOpen (nmChans demo_listener ! 0)" by (simp_all add: demo_listener_eq)
  then show ?thesis using listeners_consistent [OF demo_listener_reach] by blast
qed

text \<open>The states in which the attempts of \<^verbatim>\<open>Notify\<close> run when the earlier ones failed, and a listener with room.\<close>

fun state_at :: "(nat \<Rightarrow> NotificationManager \<Rightarrow> NotificationManager) \<Rightarrow> nat \<Rightarrow> NotificationManager \<Rightarrow> NotificationManager" where
  "state_at others 0 nm = others 0 nm"
| "state_at others (Suc a) nm = others (Suc a) (state_at others a nm)"

definition listener_ready :: "string \<Rightarrow> NotificationManager \<Rightarrow> bool" where
  "listener_ready r nm =
     (case go_get (nmTable nm) r of None \<Rightarrow> False | Some i \<Rightarrow> length (ncQueue (nmChans nm ! i)) < notify_capacity)"

definition enqueue :: "string \<Rightarrow> ChannelNotification \<Rightarrow> NotificationManager \<Rightarrow> NotificationManager" where
  "enqueue r n nm =
     (case go_get (nmTable nm) r of
        None \<Rightarrow> nm
      | Some i \<Rightarrow> nm\<lparr>nmChans := (nmChans nm)[i := (nmChans nm ! i)\<lparr>ncQueue := ncQueue (nmChans nm ! i) @ [n]\<rparr>]\<rparr>)"

lemma notify_attempt:
  assumes "listeners_ok (others a nm)"
  shows "notify_from others a r n nm =
    (if a > max_retries then (False, nm)
     else if listener_ready r (others a nm) then (True, enqueue r n (others a nm))
     else notify_from others (Suc a) r n (others a nm))"
  using assms listeners_ok_get(2) [OF assms, of r]
  by (subst notify_from.simps) (auto simp: Let_def listener_ready_def enqueue_def chan_send_def split: option.split)

text \<open>
  A notification is put into the listener's channel exactly once, at the first of the four attempts that finds
  the listener registered with room in its channel, whatever other goroutines do in between; if there is none it is
  dropped.  \<^verbatim>\<open>Notify\<close> reports success in both cases.
\<close>

theorem notify_first_chance:
  assumes "\<And>a. listeners_ok (state_at others a nm)"
  shows "Notify others r n nm =
    (case find (\<lambda>a. listener_ready r (state_at others a nm)) [0, 1, 2, 3] of
       None \<Rightarrow> (False, state_at others 3 nm)
     | Some a \<Rightarrow> (True, enqueue r n (state_at others a nm)))"
proof -
  have s: "notify_from others (Suc a) r n (state_at others a nm) =
      (if Suc a > max_retries then (False, state_at others a nm)
       else if listener_ready r (state_at others (Suc a) nm) then (True, enqueue r n (state_at others (Suc a) nm))
       else notify_from others (Suc (Suc a)) r n (state_at others (Suc a) nm))" for a
    using notify_attempt [of others "Suc a" "state_at others a nm" r n] assms [of "Suc a"] by simp
  have "notify_from others 0 r n nm =
      (if listener_ready r (state_at others 0 nm) then (True, enqueue r n (state_at others 0 nm))
       else notify_from others (Suc 0) r n (state_at others 0 nm))"
    using notify_attempt [of others 0 nm r n] assms [of 0] by simp
  then show ?thesis
    unfolding Notify_def using s [of 0] s [of 1] s [of 2] s [of 3]
    by (simp add: max_retries_def numeral_3_eq_3 numeral_2_eq_2)
qed

theorem notify_first_chance_witness:
  "Notify (\<lambda>a nm. if a = 2 then demo_listener else nm) ''b'' demo_notification NewNotificationManager
     = (True, enqueue ''b'' demo_notification demo_listener)"
proof -
  let ?o = "\<lambda>a nm. if a = 2 then demo_listener else nm"
  have st: "state_at ?o a NewNotificationManager = (if a \<ge> 2 then demo_listener else NewNotificationManager)" for a
    by (induction a) auto
  have ok: "listeners_ok NewNotificationManager" "listeners_ok demo_listener"
    using listeners.inv_init [of NewNotificationManager] listeners.reach_inv [OF demo_listener_reach]
    by (simp_all add: notify_init_def)
  have "listener_ready ''b'' demo_listener" "\<not> listener_ready ''b'' NewNotificationManager"
    by (simp_all add: listener_ready_def demo_listener_eq notify_capacity_def NewNotificationManager_def)
  then show ?thesis
    using notify_first_chance [of ?o NewNotificationManager "''b''" demo_notification] ok by (simp add: st)
qed

text \<open>
  A listener that reconnects is lost.  While the stream of a listener runs, the same connector opens another; the
  first stream then ends and unregisters the connector by name, which closes the channel of the new
  stream: it ends too, and nobody listens for the connector.
\<close>

theorem reconnect_loses_listener:
  assumes "listeners_ok nm" and "go_get (nmTable nm) r = Some i" and "nm_Register r nm = (j, nm1)"
  shows "\<not> ncOpen (nmChans nm1 ! i) \<and> ncOpen (nmChans nm1 ! j) \<and> go_get (nmTable nm1) r = Some j
    \<and> go_get (nmTable (stream_end r nm1)) r = None \<and> stream_sees_close j (stream_end r nm1)"
proof -
  have i: "i < length (nmChans nm)" using listeners_ok_get(1) [OF assms(1,2)] .
  have "nmChans nm1 = (nmChans nm)[i := (nmChans nm ! i)\<lparr>ncOpen := False\<rparr>] @ [\<lparr> ncQueue = [], ncOpen = True \<rparr>]"
    and "j = length (nmChans nm)" and "go_get (nmTable nm1) r = Some j"
    using assms(2,3) by (auto simp: nm_Register_def Let_def close_chan_def gomap_simps)
  then show ?thesis
    using i by (simp add: nth_append stream_end_def nm_Unregister_def close_chan_def gomap_simps stream_sees_close_def)
qed

theorem reconnect_loses_listener_witness:
  "\<exists>j nm1. nm_Register ''b'' demo_listener = (j, nm1) \<and> go_get (nmTable (stream_end ''b'' nm1)) ''b'' = None"
proof -
  obtain j nm1 where r: "nm_Register ''b'' demo_listener = (j, nm1)" by fastforce
  have "go_get (nmTable demo_listener) ''b'' = Some 0" by (simp add: demo_listener_eq)
  with reconnect_loses_listener [OF listeners.reach_inv [OF demo_listener_reach] this r] r show ?thesis by blast
qed

text \<open>
  What the sender field of a forwarded notification says is read back at the other kernel: the kernel, the
  proposal and the status.  Without a proposal the status of an accepted or rejected channel is read
  as the proposal, and no status is seen.
\<close>

theorem sender_meta_roundtrip:
  assumes "CHR ''|'' \<notin> set kid" and "CHR ''|'' \<notin> set (cnProposalId n)"
  defines "st \<equiv> (case cnNegotiationStatus n of
      NegotiationStatusAccepted \<Rightarrow> ''ACCEPTED'' | NegotiationStatusRejected \<Rightarrow> ''REJECTED'' | NegotiationStatusProposed \<Rightarrow> '''')"
  shows "parse_sender (sender_with_meta kid n) = (if cnProposalId n = [] then (kid, st, []) else (kid, cnProposalId n, st))"
  using assms unfolding st_def
  by (cases "cnNegotiationStatus n")
    (simp_all add: parse_sender_def sender_with_meta_def split_bar_def Let_def takeWhile_sep dropWhile_sep takeWhile_no_sep)

theorem sender_meta_roundtrip_witness:
  "parse_sender (sender_with_meta ''k1'' (demo_notification\<lparr>cnProposalId := ''p''\<rparr>)) = (''k1'', ''p'', ''ACCEPTED'')
   \<and> parse_sender (sender_with_meta ''k1'' demo_notification) = (''k1'', ''ACCEPTED'', [])"
  using sender_meta_roundtrip [of "''k1''" "demo_notification\<lparr>cnProposalId := ''p''\<rparr>"] sender_meta_roundtrip [of "''k1''" demo_notification]
  by (simp add: demo_notification_def)

end
