(* ===== verification/Identity_Service.thy ===== *)
theory Identity_Service
  imports Notifications Bootstrap_Token Connector_Buffers
begin

text \<open>
  The identity service (\<^verbatim>\<open>kernel/server/identity_service.go\<close>) and the check of a caller's certificate
  (\<^verbatim>\<open>kernel/security/mtls.go\<close>): handshake, heartbeat, status, discovery, connector information, first
  registration with a bootstrap token, and the exchange of CA certificates between kernels.

  A request comes with the TLS state of its connection (\<open>grpc_ctx\<close>): the verified chains as lists of common
  names.  Handlers return what the response says, the new state of the managers they change and the evidence
  they submit (\<open>audit\<close>: source, event type, channel, data hash), in order; \<open>Inl\<close> is a response without success or
  an RPC error.  Calls to other kernels, YAML parsing, the certificate authority and files are arguments.
\<close>

section \<open>Authentication\<close>

datatype grpc_ctx = NoPeer | NoTLS | VerifiedChains "string list list"

datatype auth_error = NoPeerInfo | NoTLSInfo | NoVerifiedChains | EmptyCommonName | CertMismatch string string

definition ExtractConnectorIDFromContext :: "grpc_ctx \<Rightarrow> auth_error + string" where
  "ExtractConnectorIDFromContext ctx =
     (case ctx of
        NoPeer \<Rightarrow> Inl NoPeerInfo
      | NoTLS \<Rightarrow> Inl NoTLSInfo
      | VerifiedChains chs \<Rightarrow>
          if chs = [] \<or> hd chs = [] then Inl NoVerifiedChains
          else let cn = hd (hd chs) in if cn = [] then Inl EmptyCommonName else Inr cn)"

definition VerifyConnectorID :: "grpc_ctx \<Rightarrow> string \<Rightarrow> auth_error option" where
  "VerifyConnectorID ctx rid =
     (case ExtractConnectorIDFromContext ctx of
        Inl e \<Rightarrow> Some e
      | Inr cn \<Rightarrow> if cn \<noteq> rid then Some (CertMismatch cn rid) else None)"

lemma VerifyConnectorID_None: "VerifyConnectorID ctx rid = None \<longleftrightarrow> ExtractConnectorIDFromContext ctx = Inr rid"
  by (auto simp: VerifyConnectorID_def split: sum.split)

section \<open>Handlers\<close>

type_synonym audit = "string \<times> string \<times> string \<times> string"

datatype identity_error =
  AuthFailed auth_error | RegistrationFailed registry_error | HeartbeatFailed registry_error
| ConnectorMissing string | NotExposed string | IdRequired | TypeRequired | AlreadyRegistered string
| BadYaml | TokenRequired | TokenRejected token_error | IssueFailed | CaUnreadable
| OwnStatusOnly | BadStatus string | RemoteFailed string
| KernelIdRequired | CaRequired | SelfRegistration | SaveCaFailed

definition EventTypeAuthSuccess :: string where
  "EventTypeAuthSuccess = ''AUTH_SUCCESS''"

definition EventTypeAuthFail :: string where
  "EventTypeAuthFail = ''AUTH_FAIL''"

definition EventTypeConnectorRegistered :: string where
  "EventTypeConnectorRegistered = ''CONNECTOR_REGISTERED''"

definition EventTypeConnectorStatusChanged :: string where
  "EventTypeConnectorStatusChanged = ''CONNECTOR_STATUS_CHANGED''"

record HandshakeRequest =
  hrConnectorId :: string
  hrEntityType :: string
  hrPublicKey :: string
  hrExposed :: "bool option"
  hrDataCatalog :: "string list"
  hrDataCatalogItems :: "DataCatalogItem list"

text \<open>\<open>token\<close> is the fresh session token; the last component says whether recovery notifications are sent.\<close>

definition Handshake ::
    "grpc_ctx \<Rightarrow> time \<Rightarrow> string \<Rightarrow> HandshakeRequest \<Rightarrow> ChannelManager \<Rightarrow> registry \<Rightarrow>
     (identity_error + string) \<times> registry \<times> audit list \<times> bool" where
  "Handshake ctx now token req cm r =
     (case ExtractConnectorIDFromContext ctx of
        Inl e \<Rightarrow> (Inl (AuthFailed e), r, [(hrConnectorId req, EventTypeAuthFail, [], [])], False)
      | Inr cn \<Rightarrow>
          (case VerifyConnectorID ctx (hrConnectorId req) of
             Some e \<Rightarrow> (Inl (AuthFailed e), r, [(hrConnectorId req, EventTypeAuthFail, [], [])], False)
           | None \<Rightarrow>
               (case Register now (hrConnectorId req) (hrEntityType req) (hrPublicKey req) token
                       (case hrExposed req of None \<Rightarrow> True | Some b \<Rightarrow> b) (hrDataCatalog req)
                       (if hrDataCatalogItems req = [] then None else Some (hrDataCatalogItems req)) r of
                  Inl e \<Rightarrow> (Inl (RegistrationFailed e), r, [], False)
                | Inr r' \<Rightarrow>
                    (Inr token, r', [(hrConnectorId req, EventTypeAuthSuccess, [], [])],
                     IsConnectorRestarting now (hrConnectorId req) cm))))"

definition IdentityHeartbeat :: "grpc_ctx \<Rightarrow> time \<Rightarrow> string \<Rightarrow> registry \<Rightarrow> (identity_error + int) \<times> registry" where
  "IdentityHeartbeat ctx now cid r =
     (case VerifyConnectorID ctx cid of
        Some e \<Rightarrow> (Inl (AuthFailed e), r)
      | None \<Rightarrow>
          (case UpdateHeartbeat now cid r of
             Inl e \<Rightarrow> (Inl (HeartbeatFailed e), r)
           | Inr r' \<Rightarrow> (Inr (unix now), r')))"

definition SetConnectorStatus ::
    "grpc_ctx \<Rightarrow> string \<Rightarrow> string \<Rightarrow> string \<Rightarrow> registry \<Rightarrow> (identity_error + string) \<times> registry \<times> audit list" where
  "SetConnectorStatus ctx requester cid st r =
     (case VerifyConnectorID ctx requester of
        Some e \<Rightarrow> (Inl (AuthFailed e), r, [])
      | None \<Rightarrow>
          if requester \<noteq> cid then (Inl OwnStatusOnly, r, [])
          else if st \<notin> set [''active'', ''inactive'', ''closed''] then (Inl (BadStatus st), r, [])
          else (case GetConnector cid r of
                  Inl e \<Rightarrow> (Inl (ConnectorMissing cid), r, [])
                | Inr info \<Rightarrow>
                    (case SetStatus cid st r of
                       Inl e \<Rightarrow> (Inl (ConnectorMissing cid), r, [])
                     | Inr r' \<Rightarrow> (Inr (Status info), r', [(cid, EventTypeConnectorStatusChanged, [], [])]))))"

text \<open>What is told about a connector (\<^verbatim>\<open>pb.ConnectorInfo\<close>).\<close>

record ConnectorView =
  cvConnectorId :: string
  cvEntityType :: string
  cvPublicKey :: string
  cvStatus :: string
  cvLastHeartbeat :: int
  cvRegisteredAt :: int
  cvKernelId :: string
  cvDataCatalog :: "string list"
  cvExposed :: bool
  cvItems :: "DataCatalogItem list"

definition catalog_items :: "ConnectorInfo \<Rightarrow> DataCatalogItem list" where
  "catalog_items info = (case DataCatalogItems info of None \<Rightarrow> [] | Some items \<Rightarrow> items)"

definition view_of :: "string \<Rightarrow> string list \<Rightarrow> DataCatalogItem list \<Rightarrow> ConnectorInfo \<Rightarrow> ConnectorView" where
  "view_of kid catalog items info =
     \<lparr> cvConnectorId = ConnectorID info, cvEntityType = EntityType info, cvPublicKey = PublicKey info,
       cvStatus = Status info, cvLastHeartbeat = unix (LastHeartbeat info), cvRegisteredAt = unix (RegisteredAt info),
       cvKernelId = kid, cvDataCatalog = catalog, cvExposed = Exposed info, cvItems = items \<rparr>"

definition full_view :: "string \<Rightarrow> ConnectorInfo \<Rightarrow> ConnectorView" where
  "full_view kid info = view_of kid (DataCatalog info) (catalog_items info) info"

definition exposed_view :: "string \<Rightarrow> ConnectorInfo \<Rightarrow> ConnectorView" where
  "exposed_view kid info = view_of kid (DataCatalog info) (filter ItemExposed (catalog_items info)) info"

text \<open>
  \<^verbatim>\<open>CollectAllConnectors\<close> of the multi-kernel manager; \<open>remotes\<close> are the connected kernels with the answer of their
  \<^verbatim>\<open>DiscoverConnectors\<close> (\<open>None\<close>: unreachable).
\<close>

definition CollectAllConnectors :: "string \<Rightarrow> (string \<times> ConnectorView list option) list \<Rightarrow> registry \<Rightarrow> ConnectorView list" where
  "CollectAllConnectors kid remotes r =
     map (exposed_view kid) (ListExposedConnectors r) @
     concat (map (\<lambda>(k, res). case res of
                               None \<Rightarrow> []
                             | Some cs \<Rightarrow> map (\<lambda>c. if cvKernelId c = [] then c\<lparr>cvKernelId := k\<rparr> else c) cs) remotes)"

definition is_kernel_request :: "string \<Rightarrow> bool" where
  "is_kernel_request rid \<longleftrightarrow> prefix ''kernel-'' rid"

definition type_matches :: "string \<Rightarrow> string \<Rightarrow> bool" where
  "type_matches ft t \<longleftrightarrow> ft = [] \<or> t = ft"

definition DiscoverConnectors ::
    "grpc_ctx \<Rightarrow> string \<Rightarrow> (string \<times> ConnectorView list option) list \<Rightarrow> string \<Rightarrow> string \<Rightarrow> registry \<Rightarrow>
     identity_error + ConnectorView list" where
  "DiscoverConnectors ctx kid remotes rid ft r =
     (if is_kernel_request rid then
        Inr (filter (\<lambda>c. type_matches ft (cvEntityType c)) (map (exposed_view kid) (ListExposedConnectors r)))
      else case VerifyConnectorID ctx rid of
             Some e \<Rightarrow> Inl (AuthFailed e)
           | None \<Rightarrow>
               if remotes \<noteq> [] then
                 Inr (map (full_view kid)
                        (filter (\<lambda>i. ConnectorID i \<noteq> rid \<and> type_matches ft (EntityType i)) (ListConnectors r)) @
                      filter (\<lambda>c. \<not> (cvConnectorId c = rid \<and> cvKernelId c = kid) \<and> type_matches ft (cvEntityType c))
                        (CollectAllConnectors kid remotes r))
               else
                 Inr (map (full_view [])
                        (filter (\<lambda>i. ConnectorID i \<noteq> rid \<and> type_matches ft (EntityType i)) (ListExposedConnectors r))))"

definition GetConnectorInfo ::
    "grpc_ctx \<Rightarrow> string \<Rightarrow> (string \<Rightarrow> string \<Rightarrow> identity_error + ConnectorView) \<Rightarrow> string \<Rightarrow> string \<Rightarrow> string \<Rightarrow> registry \<Rightarrow>
     identity_error + ConnectorView" where
  "GetConnectorInfo ctx kid remote rid connector_id target r =
     (case (if is_kernel_request rid then None else VerifyConnectorID ctx rid) of
        Some e \<Rightarrow> Inl (AuthFailed e)
      | None \<Rightarrow>
          (let tk = (if has_colon connector_id then kernel_part connector_id else target);
               cid = (if has_colon connector_id then connector_part connector_id else connector_id)
           in if tk \<noteq> [] \<and> tk \<noteq> kid then remote tk cid
              else case GetConnector cid r of
                     Inl e \<Rightarrow> Inl (ConnectorMissing cid)
                   | Inr info \<Rightarrow>
                       if \<not> Exposed info \<and> \<not> (\<not> is_kernel_request rid \<and> rid = cid) \<and> \<not> (is_kernel_request rid \<and> tk = kid)
                       then Inl (NotExposed cid)
                       else if is_kernel_request rid then
                         Inr (view_of kid (map ItemName (filter ItemExposed (catalog_items info)))
                                (filter ItemExposed (catalog_items info)) info)
                       else Inr (full_view kid info)))"

section \<open>First registration\<close>

text \<open>
  \<^verbatim>\<open>RegisterConnector\<close> in its two halves, because other requests may run in between: the checks, and what follows
  once a certificate is to be issued.  \<open>yaml\<close> says whether a text parses, \<open>issue\<close> is the certificate authority,
  \<open>ca\<close> the CA certificate file and \<open>save_ok\<close> whether the token file can be written.
\<close>

record RegisterConnectorRequest =
  rcConnectorId :: string
  rcEntityType :: string
  rcConfigYaml :: string
  rcRegistrationCode :: string

definition token_validated :: "string \<Rightarrow> string \<Rightarrow> string" where
  "token_validated code cid = ''bootstrap token '' @ code @ '' validated for connector '' @ cid"

definition token_consumed :: "string \<Rightarrow> string" where
  "token_consumed code = ''bootstrap token consumed: '' @ code"

definition register_check ::
    "(string \<Rightarrow> bool) \<Rightarrow> time \<Rightarrow> RegisterConnectorRequest \<Rightarrow> registry \<Rightarrow> BootstrapConfig \<Rightarrow> (identity_error + unit) \<times> audit list" where
  "register_check yaml now req r cfg =
     (if rcConnectorId req = [] then (Inl IdRequired, [])
      else if rcEntityType req = [] then (Inl TypeRequired, [])
      else case GetConnector (rcConnectorId req) r of
             Inr info \<Rightarrow> (Inl (AlreadyRegistered (rcConnectorId req)), [])
           | Inl e \<Rightarrow>
               if rcConfigYaml req \<noteq> [] \<and> \<not> yaml (rcConfigYaml req) then (Inl BadYaml, [])
               else if TokenIsEnabled cfg then
                 (if rcRegistrationCode req = [] then (Inl TokenRequired, [])
                  else case ValidateToken now (rcRegistrationCode req) (rcConnectorId req) cfg of
                         Inl e \<Rightarrow> (Inl (TokenRejected e), [])
                       | Inr t \<Rightarrow> (Inr (), [(rcConnectorId req, EventTypeAuthSuccess, [],
                                             token_validated (tkCode t) (rcConnectorId req))]))
               else (Inr (), []))"

definition register_finish ::
    "(string \<Rightarrow> (string \<times> string) option) \<Rightarrow> string option \<Rightarrow> time \<Rightarrow> bool \<Rightarrow> RegisterConnectorRequest \<Rightarrow> BootstrapConfig \<Rightarrow>
     (identity_error + string \<times> string \<times> string) \<times> BootstrapConfig \<times> audit list" where
  "register_finish issue ca now save_ok req cfg =
     (case issue (rcConnectorId req) of
        None \<Rightarrow> (Inl IssueFailed, cfg, [])
      | Some (cert, key) \<Rightarrow>
          (case ca of
             None \<Rightarrow> (Inl CaUnreadable, cfg, [])
           | Some ca_cert \<Rightarrow>
               (let (cfg', evs) =
                      (if TokenIsEnabled cfg \<and> rcRegistrationCode req \<noteq> [] then
                         (case MarkTokenUsed now save_ok (rcRegistrationCode req) (rcConnectorId req) cfg of
                            (Inl e, cfg') \<Rightarrow> (cfg', [])
                          | (Inr u, cfg') \<Rightarrow> (cfg', [(rcConnectorId req, EventTypeAuthSuccess, [],
                                                      token_consumed (rcRegistrationCode req))]))
                       else (cfg, []))
                in (Inr (cert, key, ca_cert), cfg', evs @ [(rcConnectorId req, EventTypeConnectorRegistered, [], [])]))))"

definition RegisterConnector ::
    "(string \<Rightarrow> bool) \<Rightarrow> (string \<Rightarrow> (string \<times> string) option) \<Rightarrow> string option \<Rightarrow> time \<Rightarrow> bool \<Rightarrow> RegisterConnectorRequest \<Rightarrow>
     registry \<Rightarrow> BootstrapConfig \<Rightarrow> (identity_error + string \<times> string \<times> string) \<times> BootstrapConfig \<times> audit list" where
  "RegisterConnector yaml issue ca now save_ok req r cfg =
     (case register_check yaml now req r cfg of
        (Inl e, evs) \<Rightarrow> (Inl e, cfg, evs)
      | (Inr u, evs) \<Rightarrow>
          (case register_finish issue ca now save_ok req cfg of (res, cfg', evs') \<Rightarrow> (res, cfg', evs @ evs')))"

text \<open>\<open>peers\<close> holds the saved CA certificates by file name; \<open>own\<close> is the kernel's own CA certificate file.\<close>

definition RegisterKernelCA ::
    "string \<Rightarrow> bool \<Rightarrow> string option \<Rightarrow> string \<Rightarrow> string \<Rightarrow> string gomap \<Rightarrow> (identity_error + string option) \<times> string gomap" where
  "RegisterKernelCA kid write_ok own peer cert peers =
     (if peer = [] then (Inl KernelIdRequired, peers)
      else if cert = [] then (Inl CaRequired, peers)
      else if peer = kid then (Inl SelfRegistration, peers)
      else if \<not> write_ok then (Inl SaveCaFailed, peers)
      else (Inr own, go_put (''certs/peer-'' @ peer @ ''-ca.crt'') cert peers))"

section \<open>Properties\<close>

declare map_of_eq_Some_iff [simp del]

text \<open>The requests that change the registry, with the connection they come from.\<close>

inductive identity_step :: "grpc_ctx \<Rightarrow> registry \<Rightarrow> registry \<Rightarrow> bool" where
  id_handshake: "Handshake ctx now token req cm r = (res, r', evs, recover) \<Longrightarrow> identity_step ctx r r'"
| id_heartbeat: "IdentityHeartbeat ctx now cid r = (res, r') \<Longrightarrow> identity_step ctx r r'"
| id_status: "SetConnectorStatus ctx requester cid st r = (res, r', evs) \<Longrightarrow> identity_step ctx r r'"

lemma Register_frame: "Register now cid e k t ex c i r = Inr r' \<Longrightarrow> go_get r' k' \<noteq> go_get r k' \<Longrightarrow> k' = cid"
  by (auto simp: Register_def gomap_simps split: if_splits option.splits)

lemma UpdateHeartbeat_frame: "UpdateHeartbeat now cid r = Inr r' \<Longrightarrow> go_get r' k' \<noteq> go_get r k' \<Longrightarrow> k' = cid"
  by (auto simp: UpdateHeartbeat_def gomap_simps split: option.splits if_splits)

lemma SetStatus_frame: "SetStatus cid st r = Inr r' \<Longrightarrow> go_get r' k' \<noteq> go_get r k' \<Longrightarrow> k' = cid"
  by (auto simp: SetStatus_def gomap_simps split: option.splits if_splits)



lemma register_check_iff:
  "fst (register_check yaml now req r cfg) = Inr () \<longleftrightarrow>
     rcConnectorId req \<noteq> [] \<and> rcEntityType req \<noteq> [] \<and> go_get r (rcConnectorId req) = None
     \<and> (rcConfigYaml req = [] \<or> yaml (rcConfigYaml req))
     \<and> (bcEnabled cfg \<longrightarrow> rcRegistrationCode req \<noteq> [] \<and>
          (\<exists>t. find (\<lambda>t. tkCode t = rcRegistrationCode req) (bcTokens cfg) = Some t \<and> TokenIsValid now t \<and>
             (tkConnectorID t = [] \<or> tkConnectorID t = rcConnectorId req)))"
  by (auto simp: register_check_def GetConnector_def TokenIsEnabled_def ValidateToken_def split: sum.split option.split)

lemma register_finish_iff:
  "fst (register_finish issue ca now save_ok req cfg) = Inr (cert, key, ca_cert) \<longleftrightarrow>
     issue (rcConnectorId req) = Some (cert, key) \<and> ca = Some ca_cert"
  by (auto simp: register_finish_def case_prod_unfold Let_def split: option.split)

lemma RegisterConnector_fst:
  "fst (RegisterConnector yaml issue ca now save_ok req r cfg) =
     (case fst (register_check yaml now req r cfg) of
        Inl e \<Rightarrow> Inl e
      | Inr u \<Rightarrow> fst (register_finish issue ca now save_ok req cfg))"
  by (auto simp: RegisterConnector_def case_prod_unfold split: sum.split)

lemma certificate_iff:
  "fst (RegisterConnector yaml issue ca now save_ok req r cfg) = Inr (cert, key, ca_cert) \<longleftrightarrow>
     rcConnectorId req \<noteq> [] \<and> rcEntityType req \<noteq> [] \<and> go_get r (rcConnectorId req) = None
     \<and> (rcConfigYaml req = [] \<or> yaml (rcConfigYaml req))
     \<and> (bcEnabled cfg \<longrightarrow> rcRegistrationCode req \<noteq> [] \<and>
          (\<exists>t. find (\<lambda>t. tkCode t = rcRegistrationCode req) (bcTokens cfg) = Some t \<and> TokenIsValid now t \<and>
             (tkConnectorID t = [] \<or> tkConnectorID t = rcConnectorId req)))
     \<and> issue (rcConnectorId req) = Some (cert, key) \<and> ca = Some ca_cert"
  using register_check_iff [of yaml now req r cfg] register_finish_iff [of issue ca now save_ok req cfg cert key ca_cert]
  unfolding RegisterConnector_fst by (cases "fst (register_check yaml now req r cfg)") auto

text \<open>
  Who obtains a certificate: a request with identifier and entity type, for a connector that is not registered,
  with a configuration that parses if there is one, and, when tokens are required, with a token that
  exists, is valid and not bound to another connector; provided the authority issues it and the CA
  certificate can be read.
\<close>

theorem certificate_issued_iff:
  "fst (RegisterConnector yaml issue ca now save_ok req r cfg) = Inr (cert, key, ca_cert) \<longleftrightarrow>
     rcConnectorId req \<noteq> [] \<and> rcEntityType req \<noteq> [] \<and> go_get r (rcConnectorId req) = None
     \<and> (rcConfigYaml req = [] \<or> yaml (rcConfigYaml req))
     \<and> (bcEnabled cfg \<longrightarrow> rcRegistrationCode req \<noteq> [] \<and>
          (\<exists>t. find (\<lambda>t. tkCode t = rcRegistrationCode req) (bcTokens cfg) = Some t \<and> TokenIsValid now t \<and>
             (tkConnectorID t = [] \<or> tkConnectorID t = rcConnectorId req)))
     \<and> issue (rcConnectorId req) = Some (cert, key) \<and> ca = Some ca_cert"
  by (rule certificate_iff)

lemma tok_step_enabled: "tok_step cfg cfg' \<Longrightarrow> bcEnabled cfg' = bcEnabled cfg"
  by (induction rule: tok_step.induct)
    (auto simp: token_ops SetDefaultExpiryDuration_def elim!: GenerateToken_cases split: option.splits if_splits)

lemma tok_steps_spent:
  "tok_step\<^sup>*\<^sup>* cfg cfg' \<Longrightarrow> spent code cfg \<Longrightarrow> spent code cfg' \<and> bcEnabled cfg' = bcEnabled cfg"
  by (induction rule: rtranclp_induct) (auto simp: tok_step_enabled intro: tok_step_spent)

lemma certificate_spends_token:
  assumes "RegisterConnector yaml issue ca now save_ok req r cfg = (Inr cert, cfg', evs)" and "bcEnabled cfg"
  shows "spent (rcRegistrationCode req) cfg' \<and> bcEnabled cfg'"
proof -
  obtain t where t: "find (\<lambda>t. tkCode t = rcRegistrationCode req) (bcTokens cfg) = Some t" "TokenIsValid now t" "rcRegistrationCode req \<noteq> []"
    using certificate_iff [of yaml issue ca now save_ok req r cfg "fst cert" "fst (snd cert)" "snd (snd cert)"] assms by auto
  have "cfg' = snd (MarkTokenUsed now save_ok (rcRegistrationCode req) (rcConnectorId req) cfg)"
    using assms t(3) by (auto simp: RegisterConnector_def register_finish_def TokenIsEnabled_def split: sum.splits option.splits prod.splits)
  then show ?thesis
    using t assms(2) by (simp add: token_ops spent_def token_simps)
qed


definition demo_register :: "string \<Rightarrow> RegisterConnectorRequest" where
  "demo_register c = \<lparr> rcConnectorId = c, rcEntityType = ''e'', rcConfigYaml = [], rcRegistrationCode = ''T1'' \<rparr>"

definition open_config :: BootstrapConfig where
  "open_config = NewBootstrapConfig\<lparr>bcTokens := [demo_token\<lparr>tkConnectorID := []\<rparr>]\<rparr>"

theorem certificate_issued_iff_witness:
  "fst (RegisterConnector (\<lambda>_. True) (\<lambda>c. Some (c, c)) (Some ''ca'') 1 True (demo_register ''c1'') [] open_config) = Inr (''c1'', ''c1'', ''ca'')
   \<and> fst (RegisterConnector (\<lambda>_. True) (\<lambda>c. Some (c, c)) (Some ''ca'') 11 True (demo_register ''c1'') [] open_config) \<noteq> Inr (''c1'', ''c1'', ''ca'')"
  unfolding certificate_issued_iff
  by (simp add: demo_register_def open_config_def NewBootstrapConfig_def demo_token_def TokenIsValid_def)


text \<open>
  Two requests that interleave share a token: both pass the checks before either marks the token used, and both
  obtain a certificate, for different connectors if the token is not bound to one.
\<close>

theorem token_race_two_certificates:
  assumes "fst (register_check yaml now1 req1 r cfg) = Inr ()" and "fst (register_check yaml now2 req2 r cfg) = Inr ()"
    and "issue (rcConnectorId req1) = Some (c1, k1)" and "issue (rcConnectorId req2) = Some (c2, k2)"
    and "register_finish issue (Some ca) now1 save1 req1 cfg = (res1, cfg1, evs1)"
    and "register_finish issue (Some ca) now2 save2 req2 cfg1 = (res2, cfg2, evs2)"
  shows "res1 = Inr (c1, k1, ca) \<and> res2 = Inr (c2, k2, ca)"
  using assms(3-6) by (auto simp: register_finish_def split: prod.splits if_splits sum.splits)

theorem token_race_two_certificates_witness:
  "fst (register_check (\<lambda>_. True) 1 (demo_register ''c1'') [] open_config) = Inr ()
   \<and> fst (register_check (\<lambda>_. True) 1 (demo_register ''c2'') [] open_config) = Inr ()
   \<and> (\<exists>cfg1 evs1. register_finish (\<lambda>c. Some (c, c)) (Some ''ca'') 1 True (demo_register ''c1'') open_config = (Inr (''c1'', ''c1'', ''ca''), cfg1, evs1)
     \<and> fst (register_finish (\<lambda>c. Some (c, c)) (Some ''ca'') 1 True (demo_register ''c2'') cfg1) = Inr (''c2'', ''c2'', ''ca''))"
proof -
  have chk: "fst (register_check (\<lambda>_. True) 1 (demo_register ''c1'') [] open_config) = Inr ()"
      "fst (register_check (\<lambda>_. True) 1 (demo_register ''c2'') [] open_config) = Inr ()"
    by (simp_all add: register_check_def demo_register_def GetConnector_def TokenIsEnabled_def open_config_def NewBootstrapConfig_def
        ValidateToken_def demo_token_def TokenIsValid_def)
  obtain res1 cfg1 evs1 where f1: "register_finish (\<lambda>c. Some (c, c)) (Some ''ca'') 1 True (demo_register ''c1'') open_config = (res1, cfg1, evs1)"
    by (rule prod_cases3)
  obtain res2 cfg2 evs2 where f2: "register_finish (\<lambda>c. Some (c, c)) (Some ''ca'') 1 True (demo_register ''c2'') cfg1 = (res2, cfg2, evs2)"
    by (rule prod_cases3)
  have i: "(\<lambda>c. Some (c, c)) (rcConnectorId (demo_register ''c1'')) = Some (''c1'', ''c1'')"
      "(\<lambda>c. Some (c, c)) (rcConnectorId (demo_register ''c2'')) = Some (''c2'', ''c2'')" by (simp_all add: demo_register_def)
  from token_race_two_certificates [where issue = "\<lambda>c. Some (c, c)", OF chk i f1 f2] chk f1 f2 show ?thesis by auto
qed

text \<open>
  Who may read the entry of a local connector that is not exposed: the connector itself, with its own certificate,
  and any caller who gives a name beginning with \<^verbatim>\<open>kernel-\<close> and names this kernel as the target, for whom
  no certificate is looked at.
\<close>

theorem hidden_connector_readers:
  assumes "go_get r cid = Some info" and "\<not> Exposed info" and "\<not> has_colon cid" and "target = [] \<or> target = kid"
  shows "(\<exists>v. GetConnectorInfo ctx kid remote rid cid target r = Inr v) \<longleftrightarrow>
     (is_kernel_request rid \<and> target = kid) \<or>
     (\<not> is_kernel_request rid \<and> rid = cid \<and> ExtractConnectorIDFromContext ctx = Inr cid)"
  using assms
  by (auto simp: GetConnectorInfo_def Let_def GetConnector_def VerifyConnectorID_def split: sum.splits option.splits if_splits)

definition demo_hidden :: ConnectorInfo where
  "demo_hidden = \<lparr> ConnectorID = ''c1'', EntityType = ''e'', PublicKey = [], Status = ConnectorStatusActive, LastHeartbeat = 0,
     RegisteredAt = 0, SessionToken = [], Exposed = False, DataCatalog = [], DataCatalogItems = None \<rparr>"

theorem hidden_connector_readers_witness:
  "(\<exists>v. GetConnectorInfo NoPeer ''kernel-1'' (\<lambda>_ _. Inl IdRequired) ''kernel-x'' ''c1'' ''kernel-1'' [(''c1'', demo_hidden)] = Inr v)
   \<and> (\<nexists>v. GetConnectorInfo (VerifiedChains [[''c2'']]) ''kernel-1'' (\<lambda>_ _. Inl IdRequired) ''c2'' ''c1'' [] [(''c1'', demo_hidden)] = Inr v)"
proof -
  have h: "go_get [(''c1'', demo_hidden)] ''c1'' = Some demo_hidden" "\<not> Exposed demo_hidden" "\<not> has_colon ''c1''"
    by (simp_all add: demo_hidden_def has_colon_def)
  show ?thesis
    using hidden_connector_readers [OF h, of "''kernel-1''" "''kernel-1''" NoPeer "\<lambda>_ _. Inl IdRequired" "''kernel-x''"]
      hidden_connector_readers [OF h, of "[]" "''kernel-1''" "VerifiedChains [[''c2'']]" "\<lambda>_ _. Inl IdRequired" "''c2''"]
    by (simp add: is_kernel_request_def)
qed

end
