(* ===== verification/Temp_Chat.thy ===== *)
theory Temp_Chat
  imports Kernel_Prelude
begin

text \<open>
  Temporary chat sessions (\<^verbatim>\<open>kernel/tempchat/manager.go\<close>, \<^verbatim>\<open>kernel/tempchat/service.go\<close>): connectors register
  a session, keep it alive and exchange messages, within a kernel through the session's buffered
  channel and across kernels through the relay callback.

  The channel of a session is the list of the messages in it.  A session that is removed has its channel
  closed, and only such sessions have; so a channel is open exactly while its session is in the table.
  A send that finds the channel full ends in the timeout error.  The relay callback is an argument of
  \<^verbatim>\<open>RouteMessage\<close> (\<open>None\<close>: not set); it acts on a state \<open>w\<close> of its own, which the call threads, and its
  result says whether it succeeded.
\<close>

section \<open>Sessions\<close>

record TempMessage =
  tmMessageID :: string
  tmSenderID :: string
  tmReceiverID :: string
  tmPayload :: string
  tmTimestamp :: int
  tmFlowID :: string
  tmSourceKernelID :: string

record ConnectorSession =
  tsSessionID :: string
  tsConnectorID :: string
  tsKernelID :: string
  tsAddress :: string
  tsPort :: int
  tsEntityType :: string
  tsExposeToOthers :: bool
  tsRegisteredAt :: time
  tsLastHeartbeat :: time
  tsMessages :: "TempMessage list"

record ConnectorOnlineInfo =
  oiConnectorID :: string
  oiKernelID :: string
  oiAddress :: string
  oiPort :: int
  oiEntityType :: string
  oiSessionID :: string
  oiLastHeartbeat :: int
  oiRegisteredAt :: int
  oiExposeToOthers :: bool

record RemoteOpsConnection =
  roKernelID :: string
  roAddress :: string
  roPort :: int
  roConnected :: bool
  roLastSync :: time

record TempChatManager =
  tcSessions :: "ConnectorSession gomap"
  tcByConnector :: "string gomap"
  tcSessionTimeout :: int
  tcKernelID :: string
  tcRemoteOps :: "RemoteOpsConnection gomap"
  tcRemoteConnectors :: "ConnectorOnlineInfo list gomap"

record RegisterRequest =
  rqConnectorID :: string
  rqKernelID :: string
  rqAddress :: string
  rqPort :: int
  rqEntityType :: string
  rqExposeToOthers :: bool

datatype chat_error =
  SessionMissing string | ConnectorMismatch | ConnectorUnregistered string | SendTimeout | PanicClosedChannel
| RelayFailed | RelayUnconfigured | NoTarget | PanicUnlock

definition NewTempChatManager :: "string \<Rightarrow> int \<Rightarrow> TempChatManager" where
  "NewTempChatManager kid timeout =
     \<lparr> tcSessions = [], tcByConnector = [], tcSessionTimeout = timeout, tcKernelID = kid, tcRemoteOps = [],
       tcRemoteConnectors = [] \<rparr>"

definition message_capacity :: nat where
  "message_capacity = 100"

section \<open>Operations\<close>

definition session_expired :: "time \<Rightarrow> TempChatManager \<Rightarrow> ConnectorSession \<Rightarrow> bool" where
  "session_expired now m s \<longleftrightarrow> now - tsLastHeartbeat s > seconds (tcSessionTimeout m)"

definition drop_session :: "string \<Rightarrow> string \<Rightarrow> TempChatManager \<Rightarrow> TempChatManager" where
  "drop_session sid cid m =
     m\<lparr>tcSessions := go_del sid (tcSessions m), tcByConnector := go_del cid (tcByConnector m)\<rparr>"

definition cleanupExpiredSessions :: "time \<Rightarrow> TempChatManager \<Rightarrow> TempChatManager" where
  "cleanupExpiredSessions now m =
     foldl (\<lambda>m' (sid, s). if session_expired now m s then drop_session sid (tsConnectorID s) m' else m') m (tcSessions m)"

definition refresh_session :: "time \<Rightarrow> RegisterRequest \<Rightarrow> ConnectorSession \<Rightarrow> ConnectorSession" where
  "refresh_session now req s =
     s\<lparr> tsAddress := rqAddress req, tsPort := rqPort req, tsEntityType := rqEntityType req,
        tsExposeToOthers := rqExposeToOthers req, tsLastHeartbeat := now \<rparr>"

definition new_session :: "time \<Rightarrow> string \<Rightarrow> RegisterRequest \<Rightarrow> ConnectorSession" where
  "new_session now sid req =
     \<lparr> tsSessionID = sid, tsConnectorID = rqConnectorID req, tsKernelID = rqKernelID req, tsAddress = rqAddress req,
       tsPort = rqPort req, tsEntityType = rqEntityType req, tsExposeToOthers = rqExposeToOthers req,
       tsRegisteredAt = now, tsLastHeartbeat = now, tsMessages = [] \<rparr>"

definition GetSession :: "string \<Rightarrow> TempChatManager \<Rightarrow> chat_error + ConnectorSession" where
  "GetSession sid m = (case go_get (tcSessions m) sid of None \<Rightarrow> Inl (SessionMissing sid) | Some s \<Rightarrow> Inr s)"

definition GetSessionByConnector :: "string \<Rightarrow> TempChatManager \<Rightarrow> chat_error + ConnectorSession" where
  "GetSessionByConnector cid m =
     (case go_get (tcByConnector m) cid of
        None \<Rightarrow> Inl (ConnectorUnregistered cid)
      | Some sid \<Rightarrow> GetSession sid m)"

definition RegisterSession ::
    "time \<Rightarrow> string \<Rightarrow> RegisterRequest \<Rightarrow> TempChatManager \<Rightarrow> ConnectorSession \<times> TempChatManager" where
  "RegisterSession now sid req m =
     (case GetSessionByConnector (rqConnectorID req) m of
        Inr s \<Rightarrow>
          (let s' = refresh_session now req s;
               key = the (go_get (tcByConnector m) (rqConnectorID req))
           in (s', m\<lparr>tcSessions := go_put key s' (tcSessions m)\<rparr>))
      | Inl e \<Rightarrow>
          (let s' = new_session now sid req
           in (s', m\<lparr> tcSessions := go_put sid s' (tcSessions m),
                      tcByConnector := go_put (rqConnectorID req) sid (tcByConnector m) \<rparr>)))"

definition Heartbeat :: "time \<Rightarrow> string \<Rightarrow> string \<Rightarrow> TempChatManager \<Rightarrow> (chat_error + unit) \<times> TempChatManager" where
  "Heartbeat now sid cid m =
     (case go_get (tcSessions m) sid of
        None \<Rightarrow> (Inl (SessionMissing sid), m)
      | Some s \<Rightarrow>
          if tsConnectorID s \<noteq> cid then (Inl ConnectorMismatch, m)
          else (Inr (), m\<lparr>tcSessions := go_put sid (s\<lparr>tsLastHeartbeat := now\<rparr>) (tcSessions m)\<rparr>))"

definition UnregisterSession :: "string \<Rightarrow> string \<Rightarrow> TempChatManager \<Rightarrow> (chat_error + unit) \<times> TempChatManager" where
  "UnregisterSession sid cid m =
     (case go_get (tcSessions m) sid of
        None \<Rightarrow> (Inl (SessionMissing sid), m)
      | Some s \<Rightarrow> if tsConnectorID s \<noteq> cid then (Inl ConnectorMismatch, m) else (Inr (), drop_session sid cid m))"

definition online_info :: "ConnectorSession \<Rightarrow> ConnectorOnlineInfo" where
  "online_info s =
     \<lparr> oiConnectorID = tsConnectorID s, oiKernelID = tsKernelID s, oiAddress = tsAddress s, oiPort = tsPort s,
       oiEntityType = tsEntityType s, oiSessionID = tsSessionID s, oiLastHeartbeat = unix (tsLastHeartbeat s),
       oiRegisteredAt = unix (tsRegisteredAt s), oiExposeToOthers = tsExposeToOthers s \<rparr>"

definition listOnlineConnectorsLocked :: "time \<Rightarrow> string \<Rightarrow> TempChatManager \<Rightarrow> ConnectorOnlineInfo list" where
  "listOnlineConnectorsLocked now kid m =
     map online_info (filter (\<lambda>s. \<not> session_expired now m s \<and> tsExposeToOthers s \<and> (kid = [] \<or> tsKernelID s = kid))
       (map snd (tcSessions m)))"

definition ListOnlineConnectors :: "time \<Rightarrow> string \<Rightarrow> TempChatManager \<Rightarrow> ConnectorOnlineInfo list" where
  "ListOnlineConnectors now kid m = listOnlineConnectorsLocked now kid m"

definition GetLocalConnectors :: "time \<Rightarrow> TempChatManager \<Rightarrow> ConnectorOnlineInfo list" where
  "GetLocalConnectors now m = listOnlineConnectorsLocked now [] m"

definition GetRemoteConnectors :: "string \<Rightarrow> TempChatManager \<Rightarrow> ConnectorOnlineInfo list" where
  "GetRemoteConnectors kid m =
     (let source = (if kid \<noteq> [] then [(kid, case go_get (tcRemoteConnectors m) kid of None \<Rightarrow> [] | Some cs \<Rightarrow> cs)]
                    else tcRemoteConnectors m)
      in concat (map (\<lambda>(k, cs). filter oiExposeToOthers cs) source))"

definition SetRemoteConnectors :: "string \<Rightarrow> ConnectorOnlineInfo list \<Rightarrow> TempChatManager \<Rightarrow> TempChatManager" where
  "SetRemoteConnectors kid cs m = m\<lparr>tcRemoteConnectors := go_put kid cs (tcRemoteConnectors m)\<rparr>"

definition SetRemoteOpsConnection :: "time \<Rightarrow> string \<Rightarrow> string \<Rightarrow> int \<Rightarrow> TempChatManager \<Rightarrow> TempChatManager" where
  "SetRemoteOpsConnection now kid addr port m =
     m\<lparr>tcRemoteOps := go_put kid \<lparr> roKernelID = kid, roAddress = addr, roPort = port, roConnected = True,
                                   roLastSync = now \<rparr> (tcRemoteOps m)\<rparr>"

definition RemoveRemoteOpsConnection :: "string \<Rightarrow> TempChatManager \<Rightarrow> TempChatManager" where
  "RemoveRemoteOpsConnection kid m = m\<lparr>tcRemoteOps := go_del kid (tcRemoteOps m)\<rparr>"

definition GetRemoteKernels :: "TempChatManager \<Rightarrow> string list" where
  "GetRemoteKernels m = map fst (tcRemoteOps m)"

text \<open>
  \<^verbatim>\<open>IsRemoteConnected\<close> takes the read lock and releases the write lock, which the Go runtime stops the
  program for whatever the answer would have been.
\<close>

definition IsRemoteConnected :: "string \<Rightarrow> TempChatManager \<Rightarrow> chat_error + bool" where
  "IsRemoteConnected kid m = Inl PanicUnlock"

text \<open>
  \<^verbatim>\<open>SendMessage\<close> looks the session up under the lock and sends without it: \<open>send_to\<close> is the send on the
  channel of session \<open>sid\<close>, which has been closed if the session is gone.
\<close>

definition send_to :: "string \<Rightarrow> TempMessage \<Rightarrow> TempChatManager \<Rightarrow> (chat_error + unit) \<times> TempChatManager" where
  "send_to sid msg m =
     (case go_get (tcSessions m) sid of
        None \<Rightarrow> (Inl PanicClosedChannel, m)
      | Some s \<Rightarrow>
          if length (tsMessages s) \<ge> message_capacity then (Inl SendTimeout, m)
          else (Inr (), m\<lparr>tcSessions := go_put sid (s\<lparr>tsMessages := tsMessages s @ [msg]\<rparr>) (tcSessions m)\<rparr>))"

definition SendMessage :: "string \<Rightarrow> TempMessage \<Rightarrow> TempChatManager \<Rightarrow> (chat_error + unit) \<times> TempChatManager" where
  "SendMessage receiver msg m =
     (case GetSessionByConnector receiver m of
        Inl e \<Rightarrow> (Inl e, m)
      | Inr s \<Rightarrow> send_to (the (go_get (tcByConnector m) receiver)) msg m)"

definition DeliverMessage :: "string \<Rightarrow> TempMessage \<Rightarrow> TempChatManager \<Rightarrow> (chat_error + unit) \<times> TempChatManager" where
  "DeliverMessage receiver msg m = SendMessage receiver msg m"

definition GetSessionForP2P :: "string \<Rightarrow> TempChatManager \<Rightarrow> chat_error + TempMessage list" where
  "GetSessionForP2P receiver m =
     (case GetSessionByConnector receiver m of Inl e \<Rightarrow> Inl e | Inr s \<Rightarrow> Inr (tsMessages s))"

definition ReceiveMessages :: "string \<Rightarrow> string \<Rightarrow> TempChatManager \<Rightarrow> chat_error + TempMessage list" where
  "ReceiveMessages sid cid m =
     (case GetSession sid m of
        Inl e \<Rightarrow> Inl e
      | Inr s \<Rightarrow> if tsConnectorID s \<noteq> cid then Inl ConnectorMismatch else Inr (tsMessages s))"

text \<open>One message taken from the channel and sent to the connector's stream.\<close>

definition receive_one :: "string \<Rightarrow> TempChatManager \<Rightarrow> TempMessage option \<times> TempChatManager" where
  "receive_one sid m =
     (case go_get (tcSessions m) sid of
        None \<Rightarrow> (None, m)
      | Some s \<Rightarrow> (case tsMessages s of
                     [] \<Rightarrow> (None, m)
                   | x # xs \<Rightarrow> (Some x, m\<lparr>tcSessions := go_put sid (s\<lparr>tsMessages := xs\<rparr>) (tcSessions m)\<rparr>)))"

type_synonym 'w relay = "(string \<Rightarrow> string \<Rightarrow> string \<Rightarrow> 'w \<Rightarrow> bool \<times> 'w) option"

definition route_target :: "string \<Rightarrow> string \<times> string" where
  "route_target receiver =
     (if has_colon receiver then (kernel_part receiver, connector_part receiver) else (receiver, receiver))"

definition RouteMessage ::
    "'w relay \<Rightarrow> time \<Rightarrow> string \<Rightarrow> string \<Rightarrow> string \<Rightarrow> string \<Rightarrow> string \<Rightarrow> string \<Rightarrow> TempChatManager \<Rightarrow> 'w \<Rightarrow>
     (chat_error + string) \<times> TempChatManager \<times> 'w" where
  "RouteMessage relay now mid sender sender_kernel receiver payload flow m w =
     (case GetSessionByConnector receiver m of
        Inr s \<Rightarrow>
          (case SendMessage receiver \<lparr> tmMessageID = mid, tmSenderID = sender, tmReceiverID = receiver, tmPayload = payload,
                  tmTimestamp = unix now, tmFlowID = flow, tmSourceKernelID = sender_kernel \<rparr> m of
             (Inl e, m') \<Rightarrow> (Inl e, m', w)
           | (Inr u, m') \<Rightarrow> (Inr mid, m', w))
      | Inl e \<Rightarrow>
          (case route_target receiver of
             (kid, cid) \<Rightarrow>
               if kid \<noteq> [] \<and> kid \<noteq> tcKernelID m then
                 (case relay of
                    None \<Rightarrow> (Inl RelayUnconfigured, m, w)
                  | Some f \<Rightarrow> (case f kid cid payload w of
                                 (ok, w') \<Rightarrow> if ok then (Inr mid, m, w') else (Inl RelayFailed, m, w')))
               else (Inl NoTarget, m, w)))"

section \<open>The service\<close>

definition RegisterTempSession :: "time \<Rightarrow> string \<Rightarrow> RegisterRequest \<Rightarrow> TempChatManager \<Rightarrow> (bool \<times> string) \<times> TempChatManager" where
  "RegisterTempSession now sid req m =
     (case RegisterSession now sid req m of (s, m') \<Rightarrow> ((True, tsSessionID s), m'))"

definition TempSessionHeartbeat :: "time \<Rightarrow> string \<Rightarrow> string \<Rightarrow> TempChatManager \<Rightarrow> bool \<times> TempChatManager" where
  "TempSessionHeartbeat now sid cid m =
     (case Heartbeat now sid cid m of (Inl e, m') \<Rightarrow> (False, m') | (Inr u, m') \<Rightarrow> (True, m'))"

definition UnregisterTempSession :: "string \<Rightarrow> string \<Rightarrow> TempChatManager \<Rightarrow> bool \<times> TempChatManager" where
  "UnregisterTempSession sid cid m =
     (case UnregisterSession sid cid m of (Inl e, m') \<Rightarrow> (False, m') | (Inr u, m') \<Rightarrow> (True, m'))"

definition ServiceListOnlineConnectors :: "time \<Rightarrow> string \<Rightarrow> bool \<Rightarrow> TempChatManager \<Rightarrow> ConnectorOnlineInfo list" where
  "ServiceListOnlineConnectors now kid include_remote m =
     (let cs = GetLocalConnectors now m @ (if include_remote then GetRemoteConnectors kid m else [])
      in if kid \<noteq> [] then filter (\<lambda>c. oiKernelID c = kid) cs else cs)"

definition SendTempMessage ::
    "'w relay \<Rightarrow> time \<Rightarrow> string \<Rightarrow> string \<Rightarrow> string \<Rightarrow> string \<Rightarrow> string \<Rightarrow> TempChatManager \<Rightarrow> 'w \<Rightarrow>
     (bool \<times> string) \<times> TempChatManager \<times> 'w" where
  "SendTempMessage relay now mid sender receiver payload flow m w =
     (case RouteMessage relay now mid sender (tcKernelID m) receiver payload flow m w of
        (Inl e, mw) \<Rightarrow> ((False, []), mw)
      | (Inr i, mw) \<Rightarrow> ((True, i), mw))"

definition ForwardTempMessage ::
    "'w relay \<Rightarrow> time \<Rightarrow> string \<Rightarrow> string \<Rightarrow> string \<Rightarrow> string \<Rightarrow> string \<Rightarrow> string \<Rightarrow> TempChatManager \<Rightarrow> 'w \<Rightarrow>
     bool \<times> TempChatManager \<times> 'w" where
  "ForwardTempMessage relay now mid sender sender_kernel receiver payload flow m w =
     (case RouteMessage relay now mid sender sender_kernel receiver payload flow m w of
        (Inl e, mw) \<Rightarrow> (False, mw)
      | (Inr i, mw) \<Rightarrow> (True, mw))"

text \<open>The synchronised list itself is not stored.\<close>

definition SyncOnlineConnectors :: "time \<Rightarrow> string \<Rightarrow> ConnectorOnlineInfo list \<Rightarrow> TempChatManager \<Rightarrow> TempChatManager" where
  "SyncOnlineConnectors now source cs m = SetRemoteOpsConnection now source [] 0 m"

section \<open>Lemmas\<close>

declare map_of_eq_Some_iff [simp del]

text \<open>The two tables agree, and no channel holds more than its capacity.\<close>

definition sessions_ok :: "TempChatManager \<Rightarrow> bool" where
  "sessions_ok m \<longleftrightarrow> go_map_ok (tcSessions m) \<and>
     (\<forall>sid s. go_get (tcSessions m) sid = Some s \<longrightarrow> tsSessionID s = sid \<and>
        go_get (tcByConnector m) (tsConnectorID s) = Some sid \<and> length (tsMessages s) \<le> message_capacity) \<and>
     (\<forall>cid sid. go_get (tcByConnector m) cid = Some sid \<longrightarrow>
        (\<exists>s. go_get (tcSessions m) sid = Some s \<and> tsConnectorID s = cid))"

lemma sessions_ok_update:
  assumes "sessions_ok m" and "go_get (tcSessions m) sid = Some s" and "tsSessionID s' = tsSessionID s"
    and "tsConnectorID s' = tsConnectorID s" and "length (tsMessages s') \<le> message_capacity"
  shows "sessions_ok (m\<lparr>tcSessions := go_put sid s' (tcSessions m)\<rparr>)"
  using assms unfolding sessions_ok_def by (fastforce simp: gomap_simps split: if_splits)

lemma sessions_ok_new:
  assumes "sessions_ok m" and "go_get (tcSessions m) sid = None" and "go_get (tcByConnector m) cid = None"
    and "tsSessionID s = sid" and "tsConnectorID s = cid" and "tsMessages s = []"
  shows "sessions_ok (m\<lparr>tcSessions := go_put sid s (tcSessions m), tcByConnector := go_put cid sid (tcByConnector m)\<rparr>)"
  using assms unfolding sessions_ok_def by (fastforce simp: gomap_simps message_capacity_def split: if_splits)

lemma sessions_ok_drop:
  assumes "sessions_ok m" and "go_get (tcSessions m) sid = Some s"
  shows "sessions_ok (drop_session sid (tsConnectorID s) m)"
proof -
  have bij: "go_get (tcByConnector m) (tsConnectorID s') = Some sid'" if "go_get (tcSessions m) sid' = Some s'" for sid' s'
    using assms(1) that by (simp add: sessions_ok_def)
  have "tsConnectorID s' \<noteq> tsConnectorID s" if "go_get (tcSessions m) sid' = Some s'" "sid' \<noteq> sid" for sid' s'
    using bij [OF that(1)] bij [OF assms(2)] that(2) by auto
  with assms show ?thesis
    unfolding sessions_ok_def drop_session_def by (auto simp: gomap_simps) (metis option.inject)
qed

lemma by_connector_session:
  "sessions_ok m \<Longrightarrow> go_get (tcByConnector m) cid = Some sid \<Longrightarrow>
     \<exists>s. go_get (tcSessions m) sid = Some s \<and> tsConnectorID s = cid"
  by (simp add: sessions_ok_def)

lemma GetSessionByConnector_Inr:
  "GetSessionByConnector cid m = Inr s \<longleftrightarrow>
     (\<exists>sid. go_get (tcByConnector m) cid = Some sid \<and> go_get (tcSessions m) sid = Some s)"
  by (auto simp: GetSessionByConnector_def GetSession_def split: option.splits)

lemma GetSessionByConnector_Inl:
  "sessions_ok m \<Longrightarrow> GetSessionByConnector cid m = Inl e \<Longrightarrow>
     go_get (tcByConnector m) cid = None \<and> e = ConnectorUnregistered cid"
  using by_connector_session by (fastforce simp: GetSessionByConnector_def GetSession_def split: option.splits)

lemma register_ok:
  assumes "sessions_ok m" and "go_get (tcSessions m) sid = None"
  shows "sessions_ok (snd (RegisterSession now sid req m))"
proof (cases "GetSessionByConnector (rqConnectorID req) m")
  case (Inl e)
  then show ?thesis
    using GetSessionByConnector_Inl [OF assms(1) Inl] assms
    by (auto simp: RegisterSession_def Let_def new_session_def intro!: sessions_ok_new)
next
  case (Inr s)
  then obtain k where k: "go_get (tcByConnector m) (rqConnectorID req) = Some k" "go_get (tcSessions m) k = Some s"
    by (auto simp: GetSessionByConnector_Inr)
  have "length (tsMessages s) \<le> message_capacity" using assms(1) k(2) by (simp add: sessions_ok_def)
  then show ?thesis
    using sessions_ok_update [OF assms(1) k(2), of "refresh_session now req s"]
    by (simp add: RegisterSession_def Inr k(1) Let_def refresh_session_def)
qed

lemma heartbeat_ok: "sessions_ok m \<Longrightarrow> sessions_ok (snd (Heartbeat now sid cid m))"
  by (auto simp: Heartbeat_def split: option.splits intro!: sessions_ok_update)
    (simp add: sessions_ok_def)

lemma unregister_ok: "sessions_ok m \<Longrightarrow> sessions_ok (snd (UnregisterSession sid cid m))"
  by (auto simp: UnregisterSession_def split: option.splits intro: sessions_ok_drop)

lemma send_to_ok: "sessions_ok m \<Longrightarrow> sessions_ok (snd (send_to sid msg m))"
  by (auto simp: send_to_def split: option.splits intro!: sessions_ok_update)

lemma SendMessage_ok: "sessions_ok m \<Longrightarrow> sessions_ok (snd (SendMessage receiver msg m))"
  by (auto simp: SendMessage_def send_to_ok split: sum.split)

lemma RouteMessage_ok:
  "sessions_ok m \<Longrightarrow> sessions_ok (fst (snd (RouteMessage relay now mid sender sk receiver payload flow m w)))"
proof -
  assume m: "sessions_ok m"
  have "sessions_ok m'" if "SendMessage receiver msg m = (r, m')" for msg r m'
    using SendMessage_ok [OF m, of receiver msg] that by simp
  then show ?thesis
    using m by (auto simp: RouteMessage_def split: sum.splits prod.splits option.splits)
qed

lemma receive_one_ok: "sessions_ok m \<Longrightarrow> sessions_ok (snd (receive_one sid m))"
proof -
  assume m: "sessions_ok m"
  have "length (tsMessages s) \<le> message_capacity" if "go_get (tcSessions m) sid = Some s" for s
    using m that by (simp add: sessions_ok_def)
  then show ?thesis
    using m by (auto simp: receive_one_def split: option.splits list.splits intro!: sessions_ok_update)
qed

text \<open>Cleaning up: the sessions that are visited are all still in the table.\<close>

lemma cleanup_fold:
  fixes expired :: "ConnectorSession \<Rightarrow> bool"
  assumes "sessions_ok m" and "distinct (map fst xs)" and "\<forall>(sid, s) \<in> set xs. go_get (tcSessions m) sid = Some s"
  defines "m' \<equiv> foldl (\<lambda>m' (sid, s). if expired s then drop_session sid (tsConnectorID s) m' else m') m xs"
  shows "sessions_ok m' \<and> (\<forall>sid. go_get (tcSessions m') sid =
    (if \<exists>s. (sid, s) \<in> set xs \<and> expired s then None else go_get (tcSessions m) sid))"
  using assms(1-3) unfolding m'_def
proof (induction xs arbitrary: m)
  case (Cons x xs)
  obtain k s where x: "x = (k, s)" by (cases x)
  let ?m = "if expired s then drop_session k (tsConnectorID s) m else m"
  have ok: "sessions_ok ?m" using Cons.prems by (auto simp: x intro: sessions_ok_drop)
  have "\<forall>(sid, s) \<in> set xs. go_get (tcSessions ?m) sid = Some s"
    using Cons.prems(2,3) by (force simp: x drop_session_def gomap_simps)
  from Cons.IH [OF ok _ this] Cons.prems(2)
  show ?case by (auto simp: x drop_session_def gomap_simps)
qed simp

lemma cleanup_sessions:
  assumes "sessions_ok m"
  shows "sessions_ok (cleanupExpiredSessions now m)"
    and "go_get (tcSessions (cleanupExpiredSessions now m)) sid =
      (case go_get (tcSessions m) sid of None \<Rightarrow> None | Some s \<Rightarrow> if session_expired now m s then None else Some s)"
proof -
  have d: "go_map_ok (tcSessions m)" using assms by (simp add: sessions_ok_def)
  then have e: "\<forall>(sid, s) \<in> set (tcSessions m). go_get (tcSessions m) sid = Some s" by (auto simp: go_get_mem)
  note f = cleanup_fold [OF assms d e, of "session_expired now m", folded cleanupExpiredSessions_def]
  have mem: "(sid, s) \<in> set (tcSessions m) \<longleftrightarrow> go_get (tcSessions m) sid = Some s" for sid s
    using go_get_mem [OF d] by blast
  from f show "sessions_ok (cleanupExpiredSessions now m)" by blast
  show "go_get (tcSessions (cleanupExpiredSessions now m)) sid =
      (case go_get (tcSessions m) sid of None \<Rightarrow> None | Some s \<Rightarrow> if session_expired now m s then None else Some s)"
    using f by (auto simp: mem split: option.split)
qed

section \<open>The machine of sessions\<close>

text \<open>The relay acts on its own state only, so a step that routes needs no relay.\<close>

lemma RouteMessage_state:
  "fst (snd (RouteMessage relay now mid sender sk receiver payload flow m w)) =
   fst (snd (RouteMessage (None :: unit relay) now mid sender sk receiver payload flow m ()))"
  by (auto simp: RouteMessage_def split: sum.splits prod.splits option.splits)

inductive chat_step :: "TempChatManager \<Rightarrow> TempChatManager \<Rightarrow> bool" where
  chat_register: "go_get (tcSessions m) sid = None \<Longrightarrow> chat_step m (snd (RegisterSession now sid req m))"
| chat_heartbeat: "chat_step m (snd (Heartbeat now sid cid m))"
| chat_unregister: "chat_step m (snd (UnregisterSession sid cid m))"
| chat_cleanup: "chat_step m (cleanupExpiredSessions now m)"
| chat_send: "chat_step m (snd (send_to sid msg m))"
| chat_route: "chat_step m (fst (snd (RouteMessage (None :: unit relay) now mid sender sk receiver payload flow m ())))"
| chat_receive: "chat_step m (snd (receive_one sid m))"

definition chat_init :: "TempChatManager \<Rightarrow> bool" where
  "chat_init m \<longleftrightarrow> (\<exists>kid timeout. m = NewTempChatManager kid timeout)"

lemma chat_step_ok: "chat_step m m' \<Longrightarrow> sessions_ok m \<Longrightarrow> sessions_ok m'"
  by (induction rule: chat_step.induct)
    (auto intro: register_ok heartbeat_ok unregister_ok cleanup_sessions(1) send_to_ok RouteMessage_ok receive_one_ok)

interpretation chat: invariant_system chat_init chat_step sessions_ok
proof unfold_locales
  show "chat_init m \<Longrightarrow> sessions_ok m" for m
    by (auto simp: chat_init_def NewTempChatManager_def sessions_ok_def)
qed (rule chat_step_ok)

section \<open>Properties\<close>

definition demo_request :: "string \<Rightarrow> RegisterRequest" where
  "demo_request c = \<lparr> rqConnectorID = c, rqKernelID = ''k1'', rqAddress = ''10.0.0.1'', rqPort = 7, rqEntityType = ''t'',
     rqExposeToOthers = True \<rparr>"

definition demo_chat :: TempChatManager where
  "demo_chat = snd (RegisterSession 0 ''s1'' (demo_request ''a'') (NewTempChatManager ''k1'' 60))"

lemma demo_chat_eq:
  "demo_chat = (NewTempChatManager ''k1'' 60)\<lparr>tcSessions := [(''s1'', new_session 0 ''s1'' (demo_request ''a''))], tcByConnector := [(''a'', ''s1'')]\<rparr>"
  by (simp add: demo_chat_def RegisterSession_def GetSessionByConnector_def NewTempChatManager_def demo_request_def Let_def)

lemma demo_chat_reach: "reach chat_init chat_step demo_chat"
  unfolding demo_chat_def
  by (rule reach_step, rule reach_init, unfold chat_init_def, blast, rule chat_register, simp add: NewTempChatManager_def)

text \<open>
  C36. In every state the operations can reach, in whatever order they run, a connector has at most one session:
  the table by connector names a session exactly if that session exists and belongs to the connector,
  every session is stored under its own identifier, and no session holds more than a hundred messages.
\<close>

theorem chat_sessions_consistent:
  assumes "reach chat_init chat_step m"
  shows "(go_get (tcByConnector m) cid = Some sid \<longleftrightarrow> (\<exists>s. go_get (tcSessions m) sid = Some s \<and> tsConnectorID s = cid))
    \<and> (\<forall>s. go_get (tcSessions m) sid = Some s \<longrightarrow> tsSessionID s = sid \<and> length (tsMessages s) \<le> 100)"
  using chat.reach_inv [OF assms] by (auto simp: sessions_ok_def message_capacity_def)

theorem chat_sessions_consistent_witness: "go_get (tcByConnector demo_chat) ''a'' = Some ''s1''"
proof -
  have "\<exists>s. go_get (tcSessions demo_chat) ''s1'' = Some s \<and> tsConnectorID s = ''a''"
    by (simp add: demo_chat_eq new_session_def demo_request_def)
  then show ?thesis using chat_sessions_consistent [OF demo_chat_reach, of "''a''" "''s1''"] by blast
qed

text \<open>
  Routing a message, on every branch.  A registered receiver gets the message at the end of its channel, or
  the sender a timeout error if the channel is full, and no other session changes.  For an unregistered
  receiver nothing changes here: the message goes to the relay if the receiver names another kernel
  (a name without colon is taken for the kernel's), and otherwise is refused, also when it names a
  connector of this kernel by its qualified name.
\<close>

theorem route_message_result:
  fixes relay :: "'w relay" and w :: "'w" and now :: time and mid sender sk receiver payload flow :: string
  assumes "reach chat_init chat_step m"
  defines "res \<equiv> RouteMessage relay now mid sender sk receiver payload flow m w"
    and "msg \<equiv> \<lparr> tmMessageID = mid, tmSenderID = sender, tmReceiverID = receiver, tmPayload = payload,
                  tmTimestamp = unix now, tmFlowID = flow, tmSourceKernelID = sk \<rparr>"
    and "kid \<equiv> if has_colon receiver then kernel_part receiver else receiver"
    and "cid \<equiv> if has_colon receiver then connector_part receiver else receiver"
  shows "(\<forall>sid s. go_get (tcByConnector m) receiver = Some sid \<longrightarrow> go_get (tcSessions m) sid = Some s \<longrightarrow>
      (if length (tsMessages s) < 100
       then res = (Inr mid, m\<lparr>tcSessions := go_put sid (s\<lparr>tsMessages := tsMessages s @ [msg]\<rparr>) (tcSessions m)\<rparr>, w)
       else res = (Inl SendTimeout, m, w)))
    \<and> (go_get (tcByConnector m) receiver = None \<longrightarrow>
      res = (if kid = [] \<or> kid = tcKernelID m then (Inl NoTarget, m, w)
             else case relay of
                    None \<Rightarrow> (Inl RelayUnconfigured, m, w)
                  | Some f \<Rightarrow> (if fst (f kid cid payload w) then Inr mid else Inl RelayFailed, m, snd (f kid cid payload w))))"
proof (intro conjI allI impI)
  fix sid s
  assume sid: "go_get (tcByConnector m) receiver = Some sid" and s: "go_get (tcSessions m) sid = Some s"
  then have "GetSessionByConnector receiver m = Inr s" by (simp add: GetSessionByConnector_Inr)
  then show "if length (tsMessages s) < 100
      then res = (Inr mid, m\<lparr>tcSessions := go_put sid (s\<lparr>tsMessages := tsMessages s @ [msg]\<rparr>) (tcSessions m)\<rparr>, w)
      else res = (Inl SendTimeout, m, w)"
    using sid s by (simp add: res_def msg_def RouteMessage_def SendMessage_def send_to_def message_capacity_def)
next
  assume "go_get (tcByConnector m) receiver = None"
  then have "GetSessionByConnector receiver m = Inl (ConnectorUnregistered receiver)"
    by (simp add: GetSessionByConnector_def)
  moreover have "route_target receiver = (kid, cid)" by (simp add: route_target_def kid_def cid_def)
  ultimately show "res = (if kid = [] \<or> kid = tcKernelID m then (Inl NoTarget, m, w)
      else case relay of
             None \<Rightarrow> (Inl RelayUnconfigured, m, w)
           | Some f \<Rightarrow> (if fst (f kid cid payload w) then Inr mid else Inl RelayFailed, m, snd (f kid cid payload w)))"
    by (auto simp: res_def RouteMessage_def split: option.split prod.split)
qed

theorem route_message_result_witness:
  "fst (RouteMessage None 0 ''m'' ''b'' ''k1'' ''a'' ''hi'' ''f'' demo_chat ()) = Inr ''m''
   \<and> fst (RouteMessage None 0 ''m'' ''b'' ''k1'' (qualify ''k1'' ''a'') ''hi'' ''f'' demo_chat ()) = Inl NoTarget"
proof -
  have "go_get (tcByConnector demo_chat) ''a'' = Some ''s1''"
      "go_get (tcSessions demo_chat) ''s1'' = Some (new_session 0 ''s1'' (demo_request ''a''))"
      "length (tsMessages (new_session 0 ''s1'' (demo_request ''a''))) < 100"
      "go_get (tcByConnector demo_chat) (qualify ''k1'' ''a'') = None" "tcKernelID demo_chat = ''k1''"
      "kernel_part (qualify ''k1'' ''a'') = ''k1''"
    by (simp_all add: demo_chat_eq new_session_def qualify_def kernel_part_def NewTempChatManager_def)
  then show ?thesis
    using route_message_result [OF demo_chat_reach, where receiver = "''a''" and relay = None and w = "()"]
      route_message_result [OF demo_chat_reach, where receiver = "qualify ''k1'' ''a''" and relay = None and w = "()"]
    by simp
qed

text \<open>
  After a cleaning at time \<open>now\<close>, a connector is found exactly if it was registered and its last heartbeat
  is not older than the session timeout.
\<close>

theorem cleanup_keeps_alive:
  assumes "reach chat_init chat_step m"
  shows "GetSessionByConnector cid (cleanupExpiredSessions now m) = Inr s \<longleftrightarrow>
    GetSessionByConnector cid m = Inr s \<and> now - tsLastHeartbeat s \<le> seconds (tcSessionTimeout m)"
proof -
  have ok: "sessions_ok m" by (rule chat.reach_inv [OF assms])
  note c = cleanup_sessions [OF ok, of now]
  have by_conn: "go_get (tcByConnector m') cid = Some sid \<longleftrightarrow> (\<exists>s. go_get (tcSessions m') sid = Some s \<and> tsConnectorID s = cid)"
    if "sessions_ok m'" for m' sid
    using that by (auto simp: sessions_ok_def)
  show ?thesis
    unfolding GetSessionByConnector_Inr by_conn [OF ok] by_conn [OF c(1)] c(2)
    by (auto simp: session_expired_def split: option.splits if_splits)
qed

theorem cleanup_keeps_alive_witness:
  "(\<exists>s. GetSessionByConnector ''a'' (cleanupExpiredSessions (seconds 60) demo_chat) = Inr s)
   \<and> (\<nexists>s. GetSessionByConnector ''a'' (cleanupExpiredSessions (seconds 61) demo_chat) = Inr s)"
proof -
  let ?s = "new_session 0 ''s1'' (demo_request ''a'')"
  have g: "GetSessionByConnector ''a'' demo_chat = Inr ?s" "tcSessionTimeout demo_chat = 60" "tsLastHeartbeat ?s = 0"
    by (simp_all add: demo_chat_eq GetSessionByConnector_def GetSession_def NewTempChatManager_def new_session_def)
  show ?thesis
    using cleanup_keeps_alive [OF demo_chat_reach, of "''a''" "seconds 60"] cleanup_keeps_alive [OF demo_chat_reach, of "''a''" "seconds 61"] g
    by (auto simp: seconds_def)
qed

text \<open>
  A message sent while its receiver's session is removed stops the kernel: between looking the session up and
  sending, the session can be unregistered or cleaned up, which closes its channel.
\<close>

theorem send_race_panics:
  assumes "GetSessionByConnector receiver m = Inr s" and "go_get (tcByConnector m) receiver = Some sid"
    and "UnregisterSession sid receiver m = (Inr (), m')"
  shows "send_to sid msg m' = (Inl PanicClosedChannel, m')"
  using assms by (auto simp: UnregisterSession_def drop_session_def send_to_def gomap_simps split: option.splits if_splits)

definition demo_message :: TempMessage where
  "demo_message = \<lparr> tmMessageID = ''m'', tmSenderID = ''b'', tmReceiverID = ''a'', tmPayload = ''hi'', tmTimestamp = 0,
     tmFlowID = [], tmSourceKernelID = ''k1'' \<rparr>"

theorem send_race_panics_witness:
  "\<exists>m'. UnregisterSession ''s1'' ''a'' demo_chat = (Inr (), m') \<and> fst (send_to ''s1'' demo_message m') = Inl PanicClosedChannel"
proof -
  have g: "GetSessionByConnector ''a'' demo_chat = Inr (new_session 0 ''s1'' (demo_request ''a''))"
      "go_get (tcByConnector demo_chat) ''a'' = Some ''s1''"
    by (simp_all add: demo_chat_eq GetSessionByConnector_def GetSession_def)
  obtain m' where m': "UnregisterSession ''s1'' ''a'' demo_chat = (Inr (), m')"
    by (simp add: UnregisterSession_def demo_chat_eq new_session_def demo_request_def)
  show ?thesis using m' send_race_panics [OF g m'] by auto
qed

end
