(* ===== verification/Peer_Manager.thy ===== *)
theory Peer_Manager
  imports Temp_Chat Packet_Codec
begin

text \<open>
  Connections between the operators of kernels (\<^verbatim>\<open>kernel/operator_peer/manager.go\<close>, \<^verbatim>\<open>client.go\<close> and
  \<^verbatim>\<open>server.go\<close>): the table of peers, the client and the server end of a connection, the handshake, the
  exchange of online connectors, and the relay of chat messages that \<^verbatim>\<open>kernel/cmd/main.go\<close> installs.

  Sockets are numbers; \<open>pmOpen\<close> holds those open at this end.  Clients and accepted connections are
  shared by the goroutines that serve them and the tables that name them, so both live in a store
  (\<open>pmClients\<close>, \<open>pmAccepted\<close>) and are referred to by their position.  A packet is its payload as
  \<^verbatim>\<open>JSONUnmarshal\<close> reads it (\<open>wire\<close>); the framing is the business of the packet codec and trace
  identifiers are left out.  The network is the argument \<open>net\<close>: whether dialling an address gives a
  socket, whether a packet can be written (the size limit of \<^verbatim>\<open>Encode\<close> included), and what is read back
  during a handshake.  Operations return the packets they sent, with their sockets.
\<close>

section \<open>Packets and state\<close>

record HandshakePayload =
  hsKernelID :: string
  hsKernelAddr :: string
  hsKernelPort :: int
  hsPeerPort :: int
  hsVersion :: string
  hsTimestamp :: int

record HandshakeAckPayload =
  haSuccess :: bool
  haMessage :: string
  haKernelID :: string
  haVersion :: string
  haTimestamp :: int

record SyncConnectorsPayload =
  sySourceKernelID :: string
  syConnectors :: "ConnectorOnlineInfo list"
  syTimestamp :: int

datatype relay_text = TextOK | TextOf chat_error | TextNotFound string string

record SyncConnectorsAckPayload =
  saSuccess :: bool
  saMessage :: string
  saRemoteConnectors :: "ConnectorOnlineInfo list"
  saTimestamp :: int

record RelayMessagePayload =
  rmMessageID :: string
  rmSenderID :: string
  rmSenderKernelID :: string
  rmReceiverID :: string
  rmPayload :: string
  rmTimestamp :: int
  rmFlowID :: string

record RelayMessageAckPayload =
  raSuccess :: bool
  raMessage :: relay_text
  raMessageID :: string
  raDeliveredAt :: int

record HeartbeatPayload =
  hbKernelID :: string
  hbTimestamp :: int
  hbConnectedConnectors :: int
  hbActivePeers :: int

record HeartbeatAckPayload =
  hkSuccess :: bool
  hkKernelID :: string
  hkTimestamp :: int
  hkConnectedConnectors :: int
  hkActivePeers :: int

datatype wire =
  WHandshake HandshakePayload | WHandshakeAck HandshakeAckPayload
| WSyncConnectors SyncConnectorsPayload | WSyncAck SyncConnectorsAckPayload
| WRelayMessage RelayMessagePayload | WRelayMessageAck RelayMessageAckPayload
| WHeartbeat HeartbeatPayload | WHeartbeatAck HeartbeatAckPayload
| WDisconnect string string
| WMalformed PacketType | WUnknown nat

record PeerClient =
  pcLocalKernelID :: string
  pcLocalAddr :: string
  pcLocalPort :: int
  pcPeerPort :: int
  pcConn :: "nat option"
  pcWriter :: "nat option"
  pcPeerKernelID :: string
  pcPeerAddr :: string
  pcConnected :: bool
  pcStatus :: string
  pcStopped :: bool

record PeerInfo =
  piKernelID :: string
  piAddress :: string
  piPort :: int
  piStatus :: string
  piConnectedAt :: time
  piClient :: "nat option"

record PeerConnection =
  pnSocket :: nat
  pnPeerKernelID :: string
  pnPeerAddr :: string
  pnConnectedAt :: time
  pnLastActive :: int
  pnClosed :: bool

record P2PManager =
  pmKernelID :: string
  pmLocalKernelAddr :: string
  pmLocalKernelPort :: int
  pmRunning :: bool
  pmStopClosed :: bool
  pmPeers :: "PeerInfo gomap"
  pmServerPeers :: "nat gomap"
  pmClients :: "PeerClient list"
  pmAccepted :: "PeerConnection list"
  pmOpen :: "nat set"

record net =
  ntDial :: "string \<Rightarrow> nat option"
  ntWrite :: "nat \<Rightarrow> wire \<Rightarrow> bool"
  ntReply :: "nat \<Rightarrow> wire option"

type_synonym sent = "(nat \<times> wire) list"
type_synonym provider = "(string \<Rightarrow> (string \<times> int) option) option"

datatype peer_error =
  AlreadyRunning | ListenFailed | AlreadyConnected | DialFailed | HandshakeFailed | PeerNotFound | NoProvider
| KernelUnknown | NotConnected | WriteFailed

abbreviation ProtocolVersion :: string where
  "ProtocolVersion \<equiv> ''1.0.0''"

definition NewP2PManager :: "string \<Rightarrow> string \<Rightarrow> int \<Rightarrow> P2PManager" where
  "NewP2PManager kid addr port =
     \<lparr> pmKernelID = kid, pmLocalKernelAddr = addr, pmLocalKernelPort = port, pmRunning = False, pmStopClosed = False,
       pmPeers = [], pmServerPeers = [], pmClients = [], pmAccepted = [], pmOpen = {} \<rparr>"

text \<open>An \<^verbatim>\<open>int\<close> stored in an \<^verbatim>\<open>int32\<close> field.\<close>

definition int32 :: "int \<Rightarrow> int" where
  "int32 i = sint (word_of_int i :: 32 word)"

text \<open>\<^verbatim>\<open>net.SplitHostPort\<close> (its second result) and \<^verbatim>\<open>strconv.Atoi\<close>.\<close>

definition split_port :: "string \<Rightarrow> string option" where
  "split_port s =
     (if \<not> has_colon s then None
      else if hd s = CHR ''['' then
        (case dropWhile (\<lambda>c. c \<noteq> CHR '']'') (tl s) of
           [] \<Rightarrow> None
         | _ # r \<Rightarrow>
             if r = CHR '':'' # raw_id s \<and> CHR ''['' \<notin> set (tl s) \<and> CHR '']'' \<notin> set r then Some (raw_id s) else None)
      else if has_colon (take (length s - length (raw_id s) - 1) s) \<or> CHR ''['' \<in> set s \<or> CHR '']'' \<in> set s then None
      else Some (raw_id s))"

definition is_digit :: "char \<Rightarrow> bool" where
  "is_digit c \<longleftrightarrow> 48 \<le> (of_char c :: nat) \<and> (of_char c :: nat) \<le> 57"

definition Atoi :: "string \<Rightarrow> int option" where
  "Atoi s =
     (let body = (if s \<noteq> [] \<and> (hd s = CHR ''-'' \<or> hd s = CHR ''+'') then tl s else s);
          v = (if s \<noteq> [] \<and> hd s = CHR ''-'' then - int (digits_value body) else int (digits_value body))
      in if body = [] \<or> \<not> list_all is_digit body \<or> v < - (2 ^ 63) \<or> v \<ge> 2 ^ 63 then None else Some v)"

section \<open>Clients\<close>

definition NewPeerClient :: "string \<Rightarrow> string \<Rightarrow> int \<Rightarrow> string \<Rightarrow> PeerClient" where
  "NewPeerClient kid addr port peer_addr =
     \<lparr> pcLocalKernelID = kid, pcLocalAddr = addr, pcLocalPort = port,
       pcPeerPort = (case split_port peer_addr of
                       None \<Rightarrow> 0
                     | Some p \<Rightarrow> (case Atoi p of None \<Rightarrow> 0 | Some n \<Rightarrow> n)),
       pcConn = None, pcWriter = None, pcPeerKernelID = [], pcPeerAddr = [], pcConnected = False,
       pcStatus = ''disconnected'', pcStopped = False \<rparr>"

definition newPeerClientFromConn :: "string \<Rightarrow> string \<Rightarrow> int \<Rightarrow> nat \<Rightarrow> string \<Rightarrow> string \<Rightarrow> PeerClient" where
  "newPeerClientFromConn kid addr port c remote peer =
     \<lparr> pcLocalKernelID = kid, pcLocalAddr = addr, pcLocalPort = port, pcPeerPort = 0, pcConn = Some c, pcWriter = Some c,
       pcPeerKernelID = peer, pcPeerAddr = remote, pcConnected = True, pcStatus = ''connected'', pcStopped = False \<rparr>"

definition set_client :: "nat \<Rightarrow> PeerClient \<Rightarrow> P2PManager \<Rightarrow> P2PManager" where
  "set_client i c pm = pm\<lparr>pmClients := (pmClients pm)[i := c]\<rparr>"

definition close_socket :: "nat option \<Rightarrow> P2PManager \<Rightarrow> P2PManager" where
  "close_socket c pm = (case c of None \<Rightarrow> pm | Some s \<Rightarrow> pm\<lparr>pmOpen := pmOpen pm - {s}\<rparr>)"

definition write_packet :: "net \<Rightarrow> nat option \<Rightarrow> wire \<Rightarrow> P2PManager \<Rightarrow> sent option" where
  "write_packet net c w pm =
     (case c of
        None \<Rightarrow> None
      | Some s \<Rightarrow> if s \<in> pmOpen pm \<and> ntWrite net s w then Some [(s, w)] else None)"

definition Close :: "net \<Rightarrow> nat \<Rightarrow> P2PManager \<Rightarrow> P2PManager \<times> sent" where
  "Close net i pm =
     (let c = pmClients pm ! i in
      if pcStopped c then (pm, [])
      else (set_client i (c\<lparr>pcStopped := True, pcConn := None, pcConnected := False, pcStatus := ''disconnected''\<rparr>)
              (close_socket (pcConn c) pm),
            (if pcConn c = None then []
             else (case write_packet net (pcWriter c) (WDisconnect (pcLocalKernelID c) ''normal_close'') pm of
                     None \<Rightarrow> [] | Some out \<Rightarrow> out))))"

definition handshake_payload :: "time \<Rightarrow> PeerClient \<Rightarrow> HandshakePayload" where
  "handshake_payload now c =
     \<lparr> hsKernelID = pcLocalKernelID c, hsKernelAddr = pcLocalAddr c, hsKernelPort = int32 (pcLocalPort c),
       hsPeerPort = int32 (pcPeerPort c), hsVersion = ProtocolVersion, hsTimestamp = unix now \<rparr>"

text \<open>\<^verbatim>\<open>sendHandshake\<close>: the kernel that answered, or no success.\<close>

definition sendHandshake :: "net \<Rightarrow> time \<Rightarrow> PeerClient \<Rightarrow> P2PManager \<Rightarrow> string option \<times> sent" where
  "sendHandshake net now c pm =
     (case write_packet net (pcWriter c) (WHandshake (handshake_payload now c)) pm of
        None \<Rightarrow> (None, [])
      | Some out \<Rightarrow>
          (case ntReply net (the (pcWriter c)) of
             Some (WHandshakeAck ack) \<Rightarrow> (if haSuccess ack then Some (haKernelID ack) else None, out)
           | _ \<Rightarrow> (None, out)))"

definition Connect :: "net \<Rightarrow> time \<Rightarrow> string \<Rightarrow> nat \<Rightarrow> P2PManager \<Rightarrow> (peer_error + string) \<times> P2PManager \<times> sent" where
  "Connect net now target i pm =
     (let c = pmClients pm ! i in
      if pcConnected c then (Inl AlreadyConnected, pm, [])
      else (case ntDial net target of
              None \<Rightarrow> (Inl DialFailed, set_client i (c\<lparr>pcStatus := ''disconnected''\<rparr>) pm, [])
            | Some s \<Rightarrow>
                (let c' = c\<lparr>pcConn := Some s, pcWriter := Some s, pcPeerAddr := target, pcStatus := ''handshaking''\<rparr>;
                     pm' = set_client i c' (pm\<lparr>pmOpen := insert s (pmOpen pm)\<rparr>)
                 in case sendHandshake net now c' pm' of
                      (None, out) \<Rightarrow> (case Close net i pm' of (pm'', out') \<Rightarrow> (Inl HandshakeFailed, pm'', out @ out'))
                    | (Some peer, out) \<Rightarrow>
                        (Inr peer,
                         set_client i (c'\<lparr>pcPeerKernelID := peer, pcConnected := True, pcStatus := ''connected''\<rparr>) pm',
                         out))))"

definition IsConnected :: "P2PManager \<Rightarrow> nat option \<Rightarrow> bool" where
  "IsConnected pm i = (case i of None \<Rightarrow> False | Some j \<Rightarrow> pcConnected (pmClients pm ! j))"

definition SendSyncConnectors ::
    "net \<Rightarrow> time \<Rightarrow> ConnectorOnlineInfo list \<Rightarrow> nat \<Rightarrow> P2PManager \<Rightarrow> peer_error + sent" where
  "SendSyncConnectors net now cs i pm =
     (let c = pmClients pm ! i in
      if \<not> pcConnected c then Inl NotConnected
      else case write_packet net (pcWriter c)
                  (WSyncConnectors \<lparr> sySourceKernelID = pcLocalKernelID c, syConnectors = cs, syTimestamp = unix now \<rparr>) pm of
             None \<Rightarrow> Inl WriteFailed | Some out \<Rightarrow> Inr out)"

definition SendRelayMessage :: "net \<Rightarrow> RelayMessagePayload \<Rightarrow> nat \<Rightarrow> P2PManager \<Rightarrow> peer_error + sent" where
  "SendRelayMessage net msg i pm =
     (let c = pmClients pm ! i in
      if \<not> pcConnected c then Inl NotConnected
      else case write_packet net (pcWriter c) (WRelayMessage msg) pm of None \<Rightarrow> Inl WriteFailed | Some out \<Rightarrow> Inr out)"

definition sendHeartbeat :: "net \<Rightarrow> time \<Rightarrow> nat \<Rightarrow> P2PManager \<Rightarrow> peer_error + sent" where
  "sendHeartbeat net now i pm =
     (let c = pmClients pm ! i in
      case write_packet net (pcWriter c)
             (WHeartbeat \<lparr> hbKernelID = pcLocalKernelID c, hbTimestamp = unix now, hbConnectedConnectors = 0, hbActivePeers = 0 \<rparr>) pm of
        None \<Rightarrow> Inl WriteFailed | Some out \<Rightarrow> Inr out)"

section \<open>The manager\<close>

definition set_status :: "string \<Rightarrow> string \<Rightarrow> P2PManager \<Rightarrow> P2PManager" where
  "set_status k st pm =
     (case go_get (pmPeers pm) k of
        None \<Rightarrow> pm
      | Some p \<Rightarrow> pm\<lparr>pmPeers := go_put k (p\<lparr>piStatus := st\<rparr>) (pmPeers pm)\<rparr>)"

text \<open>The client lost its connection: \<^verbatim>\<open>handleDisconnect\<close> with the callback that \<^verbatim>\<open>ConnectToPeer\<close> sets.\<close>

definition client_handleDisconnect :: "nat \<Rightarrow> P2PManager \<Rightarrow> P2PManager" where
  "client_handleDisconnect i pm =
     (let c = pmClients pm ! i in
      if \<not> pcConnected c then pm
      else set_status (pcPeerKernelID c) ''disconnected''
             (set_client i (c\<lparr>pcConnected := False, pcStatus := ''disconnected'', pcConn := None\<rparr>)
                (close_socket (pcConn c) pm)))"

definition syncConnectorsToPeer :: "net \<Rightarrow> time \<Rightarrow> TempChatManager \<Rightarrow> string \<Rightarrow> P2PManager \<Rightarrow> sent" where
  "syncConnectorsToPeer net now tc k pm =
     (case go_get (pmPeers pm) k of
        None \<Rightarrow> []
      | Some p \<Rightarrow>
          (case piClient p of
             None \<Rightarrow> []
           | Some i \<Rightarrow>
               if \<not> IsConnected pm (Some i) then []
               else (case SendSyncConnectors net now (GetLocalConnectors now tc) i pm of Inl e \<Rightarrow> [] | Inr out \<Rightarrow> out)))"

definition peer_connected :: "time \<Rightarrow> string \<Rightarrow> P2PManager \<Rightarrow> P2PManager" where
  "peer_connected now k pm =
     (case go_get (pmPeers pm) k of
        None \<Rightarrow> pm
      | Some p \<Rightarrow> pm\<lparr>pmPeers := go_put k (p\<lparr>piStatus := ''connected'', piConnectedAt := now\<rparr>) (pmPeers pm)\<rparr>)"

definition add_connecting :: "string \<Rightarrow> string \<Rightarrow> int \<Rightarrow> P2PManager \<Rightarrow> P2PManager" where
  "add_connecting k addr port pm =
     pm\<lparr> pmClients := pmClients pm @ [NewPeerClient (pmKernelID pm) (pmLocalKernelAddr pm) (pmLocalKernelPort pm) addr],
         pmPeers := go_put k \<lparr> piKernelID = k, piAddress = addr, piPort = port, piStatus = ''connecting'',
                               piConnectedAt = 0, piClient = Some (length (pmClients pm)) \<rparr> (pmPeers pm) \<rparr>"

definition ConnectToPeer ::
    "net \<Rightarrow> time \<Rightarrow> TempChatManager \<Rightarrow> string \<Rightarrow> string \<Rightarrow> int \<Rightarrow> P2PManager \<Rightarrow> (peer_error + unit) \<times> P2PManager \<times> sent" where
  "ConnectToPeer net now tc k addr port pm =
     (if (case go_get (pmPeers pm) k of None \<Rightarrow> False | Some p \<Rightarrow> IsConnected pm (piClient p))
      then (Inl AlreadyConnected, pm, [])
      else case Connect net now (addr @ '':'' @ show_int port) (length (pmClients pm)) (add_connecting k addr port pm) of
             (Inl e, pm', out) \<Rightarrow> (Inl e, pm'\<lparr>pmPeers := go_del k (pmPeers pm')\<rparr>, out)
           | (Inr peer, pm', out) \<Rightarrow>
               (let pm'' = peer_connected now peer pm'
                in (Inr (), pm'', out @ syncConnectorsToPeer net now tc peer pm'')))"

definition DisconnectFromPeer :: "net \<Rightarrow> string \<Rightarrow> P2PManager \<Rightarrow> (peer_error + unit) \<times> P2PManager \<times> sent" where
  "DisconnectFromPeer net k pm =
     (case go_get (pmPeers pm) k of
        None \<Rightarrow> (Inl PeerNotFound, pm, [])
      | Some p \<Rightarrow>
          (case (case piClient p of None \<Rightarrow> (pm, []) | Some i \<Rightarrow> Close net i pm) of
             (pm', out) \<Rightarrow> (Inr (), pm'\<lparr>pmPeers := go_del k (pmPeers pm')\<rparr>, out)))"

definition IsPeerConnected :: "string \<Rightarrow> P2PManager \<Rightarrow> bool" where
  "IsPeerConnected k pm = (case go_get (pmPeers pm) k of None \<Rightarrow> False | Some p \<Rightarrow> piStatus p = ''connected'')"

definition EnsurePeerConnected ::
    "net \<Rightarrow> time \<Rightarrow> TempChatManager \<Rightarrow> provider \<Rightarrow> string \<Rightarrow> P2PManager \<Rightarrow> (peer_error + unit) \<times> P2PManager \<times> sent" where
  "EnsurePeerConnected net now tc prov k pm =
     (if IsPeerConnected k pm then (Inr (), pm, [])
      else case prov of
             None \<Rightarrow> (Inl NoProvider, pm, [])
           | Some f \<Rightarrow>
               (case f k of
                  None \<Rightarrow> (Inl KernelUnknown, pm, [])
                | Some (addr, port) \<Rightarrow> ConnectToPeer net now tc k addr port pm))"

text \<open>
  \<^verbatim>\<open>onPeerConnected\<close>: the accepted socket \<open>s\<close> from address \<open>remote\<close> becomes the peer's client.  The
  synchronisation that the code starts in a goroutine of its own is the step \<open>syncConnectorsToPeer\<close>.
\<close>

definition onPeerConnected :: "time \<Rightarrow> string \<Rightarrow> nat \<Rightarrow> string \<Rightarrow> P2PManager \<Rightarrow> P2PManager" where
  "onPeerConnected now k s remote pm =
     (let p = (case go_get (pmPeers pm) k of
                 None \<Rightarrow> \<lparr> piKernelID = k, piAddress = remote, piPort = 0, piStatus = ''connected'', piConnectedAt = now,
                           piClient = None \<rparr>
               | Some p \<Rightarrow> p\<lparr>piStatus := ''connected'', piConnectedAt := now\<rparr>)
      in pm\<lparr> pmClients := pmClients pm @
               [newPeerClientFromConn (pmKernelID pm) (pmLocalKernelAddr pm) (pmLocalKernelPort pm) s remote k],
             pmPeers := go_put k (p\<lparr>piClient := Some (length (pmClients pm))\<rparr>) (pmPeers pm) \<rparr>)"

definition onPeerDisconnected :: "string \<Rightarrow> P2PManager \<Rightarrow> P2PManager" where
  "onPeerDisconnected k pm = set_status k ''disconnected'' pm"

text \<open>The handlers the manager gives to its server (\<^verbatim>\<open>P2PManager.handleHandshake\<close> and its siblings).\<close>

definition onHandshake :: "time \<Rightarrow> HandshakePayload \<Rightarrow> P2PManager \<Rightarrow> HandshakeAckPayload \<times> P2PManager" where
  "onHandshake now h pm =
     (let p = (case go_get (pmPeers pm) (hsKernelID h) of
                 None \<Rightarrow> \<lparr> piKernelID = hsKernelID h, piAddress = hsKernelAddr h, piPort = hsPeerPort h,
                           piStatus = ''connected'', piConnectedAt = 0, piClient = None \<rparr>
               | Some p \<Rightarrow> p\<lparr>piStatus := ''connected'', piAddress := hsKernelAddr h, piPort := hsPeerPort h\<rparr>)
      in (\<lparr> haSuccess = True, haMessage = ''OK'', haKernelID = pmKernelID pm, haVersion = ProtocolVersion,
            haTimestamp = unix now \<rparr>,
          pm\<lparr>pmPeers := go_put (hsKernelID h) p (pmPeers pm)\<rparr>))"

definition onSyncConnectors ::
    "time \<Rightarrow> SyncConnectorsPayload \<Rightarrow> TempChatManager \<Rightarrow> SyncConnectorsAckPayload \<times> TempChatManager" where
  "onSyncConnectors now p tc =
     (let tc' = (if syConnectors p \<noteq> [] then SetRemoteConnectors (sySourceKernelID p) (syConnectors p) tc else tc)
      in (\<lparr> saSuccess = True, saMessage = ''OK'', saRemoteConnectors = GetLocalConnectors now tc', saTimestamp = unix now \<rparr>, tc'))"

definition onRelayMessage ::
    "time \<Rightarrow> RelayMessagePayload \<Rightarrow> TempChatManager \<Rightarrow> RelayMessageAckPayload \<times> TempChatManager" where
  "onRelayMessage now p tc =
     (let cid = raw_id (rmReceiverID p) in
      case GetSessionByConnector cid tc of
        Inl e \<Rightarrow> (\<lparr> raSuccess = False, raMessage = TextNotFound (rmReceiverID p) cid, raMessageID = rmMessageID p,
                     raDeliveredAt = 0 \<rparr>, tc)
      | Inr s \<Rightarrow>
          (case DeliverMessage cid \<lparr> tmMessageID = rmMessageID p, tmSenderID = rmSenderID p, tmReceiverID = cid,
                  tmPayload = rmPayload p, tmTimestamp = rmTimestamp p, tmFlowID = rmFlowID p,
                  tmSourceKernelID = rmSenderKernelID p \<rparr> tc of
             (Inl e, tc') \<Rightarrow> (\<lparr> raSuccess = False, raMessage = TextOf e, raMessageID = rmMessageID p, raDeliveredAt = 0 \<rparr>, tc')
           | (Inr u, tc') \<Rightarrow>
               (\<lparr> raSuccess = True, raMessage = TextOK, raMessageID = rmMessageID p, raDeliveredAt = unix now \<rparr>, tc')))"

text \<open>What a client does with a packet (\<^verbatim>\<open>PeerClient.handlePacket\<close>, \<^verbatim>\<open>handleIncomingMessage\<close>, the callback for a sync ack).\<close>

definition handleIncomingMessage :: "time \<Rightarrow> wire \<Rightarrow> TempChatManager \<Rightarrow> TempChatManager" where
  "handleIncomingMessage now w tc =
     (case w of WRelayMessage p \<Rightarrow> snd (onRelayMessage now p tc) | _ \<Rightarrow> tc)"

definition onSyncAck :: "string \<Rightarrow> ConnectorOnlineInfo list \<Rightarrow> P2PManager \<Rightarrow> TempChatManager \<Rightarrow> TempChatManager" where
  "onSyncAck k cs pm tc =
     (case go_get (pmPeers pm) k of
        None \<Rightarrow> tc
      | Some p \<Rightarrow> if cs \<noteq> [] then SetRemoteConnectors k cs tc else tc)"

definition client_handlePacket :: "time \<Rightarrow> string \<Rightarrow> wire \<Rightarrow> P2PManager \<Rightarrow> TempChatManager \<Rightarrow> TempChatManager" where
  "client_handlePacket now k w pm tc =
     (case w of
        WSyncConnectors p \<Rightarrow> handleIncomingMessage now w tc
      | WRelayMessage p \<Rightarrow> handleIncomingMessage now w tc
      | WSyncAck a \<Rightarrow> onSyncAck k (saRemoteConnectors a) pm tc
      | _ \<Rightarrow> tc)"

text \<open>The periodic synchronisation: connect to the known kernels that are not connected, then send to all that are.\<close>

fun connect_known ::
    "net \<Rightarrow> time \<Rightarrow> TempChatManager \<Rightarrow> provider \<Rightarrow> string list \<Rightarrow> P2PManager \<Rightarrow> P2PManager \<times> sent" where
  "connect_known net now tc prov [] pm = (pm, [])"
| "connect_known net now tc prov (k # ks) pm =
     (if IsPeerConnected k pm then connect_known net now tc prov ks pm
      else case EnsurePeerConnected net now tc prov k pm of
             (r, pm', out) \<Rightarrow>
               (case connect_known net now tc prov ks pm' of (pm'', out') \<Rightarrow> (pm'', out @ out')))"

definition syncConnectors ::
    "net \<Rightarrow> time \<Rightarrow> TempChatManager \<Rightarrow> provider \<Rightarrow> string list \<Rightarrow> P2PManager \<Rightarrow> P2PManager \<times> sent" where
  "syncConnectors net now tc prov known pm =
     (case connect_known net now tc prov (if prov = None then [] else known) pm of
        (pm', out) \<Rightarrow>
          (pm', out @ concat (map (\<lambda>(k, p).
             (case piClient p of
                None \<Rightarrow> []
              | Some i \<Rightarrow>
                  if IsConnected pm' (Some i)
                  then (case SendSyncConnectors net now (GetLocalConnectors now tc) i pm' of Inl e \<Rightarrow> [] | Inr o' \<Rightarrow> o')
                  else [])) (pmPeers pm'))))"

definition RelayMessage ::
    "net \<Rightarrow> string \<Rightarrow> string \<Rightarrow> RelayMessagePayload \<Rightarrow> P2PManager \<Rightarrow> peer_error + sent" where
  "RelayMessage net mid k msg pm =
     (case go_get (pmPeers pm) k of
        None \<Rightarrow> Inl NotConnected
      | Some p \<Rightarrow>
          (case piClient p of
             None \<Rightarrow> Inl NotConnected
           | Some i \<Rightarrow>
               if \<not> IsConnected pm (Some i) then Inl NotConnected
               else SendRelayMessage net (msg\<lparr>rmMessageID := mid\<rparr>) i pm))"

definition ListPeers :: "P2PManager \<Rightarrow> PeerInfo list" where
  "ListPeers pm = map snd (pmPeers pm)"

definition GetPeer :: "string \<Rightarrow> P2PManager \<Rightarrow> PeerInfo option" where
  "GetPeer k pm = go_get (pmPeers pm) k"

definition GetPeerCount :: "P2PManager \<Rightarrow> nat" where
  "GetPeerCount pm = length (pmPeers pm)"

text \<open>
  The relay that \<^verbatim>\<open>kernel/cmd/main.go\<close> gives to the chat manager: connect on demand, then send; a failed
  connection counts as success.  \<open>mid\<close> is the identifier drawn by \<^verbatim>\<open>RelayMessage\<close>.
\<close>

definition relay_handler ::
    "net \<Rightarrow> time \<Rightarrow> TempChatManager \<Rightarrow> provider \<Rightarrow> string \<Rightarrow>
     string \<Rightarrow> string \<Rightarrow> string \<Rightarrow> P2PManager \<times> sent \<Rightarrow> bool \<times> P2PManager \<times> sent" where
  "relay_handler net now tc prov mid kid cid payload w =
     (case EnsurePeerConnected net now tc prov kid (fst w) of
        (Inl e, pm, out) \<Rightarrow> (True, pm, snd w @ out)
      | (Inr u, pm, out) \<Rightarrow>
          (case RelayMessage net mid kid
                  \<lparr> rmMessageID = [], rmSenderID = tcKernelID tc, rmSenderKernelID = tcKernelID tc,
                    rmReceiverID = qualify kid cid, rmPayload = payload, rmTimestamp = unix now, rmFlowID = [] \<rparr> pm of
             Inl e \<Rightarrow> (False, pm, snd w @ out)
           | Inr out' \<Rightarrow> (True, pm, snd w @ out @ out')))"

section \<open>The server\<close>

text \<open>\<^verbatim>\<open>handleConnection\<close>: a new connection, each packet read from it, and the read error that ends it.\<close>

definition accept_connection :: "time \<Rightarrow> nat \<Rightarrow> string \<Rightarrow> P2PManager \<Rightarrow> P2PManager" where
  "accept_connection now s remote pm =
     pm\<lparr> pmAccepted := pmAccepted pm @ [\<lparr> pnSocket = s, pnPeerKernelID = [], pnPeerAddr = remote, pnConnectedAt = now,
                                          pnLastActive = 0, pnClosed = False \<rparr>],
         pmOpen := insert s (pmOpen pm) \<rparr>"

definition set_conn :: "nat \<Rightarrow> PeerConnection \<Rightarrow> P2PManager \<Rightarrow> P2PManager" where
  "set_conn i c pm = pm\<lparr>pmAccepted := (pmAccepted pm)[i := c]\<rparr>"

definition conn_Close :: "nat \<Rightarrow> P2PManager \<Rightarrow> P2PManager" where
  "conn_Close i pm =
     (let c = pmAccepted pm ! i in
      if pnClosed c then pm else set_conn i (c\<lparr>pnClosed := True\<rparr>) (close_socket (Some (pnSocket c)) pm))"

definition read_error :: "nat \<Rightarrow> P2PManager \<Rightarrow> P2PManager" where
  "read_error i pm = close_socket (Some (pnSocket (pmAccepted pm ! i))) (conn_Close i pm)"

definition handleHandshake :: "net \<Rightarrow> time \<Rightarrow> nat \<Rightarrow> HandshakePayload \<Rightarrow> P2PManager \<Rightarrow> P2PManager \<times> sent" where
  "handleHandshake net now i h pm =
     (let c = pmAccepted pm ! i in
      case onHandshake now h (set_conn i (c\<lparr>pnPeerKernelID := hsKernelID h\<rparr>) pm) of
        (ack, pm') \<Rightarrow>
          (case write_packet net (Some (pnSocket c)) (WHandshakeAck ack) pm' of
             None \<Rightarrow> (pm', [])
           | Some out \<Rightarrow>
               (onPeerConnected now (hsKernelID h) (pnSocket c) (pnPeerAddr c)
                  (pm'\<lparr>pmServerPeers := go_put (hsKernelID h) i (pmServerPeers pm')\<rparr>), out)))"

definition reply_to :: "net \<Rightarrow> nat \<Rightarrow> wire \<Rightarrow> P2PManager \<Rightarrow> sent" where
  "reply_to net i w pm =
     (case write_packet net (Some (pnSocket (pmAccepted pm ! i))) w pm of None \<Rightarrow> [] | Some out \<Rightarrow> out)"

definition handleHeartbeat :: "time \<Rightarrow> HeartbeatPayload \<Rightarrow> HeartbeatAckPayload" where
  "handleHeartbeat now h =
     \<lparr> hkSuccess = True, hkKernelID = hbKernelID h, hkTimestamp = unix now,
       hkConnectedConnectors = hbConnectedConnectors h, hkActivePeers = hbActivePeers h \<rparr>"

definition handleDisconnect :: "nat \<Rightarrow> P2PManager \<Rightarrow> P2PManager" where
  "handleDisconnect i pm =
     (let k = pnPeerKernelID (pmAccepted pm ! i)
      in conn_Close i (onPeerDisconnected k (pm\<lparr>pmServerPeers := go_del k (pmServerPeers pm)\<rparr>)))"

definition handleSyncConnectors ::
    "net \<Rightarrow> time \<Rightarrow> nat \<Rightarrow> SyncConnectorsPayload \<Rightarrow> P2PManager \<Rightarrow> TempChatManager \<Rightarrow> TempChatManager \<times> sent" where
  "handleSyncConnectors net now i p pm tc =
     (case onSyncConnectors now p tc of (ack, tc') \<Rightarrow> (tc', reply_to net i (WSyncAck ack) pm))"

definition handleRelayMessage ::
    "net \<Rightarrow> time \<Rightarrow> nat \<Rightarrow> RelayMessagePayload \<Rightarrow> P2PManager \<Rightarrow> TempChatManager \<Rightarrow> TempChatManager \<times> sent" where
  "handleRelayMessage net now i p pm tc =
     (case onRelayMessage now p tc of (ack, tc') \<Rightarrow> (tc', reply_to net i (WRelayMessageAck ack) pm))"

definition handlePacket ::
    "net \<Rightarrow> time \<Rightarrow> nat \<Rightarrow> wire \<Rightarrow> P2PManager \<times> TempChatManager \<Rightarrow> (P2PManager \<times> TempChatManager) \<times> sent" where
  "handlePacket net now i w st =
     (case st of
        (pm, tc) \<Rightarrow>
          (case w of
             WHandshake h \<Rightarrow> (case handleHandshake net now i h pm of (pm', out) \<Rightarrow> ((pm', tc), out))
           | WSyncConnectors p \<Rightarrow> (case handleSyncConnectors net now i p pm tc of (tc', out) \<Rightarrow> ((pm, tc'), out))
           | WRelayMessage p \<Rightarrow> (case handleRelayMessage net now i p pm tc of (tc', out) \<Rightarrow> ((pm, tc'), out))
           | WHeartbeat h \<Rightarrow> ((pm, tc), reply_to net i (WHeartbeatAck (handleHeartbeat now h)) pm)
           | WDisconnect k reason \<Rightarrow> ((handleDisconnect i pm, tc), [])
           | _ \<Rightarrow> ((pm, tc), [])))"

definition receive_packet ::
    "net \<Rightarrow> time \<Rightarrow> nat \<Rightarrow> wire \<Rightarrow> P2PManager \<times> TempChatManager \<Rightarrow> (P2PManager \<times> TempChatManager) \<times> sent" where
  "receive_packet net now i w st =
     (case st of
        (pm, tc) \<Rightarrow>
          handlePacket net now i w (set_conn i ((pmAccepted pm ! i)\<lparr>pnLastActive := unix now\<rparr>) pm, tc))"

text \<open>Starting and stopping.  The second \<^verbatim>\<open>Stop\<close> closes \<^verbatim>\<open>stopSync\<close> again, a panic (\<open>None\<close>).\<close>

definition Start :: "bool \<Rightarrow> P2PManager \<Rightarrow> (peer_error + unit) \<times> P2PManager" where
  "Start listen_ok pm =
     (if pmRunning pm then (Inl AlreadyRunning, pm)
      else if \<not> listen_ok then (Inl ListenFailed, pm\<lparr>pmRunning := True\<rparr>)
      else (Inr (), pm\<lparr>pmRunning := True\<rparr>))"

definition server_Close :: "P2PManager \<Rightarrow> P2PManager" where
  "server_Close pm = (foldl (\<lambda>pm (k, i). conn_Close i pm) pm (pmServerPeers pm))\<lparr>pmServerPeers := []\<rparr>"

definition close_clients :: "net \<Rightarrow> PeerInfo list \<Rightarrow> P2PManager \<Rightarrow> P2PManager \<times> sent" where
  "close_clients net ps pm =
     foldl (\<lambda>(pm, out) p. case piClient p of
                              None \<Rightarrow> (pm, out)
                            | Some i \<Rightarrow> (case Close net i pm of (pm', o') \<Rightarrow> (pm', out @ o'))) (pm, []) ps"

definition Stop :: "net \<Rightarrow> P2PManager \<Rightarrow> (P2PManager \<times> sent) option" where
  "Stop net pm =
     (if \<not> pmRunning pm then Some (pm, [])
      else if pmStopClosed pm then None
      else let pm' = server_Close (pm\<lparr>pmRunning := False, pmStopClosed := True\<rparr>)
           in case close_clients net (map snd (pmPeers pm')) pm' of
                (pm'', out) \<Rightarrow> Some (pm''\<lparr>pmPeers := []\<rparr>, out))"

section \<open>The machine of peers\<close>

declare map_of_eq_Some_iff [simp del]

inductive peer_step :: "P2PManager \<Rightarrow> P2PManager \<Rightarrow> bool" where
  peer_connect: "peer_step pm (fst (snd (ConnectToPeer net now tc k addr port pm)))"
| peer_disconnect: "peer_step pm (fst (snd (DisconnectFromPeer net k pm)))"
| peer_sync: "peer_step pm (fst (syncConnectors net now tc prov known pm))"
| peer_relay: "peer_step pm (fst (snd (relay_handler net now tc prov mid kid cid payload (pm, []))))"
| peer_client_lost: "i < length (pmClients pm) \<Longrightarrow> peer_step pm (client_handleDisconnect i pm)"
| peer_accept: "peer_step pm (accept_connection now s remote pm)"
| peer_receive: "i < length (pmAccepted pm) \<Longrightarrow> \<not> pnClosed (pmAccepted pm ! i) \<Longrightarrow>
    peer_step pm (fst (fst (receive_packet net now i w (pm, tc))))"
| peer_read_error: "i < length (pmAccepted pm) \<Longrightarrow> peer_step pm (read_error i pm)"
| peer_start: "peer_step pm (snd (Start listen_ok pm))"
| peer_stop: "Stop net pm = Some (pm', out) \<Longrightarrow> peer_step pm pm'"

definition peer_init :: "P2PManager \<Rightarrow> bool" where
  "peer_init pm \<longleftrightarrow> (\<exists>kid addr port. pm = NewP2PManager kid addr port)"

text \<open>
  Every reference is valid: peers are stored under their own name and name a client that exists, the server's
  table names accepted connections, a connected client has a writer.
\<close>

definition refs_ok :: "P2PManager \<Rightarrow> bool" where
  "refs_ok pm \<longleftrightarrow>
     (\<forall>k p. go_get (pmPeers pm) k = Some p \<longrightarrow>
        piKernelID p = k \<and> (\<forall>i. piClient p = Some i \<longrightarrow> i < length (pmClients pm))) \<and>
     (\<forall>k i. go_get (pmServerPeers pm) k = Some i \<longrightarrow> i < length (pmAccepted pm)) \<and>
     (\<forall>c \<in> set (pmClients pm). pcConnected c \<longrightarrow> pcWriter c \<noteq> None)"

text \<open>What an operation may do and keep it: change clients and connections in place, add some, and store peers that name them.\<close>

lemma refs_ok_set_client:
  "refs_ok pm \<Longrightarrow> (pcConnected c \<longrightarrow> pcWriter c \<noteq> None) \<Longrightarrow> refs_ok (set_client i c pm)"
  unfolding refs_ok_def set_client_def by (auto dest: set_update_subset_insert [THEN subsetD])

lemma refs_ok_close_socket: "refs_ok pm \<Longrightarrow> refs_ok (close_socket c pm)"
  by (auto simp: refs_ok_def close_socket_def split: option.split)

lemma close_socket_simps [simp]:
  "pmClients (close_socket c pm) = pmClients pm" "pmPeers (close_socket c pm) = pmPeers pm"
  "pmAccepted (close_socket c pm) = pmAccepted pm" "pmServerPeers (close_socket c pm) = pmServerPeers pm"
  by (auto simp: close_socket_def split: option.split)

lemma refs_ok_open: "refs_ok pm \<Longrightarrow> refs_ok (pm\<lparr>pmOpen := s\<rparr>)"
  by (simp add: refs_ok_def)

lemma refs_ok_set_conn: "refs_ok pm \<Longrightarrow> refs_ok (set_conn i c pm)"
  by (simp add: refs_ok_def set_conn_def)

lemma refs_ok_put_peer:
  assumes "refs_ok pm" and "piKernelID p = k" and "\<And>i. piClient p = Some i \<Longrightarrow> i < length (pmClients pm)"
  shows "refs_ok (pm\<lparr>pmPeers := go_put k p (pmPeers pm)\<rparr>)"
  using assms unfolding refs_ok_def by (auto simp: gomap_simps split: if_splits)

lemma refs_ok_del_peer: "refs_ok pm \<Longrightarrow> refs_ok (pm\<lparr>pmPeers := go_del k (pmPeers pm)\<rparr>)"
  by (auto simp: refs_ok_def gomap_simps split: if_splits)

lemma refs_ok_new_client:
  assumes "refs_ok pm" and "pcConnected c \<longrightarrow> pcWriter c \<noteq> None" and "piKernelID p = k" and "piClient p = Some (length (pmClients pm))"
  shows "refs_ok (pm\<lparr>pmClients := pmClients pm @ [c], pmPeers := go_put k p (pmPeers pm)\<rparr>)"
  using assms unfolding refs_ok_def by (fastforce simp: gomap_simps split: if_splits)

lemma refs_ok_get:
  assumes "refs_ok pm" and "go_get (pmPeers pm) k = Some p"
  shows "piKernelID p = k" and "piClient p = Some i \<Longrightarrow> i < length (pmClients pm)"
  using assms by (auto simp: refs_ok_def)

lemma refs_ok_status: "refs_ok pm \<Longrightarrow> refs_ok (set_status k st pm)"
  by (auto simp: set_status_def split: option.split intro!: refs_ok_put_peer dest: refs_ok_get)

lemma refs_ok_peer_connected: "refs_ok pm \<Longrightarrow> refs_ok (peer_connected now k pm)"
  by (auto simp: peer_connected_def split: option.split intro!: refs_ok_put_peer dest: refs_ok_get)

lemma refs_ok_conn_Close: "refs_ok pm \<Longrightarrow> refs_ok (conn_Close i pm)"
  by (auto simp: conn_Close_def Let_def intro!: refs_ok_set_conn refs_ok_close_socket)

lemmas refs_intros = refs_ok_set_client refs_ok_close_socket refs_ok_open refs_ok_set_conn refs_ok_status
  refs_ok_peer_connected refs_ok_del_peer refs_ok_conn_Close

lemma refs_ok_Close: "refs_ok pm \<Longrightarrow> refs_ok (fst (Close net i pm))"
  by (auto simp: Close_def Let_def intro!: refs_intros)

lemma refs_ok_Close_eq: "Close net i pm = (pm', out) \<Longrightarrow> refs_ok pm \<Longrightarrow> refs_ok pm'"
  using refs_ok_Close by (metis fst_conv)

lemma refs_ok_Connect: "refs_ok pm \<Longrightarrow> refs_ok (fst (snd (Connect net now target i pm)))"
  by (auto simp: Connect_def Let_def split: option.split prod.split elim!: refs_ok_Close_eq intro!: refs_intros)

lemma refs_ok_connect_peer: "refs_ok pm \<Longrightarrow> refs_ok (fst (snd (ConnectToPeer net now tc k addr port pm)))"
proof -
  assume "refs_ok pm"
  then have "refs_ok (add_connecting k addr port pm)"
    unfolding add_connecting_def by (rule refs_ok_new_client) (simp_all add: NewPeerClient_def)
  then have "refs_ok pm'" if "Connect net now t (length (pmClients pm)) (add_connecting k addr port pm) = (r, pm', out)" for t r pm' out
    using refs_ok_Connect that by (metis fst_conv snd_conv)
  then show ?thesis
    using \<open>refs_ok pm\<close> by (auto simp: ConnectToPeer_def Let_def split: sum.split prod.split intro!: refs_intros)
qed

lemma refs_ok_disconnect_peer: "refs_ok pm \<Longrightarrow> refs_ok (fst (snd (DisconnectFromPeer net k pm)))"
  by (auto simp: DisconnectFromPeer_def split: option.split prod.split elim!: refs_ok_Close_eq intro!: refs_intros)

lemma refs_ok_ensure: "refs_ok pm \<Longrightarrow> refs_ok (fst (snd (EnsurePeerConnected net now tc prov k pm)))"
  using refs_ok_connect_peer by (auto simp: EnsurePeerConnected_def split: option.split)

lemma refs_ok_connect_known: "refs_ok pm \<Longrightarrow> refs_ok (fst (connect_known net now tc prov ks pm))"
proof (induction net now tc prov ks pm rule: connect_known.induct)
  case (2 net now tc prov k ks pm)
  then show ?case
    using refs_ok_ensure [OF 2(3), of net now tc prov k] by (auto split: prod.split)
qed simp

lemma refs_ok_sync: "refs_ok pm \<Longrightarrow> refs_ok (fst (syncConnectors net now tc prov known pm))"
  using refs_ok_connect_known by (auto simp: syncConnectors_def split: prod.split) (metis fst_conv)+

lemma refs_ok_relay: "refs_ok pm \<Longrightarrow> refs_ok (fst (snd (relay_handler net now tc prov mid kid cid payload (pm, out))))"
  using refs_ok_ensure [of pm net now tc prov kid] by (auto simp: relay_handler_def split: sum.split prod.split)

lemma refs_ok_lost: "refs_ok pm \<Longrightarrow> refs_ok (client_handleDisconnect i pm)"
  by (auto simp: client_handleDisconnect_def Let_def intro!: refs_intros)

lemma refs_ok_accept: "refs_ok pm \<Longrightarrow> refs_ok (accept_connection now s remote pm)"
  by (auto simp: refs_ok_def accept_connection_def less_SucI)

lemma refs_ok_onPeerConnected:
  assumes "refs_ok pm"
  shows "refs_ok (onPeerConnected now k s r pm)"
  unfolding onPeerConnected_def Let_def
  by (rule refs_ok_new_client) (use assms in \<open>auto simp: newPeerClientFromConn_def refs_ok_get split: option.split\<close>)

lemma refs_ok_handshake:
  assumes "refs_ok pm" and "i < length (pmAccepted pm)"
  shows "refs_ok (fst (handleHandshake net now i h pm))"
proof -
  let ?pm = "snd (onHandshake now h (set_conn i ((pmAccepted pm ! i)\<lparr>pnPeerKernelID := hsKernelID h\<rparr>) pm))"
  have *: "refs_ok ?pm"
    unfolding onHandshake_def Let_def snd_conv using assms(1)
    by (intro refs_ok_put_peer refs_ok_set_conn) (auto simp: refs_ok_def set_conn_def split: option.splits)
  have "i < length (pmAccepted ?pm)" using assms(2) by (simp add: onHandshake_def Let_def set_conn_def)
  with * have "refs_ok (?pm\<lparr>pmServerPeers := go_put (hsKernelID h) i (pmServerPeers ?pm)\<rparr>)"
    by (auto simp: refs_ok_def gomap_simps split: if_splits)
  note refs_ok_onPeerConnected [OF this]
  with * show ?thesis
    by (auto simp: handleHandshake_def Let_def split: prod.split option.split)
qed

lemma refs_ok_handle_disconnect: "refs_ok pm \<Longrightarrow> refs_ok (handleDisconnect i pm)"
  unfolding handleDisconnect_def onPeerDisconnected_def Let_def
  by (intro refs_ok_conn_Close refs_ok_status) (auto simp: refs_ok_def gomap_simps split: if_splits)

lemma refs_ok_receive:
  assumes "refs_ok pm" and "i < length (pmAccepted pm)"
  shows "refs_ok (fst (fst (receive_packet net now i w (pm, tc))))"
proof -
  let ?pm = "set_conn i ((pmAccepted pm ! i)\<lparr>pnLastActive := unix now\<rparr>) pm"
  have "refs_ok ?pm" using assms(1) by (rule refs_ok_set_conn)
  moreover have "refs_ok pm'" if "handleHandshake net now i h ?pm = (pm', out)" for h pm' out
    using refs_ok_handshake [OF calculation, of i net now h] assms(2) that by (simp add: set_conn_def)
  ultimately show ?thesis
    by (auto simp: receive_packet_def handlePacket_def refs_ok_handle_disconnect split: wire.split prod.split)
qed

lemma refs_ok_fold_close: "refs_ok pm \<Longrightarrow> refs_ok (foldl (\<lambda>pm (k, i). conn_Close i pm) pm xs)"
  by (induction xs arbitrary: pm) (auto simp: refs_ok_conn_Close)

lemma refs_ok_close_clients: "refs_ok pm \<Longrightarrow> refs_ok (fst (close_clients net ps pm))"
proof -
  have "refs_ok (fst s) \<Longrightarrow> refs_ok (fst (foldl (\<lambda>(pm, out) p. case piClient p of
          None \<Rightarrow> (pm, out) | Some i \<Rightarrow> (case Close net i pm of (pm', o') \<Rightarrow> (pm', out @ o'))) s ps))" for s
    by (induction ps arbitrary: s) (auto split: option.split prod.split dest: refs_ok_Close_eq)
  then show "refs_ok pm \<Longrightarrow> ?thesis" by (simp add: close_clients_def)
qed

lemma refs_ok_flags: "refs_ok (pm\<lparr>pmRunning := a, pmStopClosed := b\<rparr>) = refs_ok pm"
  by (simp add: refs_ok_def)

lemma refs_ok_forget: "refs_ok pm \<Longrightarrow> refs_ok (pm\<lparr>pmServerPeers := []\<rparr>)" "refs_ok pm \<Longrightarrow> refs_ok (pm\<lparr>pmPeers := []\<rparr>)"
  by (simp_all add: refs_ok_def)

lemma refs_ok_stop:
  assumes "refs_ok pm" and "Stop net pm = Some (pm', out)"
  shows "refs_ok pm'"
proof -
  let ?pm = "server_Close (pm\<lparr>pmRunning := False, pmStopClosed := True\<rparr>)"
  have "refs_ok ?pm"
    unfolding server_Close_def by (intro refs_ok_forget(1) refs_ok_fold_close) (simp add: refs_ok_flags assms(1))
  then have "refs_ok ((fst (close_clients net ps ?pm))\<lparr>pmPeers := []\<rparr>)" for ps
    by (intro refs_ok_forget(2) refs_ok_close_clients)
  then show ?thesis
    using assms unfolding Stop_def Let_def case_prod_unfold by (auto split: if_splits)
qed

lemma peer_step_ok: "peer_step pm pm' \<Longrightarrow> refs_ok pm \<Longrightarrow> refs_ok pm'"
proof (induction rule: peer_step.induct)
  case (peer_read_error i pm)
  then show ?case by (auto simp: read_error_def intro!: refs_intros)
next
  case (peer_start pm listen_ok)
  then show ?case by (simp add: Start_def refs_ok_def)
qed (auto intro: refs_ok_connect_peer refs_ok_disconnect_peer refs_ok_sync refs_ok_relay refs_ok_lost refs_ok_accept
      refs_ok_receive refs_ok_stop)

interpretation peers: invariant_system peer_init peer_step refs_ok
proof unfold_locales
  show "peer_init pm \<Longrightarrow> refs_ok pm" for pm by (auto simp: peer_init_def NewP2PManager_def refs_ok_def)
qed (rule peer_step_ok)

section \<open>Properties\<close>

definition good_net :: "nat \<Rightarrow> wire \<Rightarrow> net" where
  "good_net s reply = \<lparr> ntDial = (\<lambda>_. Some s), ntWrite = (\<lambda>_ _. True), ntReply = (\<lambda>_. Some reply) \<rparr>"


definition demo_handshake_ack :: HandshakeAckPayload where
  "demo_handshake_ack = \<lparr> haSuccess = True, haMessage = ''OK'', haKernelID = ''k2'', haVersion = ProtocolVersion, haTimestamp = 0 \<rparr>"

definition demo_peer :: P2PManager where
  "demo_peer = fst (snd (ConnectToPeer (good_net 7 (WHandshakeAck demo_handshake_ack)) 0 (NewTempChatManager ''k1'' 60) ''k2'' ''h'' 9
     (NewP2PManager ''k1'' ''a'' 1)))"

lemma demo_peer_reach: "reach peer_init peer_step demo_peer"
  unfolding demo_peer_def by (rule reach_step, rule reach_init, unfold peer_init_def, blast, rule peer_connect)


text \<open>Dialling a peer that is not connected, with a network that works: the state and the packets sent.\<close>

lemma connect_new_peer:
  assumes "go_get (pmPeers pm) k = None" and "ntDial net (addr @ '':'' @ show_int port) = Some s"
    and "ntReply net s = Some (WHandshakeAck ack)" and "haSuccess ack" and "haKernelID ack = k" and "\<And>w. ntWrite net s w"
  obtains pm' i p h where "ConnectToPeer net now tc k addr port pm = (Inr (), pm',
      [(s, WHandshake h),
       (s, WSyncConnectors \<lparr> sySourceKernelID = pmKernelID pm, syConnectors = GetLocalConnectors now tc, syTimestamp = unix now \<rparr>)])"
    and "hsKernelID h = pmKernelID pm"
    and "go_get (pmPeers pm') k = Some p" and "piStatus p = ''connected''" and "piClient p = Some i"
    and "pcConnected (pmClients pm' ! i)" and "pcWriter (pmClients pm' ! i) = Some s" and "s \<in> pmOpen pm'"
proof -
  let ?i = "length (pmClients pm)"
  let ?c = "NewPeerClient (pmKernelID pm) (pmLocalKernelAddr pm) (pmLocalKernelPort pm) addr"
  let ?t = "addr @ '':'' @ show_int port"
  let ?h = "?c\<lparr>pcConn := Some s, pcWriter := Some s, pcPeerAddr := ?t, pcStatus := ''handshaking''\<rparr>"
  define c' where "c' = ?h\<lparr>pcPeerKernelID := k, pcConnected := True, pcStatus := ''connected''\<rparr>"
  define p where "p = \<lparr> piKernelID = k, piAddress = addr, piPort = port, piStatus = ''connected'', piConnectedAt = now, piClient = Some ?i \<rparr>"
  define q where "q = set_client ?i c' (set_client ?i ?h ((add_connecting k addr port pm)\<lparr>pmOpen := insert s (pmOpen pm)\<rparr>))"
  define pm' where "pm' = peer_connected now k q"
  have c: "pmClients pm' = pmClients pm @ [c']" "pmOpen pm' = insert s (pmOpen pm)" and p: "go_get (pmPeers pm') k = Some p"
    by (simp_all add: pm'_def q_def p_def peer_connected_def set_client_def add_connecting_def gomap_simps list_update_append)
  have f: "pcConnected ?c = False" "pcConnected c'" "pcWriter c' = Some s" "pcLocalKernelID c' = pmKernelID pm"
    by (simp_all add: NewPeerClient_def c'_def)
  have "Connect net now ?t ?i (add_connecting k addr port pm) = (Inr k, q, [(s, WHandshake (handshake_payload now ?h))])"
    using assms(2-6) f(1) unfolding q_def c'_def
    by (simp add: Connect_def Let_def add_connecting_def sendHandshake_def write_packet_def set_client_def)
  moreover have "syncConnectorsToPeer net now tc k pm' = [(s, WSyncConnectors
      \<lparr> sySourceKernelID = pmKernelID pm, syConnectors = GetLocalConnectors now tc, syTimestamp = unix now \<rparr>)]"
    using assms(6) c p f by (simp add: syncConnectorsToPeer_def p_def IsConnected_def SendSyncConnectors_def write_packet_def)
  ultimately have "ConnectToPeer net now tc k addr port pm = (Inr (), pm', [(s, WHandshake (handshake_payload now ?h)),
      (s, WSyncConnectors \<lparr> sySourceKernelID = pmKernelID pm, syConnectors = GetLocalConnectors now tc, syTimestamp = unix now \<rparr>)])"
    using assms(1) by (simp add: ConnectToPeer_def Let_def pm'_def)
  moreover have "hsKernelID (handshake_payload now ?h) = pmKernelID pm"
    by (simp add: handshake_payload_def NewPeerClient_def)
  ultimately show ?thesis
    using that [of pm' _ p ?i] c p f by (simp add: p_def)
qed

text \<open>A sequence of packets arriving on one accepted connection.\<close>

fun receive_all ::
    "net \<Rightarrow> time \<Rightarrow> nat \<Rightarrow> wire list \<Rightarrow> P2PManager \<times> TempChatManager \<Rightarrow> (P2PManager \<times> TempChatManager) \<times> sent" where
  "receive_all net now i [] st = (st, [])"
| "receive_all net now i (w # ws) st =
     (case receive_packet net now i w st of
        (st', out) \<Rightarrow> (case receive_all net now i ws st' of (st'', out') \<Rightarrow> (st'', out @ out')))"

text \<open>What a packet does to the chat state does not depend on the connection.\<close>

lemma receive_packet_chat:
  "snd (fst (receive_packet net now i w (pm, tc))) =
     (case w of
        WSyncConnectors p \<Rightarrow> snd (onSyncConnectors now p tc)
      | WRelayMessage p \<Rightarrow> snd (onRelayMessage now p tc)
      | _ \<Rightarrow> tc)"
  by (auto simp: receive_packet_def handlePacket_def handleSyncConnectors_def handleRelayMessage_def
      split: wire.split prod.split)

definition answers :: "net \<Rightarrow> nat \<Rightarrow> nat \<Rightarrow> P2PManager \<Rightarrow> bool" where
  "answers net j s pm \<longleftrightarrow> j < length (pmAccepted pm) \<and> pnSocket (pmAccepted pm ! j) = s \<and> s \<in> pmOpen pm \<and> (\<forall>w. ntWrite net s w)"

lemma receive_handshake:
  assumes "answers net j s pm"
  obtains pm' where "receive_packet net now j (WHandshake h) (pm, tc) = ((pm', tc), [(s, WHandshakeAck (fst (onHandshake now h pm)))])"
    and "answers net j s pm'"
proof -
  let ?pm = "set_conn j ((pmAccepted pm ! j)\<lparr>pnLastActive := unix now\<rparr>) pm"
  obtain pm' where pm': "handleHandshake net now j h ?pm = (pm', [(s, WHandshakeAck (fst (onHandshake now h pm)))])"
    using assms by (simp add: handleHandshake_def answers_def Let_def onHandshake_def set_conn_def write_packet_def)
  then have "answers net j s pm'"
    using assms by (auto simp: handleHandshake_def answers_def Let_def onHandshake_def set_conn_def write_packet_def onPeerConnected_def)
  then show ?thesis
    using that pm' by (simp add: receive_packet_def handlePacket_def)
qed

lemma GetLocalConnectors_remote [simp]: "GetLocalConnectors now (SetRemoteConnectors k cs tc) = GetLocalConnectors now tc"
  by (simp add: GetLocalConnectors_def listOnlineConnectorsLocked_def SetRemoteConnectors_def session_expired_def)

lemma receive_sync:
  assumes "answers net j s pm"
  obtains pm' where "receive_packet net now j (WSyncConnectors p) (pm, tc) =
      ((pm', snd (onSyncConnectors now p tc)), [(s, WSyncAck (fst (onSyncConnectors now p tc)))])"
  using assms by (simp add: receive_packet_def handlePacket_def handleSyncConnectors_def reply_to_def write_packet_def
      answers_def set_conn_def split: prod.split)

text \<open>
  Two kernels that connect know each other's connectors.  Kernel A connects to B; the packets A sends arrive
  in order on the connection B accepted, and B's answers in order at A's client.  Then each has cached, under the
  other's name, exactly the connectors the other lists as online; a kernel with none to list leaves
  the other's cache as it was, also when it listed some before.
\<close>

theorem connect_exchanges_connectors:
  fixes nowA nowB :: time
  assumes "go_get (pmPeers pmA) k = None" and "ntDial netA (addr @ '':'' @ show_int port) = Some s" and "\<And>w. ntWrite netA s w"
    and "ntReply netA s = Some (WHandshakeAck (fst (onHandshake nowB h pmB)))" and "pmKernelID pmB = k"
    and "answers netB j s' pmB"
    and "ConnectToPeer netA nowA tcA k addr port pmA = (r, pmA', outA)"
    and "receive_all netB nowB j (map snd outA) (pmB, tcB) = ((pmB', tcB'), outB)"
    and "foldl (\<lambda>tc w. client_handlePacket nowA k w pmA' tc) tcA (map snd outB) = tcA'"
  shows "r = Inr ()
    \<and> tcB' = (if GetLocalConnectors nowA tcA = [] then tcB
               else SetRemoteConnectors (pmKernelID pmA) (GetLocalConnectors nowA tcA) tcB)
    \<and> tcA' = (if GetLocalConnectors nowB tcB = [] then tcA
               else SetRemoteConnectors k (GetLocalConnectors nowB tcB) tcA)"
proof -
  let ?sync = "\<lparr> sySourceKernelID = pmKernelID pmA, syConnectors = GetLocalConnectors nowA tcA, syTimestamp = unix nowA \<rparr>"
  have ack: "haSuccess (fst (onHandshake nowB h pmB))" "haKernelID (fst (onHandshake nowB h pmB)) = k"
    using assms(5) by (simp_all add: onHandshake_def Let_def)
  obtain h' p where c: "r = Inr ()" "outA = [(s, WHandshake h'), (s, WSyncConnectors ?sync)]" "go_get (pmPeers pmA') k = Some p"
    using connect_new_peer [OF assms(1,2,4) ack assms(3), of nowA tcA] assms(7) by (metis prod.inject)
  obtain pm1 where 1: "receive_packet netB nowB j (WHandshake h') (pmB, tcB) =
      ((pm1, tcB), [(s', WHandshakeAck (fst (onHandshake nowB h' pmB)))])" "answers netB j s' pm1"
    by (rule receive_handshake [OF assms(6)])
  obtain pm2 where 2: "receive_packet netB nowB j (WSyncConnectors ?sync) (pm1, tcB) =
      ((pm2, snd (onSyncConnectors nowB ?sync tcB)), [(s', WSyncAck (fst (onSyncConnectors nowB ?sync tcB)))])"
    by (rule receive_sync [OF 1(2)])
  have B: "tcB' = snd (onSyncConnectors nowB ?sync tcB)"
      "outB = [(s', WHandshakeAck (fst (onHandshake nowB h' pmB))), (s', WSyncAck (fst (onSyncConnectors nowB ?sync tcB)))]"
    using assms(8) by (simp_all add: c(2) 1(1) 2)
  then have "tcB' = (if GetLocalConnectors nowA tcA = [] then tcB
                 else SetRemoteConnectors (pmKernelID pmA) (GetLocalConnectors nowA tcA) tcB)"
    by (simp add: onSyncConnectors_def Let_def)
  moreover have "tcA' = (if GetLocalConnectors nowB tcB = [] then tcA
                 else SetRemoteConnectors k (GetLocalConnectors nowB tcB) tcA)"
    using assms(9) c(3) by (simp add: B(2) client_handlePacket_def onSyncAck_def onSyncConnectors_def Let_def split: if_splits)
  ultimately show ?thesis using c(1) by blast
qed

lemma receive_all_chat:
  "snd (fst (receive_all net now i ws st)) =
     foldl (\<lambda>tc w. case w of
                      WSyncConnectors p \<Rightarrow> snd (onSyncConnectors now p tc)
                    | WRelayMessage p \<Rightarrow> snd (onRelayMessage now p tc)
                    | _ \<Rightarrow> tc) (snd st) ws"
proof (induction net now i ws st rule: receive_all.induct)
  case (2 net now i w ws st)
  obtain st' out where r: "receive_packet net now i w st = (st', out)" by fastforce
  have "snd st' = (case w of
        WSyncConnectors p \<Rightarrow> snd (onSyncConnectors now p (snd st))
      | WRelayMessage p \<Rightarrow> snd (onRelayMessage now p (snd st))
      | _ \<Rightarrow> snd st)"
    using receive_packet_chat [of net now i w "fst st" "snd st"] r by simp
  moreover have "snd (fst (receive_all net now i (w # ws) st)) = snd (fst (receive_all net now i ws st'))"
    by (simp add: r case_prod_unfold)
  ultimately show ?case using 2 [OF r [symmetric]] by simp
qed simp

lemma SetRemoteConnectors_sessions [simp]:
  "tcSessions (SetRemoteConnectors k cs tc) = tcSessions tc" "tcByConnector (SetRemoteConnectors k cs tc) = tcByConnector tc"
  by (simp_all add: SetRemoteConnectors_def)

lemma onSyncConnectors_sessions [simp]:
  "tcSessions (snd (onSyncConnectors now p tc)) = tcSessions tc" "tcByConnector (snd (onSyncConnectors now p tc)) = tcByConnector tc"
  by (simp_all add: onSyncConnectors_def Let_def)

lemma onRelayMessage_delivers:
  assumes "go_get (tcByConnector tc) c = Some sid" and "go_get (tcSessions tc) sid = Some ses" and "length (tsMessages ses) < 100"
    and "rmReceiverID p = qualify k c" and "\<not> has_colon c"
  shows "go_get (tcSessions (snd (onRelayMessage now p tc))) sid = Some (ses\<lparr>tsMessages := tsMessages ses @
    [\<lparr> tmMessageID = rmMessageID p, tmSenderID = rmSenderID p, tmReceiverID = c, tmPayload = rmPayload p,
       tmTimestamp = rmTimestamp p, tmFlowID = rmFlowID p, tmSourceKernelID = rmSenderKernelID p \<rparr>]\<rparr>)"
proof -
  have "GetSessionByConnector c tc = Inr ses" using assms(1,2) by (auto simp: GetSessionByConnector_Inr)
  then show ?thesis
    using assms by (simp add: onRelayMessage_def Let_def id_simps DeliverMessage_def SendMessage_def send_to_def
        message_capacity_def gomap_simps)
qed

text \<open>
  C37. A chat message to a connector of another kernel arrives, with a connection made on demand.  A has no
  connection to B yet and knows its address; the network works between them.  A connector of A sends to
  \<^verbatim>\<open>B:c\<close>, where \<open>c\<close> has a session with room.  The sender is told the message was sent, and once B has
  handled the packets A sent, the payload is the last message in the session of \<open>c\<close>.  The message
  names kernel A as its sender and carries no flow: the identity of the sending connector is lost.
\<close>

theorem on_demand_relay_delivers:
  fixes nowA nowB :: time
  assumes "go_get (pmPeers pmA) k = None" and "ntDial netA (addr @ '':'' @ show_int port) = Some s" and "\<And>w. ntWrite netA s w"
    and "ntReply netA s = Some (WHandshakeAck (fst (onHandshake nowB h pmB)))" and "pmKernelID pmB = k" and "prov k = Some (addr, port)"
    and "k \<noteq> []" and "k \<noteq> tcKernelID tcA" and "\<not> has_colon k" and "\<not> has_colon c"
    and "go_get (tcByConnector tcA) (qualify k c) = None"
    and "go_get (tcByConnector tcB) c = Some sid" and "go_get (tcSessions tcB) sid = Some ses" and "length (tsMessages ses) < 100"
    and "SendTempMessage (Some (relay_handler netA nowA tcA (Some prov) rid)) nowA mid sender (qualify k c) payload flow tcA (pmA, [])
      = (res, tcA', pmA', outA)"
    and "receive_all netB nowB j (map snd outA) (pmB, tcB) = ((pmB', tcB'), outB)"
  shows "res = (True, mid)
    \<and> go_get (tcSessions tcB') sid = Some (ses\<lparr>tsMessages := tsMessages ses @
      [\<lparr> tmMessageID = rid, tmSenderID = tcKernelID tcA, tmReceiverID = c, tmPayload = payload, tmTimestamp = unix nowA,
         tmFlowID = [], tmSourceKernelID = tcKernelID tcA \<rparr>]\<rparr>)"
proof -
  let ?msg = "\<lparr> rmMessageID = rid, rmSenderID = tcKernelID tcA, rmSenderKernelID = tcKernelID tcA,
    rmReceiverID = qualify k c, rmPayload = payload, rmTimestamp = unix nowA, rmFlowID = [] \<rparr>"
  have ack: "haSuccess (fst (onHandshake nowB h pmB))" "haKernelID (fst (onHandshake nowB h pmB)) = k"
    using assms(5) by (simp_all add: onHandshake_def Let_def)
  obtain pm' i p h' y where c: "ConnectToPeer netA nowA tcA k addr port pmA = (Inr (), pm', [(s, WHandshake h'), (s, WSyncConnectors y)])"
      "go_get (pmPeers pm') k = Some p" "piClient p = Some i" "pcConnected (pmClients pm' ! i)"
      "pcWriter (pmClients pm' ! i) = Some s" "s \<in> pmOpen pm'"
    using connect_new_peer [OF assms(1,2,4) ack assms(3), of nowA tcA] by metis
  have "relay_handler netA nowA tcA (Some prov) rid k c payload (pmA, []) =
      (True, pm', [(s, WHandshake h'), (s, WSyncConnectors y), (s, WRelayMessage ?msg)])"
    using assms(1,3,6) c by (simp add: relay_handler_def EnsurePeerConnected_def IsPeerConnected_def RelayMessage_def
        IsConnected_def SendRelayMessage_def Let_def write_packet_def)
  moreover have "GetSessionByConnector (qualify k c) tcA = Inl (ConnectorUnregistered (qualify k c))"
    using assms(11) by (simp add: GetSessionByConnector_def)
  ultimately have A: "res = (True, mid)" "outA = [(s, WHandshake h'), (s, WSyncConnectors y), (s, WRelayMessage ?msg)]"
    using assms(7-10,15) by (auto simp: SendTempMessage_def RouteMessage_def route_target_def id_simps)
  have "tcB' = snd (onRelayMessage nowB ?msg (snd (onSyncConnectors nowB y tcB)))"
    using receive_all_chat [of netB nowB j "map snd outA" "(pmB, tcB)"] assms(16) by (simp add: A(2))
  then show ?thesis
    using A(1) onRelayMessage_delivers [of "snd (onSyncConnectors nowB y tcB)" c sid ses ?msg k nowB] assms(10,12-14) by simp
qed

text \<open>
  A peer that closes its connection is cut off.  Once B has accepted the handshake of A and then received A's
  notice of disconnection, B can neither connect to A on demand nor reach it, whatever the network: the client
  made for the closed connection still calls itself connected.  A chat message to a connector of A is
  reported as sent, and nothing is sent.
\<close>

theorem disconnected_peer_cut_off:
  assumes "handleHandshake net now i h pm = (pm1, out)" and "out \<noteq> []" and "i < length (pmAccepted pm)"
    and "hsKernelID h = k" and "handleDisconnect i pm1 = pm2"
    and "k \<noteq> []" and "k \<noteq> tcKernelID tc" and "\<not> has_colon k" and "go_get (tcByConnector tc) (qualify k c) = None"
    and "prov k = Some (addr, port)"
  shows "EnsurePeerConnected net' now' tc (Some prov) k pm2 = (Inl AlreadyConnected, pm2, [])
    \<and> SendTempMessage (Some (relay_handler net' now' tc (Some prov) rid)) now' mid sender (qualify k c) payload flow tc (pm2, [])
      = ((True, mid), tc, pm2, [])"
proof -
  obtain p ci where p: "go_get (pmPeers pm1) k = Some p" "piClient p = Some ci" "pcConnected (pmClients pm1 ! ci)"
    using assms(1,2,4) by (auto simp: handleHandshake_def Let_def onPeerConnected_def gomap_simps newPeerClientFromConn_def
        split: prod.splits option.splits)
  have "pnPeerKernelID (pmAccepted pm1 ! i) = k"
    using assms(1,3,4) by (auto simp: handleHandshake_def Let_def onPeerConnected_def onHandshake_def set_conn_def
        split: prod.splits option.splits)
  then have pm2: "pmPeers pm2 = go_put k (p\<lparr>piStatus := ''disconnected''\<rparr>) (pmPeers pm1)" "pmClients pm2 = pmClients pm1"
    using assms(5) p(1) by (auto simp: handleDisconnect_def Let_def onPeerDisconnected_def set_status_def conn_Close_def set_conn_def)
  have e: "EnsurePeerConnected net' now' tc (Some prov) k pm2 = (Inl AlreadyConnected, pm2, [])"
    using p pm2 assms(10) by (simp add: EnsurePeerConnected_def IsPeerConnected_def gomap_simps ConnectToPeer_def IsConnected_def)
  have "GetSessionByConnector (qualify k c) tc = Inl (ConnectorUnregistered (qualify k c))"
    using assms(9) by (simp add: GetSessionByConnector_def)
  then show ?thesis
    using assms(6-8) e by (simp add: SendTempMessage_def RouteMessage_def route_target_def id_simps relay_handler_def)
qed

definition demo_chat2 :: TempChatManager where
  "demo_chat2 = (NewTempChatManager ''k2'' 60)\<lparr>tcSessions := [(''s1'', new_session 0 ''s1'' ((demo_request ''b'')\<lparr>rqKernelID := ''k2''\<rparr>))],
     tcByConnector := [(''b'', ''s1'')]\<rparr>"

definition demo_server :: P2PManager where
  "demo_server = accept_connection 0 3 ''r'' (NewP2PManager ''k2'' ''h'' 6)"

definition demo_handshake :: HandshakePayload where
  "demo_handshake = \<lparr> hsKernelID = ''k1'', hsKernelAddr = ''a'', hsKernelPort = 1, hsPeerPort = 0, hsVersion = [], hsTimestamp = 0 \<rparr>"

definition demo_net :: net where
  "demo_net = good_net 7 (WHandshakeAck (fst (onHandshake 0 demo_handshake demo_server)))"

lemma demo_server_simps [simp]:
  "pmKernelID demo_server = ''k2''" "answers demo_net 0 3 demo_server" "pmPeers demo_server = []" "pmServerPeers demo_server = []"
  "length (pmAccepted demo_server) = 1" "3 \<in> pmOpen demo_server" "pnSocket (pmAccepted demo_server ! 0) = 3"
  by (simp_all add: demo_server_def accept_connection_def NewP2PManager_def answers_def demo_net_def good_net_def)

lemma demo_net_simps [simp]:
  "ntDial demo_net a = Some 7" "ntWrite demo_net s w" "ntReply demo_net s = Some (WHandshakeAck (fst (onHandshake 0 demo_handshake demo_server)))"
  by (simp_all add: demo_net_def good_net_def)

lemma demo_chat2_simps [simp]:
  "go_get (tcByConnector demo_chat2) ''b'' = Some ''s1''"
  "go_get (tcSessions demo_chat2) ''s1'' = Some (new_session 0 ''s1'' ((demo_request ''b'')\<lparr>rqKernelID := ''k2''\<rparr>))"
  "GetLocalConnectors 0 demo_chat2 \<noteq> []"
  by (simp_all add: demo_chat2_def GetLocalConnectors_def listOnlineConnectorsLocked_def session_expired_def NewTempChatManager_def
      new_session_def demo_request_def seconds_def)

theorem connect_exchanges_connectors_witness:
  "\<exists>r pmA outA stB outB. ConnectToPeer demo_net 0 demo_chat ''k2'' ''h'' 9 (NewP2PManager ''k1'' ''a'' 1) = (r, pmA, outA)
     \<and> receive_all demo_net 0 0 (map snd outA) (demo_server, demo_chat2) = (stB, outB)
     \<and> foldl (\<lambda>tc w. client_handlePacket 0 ''k2'' w pmA tc) demo_chat (map snd outB)
         = SetRemoteConnectors ''k2'' (GetLocalConnectors 0 demo_chat2) demo_chat"
proof -
  obtain r pmA outA where A: "ConnectToPeer demo_net 0 demo_chat ''k2'' ''h'' 9 (NewP2PManager ''k1'' ''a'' 1) = (r, pmA, outA)"
    by (metis prod.collapse)
  obtain pmB tcB outB where B: "receive_all demo_net 0 0 (map snd outA) (demo_server, demo_chat2) = ((pmB, tcB), outB)"
    by (metis prod.collapse)
  have "go_get (pmPeers (NewP2PManager ''k1'' ''a'' 1)) ''k2'' = None" by (simp add: NewP2PManager_def)
  from connect_exchanges_connectors [OF this _ _ demo_net_simps(3) demo_server_simps(1,2) A B refl]
  show ?thesis using A B by auto
qed

theorem on_demand_relay_delivers_witness:
  "\<exists>res tcA pmA outA stB outB. SendTempMessage (Some (relay_handler demo_net 0 demo_chat (Some [''k2'' \<mapsto> (''h'', 9)]) ''id'')) 0 ''m'' ''a''
       (qualify ''k2'' ''b'') ''hi'' ''f'' demo_chat (NewP2PManager ''k1'' ''a'' 1, []) = (res, tcA, pmA, outA)
     \<and> res = (True, ''m'')
     \<and> receive_all demo_net 0 0 (map snd outA) (demo_server, demo_chat2) = (stB, outB)
     \<and> (\<exists>s. go_get (tcSessions (snd stB)) ''s1'' = Some s \<and> map tmPayload (tsMessages s) = [''hi''])"
proof -
  obtain res tcA pmA outA where A: "SendTempMessage (Some (relay_handler demo_net 0 demo_chat (Some [''k2'' \<mapsto> (''h'', 9)]) ''id'')) 0 ''m'' ''a''
       (qualify ''k2'' ''b'') ''hi'' ''f'' demo_chat (NewP2PManager ''k1'' ''a'' 1, []) = (res, tcA, pmA, outA)"
    by (metis prod.collapse)
  obtain pmB tcB outB where B: "receive_all demo_net 0 0 (map snd outA) (demo_server, demo_chat2) = ((pmB, tcB), outB)"
    by (metis prod.collapse)
  have h: "go_get (pmPeers (NewP2PManager ''k1'' ''a'' 1)) ''k2'' = None" "[''k2'' \<mapsto> (''h'', 9)] ''k2'' = Some (''h'', 9 :: int)"
      "''k2'' \<noteq> tcKernelID demo_chat" "\<not> has_colon ''k2''" "\<not> has_colon ''b''" "''k2'' \<noteq> []"
      "go_get (tcByConnector demo_chat) (qualify ''k2'' ''b'') = None"
      "length (tsMessages (new_session 0 ''s1'' ((demo_request ''b'')\<lparr>rqKernelID := ''k2''\<rparr>))) < 100"
    by (simp_all add: NewP2PManager_def demo_chat_eq NewTempChatManager_def has_colon_def qualify_def new_session_def)
  note on_demand_relay_delivers [OF h(1) demo_net_simps(1,2,3) demo_server_simps(1) h(2,6,3,4,5,7) demo_chat2_simps(1,2) h(8) A B]
  then show ?thesis using A B by (auto simp: new_session_def)
qed

theorem disconnected_peer_cut_off_witness:
  "\<exists>pm out. handleHandshake demo_net 0 0 demo_handshake
       demo_server = (pm, out) \<and> out \<noteq> []
     \<and> fst (EnsurePeerConnected demo_net 5 demo_chat2 (Some [''k1'' \<mapsto> (''a'', 4)]) ''k1'' (handleDisconnect 0 pm)) = Inl AlreadyConnected"
proof -
  obtain pm out where p: "handleHandshake demo_net 0 0 demo_handshake demo_server = (pm, out)" "out \<noteq> []"
    by (simp add: handleHandshake_def Let_def onHandshake_def set_conn_def write_packet_def)
  have h: "0 < length (pmAccepted demo_server)" "hsKernelID demo_handshake = ''k1''" "''k1'' \<noteq> []" "''k1'' \<noteq> tcKernelID demo_chat2"
      "\<not> has_colon ''k1''" "go_get (tcByConnector demo_chat2) (qualify ''k1'' ''x'') = None"
      "[''k1'' \<mapsto> (''a'', 4)] ''k1'' = Some (''a'', 4 :: int)"
    by (simp_all add: demo_chat2_def NewTempChatManager_def has_colon_def qualify_def demo_handshake_def)
  from disconnected_peer_cut_off [where prov = "[''k1'' \<mapsto> (''a'', 4)]", OF p h(1,2) refl h(3-7), of demo_net 5] p show ?thesis by auto
qed

end
