(* ===== verification/Kernel_Network.thy ===== *)
theory Kernel_Network
  imports Peer_Manager Multi_Hop_Routes
begin

text \<open>
  The network of kernels (\<^verbatim>\<open>kernel/server/multi_kernel_manager.go\<close> and the handlers of
  \<^verbatim>\<open>kernel/server/kernel_service.go\<close> that change it): which kernels are known and connected, interconnection
  requests and their approval, the exchange of known kernels, and the establishment of multi-hop routes.

  The network and the files are the argument \<open>net\<close>: whether the own certificates can be loaded (\<open>ktTls\<close>), whether
  dialling an address and port succeeds, what the remote \<^verbatim>\<open>RegisterKernel\<close> and \<^verbatim>\<open>SyncKnownKernels\<close> answer
  (\<open>None\<close>: the call failed), whether certificate files can be written and what the own CA files hold.  Operations
  return the goroutines they start (\<open>task\<close>) and the evidence they submit, in order; each goroutine's body
  is an operation of its own.  In a \<open>KernelInfo\<close>, \<open>kiClient\<close> and \<open>kiConn\<close> say whether the pointers are set.
\<close>

section \<open>State\<close>

record KernelInfo =
  kiKernelID :: string
  kiAddress :: string
  kiPort :: int
  kiMainPort :: int
  kiStatus :: string
  kiLastHeartbeat :: int
  kiPublicKey :: string
  kiClient :: bool
  kiConn :: bool

record PendingInterconnectRequest =
  ipRequestID :: string
  ipRequesterKernelID :: string
  ipAddress :: string
  ipMainPort :: int
  ipKernelPort :: int
  ipCaCertificate :: string
  ipTimestamp :: int
  ipStatus :: string

record PendingHopInfo =
  phRouteName :: string
  phHopIndex :: nat
  phHopTotal :: nat
  phToKernelID :: string
  phToAddress :: string
  phToPort :: int
  phRequestID :: string
  phApproved :: bool
  phApprovedBy :: string

record MultiHopSession =
  msRouteName :: string
  msHops :: "(nat \<times> PendingHopInfo) list"
  msDone :: bool

record RemotePermissionRequest =
  rpRequestID :: string
  rpRequesterID :: string
  rpChannelID :: string
  rpChangeType :: string
  rpTargetID :: string
  rpReason :: string
  rpStatus :: string
  rpSourceKernelID :: string
  rpCreatedAt :: time

record MultiKernelManager =
  mkKernelID :: string
  mkAddress :: string
  mkPort :: int
  mkKernels :: "KernelInfo gomap"
  mkPendingRequests :: "PendingInterconnectRequest gomap"
  mkPeerCACerts :: "string gomap"
  mkCaFiles :: "string gomap"
  mkRunning :: bool
  mkRemoteRequests :: "RemotePermissionRequest list gomap"
  mkPendingHops :: "PendingHopInfo gomap"
  mkSessions :: "MultiHopSession gomap"

text \<open>What kernels tell each other: \<^verbatim>\<open>pb.KernelInfo\<close> and the messages of registration and synchronisation.\<close>

record KernelView =
  kvKernelId :: string
  kvAddress :: string
  kvPort :: int
  kvStatus :: string
  kvLastHeartbeat :: int
  kvPublicKey :: string

record RegisterKernelRequest =
  rkKernelId :: string
  rkAddress :: string
  rkPort :: int
  rkPublicKey :: string
  rkCaCertificate :: string
  rkIsInterconnectRequest :: bool
  rkIsInterconnectApprove :: bool
  rkTimestamp :: int

record RegisterKernelResponse =
  rsSuccess :: bool
  rsMessage :: string
  rsSessionToken :: string
  rsPeerCaCertificate :: string
  rsKnownKernels :: "KernelView list"

record SyncKnownKernelsRequest =
  skSourceKernelId :: string
  skKnownKernels :: "KernelView list"
  skSyncType :: string

record kernel_net =
  ktTls :: bool
  ktDial :: "string \<Rightarrow> int \<Rightarrow> bool"
  ktRegister :: "string \<Rightarrow> int \<Rightarrow> RegisterKernelRequest \<Rightarrow> RegisterKernelResponse option"
  ktSync :: "string \<Rightarrow> SyncKnownKernelsRequest \<Rightarrow> KernelView list option"
  ktWrite :: bool
  ktOwnCa :: string
  ktIntermediateCa :: string

datatype task =
  RunHeartbeat string | RunConnectP2P string string int | RunBroadcast string | RunSyncPeers string
| RunConnectAndSync string string int | RunWaitApprovals string

type_synonym interconnect_audit = "string \<times> string \<times> string \<times> string"

datatype mk_error =
  ConnectedAlready string | TlsUnavailable | DialUnreachable string | RegisterCallFailed string
| InterconnectPending string | RegistrationRejected string | RequestNotFound string | KernelNotFound string
| ClientUnavailable string | SyncCallFailed string | AddressMissing string | ApproveFailed string
| NoHopConfigManager | RouteUnavailable hop_error | RouteMissesTarget | RouteHasNoHops | HopFailed nat string
| RoutesFailed nat | HopBroken nat | HopPortInvalid nat | HopAddressEmpty nat | PanicNilConn | PanicRUnlock | ForwardCallFailed string | AckRefused string

definition NewMultiKernelManager :: "string \<Rightarrow> string \<Rightarrow> int \<Rightarrow> MultiKernelManager" where
  "NewMultiKernelManager kid addr port =
     \<lparr> mkKernelID = kid, mkAddress = addr, mkPort = port, mkKernels = [], mkPendingRequests = [], mkPeerCACerts = [],
       mkCaFiles = [], mkRunning = True, mkRemoteRequests = [], mkPendingHops = [], mkSessions = [] \<rparr>"

definition SetPendingPeerCACert :: "string \<Rightarrow> string \<Rightarrow> MultiKernelManager \<Rightarrow> MultiKernelManager" where
  "SetPendingPeerCACert k pem m = m\<lparr>mkPeerCACerts := go_put k pem (mkPeerCACerts m)\<rparr>"

definition GetPendingPeerCACerts :: "MultiKernelManager \<Rightarrow> string option" where
  "GetPendingPeerCACerts m = (case mkPeerCACerts m of [] \<Rightarrow> None | (k, pem) # xs \<Rightarrow> Some pem)"

definition ca_file :: "string \<Rightarrow> string" where
  "ca_file k = ''certs/peer-'' @ k @ ''-ca.crt''"

definition save_ca :: "kernel_net \<Rightarrow> string \<Rightarrow> string \<Rightarrow> MultiKernelManager \<Rightarrow> MultiKernelManager" where
  "save_ca net k cert m =
     (if cert \<noteq> [] \<and> ktWrite net then m\<lparr>mkCaFiles := go_put (ca_file k) cert (mkCaFiles m)\<rparr> else m)"

definition GetKernelAddress :: "MultiKernelManager \<Rightarrow> string \<Rightarrow> (string \<times> int) option" where
  "GetKernelAddress m k =
     (case go_get (mkKernels m) k of None \<Rightarrow> None | Some i \<Rightarrow> Some (kiAddress i, kiPort i + 3))"

definition GetKnownRemoteKernelIDs :: "MultiKernelManager \<Rightarrow> string list" where
  "GetKnownRemoteKernelIDs m = filter (\<lambda>k. k \<noteq> mkKernelID m) (map fst (mkKernels m))"

definition ListKnownKernels :: "MultiKernelManager \<Rightarrow> KernelInfo list" where
  "ListKnownKernels m = map snd (mkKernels m)"

definition GetConnectedKernelCount :: "MultiKernelManager \<Rightarrow> nat" where
  "GetConnectedKernelCount m = length (mkKernels m)"

definition AddPendingRequest :: "PendingInterconnectRequest \<Rightarrow> MultiKernelManager \<Rightarrow> MultiKernelManager" where
  "AddPendingRequest r m = m\<lparr>mkPendingRequests := go_put (ipRequestID r) r (mkPendingRequests m)\<rparr>"

definition ListPendingRequests :: "MultiKernelManager \<Rightarrow> PendingInterconnectRequest list" where
  "ListPendingRequests m = map snd (mkPendingRequests m)"

definition put_kernel :: "string \<Rightarrow> KernelInfo \<Rightarrow> MultiKernelManager \<Rightarrow> MultiKernelManager" where
  "put_kernel k i m = m\<lparr>mkKernels := go_put k i (mkKernels m)\<rparr>"

definition del_kernel :: "string \<Rightarrow> MultiKernelManager \<Rightarrow> MultiKernelManager" where
  "del_kernel k m = m\<lparr>mkKernels := go_del k (mkKernels m)\<rparr>"

definition kernel_view :: "int \<Rightarrow> KernelInfo \<Rightarrow> KernelView" where
  "kernel_view port i =
     \<lparr> kvKernelId = kiKernelID i, kvAddress = kiAddress i, kvPort = int32 port, kvStatus = kiStatus i,
       kvLastHeartbeat = kiLastHeartbeat i, kvPublicKey = kiPublicKey i \<rparr>"

section \<open>Connecting\<close>

text \<open>The answer to an interconnection request carries its identifier in the text of the message.\<close>

definition pending_tag :: string where
  "pending_tag = ''interconnect_request_id:''"

definition pending_message :: "string \<Rightarrow> string" where
  "pending_message rid = pending_tag @ rid @ '';status:pending''"

fun split_on :: "char \<Rightarrow> string \<Rightarrow> string list" where
  "split_on c [] = [[]]"
| "split_on c (x # xs) =
     (if x = c then [] # split_on c xs else (case split_on c xs of [] \<Rightarrow> [[x]] | w # ws \<Rightarrow> (x # w) # ws))"

definition request_id_of :: "string \<Rightarrow> string" where
  "request_id_of msg =
     (case find (prefix pending_tag) (split_on CHR '';'' msg) of None \<Rightarrow> [] | Some p \<Rightarrow> drop (length pending_tag) p)"

definition to_lower :: "char \<Rightarrow> char" where
  "to_lower c = (if 65 \<le> (of_char c :: nat) \<and> (of_char c :: nat) \<le> 90 then char_of (of_char c + 32 :: nat) else c)"

definition says_already_registered :: "string \<Rightarrow> bool" where
  "says_already_registered msg \<longleftrightarrow> sublist ''kernel already registered'' (map to_lower msg)"

definition EventTypeInterconnectRequested :: string where
  "EventTypeInterconnectRequested = ''INTERCONNECT_REQUESTED''"

definition EventTypeInterconnectApproved :: string where
  "EventTypeInterconnectApproved = ''INTERCONNECT_APPROVED''"

definition register_request :: "kernel_net \<Rightarrow> time \<Rightarrow> bool \<Rightarrow> bool \<Rightarrow> MultiKernelManager \<Rightarrow> RegisterKernelRequest" where
  "register_request net now ireq approve m =
     \<lparr> rkKernelId = mkKernelID m, rkAddress = mkAddress m, rkPort = int32 (mkPort m), rkPublicKey = [],
       rkCaCertificate = ktOwnCa net, rkIsInterconnectRequest = ireq, rkIsInterconnectApprove = approve,
       rkTimestamp = unix now \<rparr>"

definition connected_info :: "time \<Rightarrow> string \<Rightarrow> string \<Rightarrow> int \<Rightarrow> KernelInfo" where
  "connected_info now k addr port =
     \<lparr> kiKernelID = k, kiAddress = addr, kiPort = port, kiMainPort = port - 2, kiStatus = ''active'',
       kiLastHeartbeat = unix now, kiPublicKey = [], kiClient = True, kiConn = True \<rparr>"

type_synonym mk_result = "(mk_error + unit) \<times> MultiKernelManager \<times> task list \<times> interconnect_audit list"

definition connectToKernelInternal ::
    "kernel_net \<Rightarrow> time \<Rightarrow> string \<Rightarrow> string \<Rightarrow> int \<Rightarrow> bool \<Rightarrow> MultiKernelManager \<Rightarrow> mk_result" where
  "connectToKernelInternal net now k addr port ireq m =
     (if (case go_get (mkKernels m) k of None \<Rightarrow> False | Some i \<Rightarrow> kiClient i \<and> kiConn i)
      then (Inl (ConnectedAlready k), m, [], [])
      else let m0 = del_kernel k m in
        if \<not> ktTls net then (Inl TlsUnavailable, m0, [], [])
        else if \<not> ktDial net addr port then (Inl (DialUnreachable k), m0, [], [])
        else case ktRegister net addr port (register_request net now ireq False m) of
               None \<Rightarrow> (Inl (RegisterCallFailed k), m0, [], [])
             | Some resp \<Rightarrow>
                 (let evs = (if ireq then [(mkKernelID m, EventTypeInterconnectRequested, ''outgoing'', k)] else []);
                      m1 = save_ca net k (rsPeerCaCertificate resp) m0
                  in if sublist pending_tag (rsMessage resp)
                     then (Inl (InterconnectPending (request_id_of (rsMessage resp))), m1, [], evs)
                     else if \<not> rsSuccess resp \<and> \<not> says_already_registered (rsMessage resp)
                     then (Inl (RegistrationRejected k), m0, [], evs)
                     else (Inr (), put_kernel k (connected_info now k addr port) m1,
                           [RunHeartbeat k, RunConnectP2P k addr port, RunBroadcast k, RunSyncPeers k], evs)))"

definition createKernelClient ::
    "kernel_net \<Rightarrow> time \<Rightarrow> string \<Rightarrow> string \<Rightarrow> int \<Rightarrow> MultiKernelManager \<Rightarrow> (mk_error + unit) \<times> MultiKernelManager" where
  "createKernelClient net now k addr port m =
     (if (case go_get (mkKernels m) k of None \<Rightarrow> False | Some i \<Rightarrow> kiClient i) then (Inr (), m)
      else if \<not> ktTls net then (Inl TlsUnavailable, m)
      else if \<not> ktDial net addr port then (Inl (DialUnreachable k), m)
      else (Inr (), put_kernel k
              (case go_get (mkKernels m) k of
                 Some i \<Rightarrow> i\<lparr>kiConn := True, kiClient := True, kiLastHeartbeat := unix now\<rparr>
               | None \<Rightarrow> \<lparr> kiKernelID = k, kiAddress = addr, kiPort = port, kiMainPort = port, kiStatus = ''active'',
                           kiLastHeartbeat = unix now, kiPublicKey = [], kiClient = True, kiConn = True \<rparr>) m))"

definition EnsureKernelConnected ::
    "kernel_net \<Rightarrow> time \<Rightarrow> string \<Rightarrow> MultiKernelManager \<Rightarrow> (mk_error + unit) \<times> MultiKernelManager" where
  "EnsureKernelConnected net now k m =
     (case go_get (mkKernels m) k of
        None \<Rightarrow> (Inl (KernelNotFound k), m)
      | Some i \<Rightarrow>
          if kiClient i \<and> kiConn i then (Inr (), m)
          else if kiAddress i = [] then (Inl (AddressMissing k), m)
          else if \<not> ktTls net then (Inl TlsUnavailable, m)
          else if \<not> ktDial net (kiAddress i) (if kiPort i > 0 then kiPort i else kiMainPort i + 2) then (Inl (DialUnreachable k), m)
          else (Inr (), put_kernel k (i\<lparr>kiClient := True, kiConn := True, kiStatus := ''active'', kiLastHeartbeat := unix now\<rparr>) m))"

text \<open>Closing the connection of a kernel that has none dereferences a nil pointer.\<close>

definition DisconnectFromKernel :: "string \<Rightarrow> MultiKernelManager \<Rightarrow> (mk_error + unit) \<times> MultiKernelManager" where
  "DisconnectFromKernel k m =
     (case go_get (mkKernels m) k of
        None \<Rightarrow> (Inl (KernelNotFound k), m)
      | Some i \<Rightarrow> if \<not> kiConn i then (Inl PanicNilConn, m) else (Inr (), del_kernel k m))"

definition Shutdown :: "MultiKernelManager \<Rightarrow> (mk_error + unit) \<times> MultiKernelManager" where
  "Shutdown m =
     (if list_all kiConn (map snd (mkKernels m)) then (Inr (), m\<lparr>mkRunning := False, mkKernels := []\<rparr>)
      else (Inl PanicNilConn, m\<lparr>mkRunning := False\<rparr>))"

section \<open>The kernel service\<close>

definition session_token :: "string \<Rightarrow> time \<Rightarrow> string" where
  "session_token k now = ''session_'' @ k @ ''_'' @ show_int (unix now)"

definition registered_info :: "time \<Rightarrow> RegisterKernelRequest \<Rightarrow> KernelInfo" where
  "registered_info now req =
     \<lparr> kiKernelID = rkKernelId req, kiAddress = rkAddress req, kiPort = rkPort req, kiMainPort = rkPort req,
       kiStatus = ''active'', kiLastHeartbeat = unix now, kiPublicKey = rkPublicKey req, kiClient = False, kiConn = False \<rparr>"

definition response :: "kernel_net \<Rightarrow> bool \<Rightarrow> string \<Rightarrow> string \<Rightarrow> KernelView list \<Rightarrow> RegisterKernelResponse" where
  "response net ok msg token known =
     \<lparr> rsSuccess = ok, rsMessage = msg, rsSessionToken = token, rsPeerCaCertificate = ktIntermediateCa net, rsKnownKernels = known \<rparr>"

text \<open>Entering a kernel: its certificate, its entry, a client to its kernel port and the goroutines.\<close>

definition enter_kernel :: "kernel_net \<Rightarrow> time \<Rightarrow> RegisterKernelRequest \<Rightarrow> MultiKernelManager \<Rightarrow> MultiKernelManager \<times> task list" where
  "enter_kernel net now req m =
     (let k = rkKernelId req;
          m1 = (if rkCaCertificate req \<noteq> [] then SetPendingPeerCACert k (rkCaCertificate req) (save_ca net k (rkCaCertificate req) m) else m);
          m2 = put_kernel k (registered_info now req) m1
      in (snd (createKernelClient net now k (rkAddress req) (rkPort req + 2) m2),
          [RunConnectP2P k (rkAddress req) (rkPort req + 2), RunBroadcast k]))"

definition pending_request :: "string \<Rightarrow> RegisterKernelRequest \<Rightarrow> PendingInterconnectRequest" where
  "pending_request rid req =
     \<lparr> ipRequestID = rid, ipRequesterKernelID = rkKernelId req, ipAddress = rkAddress req, ipMainPort = rkPort req,
       ipKernelPort = rkPort req + 2, ipCaCertificate = rkCaCertificate req, ipTimestamp = rkTimestamp req, ipStatus = ''pending'' \<rparr>"

definition RegisterKernel ::
    "kernel_net \<Rightarrow> time \<Rightarrow> string \<Rightarrow> RegisterKernelRequest \<Rightarrow> MultiKernelManager \<Rightarrow>
     RegisterKernelResponse \<times> MultiKernelManager \<times> task list \<times> interconnect_audit list" where
  "RegisterKernel net now rid req m =
     (let k = rkKernelId req in
      if k = mkKernelID m then (response net False ''kernel ID conflict'' [] [], m, [], [])
      else if go_get (mkKernels m) k \<noteq> None then (response net False ''kernel already registered'' [] [], m, [], [])
      else if rkIsInterconnectApprove req then
        (case enter_kernel net now req m of
           (m', ts) \<Rightarrow> (response net True ''kernel registered via approve'' (session_token k now) [], m', ts, []))
      else if rkIsInterconnectRequest req then
        (let m1 = AddPendingRequest (pending_request rid req) m;
             m2 = (if rkCaCertificate req \<noteq> [] then SetPendingPeerCACert k (rkCaCertificate req) m1 else m1)
         in (response net True (pending_message rid) [] [], m2, [],
             [(k, EventTypeInterconnectRequested, ''incoming'', mkKernelID m)]))
      else
        (case enter_kernel net now req m of
           (m', ts) \<Rightarrow>
             (response net True ''kernel registered successfully'' (session_token k now)
                (map (\<lambda>i. kernel_view (kiPort i) i) (filter (\<lambda>i. kiKernelID i \<noteq> k) (map snd (mkKernels m')))), m', ts, [])))"

definition KernelHeartbeat :: "time \<Rightarrow> string \<Rightarrow> MultiKernelManager \<Rightarrow> MultiKernelManager" where
  "KernelHeartbeat now k m =
     (case go_get (mkKernels m) k of
        None \<Rightarrow> m
      | Some i \<Rightarrow> put_kernel k (i\<lparr>kiLastHeartbeat := unix now, kiStatus := ''active''\<rparr>) m)"

definition DiscoverKernels :: "string \<Rightarrow> MultiKernelManager \<Rightarrow> KernelView list" where
  "DiscoverKernels st m =
     map (\<lambda>i. kernel_view (kiPort i) i) (filter (\<lambda>i. st = [] \<or> kiStatus i = st) (map snd (mkKernels m)))"

text \<open>\<^verbatim>\<open>SyncKnownKernels\<close>: one kernel of the list, then what the sender does not know.\<close>

definition learn_kernel :: "KernelView \<Rightarrow> MultiKernelManager \<Rightarrow> MultiKernelManager \<times> KernelView list \<times> task list" where
  "learn_kernel v m =
     (if kvKernelId v = mkKernelID m then (m, [], [])
      else case go_get (mkKernels m) (kvKernelId v) of
             None \<Rightarrow>
               (put_kernel (kvKernelId v)
                  \<lparr> kiKernelID = kvKernelId v, kiAddress = kvAddress v, kiPort = kvPort v + 2, kiMainPort = kvPort v,
                    kiStatus = kvStatus v, kiLastHeartbeat = kvLastHeartbeat v, kiPublicKey = kvPublicKey v,
                    kiClient = False, kiConn = False \<rparr> m,
                [v], [RunConnectAndSync (kvKernelId v) (kvAddress v) (kvPort v + 2)])
           | Some i \<Rightarrow>
               (if kvLastHeartbeat v > kiLastHeartbeat i
                then put_kernel (kvKernelId v) (i\<lparr>kiLastHeartbeat := kvLastHeartbeat v, kiStatus := kvStatus v\<rparr>) m
                else m, [], []))"

fun learn_all :: "KernelView list \<Rightarrow> MultiKernelManager \<Rightarrow> MultiKernelManager \<times> KernelView list \<times> task list" where
  "learn_all [] m = (m, [], [])"
| "learn_all (v # vs) m =
     (case learn_kernel v m of
        (m', new, ts) \<Rightarrow> (case learn_all vs m' of (m'', new', ts') \<Rightarrow> (m'', new @ new', ts @ ts')))"

definition SyncKnownKernels ::
    "SyncKnownKernelsRequest \<Rightarrow> MultiKernelManager \<Rightarrow> KernelView list \<times> MultiKernelManager \<times> task list" where
  "SyncKnownKernels req m =
     (case learn_all (skKnownKernels req) m of
        (m', new, ts) \<Rightarrow>
          (new @ map (\<lambda>i. kernel_view (kiMainPort i) i)
                   (filter (\<lambda>i. kiKernelID i \<noteq> skSourceKernelId req \<and>
                                \<not> list_ex (\<lambda>v. kvKernelId v = kiKernelID i) (skKnownKernels req)) (map snd (mkKernels m'))),
           m', ts))"

text \<open>
  The sending side: \<^verbatim>\<open>BroadcastKnownKernels\<close>, \<^verbatim>\<open>SyncPeerKernels\<close> and \<^verbatim>\<open>SyncKnownKernelsToKernel\<close> collect different lists and
  then connect to the kernels the other side returned.  \<open>skip_self\<close>: the own kernel is left out of these.
\<close>

definition connect_new :: "kernel_net \<Rightarrow> time \<Rightarrow> bool \<Rightarrow> KernelView \<Rightarrow> MultiKernelManager \<Rightarrow> MultiKernelManager \<times> task list" where
  "connect_new net now skip_self v m =
     (if skip_self \<and> kvKernelId v = mkKernelID m then (m, [])
      else if (case go_get (mkKernels m) (kvKernelId v) of None \<Rightarrow> False | Some i \<Rightarrow> kiConn i \<and> kiClient i) then (m, [])
      else case connectToKernelInternal net now (kvKernelId v) (kvAddress v) (kvPort v + 2) False m of
             (r, m', ts, evs) \<Rightarrow> (m', ts))"

fun connect_all :: "kernel_net \<Rightarrow> time \<Rightarrow> bool \<Rightarrow> KernelView list \<Rightarrow> MultiKernelManager \<Rightarrow> MultiKernelManager \<times> task list" where
  "connect_all net now skip_self [] m = (m, [])"
| "connect_all net now skip_self (v # vs) m =
     (case connect_new net now skip_self v m of
        (m', ts) \<Rightarrow> (case connect_all net now skip_self vs m' of (m'', ts') \<Rightarrow> (m'', ts @ ts')))"

definition others_known :: "string \<Rightarrow> MultiKernelManager \<Rightarrow> KernelView list" where
  "others_known target m =
     map (\<lambda>i. kernel_view (kiMainPort i) i) (filter (\<lambda>i. kiKernelID i \<noteq> target) (map snd (mkKernels m)))"

definition BroadcastKnownKernels ::
    "kernel_net \<Rightarrow> time \<Rightarrow> string \<Rightarrow> MultiKernelManager \<Rightarrow> (mk_error + unit) \<times> MultiKernelManager \<times> task list" where
  "BroadcastKnownKernels net now target m =
     (case go_get (mkKernels m) target of
        None \<Rightarrow> (Inl (KernelNotFound target), m, [])
      | Some i \<Rightarrow>
          if \<not> kiClient i then (Inl (ClientUnavailable target), m, [])
          else if others_known target m = [] then (Inr (), m, [])
          else (case ktSync net target \<lparr> skSourceKernelId = mkKernelID m, skKnownKernels = others_known target m, skSyncType = ''full'' \<rparr> of
                  None \<Rightarrow> (Inl (SyncCallFailed target), m, [])
                | Some new \<Rightarrow> (case connect_all net now False new m of (m', ts) \<Rightarrow> (Inr (), m', ts))))"

definition SyncKnownKernelsToKernel ::
    "kernel_net \<Rightarrow> time \<Rightarrow> string \<Rightarrow> string \<Rightarrow> int \<Rightarrow> MultiKernelManager \<Rightarrow> MultiKernelManager \<times> task list" where
  "SyncKnownKernelsToKernel net now k addr port m =
     (if \<not> ktTls net \<or> \<not> ktDial net addr port then (m, [])
      else case ktSync net k
                  \<lparr> skSourceKernelId = mkKernelID m,
                    skKnownKernels = \<lparr> kvKernelId = mkKernelID m, kvAddress = mkAddress m, kvPort = int32 (mkPort m),
                                       kvStatus = ''active'', kvLastHeartbeat = unix now, kvPublicKey = [] \<rparr> # others_known k m,
                    skSyncType = ''full'' \<rparr> of
             None \<Rightarrow> (m, [])
           | Some new \<Rightarrow> connect_all net now True new m)"

definition SyncPeerKernels :: "kernel_net \<Rightarrow> time \<Rightarrow> string \<Rightarrow> MultiKernelManager \<Rightarrow> MultiKernelManager \<times> task list" where
  "SyncPeerKernels net now target m =
     (let (m1, ts1) =
            (case go_get (mkKernels m) target of
               None \<Rightarrow> (m, [])
             | Some i \<Rightarrow>
                 if kiClient i then (m, [])
                 else (case connectToKernelInternal net now target (kiAddress i) (kiMainPort i + 2) False m of
                         (r, m', ts, evs) \<Rightarrow> (m', ts)))
      in case go_get (mkKernels m1) target of
           None \<Rightarrow> (m1, ts1)
         | Some i \<Rightarrow>
             if \<not> kiClient i then (m1, ts1)
             else let vs = map (\<lambda>i. kernel_view (kiMainPort i) i)
                             (filter (\<lambda>i. kiKernelID i \<noteq> target \<and> \<not> (kiConn i \<and> kiClient i)) (map snd (mkKernels m1)))
                  in if vs = [] then (m1, ts1)
                     else (case ktSync net target \<lparr> skSourceKernelId = mkKernelID m, skKnownKernels = vs, skSyncType = ''incremental'' \<rparr> of
                             None \<Rightarrow> (m1, ts1)
                           | Some new \<Rightarrow> (case connect_all net now False new m1 of (m2, ts2) \<Rightarrow> (m2, ts1 @ ts2))))"

text \<open>The goroutine that \<^verbatim>\<open>SyncKnownKernels\<close> starts for a new kernel.\<close>

definition connect_and_sync ::
    "kernel_net \<Rightarrow> time \<Rightarrow> string \<Rightarrow> string \<Rightarrow> int \<Rightarrow> MultiKernelManager \<Rightarrow> MultiKernelManager \<times> task list" where
  "connect_and_sync net now k addr port m =
     (case connectToKernelInternal net now k addr port False m of
        (r, m', ts, evs) \<Rightarrow> (case SyncKnownKernelsToKernel net now k addr port m' of (m'', ts') \<Rightarrow> (m'', ts @ ts')))"

text \<open>\<^verbatim>\<open>connectP2PToKernel\<close>: the port of the peer protocol is taken to be the kernel port plus three.\<close>

definition connectP2PToKernel ::
    "net \<Rightarrow> time \<Rightarrow> TempChatManager \<Rightarrow> string \<Rightarrow> string \<Rightarrow> int \<Rightarrow> P2PManager \<Rightarrow> P2PManager \<times> sent" where
  "connectP2PToKernel net now tc k addr port pm =
     (if IsPeerConnected k pm then (pm, [])
      else case ConnectToPeer net now tc k addr (port + 3) pm of (r, pm', out) \<Rightarrow> (pm', out))"

section \<open>Approval\<close>

text \<open>
  \<^verbatim>\<open>sendInterconnectApprove\<close>, and the notice of a multi-hop approval that follows it, whose failure is ignored
  (\<^verbatim>\<open>notifyRequesterApproveAndMultiHopApproved\<close>).  The notice itself is the effect on the other kernel
  (\<open>NotifyMultiHopApproved\<close> below).
\<close>

definition sendInterconnectApprove :: "kernel_net \<Rightarrow> time \<Rightarrow> PendingInterconnectRequest \<Rightarrow> MultiKernelManager \<Rightarrow> mk_error option" where
  "sendInterconnectApprove net now req m =
     (if \<not> ktTls net then Some TlsUnavailable
      else if \<not> ktDial net (ipAddress req) (ipKernelPort req) then Some (DialUnreachable (ipRequesterKernelID req))
      else if ktRegister net (ipAddress req) (ipKernelPort req) (register_request net now False True m) = None
      then Some (ApproveFailed (ipRequesterKernelID req))
      else None)"

definition ApprovePendingRequest :: "kernel_net \<Rightarrow> time \<Rightarrow> string \<Rightarrow> MultiKernelManager \<Rightarrow> mk_result" where
  "ApprovePendingRequest net now rid m =
     (case go_get (mkPendingRequests m) rid of
        None \<Rightarrow> (Inl (RequestNotFound rid), m, [], [])
      | Some req \<Rightarrow>
          (let m0 = m\<lparr>mkPendingRequests := go_del rid (mkPendingRequests m)\<rparr>;
               k = ipRequesterKernelID req;
               evs = [(mkKernelID m, EventTypeInterconnectApproved, ''outgoing'', k)]
           in if go_get (mkKernels m) k = None \<and> sendInterconnectApprove net now req m0 \<noteq> None
              then (Inl (ApproveFailed k), m0, [], evs)
              else (case connectToKernelInternal net now k (ipAddress req) (ipKernelPort req) False m0 of
                      (Inl e, m', ts, evs') \<Rightarrow> (Inl e, m', ts, evs @ evs')
                    | (Inr u, m', ts, evs') \<Rightarrow> (Inr (), m', ts @ [RunBroadcast k], evs @ evs'))))"

section \<open>Multi-hop routes\<close>

definition RegisterPendingHop :: "nat \<Rightarrow> PendingHopInfo \<Rightarrow> MultiHopSession \<Rightarrow> MultiKernelManager \<Rightarrow> MultiHopSession \<times> MultiKernelManager" where
  "RegisterPendingHop n h s m =
     (s\<lparr>msHops := AList.update n h (msHops s)\<rparr>, m\<lparr>mkPendingHops := go_put (phRequestID h) h (mkPendingHops m)\<rparr>)"

text \<open>Whom the creator of a route dials, with hop numbers: the far end of each hop, and the near end of the first, on the port of its far end.\<close>

definition hop_targets :: "nat \<Rightarrow> MultiHop \<Rightarrow> (nat \<times> string \<times> string \<times> int) list" where
  "hop_targets n h =
     (n, mhToKernel h, mhToAddress h, mhToPort h) # (if n = 1 then [(n, mhFromKernel h, mhFromAddress h, mhToPort h)] else [])"

definition route_targets :: "MultiHop list \<Rightarrow> (nat \<times> string \<times> string \<times> int) list" where
  "route_targets hs = concat (map (\<lambda>(n, h). hop_targets n h) (zip [1 ..< Suc (length hs)] hs))"

definition has_connection :: "MultiKernelManager \<Rightarrow> string \<Rightarrow> bool" where
  "has_connection m k = (case go_get (mkKernels m) k of None \<Rightarrow> False | Some i \<Rightarrow> kiConn i \<and> kiClient i)"

fun connect_targets ::
    "kernel_net \<Rightarrow> time \<Rightarrow> string \<Rightarrow> nat \<Rightarrow> (nat \<times> string \<times> string \<times> int) list \<Rightarrow> MultiHopSession \<Rightarrow> MultiKernelManager \<Rightarrow>
     (mk_error + nat) \<times> MultiHopSession \<times> MultiKernelManager \<times> task list \<times> interconnect_audit list" where
  "connect_targets net now route hops [] s m = (Inr 0, s, m, [], [])"
| "connect_targets net now route hops ((n, k, addr, port) # rest) s m =
     (if k = mkKernelID m \<or> has_connection m k then connect_targets net now route hops rest s m
      else case connectToKernelInternal net now k addr port True m of
             (Inr u, m', ts, evs) \<Rightarrow>
               (case connect_targets net now route hops rest s m' of (r, s', m'', ts', evs') \<Rightarrow> (r, s', m'', ts @ ts', evs @ evs'))
           | (Inl (ConnectedAlready k'), m', ts, evs) \<Rightarrow>
               (case connect_targets net now route hops rest s m' of (r, s', m'', ts', evs') \<Rightarrow> (r, s', m'', ts @ ts', evs @ evs'))
           | (Inl (InterconnectPending rid), m', ts, evs) \<Rightarrow>
               if rid = [] then (Inl (HopFailed n k), s, m', ts, evs)
               else (case RegisterPendingHop n \<lparr> phRouteName = route, phHopIndex = n, phHopTotal = hops, phToKernelID = k,
                             phToAddress = addr, phToPort = port, phRequestID = rid, phApproved = False, phApprovedBy = [] \<rparr> s m' of
                       (s', m'') \<Rightarrow>
                         (case connect_targets net now route hops rest s' m'' of
                            (r, s'', m''', ts', evs') \<Rightarrow> (map_sum id Suc r, s'', m''', ts @ ts', evs @ evs')))
           | (Inl e, m', ts, evs) \<Rightarrow> (Inl (HopFailed n k), s, m', ts, evs))"

text \<open>The session is shared with the table, which therefore holds what the loop put into it.\<close>

definition ConnectMultiHopRoute :: "kernel_net \<Rightarrow> time \<Rightarrow> MultiHopConfigFile \<Rightarrow> MultiKernelManager \<Rightarrow> mk_result" where
  "ConnectMultiHopRoute net now cfg m =
     (if mcHops cfg = [] then (Inl RouteHasNoHops, m, [], [])
      else let s = \<lparr> msRouteName = mcRouteName cfg, msHops = [], msDone = False \<rparr> in
           case connect_targets net now (mcRouteName cfg) (length (mcHops cfg)) (route_targets (mcHops cfg)) s m of
             (r, s', m', ts, evs) \<Rightarrow>
               (let m'' = m'\<lparr>mkSessions := go_put (mcRouteName cfg) s' (mkSessions m')\<rparr>
                in case r of
                     Inl e \<Rightarrow> (Inl e, m'', ts, evs)
                   | Inr pending \<Rightarrow> (Inr (), m'', ts @ (if pending > 0 then [RunWaitApprovals (mcRouteName cfg)] else []), evs)))"

definition checkMultiHopSessionComplete :: "string \<Rightarrow> MultiKernelManager \<Rightarrow> bool \<times> MultiKernelManager" where
  "checkMultiHopSessionComplete route m =
     (case go_get (mkSessions m) route of
        None \<Rightarrow> (False, m)
      | Some s \<Rightarrow>
          if list_all (\<lambda>(n, h). has_connection m (phToKernelID h)) (msHops s)
          then (True, m\<lparr>mkSessions := go_del route (mkSessions m)\<rparr>)
          else (False, m))"

text \<open>After two minutes the session is dropped.\<close>

definition waitForMultiHopApprovals :: "string \<Rightarrow> MultiKernelManager \<Rightarrow> MultiKernelManager" where
  "waitForMultiHopApprovals route m = m\<lparr>mkSessions := go_del route (mkSessions m)\<rparr>"

text \<open>\<^verbatim>\<open>NotifyMultiHopApproved\<close> with the callback that marks the hop, and the goroutine that retries it.\<close>

definition NotifyMultiHopApproved ::
    "string \<Rightarrow> string \<Rightarrow> string \<Rightarrow> MultiKernelManager \<Rightarrow> MultiKernelManager \<times> interconnect_audit list" where
  "NotifyMultiHopApproved approved approver rid m =
     (case go_get (mkPendingHops m) rid of
        None \<Rightarrow> m
      | Some h \<Rightarrow> m\<lparr>mkPendingHops := go_put rid (h\<lparr>phApproved := True, phApprovedBy := approver\<rparr>) (mkPendingHops m)\<rparr>,
      [(approver, EventTypeInterconnectApproved, ''incoming'', approved)])"

definition retry_hop :: "kernel_net \<Rightarrow> time \<Rightarrow> string \<Rightarrow> MultiKernelManager \<Rightarrow> MultiKernelManager \<times> task list" where
  "retry_hop net now rid m =
     (case go_get (mkPendingHops m) rid of
        None \<Rightarrow> (m, [])
      | Some h \<Rightarrow>
          (case connectToKernelInternal net now (phToKernelID h) (phToAddress h) (phToPort h) False m of
             (r, m', ts, evs) \<Rightarrow>
               (let m'' = m'\<lparr>mkPendingHops := go_del rid (mkPendingHops m')\<rparr>
                in case r of
                     Inr u \<Rightarrow> (snd (checkMultiHopSessionComplete (phRouteName h) m''), ts)
                   | Inl (ConnectedAlready k) \<Rightarrow> (snd (checkMultiHopSessionComplete (phRouteName h) m''), ts)
                   | Inl e \<Rightarrow> (m'', ts))))"

definition HopEstablished ::
    "kernel_net \<Rightarrow> time \<Rightarrow> string \<Rightarrow> string \<Rightarrow> string \<Rightarrow> int \<Rightarrow> MultiKernelManager \<Rightarrow> MultiKernelManager \<times> task list \<times> interconnect_audit list" where
  "HopEstablished net now source target addr port m =
     (case connectToKernelInternal net now target addr port False m of
        (r, m', ts, evs) \<Rightarrow> (m', ts, (source, EventTypeInterconnectApproved, ''internal'', target) # evs))"

fun connect_routes :: "kernel_net \<Rightarrow> time \<Rightarrow> MultiHopConfigFile list \<Rightarrow> MultiKernelManager \<Rightarrow> nat \<times> MultiKernelManager \<times> task list" where
  "connect_routes net now [] m = (0, m, [])"
| "connect_routes net now (c # cs) m =
     (case ConnectMultiHopRoute net now c m of
        (r, m', ts, evs) \<Rightarrow>
          (case connect_routes net now cs m' of
             (n, m'', ts') \<Rightarrow> (case r of Inl e \<Rightarrow> Suc n | Inr u \<Rightarrow> n, m'', ts @ ts')))"

definition ConnectAllEnabledRoutes ::
    "kernel_net \<Rightarrow> time \<Rightarrow> MultiHopConfigManager \<Rightarrow> MultiKernelManager \<Rightarrow> (mk_error + unit) \<times> MultiKernelManager \<times> task list" where
  "ConnectAllEnabledRoutes net now hm m =
     (case connect_routes net now (GetEnabledConfigs hm) m of
        (n, m', ts) \<Rightarrow> (if n > 0 then Inl (RoutesFailed n) else Inr (), m', ts))"

text \<open>
  \<^verbatim>\<open>ConnectToKernel\<close> holds the lock of the table while it works.  With a route it calls \<^verbatim>\<open>ConnectMultiHopRoute\<close>, which
  takes the same lock for every target other than the own kernel: the call never returns (\<open>None\<close>).  Otherwise
  the route only leaves an empty session.  \<open>route\<close> is the result of loading the named configuration, if a name is given.
\<close>

definition enter_route ::
    "string \<Rightarrow> (hop_error + MultiHopConfigFile) option \<Rightarrow> bool \<Rightarrow> MultiKernelManager \<Rightarrow> (mk_error + MultiKernelManager) option" where
  "enter_route k route has_manager m =
     (case route of
        None \<Rightarrow> Some (Inr m)
      | Some loaded \<Rightarrow>
          if \<not> has_manager then Some (Inl NoHopConfigManager)
          else (case loaded of
                  Inl e \<Rightarrow> Some (Inl (RouteUnavailable e))
                | Inr c \<Rightarrow>
                    if \<not> list_ex (\<lambda>h. mhToKernel h = k) (mcHops c) then Some (Inl RouteMissesTarget)
                    else if list_ex (\<lambda>(n, k', a, p). k' \<noteq> mkKernelID m) (route_targets (mcHops c)) then None
                    else Some (Inr (m\<lparr>mkSessions := go_put (mcRouteName c)
                                        \<lparr> msRouteName = mcRouteName c, msHops = [], msDone = False \<rparr> (mkSessions m)\<rparr>))))"

definition request_interconnect :: "kernel_net \<Rightarrow> time \<Rightarrow> string \<Rightarrow> string \<Rightarrow> int \<Rightarrow> MultiKernelManager \<Rightarrow> mk_result" where
  "request_interconnect net now k addr port m =
     (if \<not> ktTls net then (Inl TlsUnavailable, m, [], [])
      else if \<not> ktDial net addr port then (Inl (DialUnreachable k), m, [], [])
      else case ktRegister net addr port (register_request net now True False m) of
             None \<Rightarrow> (Inl (RegisterCallFailed k), m, [], [])
           | Some resp \<Rightarrow>
               (let evs = [(mkKernelID m, EventTypeInterconnectRequested, ''outgoing'', k)];
                    m1 = save_ca net k (rsPeerCaCertificate resp) m
                in if sublist pending_tag (rsMessage resp)
                   then (Inl (InterconnectPending (request_id_of (rsMessage resp))), m1, [], evs)
                   else if \<not> rsSuccess resp then (Inl (RegistrationRejected k), m, [], evs)
                   else (Inr (), put_kernel k (connected_info now k addr port) m1,
                         [RunHeartbeat k, RunConnectP2P k addr port], evs)))"

definition ConnectToKernel ::
    "kernel_net \<Rightarrow> time \<Rightarrow> string \<Rightarrow> string \<Rightarrow> int \<Rightarrow> (hop_error + MultiHopConfigFile) option \<Rightarrow> bool \<Rightarrow> MultiKernelManager \<Rightarrow> mk_result option" where
  "ConnectToKernel net now k addr port route has_manager m =
     (if go_get (mkKernels m) k \<noteq> None then Some (Inl (ConnectedAlready k), m, [], [])
      else case enter_route k route has_manager m of
             None \<Rightarrow> None
           | Some (Inl e) \<Rightarrow> Some (Inl e, m, [], [])
           | Some (Inr m') \<Rightarrow> Some (request_interconnect net now k addr port m'))"

definition ConnectToKernelViaRoute ::
    "kernel_net \<Rightarrow> time \<Rightarrow> (hop_error + MultiHopConfigFile) option \<Rightarrow> MultiKernelManager \<Rightarrow> mk_result" where
  "ConnectToKernelViaRoute net now cfg m =
     (case cfg of
        None \<Rightarrow> (Inl NoHopConfigManager, m, [], [])
      | Some (Inl e) \<Rightarrow> (Inl (RouteUnavailable e), m, [], [])
      | Some (Inr c) \<Rightarrow> ConnectMultiHopRoute net now c m)"

text \<open>\<^verbatim>\<open>ValidateMultiHopConfig\<close>, with one-based hop numbers in its errors.\<close>

fun first_break :: "nat \<Rightarrow> MultiHop list \<Rightarrow> mk_error option" where
  "first_break n (h # h' # hs) =
     (if mhToKernel h \<noteq> mhFromKernel h' then Some (HopBroken n) else first_break (Suc n) (h' # hs))"
| "first_break n hs = None"

fun first_bad_hop :: "nat \<Rightarrow> MultiHop list \<Rightarrow> mk_error option" where
  "first_bad_hop n [] = None"
| "first_bad_hop n (h # hs) =
     (if mhToPort h \<le> 0 \<or> mhToPort h > 65535 then Some (HopPortInvalid n)
      else if mhToAddress h = [] \<or> mhFromAddress h = [] then Some (HopAddressEmpty n)
      else first_bad_hop (Suc n) hs)"

definition ValidateMultiHopConfig :: "MultiHopConfigFile \<Rightarrow> mk_error option" where
  "ValidateMultiHopConfig cfg =
     (if mcHops cfg = [] then Some RouteHasNoHops
      else case first_break 1 (mcHops cfg) of Some e \<Rightarrow> Some e | None \<Rightarrow> first_bad_hop 1 (mcHops cfg))"

section \<open>Calls to other kernels\<close>

fun set_remote_status :: "RemotePermissionRequest \<Rightarrow> RemotePermissionRequest list \<Rightarrow> RemotePermissionRequest list" where
  "set_remote_status r [] = [r]"
| "set_remote_status r (x # xs) =
     (if rpRequestID x = rpRequestID r then x\<lparr>rpStatus := rpStatus r\<rparr> # xs else x # set_remote_status r xs)"

definition GetRemotePermissionRequests :: "MultiKernelManager \<Rightarrow> string \<Rightarrow> RemotePermissionRequest list" where
  "GetRemotePermissionRequests m ch = (case go_get (mkRemoteRequests m) ch of None \<Rightarrow> [] | Some rs \<Rightarrow> rs)"

definition AddRemotePermissionRequest :: "RemotePermissionRequest \<Rightarrow> MultiKernelManager \<Rightarrow> MultiKernelManager" where
  "AddRemotePermissionRequest r m =
     m\<lparr>mkRemoteRequests := go_put (rpChannelID r) (set_remote_status r (GetRemotePermissionRequests m (rpChannelID r))) (mkRemoteRequests m)\<rparr>"

text \<open>
  A heartbeat to a kernel without a client panics in the goroutine; \<open>answered\<close> is whether the remote call succeeds.
\<close>

definition kernel_sendHeartbeat :: "bool \<Rightarrow> time \<Rightarrow> string \<Rightarrow> MultiKernelManager \<Rightarrow> mk_error + MultiKernelManager" where
  "kernel_sendHeartbeat answered now k m =
     (case go_get (mkKernels m) k of
        None \<Rightarrow> Inr m
      | Some i \<Rightarrow>
          if \<not> kiClient i then Inl PanicNilConn
          else if answered then Inr (put_kernel k (i\<lparr>kiLastHeartbeat := unix now\<rparr>) m)
          else Inr m)"

text \<open>\<^verbatim>\<open>ForwardData\<close> of the manager: the boolean says whether the packet was handed to the remote kernel.\<close>

definition ForwardData_out ::
    "kernel_net \<Rightarrow> (string \<Rightarrow> bool) \<Rightarrow> time \<Rightarrow> string \<Rightarrow> MultiKernelManager \<Rightarrow> (mk_error + unit) \<times> bool \<times> MultiKernelManager \<times> task list" where
  "ForwardData_out net answered now k m =
     (case go_get (mkKernels m) k of
        None \<Rightarrow> (Inl (KernelNotFound k), False, m, [])
      | Some i \<Rightarrow>
          if kiClient i \<and> kiConn i then (if answered k then Inr () else Inl (ForwardCallFailed k), True, m, [])
          else case connectToKernelInternal net now k (kiAddress i) (kiPort i) False (del_kernel k m) of
                 (Inl e, m', ts, evs) \<Rightarrow> (Inl e, False, m', ts)
               | (Inr u, m', ts, evs) \<Rightarrow> (if answered k then Inr () else Inl (ForwardCallFailed k), True, m', ts))"

text \<open>
  \<^verbatim>\<open>ForwardAckToKernel\<close> without a client releases its read lock twice in a row, which the runtime answers by a fatal error.
  \<open>answer\<close> is what the remote \<^verbatim>\<open>ForwardAckNotification\<close> returns.
\<close>

definition ForwardAckToKernel :: "(string \<Rightarrow> bool option) \<Rightarrow> string \<Rightarrow> MultiKernelManager \<Rightarrow> mk_error + unit" where
  "ForwardAckToKernel answer k m =
     (case go_get (mkKernels m) k of
        None \<Rightarrow> Inl PanicRUnlock
      | Some i \<Rightarrow>
          if \<not> kiClient i then Inl PanicRUnlock
          else (case answer k of
                  None \<Rightarrow> Inl (ForwardCallFailed k)
                | Some ok \<Rightarrow> if ok then Inr () else Inl (AckRefused k)))"

section \<open>The tables of the manager\<close>

text \<open>
  Every entry stands under its own identifier, and a kernel has a client exactly when it has a connection.
\<close>

definition kernel_entry :: "string \<times> KernelInfo \<Rightarrow> bool" where
  "kernel_entry = (\<lambda>(k, i). kiKernelID i = k \<and> kiClient i = kiConn i)"

definition network_ok :: "MultiKernelManager \<Rightarrow> bool" where
  "network_ok m \<longleftrightarrow> go_map_ok (mkKernels m) \<and> list_all kernel_entry (mkKernels m) \<and>
     list_all (\<lambda>(k, r). ipRequestID r = k) (mkPendingRequests m) \<and>
     list_all (\<lambda>(k, h). phRequestID h = k) (mkPendingHops m)"

inductive net_step :: "MultiKernelManager \<Rightarrow> MultiKernelManager \<Rightarrow> bool" where
  "connectToKernelInternal net now k addr port ireq m = (r, m', ts, evs) \<Longrightarrow> net_step m m'"
| "createKernelClient net now k addr port m = (e, m') \<Longrightarrow> net_step m m'"
| "EnsureKernelConnected net now k m = (e, m') \<Longrightarrow> net_step m m'"
| "DisconnectFromKernel k m = (e, m') \<Longrightarrow> net_step m m'"
| "Shutdown m = (e, m') \<Longrightarrow> net_step m m'"
| "RegisterKernel net now rid req m = (resp, m', ts, evs) \<Longrightarrow> net_step m m'"
| "net_step m (KernelHeartbeat now k m)"
| "SyncKnownKernels sreq m = (vs, m', ts) \<Longrightarrow> net_step m m'"
| "BroadcastKnownKernels net now k m = (e, m', ts) \<Longrightarrow> net_step m m'"
| "SyncPeerKernels net now k m = (m', ts) \<Longrightarrow> net_step m m'"
| "connect_and_sync net now k addr port m = (m', ts) \<Longrightarrow> net_step m m'"
| "ApprovePendingRequest net now rid m = (r, m', ts, evs) \<Longrightarrow> net_step m m'"
| "ConnectMultiHopRoute net now cfg m = (r, m', ts, evs) \<Longrightarrow> net_step m m'"
| "ConnectToKernel net now k addr port route hm m = Some (r, m', ts, evs) \<Longrightarrow> net_step m m'"
| "NotifyMultiHopApproved ka kb rid m = (m', evs) \<Longrightarrow> net_step m m'"
| "retry_hop net now rid m = (m', ts) \<Longrightarrow> net_step m m'"
| "net_step m (waitForMultiHopApprovals route m)"
| "HopEstablished net now src k addr port m = (m', ts, evs) \<Longrightarrow> net_step m m'"
| "net_step m (AddRemotePermissionRequest q m)"
| "kernel_sendHeartbeat answered now k m = Inr m' \<Longrightarrow> net_step m m'"
| "ForwardData_out net calls now k m = (e, sent, m', ts) \<Longrightarrow> net_step m m'"

definition net_init :: "MultiKernelManager \<Rightarrow> bool" where
  "net_init m \<longleftrightarrow> m = NewMultiKernelManager (mkKernelID m) (mkAddress m) (mkPort m)"

lemma keyed_put: "list_all P m \<Longrightarrow> P (k, v) \<Longrightarrow> list_all P (go_put k v m)"
  by (induction m) auto

lemma keyed_del: "list_all P m \<Longrightarrow> list_all P (go_del k m)"
  by (simp add: AList.delete_eq list_all_iff)

lemma keyed_get: "list_all P m \<Longrightarrow> go_get m k = Some v \<Longrightarrow> P (k, v)"
  by (auto simp: list_all_iff dest: map_of_SomeD)

named_theorems net_ok

lemma network_ok_put [net_ok]: "network_ok m \<Longrightarrow> kiKernelID i = k \<and> kiClient i = kiConn i \<Longrightarrow> network_ok (put_kernel k i m)"
  by (simp add: network_ok_def put_kernel_def keyed_put kernel_entry_def)

lemma network_ok_del [net_ok]: "network_ok m \<Longrightarrow> network_ok (del_kernel k m)"
  by (simp add: network_ok_def del_kernel_def keyed_del)

lemma network_ok_save [net_ok]: "network_ok m \<Longrightarrow> network_ok (save_ca net k cert m)"
  by (simp add: network_ok_def save_ca_def)

lemma network_ok_peer_ca [net_ok]: "network_ok m \<Longrightarrow> network_ok (SetPendingPeerCACert k pem m)"
  by (simp add: network_ok_def SetPendingPeerCACert_def)

lemma network_ok_get: "network_ok m \<Longrightarrow> go_get (mkKernels m) k = Some i \<Longrightarrow> kiKernelID i = k \<and> kiClient i = kiConn i"
  using keyed_get [of kernel_entry "mkKernels m" k i] by (simp add: network_ok_def kernel_entry_def)

lemma network_ok_sessions [net_ok]: "network_ok m \<Longrightarrow> network_ok (m\<lparr>mkSessions := s\<rparr>)"
  by (simp add: network_ok_def)

lemma network_ok_remote [net_ok]: "network_ok m \<Longrightarrow> network_ok (m\<lparr>mkRemoteRequests := s\<rparr>)"
  by (simp add: network_ok_def)

lemma network_ok_running [net_ok]: "network_ok m \<Longrightarrow> network_ok (m\<lparr>mkRunning := b\<rparr>)"
  by (simp add: network_ok_def)

lemma network_ok_add_request [net_ok]: "network_ok m \<Longrightarrow> network_ok (AddPendingRequest r m)"
  by (simp add: network_ok_def AddPendingRequest_def keyed_put)

lemma network_ok_del_request [net_ok]: "network_ok m \<Longrightarrow> network_ok (m\<lparr>mkPendingRequests := go_del rid (mkPendingRequests m)\<rparr>)"
  by (simp add: network_ok_def keyed_del)

lemma network_ok_put_hop [net_ok]: "network_ok m \<Longrightarrow> phRequestID h = rid \<Longrightarrow> network_ok (m\<lparr>mkPendingHops := go_put rid h (mkPendingHops m)\<rparr>)"
  by (simp add: network_ok_def keyed_put)

lemma network_ok_del_hop [net_ok]: "network_ok m \<Longrightarrow> network_ok (m\<lparr>mkPendingHops := go_del rid (mkPendingHops m)\<rparr>)"
  by (simp add: network_ok_def keyed_del)

lemma network_ok_hop: "network_ok m \<Longrightarrow> go_get (mkPendingHops m) rid = Some h \<Longrightarrow> phRequestID h = rid"
  using keyed_get [of "\<lambda>(k, h). phRequestID h = k" "mkPendingHops m" rid h] by (simp add: network_ok_def)

lemma network_ok_internal [net_ok]: "network_ok m \<Longrightarrow> network_ok (fst (snd (connectToKernelInternal net now k addr port ireq m)))"
  by (simp add: connectToKernelInternal_def Let_def net_ok connected_info_def split: option.split)

lemma network_ok_client [net_ok]: "network_ok m \<Longrightarrow> network_ok (snd (createKernelClient net now k addr port m))"
  using network_ok_get [of m k] by (auto simp: createKernelClient_def net_ok split: option.split)

lemma network_ok_ensure [net_ok]: "network_ok m \<Longrightarrow> network_ok (snd (EnsureKernelConnected net now k m))"
  using network_ok_get [of m k] by (auto simp: EnsureKernelConnected_def net_ok split: option.split)

lemma network_ok_disconnect [net_ok]: "network_ok m \<Longrightarrow> network_ok (snd (DisconnectFromKernel k m))"
  by (simp add: DisconnectFromKernel_def net_ok split: option.split)

lemma network_ok_shutdown [net_ok]: "network_ok m \<Longrightarrow> network_ok (snd (Shutdown m))"
  by (simp add: Shutdown_def network_ok_def)

lemma network_ok_enter [net_ok]: "network_ok m \<Longrightarrow> network_ok (fst (enter_kernel net now req m))"
  by (simp add: enter_kernel_def Let_def net_ok registered_info_def)

lemma network_ok_register [net_ok]: "network_ok m \<Longrightarrow> network_ok (fst (snd (RegisterKernel net now rid req m)))"
  by (simp add: RegisterKernel_def Let_def case_prod_unfold net_ok)

lemma network_ok_heartbeat [net_ok]: "network_ok m \<Longrightarrow> network_ok (KernelHeartbeat now k m)"
  using network_ok_get [of m k] by (auto simp: KernelHeartbeat_def net_ok split: option.split)

lemma network_ok_learn [net_ok]: "network_ok m \<Longrightarrow> network_ok (fst (learn_kernel v m))"
  using network_ok_get [of m "kvKernelId v"] by (auto simp: learn_kernel_def net_ok split: option.split)

lemma network_ok_learn_all [net_ok]: "network_ok m \<Longrightarrow> network_ok (fst (learn_all vs m))"
  by (induction vs arbitrary: m) (simp_all add: case_prod_unfold net_ok)

lemma network_ok_sync [net_ok]: "network_ok m \<Longrightarrow> network_ok (fst (snd (SyncKnownKernels req m)))"
  by (simp add: SyncKnownKernels_def case_prod_unfold net_ok)

lemma network_ok_connect_new [net_ok]: "network_ok m \<Longrightarrow> network_ok (fst (connect_new net now b v m))"
  by (simp add: connect_new_def case_prod_unfold net_ok)

lemma network_ok_connect_all [net_ok]: "network_ok m \<Longrightarrow> network_ok (fst (connect_all net now b vs m))"
  by (induction vs arbitrary: m) (simp_all add: case_prod_unfold net_ok)

lemma network_ok_broadcast [net_ok]: "network_ok m \<Longrightarrow> network_ok (fst (snd (BroadcastKnownKernels net now k m)))"
  by (simp add: BroadcastKnownKernels_def case_prod_unfold net_ok split: option.split)

lemma network_ok_sync_to [net_ok]: "network_ok m \<Longrightarrow> network_ok (fst (SyncKnownKernelsToKernel net now k addr port m))"
  by (simp add: SyncKnownKernelsToKernel_def case_prod_unfold net_ok split: option.split)

lemma network_ok_sync_peers [net_ok]: "network_ok m \<Longrightarrow> network_ok (fst (SyncPeerKernels net now k m))"
  by (simp add: SyncPeerKernels_def Let_def case_prod_unfold net_ok split: option.split)

lemma network_ok_connect_and_sync [net_ok]: "network_ok m \<Longrightarrow> network_ok (fst (connect_and_sync net now k addr port m))"
  by (simp add: connect_and_sync_def case_prod_unfold net_ok)

lemma network_ok_approve [net_ok]: "network_ok m \<Longrightarrow> network_ok (fst (snd (ApprovePendingRequest net now rid m)))"
  by (simp add: ApprovePendingRequest_def Let_def case_prod_unfold net_ok split: option.split sum.split)

lemma network_ok_complete [net_ok]: "network_ok m \<Longrightarrow> network_ok (snd (checkMultiHopSessionComplete route m))"
  by (simp add: checkMultiHopSessionComplete_def net_ok split: option.split)

lemma network_ok_targets [net_ok]:
  "network_ok m \<Longrightarrow> network_ok (fst (snd (snd (connect_targets net now route hops ts s m))))"
proof (induction net now route hops ts s m rule: connect_targets.induct)
  case (2 net now route hops n k addr port rest s m)
  obtain r m' ts evs where c: "connectToKernelInternal net now k addr port True m = (r, m', ts, evs)"
    by (rule prod_cases4)
  with network_ok_internal [OF "2.prems", of net now k addr port True] have "network_ok m'" by simp
  with 2 c show ?case
    by (cases r rule: sum.exhaust)
      (auto simp: case_prod_unfold RegisterPendingHop_def net_ok simp del: split_paired_All split: mk_error.split)
qed simp

lemma network_ok_route [net_ok]: "network_ok m \<Longrightarrow> network_ok (fst (snd (ConnectMultiHopRoute net now cfg m)))"
  by (simp add: ConnectMultiHopRoute_def Let_def case_prod_unfold net_ok split: sum.split)

lemma network_ok_connect:
  assumes "network_ok m" and "ConnectToKernel net now k addr port route hm m = Some (r, m', ts, evs)"
  shows "network_ok m'"
proof -
  have "enter_route k route hm m = Some (Inr n) \<Longrightarrow> network_ok n" for n
    using assms(1) by (auto simp: enter_route_def net_ok split: option.splits sum.splits if_splits)
  moreover have "network_ok n \<Longrightarrow> network_ok (fst (snd (request_interconnect net now k addr port n)))" for n
    by (simp add: request_interconnect_def Let_def net_ok connected_info_def split: option.split)
  ultimately show ?thesis
    using assms by (fastforce simp: ConnectToKernel_def split: option.splits sum.splits if_splits)
qed

lemma network_ok_notify [net_ok]: "network_ok m \<Longrightarrow> network_ok (fst (NotifyMultiHopApproved ka kb rid m))"
  using network_ok_hop [of m rid] by (auto simp: NotifyMultiHopApproved_def net_ok split: option.split)

lemma network_ok_retry [net_ok]: "network_ok m \<Longrightarrow> network_ok (fst (retry_hop net now rid m))"
  by (simp add: retry_hop_def Let_def case_prod_unfold net_ok split: option.split sum.split mk_error.split)

lemma network_ok_send: "network_ok m \<Longrightarrow> kernel_sendHeartbeat b now k m = Inr m' \<Longrightarrow> network_ok m'"
  using network_ok_get [of m k] by (auto simp: kernel_sendHeartbeat_def net_ok split: option.splits if_splits)

lemma network_ok_forward [net_ok]: "network_ok m \<Longrightarrow> network_ok (fst (snd (snd (ForwardData_out net calls now k m))))"
  by (simp add: ForwardData_out_def case_prod_unfold net_ok split: option.split sum.split)

lemma network_ok_step: "net_step m m' \<Longrightarrow> network_ok m \<Longrightarrow> network_ok m'"
proof (induction rule: net_step.induct)
  case (1 net now k addr port ireq m r m' ts evs)
  then show ?case using network_ok_internal [of m net now k addr port ireq] by simp
next
  case (2 net now k addr port m e m')
  then show ?case using network_ok_client [of m net now k addr port] by simp
next
  case (3 net now k m e m')
  then show ?case using network_ok_ensure [of m net now k] by simp
next
  case (4 k m e m')
  then show ?case using network_ok_disconnect [of m k] by simp
next
  case (5 m e m')
  then show ?case using network_ok_shutdown [of m] by simp
next
  case (6 net now rid req m resp m' ts evs)
  then show ?case using network_ok_register [of m net now rid req] by simp
next
  case (8 sreq m vs m' ts)
  then show ?case using network_ok_sync [of m sreq] by simp
next
  case (9 net now k m e m' ts)
  then show ?case using network_ok_broadcast [of m net now k] by simp
next
  case (10 net now k m m' ts)
  then show ?case using network_ok_sync_peers [of m net now k] by simp
next
  case (11 net now k addr port m m' ts)
  then show ?case using network_ok_connect_and_sync [of m net now k addr port] by simp
next
  case (12 net now rid m r m' ts evs)
  then show ?case using network_ok_approve [of m net now rid] by simp
next
  case (13 net now cfg m r m' ts evs)
  then show ?case using network_ok_route [of m net now cfg] by simp
next
  case (15 ka kb rid m m' evs)
  then show ?case using network_ok_notify [of m ka kb rid] by simp
next
  case (16 net now rid m m' ts)
  then show ?case using network_ok_retry [of m net now rid] by simp
next
  case (18 net now src k addr port m m' ts evs)
  then show ?case using network_ok_internal [of m net now k addr port False] by (simp add: HopEstablished_def case_prod_unfold)
next
  case (21 net calls now k m e sent m' ts)
  then show ?case using network_ok_forward [of m net calls now k] by simp
qed (auto simp: net_ok waitForMultiHopApprovals_def AddRemotePermissionRequest_def
    intro: network_ok_connect network_ok_send)

interpretation kernels: invariant_system net_init net_step network_ok
proof
  show "network_ok m" if "net_init m" for m
    using that unfolding net_init_def by (rule ssubst) (simp add: network_ok_def NewMultiKernelManager_def)
qed (rule network_ok_step)

text \<open>
  The tables of a kernel network manager.  In every state that the operations of the manager and the handlers of
  the kernel service reach, each kernel stands under its own identifier, has a client exactly when it has a connection,
  and each interconnection request and pending hop stands under its request identifier.  So closing the connection to a kernel
  panics exactly for the kernels that have been learnt from others, or registered, without a client.
\<close>

theorem network_reachable_ok:
  assumes "reach net_init net_step m"
  shows "distinct (map fst (mkKernels m)) \<and>
    (go_get (mkKernels m) k = Some i \<longrightarrow>
       kiKernelID i = k \<and> kiClient i = kiConn i \<and> (fst (DisconnectFromKernel k m) = Inl PanicNilConn \<longleftrightarrow> \<not> kiClient i)) \<and>
    (go_get (mkPendingRequests m) rid = Some r \<longrightarrow> ipRequestID r = rid) \<and>
    (go_get (mkPendingHops m) rid = Some h \<longrightarrow> phRequestID h = rid)"
proof -
  have ok: "network_ok m"
    using assms by (rule kernels.reach_inv)
  moreover have "distinct (map fst (mkKernels m))"
    using ok by (simp add: network_ok_def)
  moreover have "ipRequestID r = rid" if "go_get (mkPendingRequests m) rid = Some r"
    using keyed_get [of "\<lambda>(k, r). ipRequestID r = k", OF _ that] ok by (simp add: network_ok_def)
  ultimately show ?thesis
    using network_ok_get [OF ok, of k i] network_ok_hop [OF ok, of rid h] by (auto simp: DisconnectFromKernel_def)
qed

definition sample_manager :: MultiKernelManager where
  "sample_manager =
     fst (snd (SyncKnownKernels
       \<lparr> skSourceKernelId = ''k2'',
         skKnownKernels = [\<lparr> kvKernelId = ''k3'', kvAddress = ''h3'', kvPort = 50051, kvStatus = ''active'', kvLastHeartbeat = 7, kvPublicKey = [] \<rparr>],
         skSyncType = ''full'' \<rparr> (NewMultiKernelManager ''k1'' ''h1'' 50051)))"

lemma sample_manager_eval:
  "sample_manager = (NewMultiKernelManager ''k1'' ''h1'' 50051)\<lparr>mkKernels :=
     [(''k3'', \<lparr> kiKernelID = ''k3'', kiAddress = ''h3'', kiPort = 50053, kiMainPort = 50051, kiStatus = ''active'',
                 kiLastHeartbeat = 7, kiPublicKey = [], kiClient = False, kiConn = False \<rparr>)]\<rparr>"
  by (simp add: sample_manager_def SyncKnownKernels_def learn_kernel_def put_kernel_def NewMultiKernelManager_def)

lemma net_step_sync: "net_step m (fst (snd (SyncKnownKernels req m)))"
  by (cases "SyncKnownKernels req m") (auto intro: net_step.intros(8))

lemma sample_manager_reach: "reach net_init net_step sample_manager"
proof (rule reach_step)
  show "reach net_init net_step (NewMultiKernelManager ''k1'' ''h1'' 50051)"
    by (rule reach_init) (simp add: net_init_def NewMultiKernelManager_def)
  show "net_step (NewMultiKernelManager ''k1'' ''h1'' 50051) sample_manager"
    unfolding sample_manager_def by (rule net_step_sync)
qed

theorem network_reachable_ok_witness:
  "distinct (map fst (mkKernels sample_manager)) \<and> fst (DisconnectFromKernel ''k3'' sample_manager) = Inl PanicNilConn"
  using network_reachable_ok [OF sample_manager_reach, of "''k3''" "snd (hd (mkKernels sample_manager))"]
  by (simp add: sample_manager_eval NewMultiKernelManager_def)

section \<open>The exchange of known kernels\<close>

lemma learn_kernel_keys:
  "go_keys (mkKernels (fst (learn_kernel v m))) = go_keys (mkKernels m) \<union> ({kvKernelId v} - {mkKernelID m})"
  "mkKernelID (fst (learn_kernel v m)) = mkKernelID m"
  "kvKernelId ` set (fst (snd (learn_kernel v m))) = {kvKernelId v} - {mkKernelID m} - go_keys (mkKernels m)"
  using go_get_in_keys [of "mkKernels m" "kvKernelId v"]
  by (auto simp: learn_kernel_def put_kernel_def map_of_eq_None_iff split: option.split)

lemma learn_kernel_frame:
  "k \<noteq> kvKernelId v \<Longrightarrow> go_get (mkKernels (fst (learn_kernel v m))) k = go_get (mkKernels m) k"
  by (simp add: learn_kernel_def put_kernel_def gomap_simps split: option.split)

lemma learn_all_keys:
  "go_keys (mkKernels (fst (learn_all vs m))) = go_keys (mkKernels m) \<union> (kvKernelId ` set vs - {mkKernelID m}) \<and>
   mkKernelID (fst (learn_all vs m)) = mkKernelID m \<and>
   kvKernelId ` set (fst (snd (learn_all vs m))) = kvKernelId ` set vs - {mkKernelID m} - go_keys (mkKernels m)"
  by (induction vs arbitrary: m) (auto simp: case_prod_unfold learn_kernel_keys image_Un)

lemma learn_all_frame:
  "k \<notin> kvKernelId ` set vs \<Longrightarrow> go_get (mkKernels (fst (learn_all vs m))) k = go_get (mkKernels m) k"
  by (induction vs arbitrary: m) (simp_all add: case_prod_unfold learn_kernel_frame)

lemma kernel_ids:
  "list_all kernel_entry ks \<Longrightarrow>
   kvKernelId ` set (map (\<lambda>i. kernel_view (f i) i) (filter (\<lambda>i. P (kiKernelID i)) (map snd ks))) = {k \<in> go_keys ks. P k}"
  by (induction ks) (auto simp: kernel_entry_def kernel_view_def)

text \<open>
  What a kernel learns.  After a list of known kernels has arrived, the receiver knows exactly what it knew before and
  the listed kernels other than itself, and leaves the kernels that are not listed as they were.  Its answer names
  exactly the listed kernels that were new to it, and the kernels it knew that were neither listed nor the sender.
\<close>

theorem sync_known_exact:
  assumes "network_ok m" and "SyncKnownKernels req m = (answer, m', ts)"
  shows "go_keys (mkKernels m') = go_keys (mkKernels m) \<union> (kvKernelId ` set (skKnownKernels req) - {mkKernelID m}) \<and>
    (\<forall>k. k \<notin> kvKernelId ` set (skKnownKernels req) \<longrightarrow> go_get (mkKernels m') k = go_get (mkKernels m) k) \<and>
    kvKernelId ` set answer =
      (kvKernelId ` set (skKnownKernels req) - {mkKernelID m} - go_keys (mkKernels m)) \<union>
      (go_keys (mkKernels m) - kvKernelId ` set (skKnownKernels req) - {skSourceKernelId req})"
proof -
  let ?vs = "skKnownKernels req"
  let ?m = "fst (learn_all ?vs m)"
  let ?Q = "\<lambda>k. k \<noteq> skSourceKernelId req \<and> \<not> list_ex (\<lambda>v. kvKernelId v = k) ?vs"
  have m': "m' = ?m"
    and answer: "answer = fst (snd (learn_all ?vs m)) @
      map (\<lambda>i. kernel_view (kiMainPort i) i) (filter (\<lambda>i. ?Q (kiKernelID i)) (map snd (mkKernels ?m)))"
    using assms(2) by (auto simp: SyncKnownKernels_def case_prod_unfold)
  have "list_all kernel_entry (mkKernels ?m)"
    using network_ok_learn_all [OF assms(1)] by (simp add: network_ok_def)
  then have ids: "kvKernelId ` set answer = kvKernelId ` set (fst (snd (learn_all ?vs m))) \<union> {k \<in> go_keys (mkKernels ?m). ?Q k}"
    unfolding answer set_append image_Un by (subst kernel_ids [where P = ?Q]) (assumption, rule refl)
  have Q: "?Q k \<longleftrightarrow> k \<noteq> skSourceKernelId req \<and> k \<notin> kvKernelId ` set ?vs" for k
    by (auto simp: list_ex_iff)
  have union: "(V - {own} - K) \<union> {k \<in> K \<union> (V - {own}). k \<noteq> src \<and> k \<notin> V} = (V - {own} - K) \<union> (K - V - {src})"
    for V K :: "string set" and own src :: string
    by blast
  have "kvKernelId ` set answer =
      (kvKernelId ` set ?vs - {mkKernelID m} - go_keys (mkKernels m)) \<union> (go_keys (mkKernels m) - kvKernelId ` set ?vs - {skSourceKernelId req})"
    unfolding ids Q conjunct1 [OF learn_all_keys] conjunct2 [OF conjunct2 [OF learn_all_keys]] by (rule union)
  then show ?thesis
    unfolding m' using learn_all_keys [of ?vs m] learn_all_frame [of _ ?vs m] by simp
qed

theorem sync_known_exact_witness:
  "go_keys (mkKernels (fst (snd (SyncKnownKernels \<lparr> skSourceKernelId = ''k2'', skKnownKernels = [], skSyncType = ''full'' \<rparr> sample_manager)))) = {''k3''} \<and>
   kvKernelId ` set (fst (SyncKnownKernels \<lparr> skSourceKernelId = ''k2'', skKnownKernels = [], skSyncType = ''full'' \<rparr> sample_manager)) = {''k3''}"
  using sync_known_exact [OF kernels.reach_inv [OF sample_manager_reach],
      of "\<lparr> skSourceKernelId = ''k2'', skKnownKernels = [], skSyncType = ''full'' \<rparr>"
         "fst (SyncKnownKernels \<lparr> skSourceKernelId = ''k2'', skKnownKernels = [], skSyncType = ''full'' \<rparr> sample_manager)"
         "fst (snd (SyncKnownKernels \<lparr> skSourceKernelId = ''k2'', skKnownKernels = [], skSyncType = ''full'' \<rparr> sample_manager))"
         "snd (snd (SyncKnownKernels \<lparr> skSourceKernelId = ''k2'', skKnownKernels = [], skSyncType = ''full'' \<rparr> sample_manager))"]
  by (simp add: sample_manager_eval)

section \<open>Registration and approval\<close>

lemmas network_simps = put_kernel_def del_kernel_def save_ca_def SetPendingPeerCACert_def AddPendingRequest_def gomap_simps

lemma split_on_first: "c \<notin> set xs \<Longrightarrow> split_on c (xs @ c # ys) = xs # split_on c ys"
  by (induction xs) auto

lemma pending_message_split:
  "CHR '';'' \<notin> set rid \<Longrightarrow> split_on CHR '';'' (pending_message rid) = (pending_tag @ rid) # split_on CHR '';'' ''status:pending''"
  using split_on_first [of "CHR '';''" "pending_tag @ rid" "''status:pending''"]
  by (simp add: pending_message_def) (simp add: pending_tag_def)

lemma request_id_of_pending: "CHR '';'' \<notin> set rid \<Longrightarrow> request_id_of (pending_message rid) = rid"
  by (simp add: request_id_of_def pending_message_split)

lemma sublist_pending: "sublist pending_tag (pending_message rid)"
  unfolding pending_message_def by simp

lemma enter_kernel_frame:
  "k \<noteq> rkKernelId req \<Longrightarrow> go_get (mkKernels (fst (enter_kernel net now req m))) k = go_get (mkKernels m) k"
  "mkPendingRequests (fst (enter_kernel net now req m)) = mkPendingRequests m"
  "mkKernelID (fst (enter_kernel net now req m)) = mkKernelID m"
  by (simp_all add: enter_kernel_def Let_def createKernelClient_def network_simps registered_info_def)

lemma go_keys_iff: "k \<in> go_keys m \<longleftrightarrow> go_get m k \<noteq> None"
  by (simp add: map_of_eq_None_iff)

lemma enter_kernel_known: "go_get (mkKernels (fst (enter_kernel net now req m))) (rkKernelId req) \<noteq> None"
  by (simp add: enter_kernel_def Let_def createKernelClient_def network_simps registered_info_def)

lemma enter_kernel_connected:
  assumes "ktTls net" and "ktDial net (rkAddress req) (rkPort req + 2)"
  shows "has_connection (fst (enter_kernel net now req m)) (rkKernelId req)"
  using assms by (simp add: enter_kernel_def Let_def createKernelClient_def network_simps registered_info_def has_connection_def)

text \<open>
  Who enters the table of kernels.  A registration call leaves its caller in the table exactly when the caller was there
  already or has another identifier than the kernel itself and the call is marked as an approval or is not marked as a request;
  only an unapproved request of an unknown kernel is kept for a decision.  In particular no earlier request,
  approval or certificate is looked at: a caller that does not ask for approval is never subject to one.
\<close>

theorem register_enters_iff:
  "(rkKernelId req \<in> go_keys (mkKernels (fst (snd (RegisterKernel net now rid req m)))) \<longleftrightarrow>
      rkKernelId req \<in> go_keys (mkKernels m) \<or>
      rkKernelId req \<noteq> mkKernelID m \<and> \<not> (rkIsInterconnectRequest req \<and> \<not> rkIsInterconnectApprove req)) \<and>
   mkPendingRequests (fst (snd (RegisterKernel net now rid req m))) =
     (if rkKernelId req \<noteq> mkKernelID m \<and> rkKernelId req \<notin> go_keys (mkKernels m) \<and>
         rkIsInterconnectRequest req \<and> \<not> rkIsInterconnectApprove req
      then go_put rid (pending_request rid req) (mkPendingRequests m) else mkPendingRequests m)"
  unfolding go_keys_iff
  using enter_kernel_known [of net now req m]
  by (auto simp: RegisterKernel_def Let_def case_prod_unfold enter_kernel_frame network_simps pending_request_def)

lemma register_pending:
  assumes "RegisterKernel net now rid req m = (resp, m', ts, evs)" and "rkKernelId req \<noteq> mkKernelID m"
    and "go_get (mkKernels m) (rkKernelId req) = None" and "rkIsInterconnectRequest req" and "\<not> rkIsInterconnectApprove req"
  shows "rsMessage resp = pending_message rid \<and> mkKernels m' = mkKernels m \<and> mkKernelID m' = mkKernelID m \<and>
    mkAddress m' = mkAddress m \<and> mkPort m' = mkPort m \<and> go_get (mkPendingRequests m') rid = Some (pending_request rid req)"
  using assms by (auto simp: RegisterKernel_def Let_def response_def network_simps pending_request_def)

lemma register_approved:
  assumes "RegisterKernel net now rid req m = (resp, m', ts, evs)" and "rkKernelId req \<noteq> mkKernelID m"
    and "go_get (mkKernels m) (rkKernelId req) = None" and "rkIsInterconnectApprove req"
    and "ktTls net" and "ktDial net (rkAddress req) (rkPort req + 2)"
  shows "has_connection m' (rkKernelId req) \<and> mkKernelID m' = mkKernelID m"
  using assms enter_kernel_connected [of net req now m]
  by (auto simp: RegisterKernel_def Let_def case_prod_unfold enter_kernel_frame)

lemma register_again:
  assumes "RegisterKernel net now rid req m = (resp, m', ts, evs)" and "rkKernelId req \<noteq> mkKernelID m"
    and "has_connection m (rkKernelId req)"
  shows "m' = m \<and> rsMessage resp = ''kernel already registered''"
  using assms by (auto simp: RegisterKernel_def Let_def response_def has_connection_def split: option.splits)

lemma already_registered_accepted:
  "says_already_registered ''kernel already registered'' \<and> \<not> sublist pending_tag ''kernel already registered''"
  by code_simp

lemma request_register [simp]:
  "rkKernelId (register_request net now q p m) = mkKernelID m" "rkAddress (register_request net now q p m) = mkAddress m"
  "rkPort (register_request net now q p m) = int32 (mkPort m)"
  "rkIsInterconnectRequest (register_request net now q p m) = q" "rkIsInterconnectApprove (register_request net now q p m) = p"
  by (simp_all add: register_request_def)

lemma request_interconnect_pending:
  assumes "request_interconnect net now k addr port m = (r, m', ts, evs)" and "ktTls net" and "ktDial net addr port"
    and "ktRegister net addr port (register_request net now True False m) = Some resp"
    and "rsMessage resp = pending_message rid" and "CHR '';'' \<notin> set rid"
  shows "r = Inl (InterconnectPending rid) \<and> mkKernels m' = mkKernels m \<and> mkKernelID m' = mkKernelID m"
  using assms by (auto simp: request_interconnect_def Let_def sublist_pending request_id_of_pending save_ca_def)

lemma internal_already_registered:
  assumes "go_get (mkKernels m) k = None" and "ktTls net" and "ktDial net addr port"
    and "ktRegister net addr port (register_request net now False False m) = Some resp"
    and "rsMessage resp = ''kernel already registered''"
  shows "\<exists>m' ts evs. connectToKernelInternal net now k addr port False m = (Inr (), m', ts, evs) \<and>
    has_connection m' k \<and> mkPendingRequests m' = mkPendingRequests m"
  using assms already_registered_accepted
  by (simp add: connectToKernelInternal_def Let_def network_simps has_connection_def connected_info_def)

lemma request_register_cong:
  "mkKernelID m = mkKernelID m' \<Longrightarrow> mkAddress m = mkAddress m' \<Longrightarrow> mkPort m = mkPort m' \<Longrightarrow>
   register_request net now q p m = register_request net now q p m'"
  by (simp add: register_request_def)

lemma approve_completes:
  assumes pend: "go_get (mkPendingRequests m) rid = Some req" and new: "go_get (mkKernels m) (ipRequesterKernelID req) = None"
    and "ktTls net" and "ktDial net (ipAddress req) (ipKernelPort req)"
    and "ktRegister net (ipAddress req) (ipKernelPort req) (register_request net now False True m) = Some resp"
    and "ktRegister net (ipAddress req) (ipKernelPort req) (register_request net now False False m) = Some resp'"
    and "rsMessage resp' = ''kernel already registered''"
    and "ApprovePendingRequest net now rid m = (r, m', ts, evs)"
  shows "r = Inr () \<and> has_connection m' (ipRequesterKernelID req) \<and> go_get (mkPendingRequests m') rid = None"
proof -
  let ?m = "m\<lparr>mkPendingRequests := go_del rid (mkPendingRequests m)\<rparr>"
  have same: "register_request net now q p ?m = register_request net now q p m" for q p
    by (rule request_register_cong) simp_all
  obtain m2 ts2 evs2 where "connectToKernelInternal net now (ipRequesterKernelID req) (ipAddress req) (ipKernelPort req) False ?m
      = (Inr (), m2, ts2, evs2)" and "has_connection m2 (ipRequesterKernelID req)" and "mkPendingRequests m2 = mkPendingRequests ?m"
    using internal_already_registered [of ?m "ipRequesterKernelID req" net "ipAddress req" "ipKernelPort req" now resp'] assms same
    by auto
  moreover have "sendInterconnectApprove net now req ?m = None"
    using assms same by (simp add: sendInterconnectApprove_def)
  ultimately show ?thesis
    using assms(8) pend new by (auto simp: ApprovePendingRequest_def Let_def gomap_simps)
qed

text \<open>
  C28. Two kernels that do not know each other get connected.  When kernel a asks for an interconnection, b keeps the request and a
  learns its identifier; when b then approves it, and the two calls it makes are served by a, the approval succeeds, the
  request is gone, and each kernel has a connection to the other.
\<close>

theorem interconnect_completes:
  assumes "mkKernelID a \<noteq> mkKernelID b" and "go_get (mkKernels a) (mkKernelID b) = None" and "go_get (mkKernels b) (mkKernelID a) = None"
    and "CHR '';'' \<notin> set rid" and "int32 (mkPort a) = mkPort a" and "int32 (mkPort b) = mkPort b"
    and "ktTls neta \<and> ktDial neta addr port \<and> ktDial neta (mkAddress b) (mkPort b + 2)"
    and "ktTls netb \<and> ktDial netb (mkAddress a) (mkPort a + 2)"
    and "RegisterKernel netb0 now rid (register_request neta now True False a) b = (resp1, b1, ts1, evs1)"
    and "ktRegister neta addr port (register_request neta now True False a) = Some resp1"
    and "ConnectToKernel neta now (mkKernelID b) addr port None hm a = Some (r, a1, ts2, evs2)"
    and "RegisterKernel neta now' rid2 (register_request netb now' False True b1) a1 = (resp2, a2, ts3, evs3)"
    and "ktRegister netb (mkAddress a) (mkPort a + 2) (register_request netb now' False True b1) = Some resp2"
    and "RegisterKernel neta now' rid3 (register_request netb now' False False b1) a2 = (resp3, a3, ts4, evs4)"
    and "ktRegister netb (mkAddress a) (mkPort a + 2) (register_request netb now' False False b1) = Some resp3"
    and "ApprovePendingRequest netb now' rid b1 = (r', b2, ts5, evs5)"
  shows "r = Inl (InterconnectPending rid) \<and> r' = Inr () \<and> go_get (mkPendingRequests b2) rid = None \<and>
    has_connection b2 (mkKernelID a) \<and> has_connection a3 (mkKernelID b)"
proof -
  have b1: "rsMessage resp1 = pending_message rid" "mkKernels b1 = mkKernels b" "mkKernelID b1 = mkKernelID b"
    "mkAddress b1 = mkAddress b" "mkPort b1 = mkPort b"
    "go_get (mkPendingRequests b1) rid = Some (pending_request rid (register_request neta now True False a))"
    using register_pending [OF assms(9)] assms(1,3) by simp_all
  have "request_interconnect neta now (mkKernelID b) addr port a = (r, a1, ts2, evs2)"
    using assms(2,11) by (simp add: ConnectToKernel_def enter_route_def)
  then have a1: "r = Inl (InterconnectPending rid)" "mkKernels a1 = mkKernels a" "mkKernelID a1 = mkKernelID a"
    using request_interconnect_pending [of neta now "mkKernelID b" addr port a r a1 ts2 evs2 resp1 rid] assms(4,7,10) b1(1) by simp_all
  have a2: "has_connection a2 (mkKernelID b)" "mkKernelID a2 = mkKernelID a"
    using register_approved [OF assms(12)] assms(1,2,6,7) a1 b1 by simp_all
  have a3: "a3 = a2" "rsMessage resp3 = ''kernel already registered''"
    using register_again [OF assms(14)] assms(1) a2 b1 by simp_all
  have "r' = Inr () \<and> has_connection b2 (mkKernelID a) \<and> go_get (mkPendingRequests b2) rid = None"
    using approve_completes [OF b1(6) _ _ _ _ _ a3(2) assms(16)] assms(3,5,8,13,15) b1 by (simp add: pending_request_def)
  then show ?thesis
    using a1 a2 a3 by simp
qed

text \<open>Two kernels and the calls between them, with a network that delivers every call.\<close>

definition cable :: "(RegisterKernelRequest \<Rightarrow> RegisterKernelResponse option) \<Rightarrow> kernel_net" where
  "cable f = \<lparr> ktTls = True, ktDial = (\<lambda>addr port. True), ktRegister = (\<lambda>addr port. f), ktSync = (\<lambda>k req. None),
              ktWrite = True, ktOwnCa = ''ca'', ktIntermediateCa = ''ica'' \<rparr>"

definition sample_a :: MultiKernelManager where
  "sample_a = NewMultiKernelManager ''a'' ''ha'' 50051"

definition sample_b :: MultiKernelManager where
  "sample_b = NewMultiKernelManager ''b'' ''hb'' 50061"

definition sample_neta :: kernel_net where
  "sample_neta = cable (\<lambda>req. Some (fst (RegisterKernel (cable (\<lambda>_. None)) 0 ''r1'' req sample_b)))"

definition sample_b1 :: MultiKernelManager where
  "sample_b1 = fst (snd (RegisterKernel (cable (\<lambda>_. None)) 0 ''r1'' (register_request sample_neta 0 True False sample_a) sample_b))"

definition sample_a1 :: MultiKernelManager where
  "sample_a1 = fst (snd (the (ConnectToKernel sample_neta 0 ''b'' ''hb'' 50063 None False sample_a)))"

definition sample_a2 :: MultiKernelManager where
  "sample_a2 = fst (snd (RegisterKernel sample_neta 9 ''r2'' (register_request (cable (\<lambda>_. None)) 9 False True sample_b1) sample_a1))"

definition sample_netb :: kernel_net where
  "sample_netb = cable (\<lambda>req. Some (fst (RegisterKernel sample_neta 9 ''r2'' req (if rkIsInterconnectApprove req then sample_a1 else sample_a2))))"

lemma cable_simps [simp]:
  "ktTls (cable f)" "ktDial (cable f) addr port" "ktRegister (cable f) addr port = f" "ktOwnCa (cable f) = ''ca''"
  by (simp_all add: cable_def)

lemma cable_request: "register_request (cable f) now q p m = register_request (cable g) now q p m"
  by (simp add: register_request_def)

lemma tuple4: "x = (fst x, fst (snd x), fst (snd (snd x)), snd (snd (snd x)))"
  by simp

theorem interconnect_completes_witness:
  "fst (ApprovePendingRequest sample_netb 9 ''r1'' sample_b1) = Inr () \<and>
   has_connection (fst (snd (ApprovePendingRequest sample_netb 9 ''r1'' sample_b1))) ''a'' \<and>
   has_connection (fst (snd (RegisterKernel sample_neta 9 ''r2'' (register_request sample_netb 9 False False sample_b1) sample_a2))) ''b''"
proof -
  have ids: "mkKernelID sample_a = ''a''" "mkKernelID sample_b = ''b''" "mkKernels sample_a = []" "mkKernels sample_b = []"
    "mkAddress sample_a = ''ha''" "mkAddress sample_b = ''hb''" "mkPort sample_a = 50051" "mkPort sample_b = 50061"
    by (simp_all add: sample_a_def sample_b_def NewMultiKernelManager_def)
  have ports: "int32 50051 = 50051" "int32 50061 = 50061"
    by (simp_all add: int32_def)
  have regb: "ktRegister sample_neta ''hb'' 50063 (register_request sample_neta 0 True False sample_a) =
      Some (fst (RegisterKernel (cable (\<lambda>_. None)) 0 ''r1'' (register_request sample_neta 0 True False sample_a) sample_b))"
    by (simp add: sample_neta_def)
  have conn: "ConnectToKernel sample_neta 0 (mkKernelID sample_b) ''hb'' 50063 None False sample_a =
      Some (fst (request_interconnect sample_neta 0 ''b'' ''hb'' 50063 sample_a), sample_a1,
            fst (snd (snd (request_interconnect sample_neta 0 ''b'' ''hb'' 50063 sample_a))),
            snd (snd (snd (request_interconnect sample_neta 0 ''b'' ''hb'' 50063 sample_a))))"
    by (simp add: sample_a1_def ConnectToKernel_def enter_route_def ids)
  have req: "register_request sample_netb 9 q p m = register_request (cable (\<lambda>_. None)) 9 q p m" for q p m
    unfolding sample_netb_def by (rule cable_request)
  have serve: "ktRegister sample_netb ''ha'' 50053 (register_request sample_netb 9 False True sample_b1) =
      Some (fst (RegisterKernel sample_neta 9 ''r2'' (register_request sample_netb 9 False True sample_b1) sample_a1))"
    "ktRegister sample_netb ''ha'' 50053 (register_request sample_netb 9 False False sample_b1) =
      Some (fst (RegisterKernel sample_neta 9 ''r2'' (register_request sample_netb 9 False False sample_b1) sample_a2))"
    by (simp_all add: sample_netb_def)
  have a2: "sample_a2 = fst (snd (RegisterKernel sample_neta 9 ''r2'' (register_request sample_netb 9 False True sample_b1) sample_a1))"
    by (simp add: sample_a2_def req)
  have dial: "ktTls sample_neta \<and> ktDial sample_neta addr port" "ktTls sample_netb \<and> ktDial sample_netb addr port" for addr port
    by (simp_all add: sample_neta_def sample_netb_def)
  show ?thesis
    using interconnect_completes [of sample_a sample_b "''r1''" sample_neta "''hb''" 50063 sample_netb "cable (\<lambda>_. None)" 0,
        OF _ _ _ _ _ _ _ _ tuple4 _ conn tuple4 _ tuple4 _ tuple4, of 9 "''r2''" "''r2''"] ids ports regb serve a2 dial
    by (simp add: sample_b1_def [symmetric])
qed

section \<open>Routes\<close>

lemma target_of_hop:
  assumes "h \<in> set hs"
  shows "\<exists>n. (n, mhToKernel h, mhToAddress h, mhToPort h) \<in> set (route_targets hs)"
proof -
  obtain i where i: "i < length hs" "h = hs ! i"
    using assms by (auto simp: in_set_conv_nth)
  then have "(Suc i, h) \<in> set (zip [1 ..< Suc (length hs)] hs)"
    by (auto simp: in_set_zip simp del: upt_Suc intro!: exI [of _ i])
  then have "hop_targets (Suc i) h \<in> set (map (\<lambda>(n, h). hop_targets n h) (zip [1 ..< Suc (length hs)] hs))"
    by (force simp del: upt_Suc)
  moreover have "(Suc i, mhToKernel h, mhToAddress h, mhToPort h) \<in> set (hop_targets (Suc i) h)"
    by (simp add: hop_targets_def)
  ultimately show ?thesis
    unfolding route_targets_def set_concat by blast
qed

text \<open>
  Asking for a connection over a route never returns: for every route that leads to an unknown other
  kernel the call takes the lock of the kernel table a second time.
\<close>

theorem route_connection_blocks:
  assumes "go_get (mkKernels m) k = None" and "k \<noteq> mkKernelID m" and "h \<in> set (mcHops c)" and "mhToKernel h = k"
  shows "ConnectToKernel net now k addr port (Some (Inr c)) True m = None"
proof -
  obtain n where "(n, k, mhToAddress h, mhToPort h) \<in> set (route_targets (mcHops c))"
    using target_of_hop [OF assms(3)] assms(4) by auto
  then have "list_ex (\<lambda>(n, k', a, p). k' \<noteq> mkKernelID m) (route_targets (mcHops c))"
    using assms(2) by (force simp: list_ex_iff)
  moreover have "list_ex (\<lambda>h. mhToKernel h = k) (mcHops c)"
    using assms(3,4) by (auto simp: list_ex_iff)
  ultimately show ?thesis
    using assms(1) by (simp add: ConnectToKernel_def enter_route_def)
qed

lemma internal_pending:
  assumes "\<not> has_connection m k" and "ktTls net" and "ktDial net addr port"
    and "ktRegister net addr port (register_request net now True False m) = Some resp"
    and "rsMessage resp = pending_message rid" and "CHR '';'' \<notin> set rid"
  shows "connectToKernelInternal net now k addr port True m =
    (Inl (InterconnectPending rid), save_ca net k (rsPeerCaCertificate resp) (del_kernel k m), [],
     [(mkKernelID m, EventTypeInterconnectRequested, ''outgoing'', k)])"
  using assms by (auto simp: connectToKernelInternal_def Let_def has_connection_def sublist_pending request_id_of_pending split: option.splits)

text \<open>
  A session forgets one of the first hop's two requests.  When both ends of the only hop of a route keep the creator's request
  for a decision, the session remembers the request to the near end only, so it counts as complete once
  the near end is connected, whether or not the far end is.
\<close>

theorem session_completes_early:
  assumes "mcHops c = [h]" and "mhToKernel h \<noteq> mhFromKernel h" and "mkKernelID m \<notin> {mhToKernel h, mhFromKernel h}"
    and "\<not> has_connection m (mhToKernel h)" and "\<not> has_connection m (mhFromKernel h)"
    and "ktTls net" and "ktDial net (mhToAddress h) (mhToPort h)" and "ktDial net (mhFromAddress h) (mhToPort h)"
    and "\<And>addr port. \<exists>resp. ktRegister net addr port (register_request net now True False m) = Some resp \<and> rsMessage resp = pending_message (rid addr)"
    and "\<And>addr. CHR '';'' \<notin> set (rid addr) \<and> rid addr \<noteq> []"
    and "ConnectMultiHopRoute net now c m = (r, m', ts, evs)"
    and "mkSessions m2 = mkSessions m'" and "has_connection m2 (mhFromKernel h)"
  shows "r = Inr () \<and> fst (checkMultiHopSessionComplete (mcRouteName c) m2)"
proof -
  let ?p = "mhToPort h"
  obtain resp1 where r1: "ktRegister net (mhToAddress h) ?p (register_request net now True False m) = Some resp1"
    "rsMessage resp1 = pending_message (rid (mhToAddress h))"
    using assms(9) by blast
  obtain resp2 where r2: "ktRegister net (mhFromAddress h) ?p (register_request net now True False m) = Some resp2"
    "rsMessage resp2 = pending_message (rid (mhFromAddress h))"
    using assms(9) by blast
  define m1 where "m1 = save_ca net (mhToKernel h) (rsPeerCaCertificate resp1) (del_kernel (mhToKernel h) m)"
  have c1: "connectToKernelInternal net now (mhToKernel h) (mhToAddress h) ?p True m =
      (Inl (InterconnectPending (rid (mhToAddress h))), m1, [], [(mkKernelID m, EventTypeInterconnectRequested, ''outgoing'', mhToKernel h)])"
    unfolding m1_def using internal_pending [OF assms(4,6,7) r1] assms(10) by blast
  have same: "register_request net now True False (m1\<lparr>mkPendingHops := x\<rparr>) = register_request net now True False m" for x
    by (rule request_register_cong) (simp_all add: m1_def save_ca_def del_kernel_def)
  have other: "\<not> has_connection (m1\<lparr>mkPendingHops := x\<rparr>) (mhFromKernel h)" "mkKernelID m1 = mkKernelID m" for x
    using assms(2,5) by (simp_all add: m1_def save_ca_def del_kernel_def has_connection_def gomap_simps)
  have c2: "\<exists>m'' evs'. connectToKernelInternal net now (mhFromKernel h) (mhFromAddress h) ?p True (m1\<lparr>mkPendingHops := x\<rparr>) =
      (Inl (InterconnectPending (rid (mhFromAddress h))), m'', [], evs')" for x
    using internal_pending [OF other(1) assms(6,8)] same r2 assms(10) by (metis (no_types))
  obtain m'' evs' where c2': "connectToKernelInternal net now (mhFromKernel h) (mhFromAddress h) ?p True
      (m1\<lparr>mkPendingHops := go_put (rid (mhToAddress h)) \<lparr> phRouteName = mcRouteName c, phHopIndex = 1, phHopTotal = 1, phToKernelID = mhToKernel h,
         phToAddress = mhToAddress h, phToPort = ?p, phRequestID = rid (mhToAddress h), phApproved = False, phApprovedBy = [] \<rparr> (mkPendingHops m1)\<rparr>) =
      (Inl (InterconnectPending (rid (mhFromAddress h))), m'', [], evs')"
    using c2 by blast
  have "r = Inr () \<and> (\<exists>hop. go_get (mkSessions m') (mcRouteName c) = Some \<lparr> msRouteName = mcRouteName c, msHops = [(1, hop)], msDone = False \<rparr> \<and>
      phToKernelID hop = mhFromKernel h)"
    using assms(3,4,10,11) c1 c2' other
    by (auto simp: ConnectMultiHopRoute_def assms(1) route_targets_def hop_targets_def RegisterPendingHop_def gomap_simps)
  then show ?thesis
    using assms(12,13) by (auto simp: checkMultiHopSessionComplete_def)
qed

end
