(* ===== verification/Evidence_Store.thy ===== *)
theory Evidence_Store
  imports Evidence_Log "HOL-Library.Multiset"
begin

text \<open>
  The database behind the evidence log (\<^verbatim>\<open>kernel/database/evidence_store.go\<close>), as the table that
  \<^verbatim>\<open>kernel/database/mysql.go\<close> creates.

  What the server does is the argument \<open>sv\<close>: whether it accepts a row (connection and column sizes), whether it answers
  queries, what a \<^verbatim>\<open>TIMESTAMP(6)\<close> column keeps of a time, and what \<^verbatim>\<open>json.Marshal\<close> and \<^verbatim>\<open>json.Unmarshal\<close> make of
  metadata.  A table is its rows in the order of their identifiers.  \<open>store_ops\<close> are the operations of the
  \<^verbatim>\<open>EvidenceStore\<close> interface that \<open>Evidence_Log\<close> is written against.
\<close>

section \<open>The table\<close>

record evidence_row =
  rwID :: int
  rwEventID :: string
  rwEventType :: string
  rwTimestamp :: time
  rwSourceID :: string
  rwTargetID :: string
  rwChannelID :: string
  rwFlowID :: string
  rwDataHash :: string
  rwSignature :: string
  rwHash :: string
  rwPrevHash :: string
  rwMetadata :: "string option"

record evidence_db =
  dbRows :: "evidence_row list"
  dbNextID :: int

record sql_server =
  sqAccepts :: "evidence_row \<Rightarrow> bool"
  sqAnswers :: bool
  sqTime :: "time \<Rightarrow> time"
  sqMarshal :: "string gomap \<Rightarrow> string option"
  sqUnmarshal :: "string \<Rightarrow> string gomap option"

record EvidenceFilter =
  efEventID :: string
  efEventType :: string
  efSourceID :: string
  efTargetID :: string
  efDirection :: string
  efChannelID :: string
  efFlowID :: string
  efStartTime :: "time option"
  efEndTime :: "time option"
  efLimit :: int
  efOffset :: int

definition no_filter :: EvidenceFilter where
  "no_filter = \<lparr> efEventID = [], efEventType = [], efSourceID = [], efTargetID = [], efDirection = [], efChannelID = [],
     efFlowID = [], efStartTime = None, efEndTime = None, efLimit = 0, efOffset = 0 \<rparr>"

section \<open>Operations\<close>

definition metadata_json :: "sql_server \<Rightarrow> string gomap option \<Rightarrow> string option" where
  "metadata_json sv md =
     (case md of None \<Rightarrow> None | Some x \<Rightarrow> Some (case sqMarshal sv x of None \<Rightarrow> ''{}'' | Some j \<Rightarrow> j))"

definition row_of :: "sql_server \<Rightarrow> int \<Rightarrow> EvidenceRecord \<Rightarrow> evidence_row" where
  "row_of sv i r =
     \<lparr> rwID = i, rwEventID = evEventID r, rwEventType = evEventType r, rwTimestamp = sqTime sv (evTimestamp r),
       rwSourceID = evSourceID r, rwTargetID = evTargetID r, rwChannelID = evChannelID r, rwFlowID = evFlowID r,
       rwDataHash = evDataHash r, rwSignature = evSignature r, rwHash = evHash r, rwPrevHash = evPrevHash r,
       rwMetadata = metadata_json sv (evMetadata r) \<rparr>"

text \<open>Reading a row: the fields without a column stay empty, metadata that does not parse stays nil.\<close>

definition record_of :: "sql_server \<Rightarrow> evidence_row \<Rightarrow> EvidenceRecord" where
  "record_of sv w =
     \<lparr> evEventID = rwEventID w, evEventType = rwEventType w, evTimestamp = rwTimestamp w, evSourceID = rwSourceID w,
       evTargetID = rwTargetID w, evDirection = [], evChannelID = rwChannelID w, evFlowID = rwFlowID w,
       evDataHash = rwDataHash w, evSignature = rwSignature w, evHash = rwHash w, evPrevHash = rwPrevHash w,
       evMetadata = (case rwMetadata w of None \<Rightarrow> None | Some j \<Rightarrow> if j = [] then None else sqUnmarshal sv j),
       evConnectorID = [] \<rparr>"

definition Store :: "sql_server \<Rightarrow> EvidenceRecord \<Rightarrow> evidence_db \<Rightarrow> bool \<times> evidence_db" where
  "Store sv r db =
     (let w = row_of sv (dbNextID db) r
      in if sqAccepts sv w then (True, db\<lparr>dbRows := dbRows db @ [w], dbNextID := dbNextID db + 1\<rparr>) else (False, db))"

definition GetByID :: "sql_server \<Rightarrow> int \<Rightarrow> evidence_db \<Rightarrow> EvidenceRecord option" where
  "GetByID sv i db =
     (if sqAnswers sv then map_option (record_of sv) (find (\<lambda>w. rwID w = i) (dbRows db)) else None)"

definition conditions :: "sql_server \<Rightarrow> EvidenceFilter \<Rightarrow> evidence_row \<Rightarrow> bool" where
  "conditions sv f w \<longleftrightarrow>
     (if efEventID f \<noteq> [] then rwEventID w = efEventID f else True) \<and>
     (if efEventType f \<noteq> [] then rwEventType w = efEventType f else True) \<and>
     (if efSourceID f \<noteq> [] then rwSourceID w = efSourceID f else True) \<and>
     (if efTargetID f \<noteq> [] then rwTargetID w = efTargetID f else True) \<and>
     (if efChannelID f \<noteq> [] then rwChannelID w = efChannelID f else True) \<and>
     (if efFlowID f \<noteq> [] then rwFlowID w = efFlowID f else True) \<and>
     (case efStartTime f of None \<Rightarrow> True | Some t \<Rightarrow> rwTimestamp w \<ge> sqTime sv t) \<and>
     (case efEndTime f of None \<Rightarrow> True | Some t \<Rightarrow> rwTimestamp w \<le> sqTime sv t)"

text \<open>\<^verbatim>\<open>ORDER BY timestamp DESC\<close>; rows of the same time stay in the order of the table.\<close>

definition newest_first :: "evidence_row list \<Rightarrow> evidence_row list" where
  "newest_first ws = sort_key (\<lambda>w. - rwTimestamp w) ws"

definition limit_clause :: "EvidenceFilter \<Rightarrow> 'a list \<Rightarrow> 'a list" where
  "limit_clause f xs =
     (if efLimit f > 0 then take (nat (efLimit f)) (if efOffset f > 0 then drop (nat (efOffset f)) xs else xs) else xs)"

definition Query :: "sql_server \<Rightarrow> EvidenceFilter \<Rightarrow> evidence_db \<Rightarrow> EvidenceRecord list option" where
  "Query sv f db =
     (if sqAnswers sv
      then Some (map (record_of sv) (limit_clause f (newest_first (filter (conditions sv f) (dbRows db)))))
      else None)"

text \<open>Every row of the event is overwritten; its identifier stays.\<close>

definition Update :: "sql_server \<Rightarrow> EvidenceRecord \<Rightarrow> evidence_db \<Rightarrow> bool \<times> evidence_db" where
  "Update sv r db =
     (if list_all (\<lambda>w. sqAccepts sv (row_of sv (rwID w) r)) (filter (\<lambda>w. rwEventID w = evEventID r) (dbRows db))
      then (True, db\<lparr>dbRows := map (\<lambda>w. if rwEventID w = evEventID r then row_of sv (rwID w) r else w) (dbRows db)\<rparr>)
      else (False, db))"

definition Delete :: "sql_server \<Rightarrow> int \<Rightarrow> evidence_db \<Rightarrow> bool \<times> evidence_db" where
  "Delete sv i db =
     (if sqAnswers sv then (True, db\<lparr>dbRows := filter (\<lambda>w. rwID w \<noteq> i) (dbRows db)\<rparr>) else (False, db))"

definition Count :: "sql_server \<Rightarrow> EvidenceFilter \<Rightarrow> evidence_db \<Rightarrow> nat option" where
  "Count sv f db = (if sqAnswers sv then Some (length (filter (conditions sv f) (dbRows db))) else None)"

definition GetByEventID :: "sql_server \<Rightarrow> string \<Rightarrow> evidence_db \<Rightarrow> EvidenceRecord option" where
  "GetByEventID sv eid db =
     (if sqAnswers sv then map_option (record_of sv) (find (\<lambda>w. rwEventID w = eid) (dbRows db)) else None)"

definition GetByChannel where
  "GetByChannel sv ch from until = Query sv (no_filter\<lparr>efChannelID := ch, efStartTime := from, efEndTime := until\<rparr>)"

definition GetBySource where
  "GetBySource sv src from until = Query sv (no_filter\<lparr>efSourceID := src, efStartTime := from, efEndTime := until\<rparr>)"

definition GetByTarget where
  "GetByTarget sv tgt from until = Query sv (no_filter\<lparr>efTargetID := tgt, efStartTime := from, efEndTime := until\<rparr>)"

definition GetByDirection where
  "GetByDirection sv dir from until = Query sv (no_filter\<lparr>efDirection := dir, efStartTime := from, efEndTime := until\<rparr>)"

definition GetByEventType where
  "GetByEventType sv ty from until = Query sv (no_filter\<lparr>efEventType := ty, efStartTime := from, efEndTime := until\<rparr>)"

definition GetByFlowID where
  "GetByFlowID sv flow from until = Query sv (no_filter\<lparr>efFlowID := flow, efStartTime := from, efEndTime := until\<rparr>)"

text \<open>The table has no column \<^verbatim>\<open>flow_signature\<close>: the statement is always refused.\<close>

definition UpdateFlowSignature :: "string \<Rightarrow> string \<Rightarrow> evidence_db \<Rightarrow> bool \<times> evidence_db" where
  "UpdateFlowSignature eid sig db = (False, db)"

text \<open>The store hashes a record with its signature, unlike the log.\<close>

definition store_fields :: "EvidenceRecord \<Rightarrow> string list" where
  "store_fields r = [evEventID r, evEventType r, evSourceID r, evTargetID r, evDirection r, evChannelID r,
     evDataHash r, evSignature r, show_int (unix (evTimestamp r)), evPrevHash r]"

definition store_calculateRecordHash :: "(string \<Rightarrow> digest) \<Rightarrow> EvidenceRecord \<Rightarrow> string" where
  "store_calculateRecordHash sha r = hash_text sha (join CHR ''|'' (store_fields r))"

definition store_VerifyRecord :: "(string \<Rightarrow> digest) \<Rightarrow> EvidenceRecord \<Rightarrow> log_error option" where
  "store_VerifyRecord sha r = (if store_calculateRecordHash sha r \<noteq> evHash r then Some HashMismatch else None)"

definition store_ops :: "sql_server \<Rightarrow> evidence_db EvidenceStore" where
  "store_ops sv =
     \<lparr> stStore = Store sv, stUpdate = Update sv, stGetByEventID = GetByEventID sv, stGetByChannel = GetByChannel sv,
       stGetBySource = GetBySource sv, stGetByTarget = GetByTarget sv, stGetByDirection = GetByDirection sv,
       stGetByEventType = GetByEventType sv, stGetByFlowID = GetByFlowID sv \<rparr>"

section \<open>The table as a copy of the records\<close>

text \<open>What reading back leaves of a record, and the table that holds given records.\<close>

definition erase :: "EvidenceRecord \<Rightarrow> EvidenceRecord" where
  "erase r = r\<lparr>evDirection := [], evConnectorID := []\<rparr>"

definition mirrors :: "sql_server \<Rightarrow> EvidenceRecord list \<Rightarrow> evidence_db \<Rightarrow> bool" where
  "mirrors sv rs db \<longleftrightarrow> list_all2 (\<lambda>w r. w = row_of sv (rwID w) r) (dbRows db) rs"

definition kept :: "sql_server \<Rightarrow> EvidenceRecord \<Rightarrow> bool" where
  "kept sv r \<longleftrightarrow> sqTime sv (evTimestamp r) = evTimestamp r \<and>
     (case evMetadata r of
        None \<Rightarrow> True
      | Some md \<Rightarrow> (case sqMarshal sv md of None \<Rightarrow> False | Some j \<Rightarrow> j \<noteq> [] \<and> sqUnmarshal sv j = Some md))"

lemma record_of_row: "kept sv r \<Longrightarrow> record_of sv (row_of sv i r) = erase r"
  by (cases r) (auto simp: record_of_def row_of_def erase_def kept_def metadata_json_def split: option.splits)

lemma row_of_simps [simp]:
  "rwID (row_of sv i r) = i" "rwEventID (row_of sv i r) = evEventID r" "rwEventType (row_of sv i r) = evEventType r"
  "rwTimestamp (row_of sv i r) = sqTime sv (evTimestamp r)" "rwSourceID (row_of sv i r) = evSourceID r"
  "rwTargetID (row_of sv i r) = evTargetID r" "rwChannelID (row_of sv i r) = evChannelID r"
  "rwFlowID (row_of sv i r) = evFlowID r" "rwHash (row_of sv i r) = evHash r"
  by (simp_all add: row_of_def)

lemma store_mirrors:
  "mirrors sv rs db \<Longrightarrow> Store sv r db = (True, db') \<Longrightarrow> mirrors sv (rs @ [r]) db'"
  by (auto simp: mirrors_def Store_def Let_def list_all2_appendI split: if_splits)

lemma list_all2_filter:
  "list_all2 R xs ys \<Longrightarrow> (\<And>x y. R x y \<Longrightarrow> y \<in> set ys \<Longrightarrow> P x = Q y) \<Longrightarrow> list_all2 R (filter P xs) (filter Q ys)"
  by (induction rule: list_all2_induct) auto

lemma list_all2_map_eq:
  "list_all2 R xs ys \<Longrightarrow> (\<And>x y. R x y \<Longrightarrow> y \<in> set ys \<Longrightarrow> f x = g y) \<Longrightarrow> map f xs = map g ys"
  by (induction rule: list_all2_induct) auto

lemma newest_first_rev:
  assumes "sorted_wrt (<) (map rwTimestamp ws)"
  shows "newest_first ws = rev ws"
proof -
  have "inj_on (\<lambda>w. - rwTimestamp w) (set ws)"
    using assms by (auto simp: strict_sorted_iff distinct_map inj_on_def)
  moreover have "sorted (map (\<lambda>w. - rwTimestamp w) (rev ws))"
    using assms by (induction ws) (auto simp: sorted_append)
  ultimately show ?thesis
    unfolding newest_first_def by (intro sort_key_inj_key_eq) simp_all
qed

lemma query_mirrored:
  assumes "mirrors sv rs db" and "sqAnswers sv" and kept: "\<forall>r \<in> set rs. kept sv r"
    and times: "sorted_wrt (<) (map evTimestamp rs)"
    and cond: "\<And>i r. r \<in> set rs \<Longrightarrow> conditions sv f (row_of sv i r) = P r" and "efLimit f \<le> 0"
  shows "Query sv f db = Some (map erase (rev (filter P rs)))"
proof -
  let ?R = "\<lambda>w r. w = row_of sv (rwID w) r"
  let ?ws = "filter (conditions sv f) (dbRows db)"
  have rows: "list_all2 ?R ?ws (filter P rs)"
    using assms(1) unfolding mirrors_def by (rule list_all2_filter) (metis cond)
  have "map rwTimestamp ?ws = map evTimestamp (filter P rs)"
    using rows by (rule list_all2_map_eq) (metis (no_types, lifting) filter_is_subset in_mono kept kept_def row_of_simps(4))
  then have "newest_first ?ws = rev ?ws"
    using times by (intro newest_first_rev) (simp add: sorted_wrt_filter sorted_wrt_map)
  moreover have "map (record_of sv) ?ws = map erase (filter P rs)"
    using rows by (rule list_all2_map_eq) (metis (no_types, lifting) filter_is_subset in_mono kept record_of_row)
  ultimately show ?thesis
    using assms(2,6) by (simp add: Query_def limit_clause_def flip: rev_map)
qed

text \<open>A bound that the server keeps and that no record hits: there the inclusive and the exclusive comparison agree.\<close>

definition clear_bound :: "sql_server \<Rightarrow> EvidenceRecord list \<Rightarrow> time option \<Rightarrow> bool" where
  "clear_bound sv rs b \<longleftrightarrow>
     (case b of None \<Rightarrow> True | Some t \<Rightarrow> sqTime sv t = t \<and> list_all (\<lambda>r. evTimestamp r \<noteq> t) rs)"

lemma time_conditions:
  assumes "clear_bound sv rs from" and "clear_bound sv rs until" and "r \<in> set rs" and "kept sv r"
  shows "(case from of None \<Rightarrow> True | Some t \<Rightarrow> sqTime sv (evTimestamp r) \<ge> sqTime sv t) \<and>
    (case until of None \<Rightarrow> True | Some t \<Rightarrow> sqTime sv (evTimestamp r) \<le> sqTime sv t) \<longleftrightarrow> in_time_range from until r"
  using assms by (auto simp: clear_bound_def in_time_range_def kept_def list_all_iff split: option.splits)

lemma query_by_key:
  assumes "mirrors sv rs db" and "sqAnswers sv" and "\<forall>r \<in> set rs. kept sv r" and "sorted_wrt (<) (map evTimestamp rs)"
    and "clear_bound sv rs from" and "clear_bound sv rs until" and "efStartTime f = from" and "efEndTime f = until"
    and "efLimit f \<le> 0"
    and "\<And>i r. conditions sv f (row_of sv i r) \<longleftrightarrow> P r \<and>
      (case from of None \<Rightarrow> True | Some t \<Rightarrow> sqTime sv (evTimestamp r) \<ge> sqTime sv t) \<and>
      (case until of None \<Rightarrow> True | Some t \<Rightarrow> sqTime sv (evTimestamp r) \<le> sqTime sv t)"
  shows "Query sv f db = Some (map erase (rev (filter (\<lambda>r. P r \<and> in_time_range from until r) rs)))"
proof (rule query_mirrored [OF assms(1-4) _ assms(9)])
  fix i r assume "r \<in> set rs"
  then show "conditions sv f (row_of sv i r) = (P r \<and> in_time_range from until r)"
    using assms(10) [of i r] time_conditions [OF assms(5,6), of r] assms(3) by blast
qed

section \<open>Properties\<close>

lemma database_queries:
  assumes "mirrors sv rs db" and "sqAnswers sv" and "list_all (kept sv) rs" and "sorted_wrt (<) (map evTimestamp rs)"
    and "clear_bound sv rs from" and "clear_bound sv rs until" and "k \<noteq> []"
  shows "GetByChannel sv k from until db = Some (map erase (rev (filter (\<lambda>r. evChannelID r = k \<and> in_time_range from until r) rs))) \<and>
    GetBySource sv k from until db = Some (map erase (rev (filter (\<lambda>r. evSourceID r = k \<and> in_time_range from until r) rs))) \<and>
    GetByTarget sv k from until db = Some (map erase (rev (filter (\<lambda>r. evTargetID r = k \<and> in_time_range from until r) rs))) \<and>
    GetByEventType sv k from until db = Some (map erase (rev (filter (\<lambda>r. evEventType r = k \<and> in_time_range from until r) rs))) \<and>
    GetByFlowID sv k from until db = Some (map erase (rev (filter (\<lambda>r. evFlowID r = k \<and> in_time_range from until r) rs))) \<and>
    GetByDirection sv k from until db = Some (map erase (rev (filter (in_time_range from until) rs)))"
proof -
  have k: "\<forall>r \<in> set rs. kept sv r"
    using assms(3) by (simp add: list_all_iff)
  note key = query_by_key [OF assms(1,2) k assms(4-6)]
  have "GetByDirection sv k from until db = Some (map erase (rev (filter (\<lambda>r. True \<and> in_time_range from until r) rs)))"
    unfolding GetByDirection_def by (intro key) (simp_all add: no_filter_def conditions_def cong: option.case_cong)
  then show ?thesis
    unfolding GetByChannel_def GetBySource_def GetByTarget_def GetByEventType_def GetByFlowID_def
    by (intro conjI key) (use assms(7) in \<open>simp_all add: no_filter_def conditions_def cong: option.case_cong\<close>)
qed


text \<open>A server that keeps everything, and two records in its table.\<close>

definition demo_server :: sql_server where
  "demo_server = \<lparr> sqAccepts = (\<lambda>_. True), sqAnswers = True, sqTime = id, sqMarshal = (\<lambda>_. None), sqUnmarshal = (\<lambda>_. None) \<rparr>"

definition demo_record :: "string \<Rightarrow> time \<Rightarrow> string \<Rightarrow> string \<Rightarrow> EvidenceRecord" where
  "demo_record eid t prev h =
     \<lparr> evEventID = eid, evEventType = ''DATA_SEND'', evTimestamp = t, evSourceID = ''a'', evTargetID = ''b'', evDirection = ''outgoing'',
       evChannelID = ''ch'', evFlowID = ''f'', evDataHash = ''d'', evSignature = ''s'', evHash = h, evPrevHash = prev,
       evMetadata = None, evConnectorID = [] \<rparr>"

definition demo_records :: "EvidenceRecord list" where
  "demo_records = [demo_record ''e1'' 1 [] ''h1'', demo_record ''e2'' 2 ''h1'' ''h2'']"

definition demo_table :: evidence_db where
  "demo_table = snd (Store demo_server (demo_record ''e2'' 2 ''h1'' ''h2'')
     (snd (Store demo_server (demo_record ''e1'' 1 [] ''h1'') \<lparr> dbRows = [], dbNextID = 1 \<rparr>)))"

lemmas demo_defs = demo_server_def demo_record_def demo_records_def demo_table_def Store_def

lemma demo_facts:
  "mirrors demo_server demo_records demo_table" "sqAnswers demo_server" "list_all (kept demo_server) demo_records"
  "sorted_wrt (<) (map evTimestamp demo_records)"
  by (simp_all add: mirrors_def kept_def demo_defs row_of_def)


text \<open>
  A flow kept in the database.  With a database the records of a flow are read newest first; so for a flow of at least two records
  whose times increase, none of them naming the hash of its successor, the verification of the flow never succeeds,
  and the signature that ends a flow is put on its oldest record and covers that record's hash.
\<close>

theorem database_flow_reversed:
  assumes "mirrors sv rs db" and "sqAnswers sv" and "list_all (kept sv) rs" and "sorted_wrt (<) (map evTimestamp rs)"
    and "alStore al = Some db" and "flow \<noteq> []" and "filter (\<lambda>r. evFlowID r = flow) rs = pre @ [r1, r2]"
    and "evPrevHash r1 \<noteq> evHash r2"
  shows "(VerifyFlow lib files (store_ops sv) flow al = Inl NoFlowSignature \<or>
          VerifyFlow lib files (store_ops sv) flow al = Inl (ChainBroken 1)) \<and>
    (SignFlow lib files (store_ops sv) now flow al = (Inr r, al') \<longrightarrow>
       evEventID r = evEventID (hd (pre @ [r1, r2])) \<and>
       GenerateFlowSignature lib files (evHash (hd (pre @ [r1, r2]))) (unix now) = Inr (evSignature r))"
proof -
  have "GetByFlowID sv flow None None db = Some (map erase (rev (pre @ [r1, r2])))"
    using database_queries [OF assms(1-4), of None None flow] assms(6,7)
    by (simp add: clear_bound_def in_time_range_def)
  then have rs: "QueryByFlowID (store_ops sv) flow None None 0 al = erase r2 # erase r1 # map erase (rev pre)"
    using assms(5) by (simp add: QueryByFlowID_def query_by_def store_ops_def cap_def)
  have last: "last (erase r2 # erase r1 # map erase (rev pre)) = erase (hd (pre @ [r1, r2]))"
    by (cases pre) (simp_all add: last_map last_rev)
  show ?thesis
    using assms(6,8) unfolding VerifyFlow_def SignFlow_def Let_def rs last by (auto simp: erase_def split: sum.splits)
qed

theorem database_flow_reversed_witness:
  "VerifyFlow demo_lib demo_files (store_ops demo_server) ''f''
     \<lparr> alStore = Some demo_table, alRecords = None, alIndexByCh = [], alIndexBySource = [], alIndexByTarget = [],
       alIndexByEventType = [], alIndexByFlowID = [], alLastRecordHash = ''h2'', alLogFile = None, alPersistent = True \<rparr>
   \<noteq> Inr True"
  using database_flow_reversed [OF demo_facts, of
      "\<lparr> alStore = Some demo_table, alRecords = None, alIndexByCh = [], alIndexBySource = [], alIndexByTarget = [],
         alIndexByEventType = [], alIndexByFlowID = [], alLastRecordHash = ''h2'', alLogFile = None, alPersistent = True \<rparr>"
      "''f''" "[]" "demo_records ! 0" "demo_records ! 1" demo_lib demo_files]
  by (auto simp: demo_records_def demo_record_def)

text \<open>
  A record written to the database and read back is the record without its direction, which has no column.  The hash covers the
  direction, so a record that had one no longer passes the verification of the log, unless the two texts collide.
\<close>

theorem stored_record_read_back:
  assumes "Store sv r db = (True, db')" and "sqAnswers sv" and "kept sv r"
    and "list_all (\<lambda>w. rwEventID w \<noteq> evEventID r) (dbRows db)"
    and "VerifyRecord sha r = None" and "evDirection r \<noteq> []" and "plain_record r"
    and "hash_text sha (record_text r) = hash_text sha (record_text (erase r)) \<Longrightarrow> record_text r = record_text (erase r)"
  shows "GetByEventID sv (evEventID r) db' = Some (erase r) \<and> VerifyRecord sha (erase r) = Some HashMismatch"
proof
  have "find (\<lambda>w. rwEventID w = evEventID r) (dbRows db) = None"
    using assms(4) by (simp add: find_None_iff list_all_iff)
  then show "GetByEventID sv (evEventID r) db' = Some (erase r)"
    using assms(1-3) by (auto simp: Store_def Let_def GetByEventID_def find_append record_of_row split: if_splits)
  have "record_text r \<noteq> record_text (erase r)"
    using record_text_commits [OF assms(7), of "erase r"] assms(6) by (auto simp: record_fields_def erase_def)
  then show "VerifyRecord sha (erase r) = Some HashMismatch"
    using assms(5,8) by (auto simp: VerifyRecord_def calculate_text erase_def split: if_splits)
qed

theorem stored_record_read_back_witness:
  "VerifyRecord (clSha256 demo_lib) (erase (build_record (clSha256 demo_lib) ''e'' 7 demo_submission [] [])) = Some HashMismatch"
proof -
  let ?r = "build_record (clSha256 demo_lib) ''e'' 7 demo_submission [] []"
  have "Store demo_server ?r \<lparr> dbRows = [], dbNextID = 1 \<rparr> = (True, \<lparr> dbRows = [row_of demo_server 1 ?r], dbNextID = 2 \<rparr>)"
    by (simp add: Store_def demo_server_def)
  moreover have "kept demo_server ?r" "evDirection ?r \<noteq> []" "plain_record ?r"
    by (simp_all add: kept_def demo_server_def build_record_def Let_def demo_submission_def plain_record_def record_fields_def)
  moreover have "hash_text (clSha256 demo_lib) (record_text ?r) = hash_text (clSha256 demo_lib) (record_text (erase ?r)) \<Longrightarrow>
      record_text ?r = record_text (erase ?r)"
    by (rule ccontr)
      (simp add: hash_text_inject demo_lib_def record_text_def record_fields_def build_record_def Let_def erase_def demo_submission_def
        unix_def show_int_def)
  ultimately show ?thesis
    using stored_record_read_back [of demo_server ?r _ _ "clSha256 demo_lib"] build_record_verified by (auto simp: demo_server_def)
qed

end
