(* ===== verification/Evidence_Service.thy ===== *)
theory Evidence_Service
  imports Evidence_Store Identity_Service Channel_Negotiation
begin

text \<open>
  The evidence service (\<^verbatim>\<open>kernel/server/evidence_service.go\<close>): submitting, querying and checking evidence on
  behalf of the connector named by the certificate of the call.  The service made by
  \<^verbatim>\<open>NewEvidenceServiceServerWithChannel\<close> has no channel manager (\<open>None\<close>).
\<close>

section \<open>Requests\<close>

record QueryRequest =
  qrFlowId :: string
  qrChannelId :: string
  qrConnectorId :: string
  qrStartTimestamp :: int
  qrEndTimestamp :: int
  qrLimit :: int

record EvidenceRequest =
  erConnectorId :: string
  erEventType :: string
  erChannelId :: string
  erDataHash :: string

record evidence_entry =
  eeEvidenceTxId :: string
  eeConnectorId :: string
  eeEventType :: string
  eeChannelId :: string
  eeDataHash :: string
  eeTimestamp :: time
  eeSignature :: string

datatype evidence_error =
  Unauthenticated auth_error | NoSuchChannel channel_error | PermissionDenied string | OwnRecordsOnly | NoCriterion | PanicNilManager

section \<open>Handlers\<close>

definition SubmitEvidence_handler ::
    "(string \<Rightarrow> digest) \<Rightarrow> (string \<Rightarrow> sign_error + string) option \<Rightarrow> 's EvidenceStore \<Rightarrow> string \<Rightarrow> time \<Rightarrow> grpc_ctx \<Rightarrow>
     EvidenceRequest \<Rightarrow> 's AuditLog \<Rightarrow> (auth_error + string \<times> int) \<times> 's AuditLog" where
  "SubmitEvidence_handler sha sign ops eid now ctx req al =
     (case VerifyConnectorID ctx (erConnectorId req) of
        Some e \<Rightarrow> (Inl e, al)
      | None \<Rightarrow>
          (case SubmitEvidence sha sign ops eid now (erConnectorId req) (erEventType req) (erChannelId req) (erDataHash req) al of
             (r, al') \<Rightarrow> (Inr (evFlowID r, unix (evTimestamp r)), al')))"

text \<open>\<^verbatim>\<open>time.Unix\<close> of the seconds before the year 1 is the zero time, which means no bound.\<close>

definition from_unix :: "int \<Rightarrow> time option" where
  "from_unix s = (if s = - 62135596800 then None else Some (seconds s))"

definition query_end :: "QueryRequest \<Rightarrow> time option" where
  "query_end req = (if qrEndTimestamp req = 0 then None else from_unix (qrEndTimestamp req))"

definition query_limit :: "QueryRequest \<Rightarrow> int" where
  "query_limit req = (if qrLimit req = 0 then 100 else qrLimit req)"

definition query_records ::
    "'s EvidenceStore \<Rightarrow> ChannelManager option \<Rightarrow> string \<Rightarrow> QueryRequest \<Rightarrow> 's AuditLog \<Rightarrow> evidence_error + EvidenceRecord list" where
  "query_records ops mgr querier req al =
     (let ch = qrChannelId req; con = qrConnectorId req;
          from = from_unix (qrStartTimestamp req); until = query_end req; limit = query_limit req
      in if qrFlowId req \<noteq> [] then Inr (QueryByFlowID ops (qrFlowId req) None None 0 al)
         else if ch \<noteq> [] then
           (case mgr of
              None \<Rightarrow> Inl PanicNilManager
            | Some cm \<Rightarrow>
                (case GetChannel ch cm of
                   Inl e \<Rightarrow> Inl (NoSuchChannel e)
                 | Inr c \<Rightarrow>
                     if \<not> IsParticipant c querier then Inl (PermissionDenied ch)
                     else if con \<noteq> [] then Inr (QueryByChannelAndConnector ops ch con from until limit al)
                     else Inr (QueryByChannel ops ch from until limit al)))
         else if con \<noteq> [] then
           (if con \<noteq> querier then Inl OwnRecordsOnly else Inr (QueryByConnector ops con from until limit al))
         else Inl NoCriterion)"

definition entry_of :: "EvidenceRecord \<Rightarrow> evidence_entry" where
  "entry_of r = \<lparr> eeEvidenceTxId = evFlowID r, eeConnectorId = evConnectorID r, eeEventType = evEventType r,
     eeChannelId = evChannelID r, eeDataHash = evDataHash r, eeTimestamp = evTimestamp r, eeSignature = evSignature r \<rparr>"

definition QueryEvidence ::
    "'s EvidenceStore \<Rightarrow> ChannelManager option \<Rightarrow> grpc_ctx \<Rightarrow> QueryRequest \<Rightarrow> 's AuditLog \<Rightarrow> evidence_error + evidence_entry list \<times> int" where
  "QueryEvidence ops mgr ctx req al =
     (case ExtractConnectorIDFromContext ctx of
        Inl e \<Rightarrow> Inl (Unauthenticated e)
      | Inr querier \<Rightarrow>
          (case query_records ops mgr querier req al of
             Inl e \<Rightarrow> Inl e
           | Inr rs \<Rightarrow> Inr (map entry_of rs, int (length rs))))"

definition VerifyEvidenceSignature_handler ::
    "('k, 'p) crypto_lib \<Rightarrow> ('k, 'p) key_files \<Rightarrow> grpc_ctx \<Rightarrow> string \<Rightarrow> EvidenceRequest \<Rightarrow> string \<Rightarrow> int \<Rightarrow> bool" where
  "VerifyEvidenceSignature_handler lib files ctx requester req sig ts =
     (VerifyConnectorID ctx requester = None \<and>
      VerifyEvidenceSignature lib files False (erConnectorId req) (erEventType req) (erChannelId req) (erDataHash req) sig ts = None)"

section \<open>Properties\<close>

text \<open>
  Who may read evidence.  A query is served exactly for a caller with a certificate who names a flow, or a channel it takes part in,
  or only itself.  A flow may be read by every authenticated caller.
\<close>

theorem evidence_query_served:
  "(\<exists>logs. QueryEvidence ops (Some cm) ctx req al = Inr logs) \<longleftrightarrow>
   (\<exists>querier. ExtractConnectorIDFromContext ctx = Inr querier \<and>
      (if qrFlowId req = [] then
         (if qrChannelId req = [] then qrConnectorId req = querier
          else \<exists>c. GetChannel (qrChannelId req) cm = Inr c \<and> IsParticipant c querier)
       else True))"
proof -
  have "querier \<noteq> []" if "ExtractConnectorIDFromContext ctx = Inr querier" for querier
    using that by (auto simp: ExtractConnectorIDFromContext_def Let_def split: grpc_ctx.splits if_splits)
  then show ?thesis
    by (auto simp: QueryEvidence_def query_records_def Let_def split: sum.splits)
qed

lemma add_unseen_spec:
  "distinct (map evEventID acc) \<Longrightarrow> distinct (map evEventID (add_unseen acc rs)) \<and>
   set acc \<subseteq> set (add_unseen acc rs) \<and> set (add_unseen acc rs) \<subseteq> set acc \<union> set rs \<and>
   evEventID ` set (add_unseen acc rs) = evEventID ` set acc \<union> evEventID ` set rs"
proof (induction rs arbitrary: acc)
  case (Cons r rs)
  then show ?case using Cons.IH [of "acc @ [r]"] by auto
qed simp

lemma add_unseen_exact:
  assumes "inj_on evEventID S" and "set acc \<union> set rs \<subseteq> S" and "distinct (map evEventID acc)"
  shows "set (add_unseen acc rs) = set acc \<union> set rs"
proof -
  have "set (add_unseen acc rs) \<subseteq> set acc \<union> set rs"
    and "evEventID ` set (add_unseen acc rs) = evEventID ` (set acc \<union> set rs)"
    using add_unseen_spec [OF assms(3), of rs] by auto
  then show ?thesis
    using inj_on_image_eq_iff [OF assms(1), of "set (add_unseen acc rs)" "set acc \<union> set rs"] assms(2) by blast
qed

text \<open>
  What a query of a channel and a connector returns.  In a log without database, a participant of a channel that
  also names a connector is given the records of the channel and, besides, the records that the named connector
  submitted in any other channel, as far as the limit allows.
\<close>

theorem channel_query_scope:
  assumes "reach log_init (log_step lib files ops) al" and "alStore al = None" and "alRecords al = Some rs"
    and "distinct (map evEventID rs)" and "ExtractConnectorIDFromContext ctx = Inr querier"
    and "qrFlowId req = []" and "qrChannelId req = ch" and "qrConnectorId req = con" and "ch \<noteq> []" and "con \<noteq> []"
    and "GetChannel ch cm = Inr c" and "IsParticipant c querier"
    and "int (length rs) \<le> query_limit req"
  shows "\<exists>logs. QueryEvidence ops (Some cm) ctx req al = Inr logs \<and>
    set (fst logs) = entry_of ` {r \<in> set rs. (evChannelID r = ch \<or> evSourceID r = con) \<and>
                                   in_time_range (from_unix (qrStartTimestamp req)) (query_end req) r}"
proof -
  let ?from = "from_unix (qrStartTimestamp req)" and ?until = "query_end req"
  let ?ch = "filter (\<lambda>r. evChannelID r = ch \<and> in_time_range ?from ?until r) rs"
  let ?src = "filter (\<lambda>r. evSourceID r = con \<and> in_time_range ?from ?until r) rs"
  let ?all = "add_unseen (add_unseen [] ?ch) ?src"
  have ok: "log_ok (clSha256 lib) al"
    using assms(1) by (rule evlog.reach_inv)
  have q: "QueryByChannel ops ch ?from ?until 0 al = ?ch" "QueryBySource ops con ?from ?until 0 al = ?src"
    using ok assms(3) query_index [OF _ assms(2,3,9), of evChannelID "alIndexByCh al"] query_index [OF _ assms(2,3,10), of evSourceID "alIndexBySource al"]
    by (simp_all add: log_ok_def indexes_ok_def QueryByChannel_def QueryBySource_def)
  have inj: "inj_on evEventID (set rs)"
    using assms(4) by (simp add: distinct_map)
  have part: "set (add_unseen [] ?ch) = set ?ch"
    using add_unseen_exact [OF inj, of "[]" ?ch] by simp
  have all: "set ?all = set ?ch \<union> set ?src" "distinct (map evEventID ?all)"
    using add_unseen_exact [OF inj, of "add_unseen [] ?ch" ?src] add_unseen_spec [of "[]" ?ch]
      add_unseen_spec [of "add_unseen [] ?ch" ?src] by (auto simp: part)
  have "length ?all = card (set ?all)"
    using all(2) by (simp add: distinct_card distinct_map)
  also have "\<dots> \<le> card (set rs)"
    by (rule card_mono) (auto simp: all(1))
  finally have "cap (query_limit req) ?all = ?all"
    using assms(13) card_length [of rs] by (simp add: cap_def)
  then show ?thesis
    using assms(5-12) q by (auto simp: QueryEvidence_def query_records_def Let_def QueryByChannelAndConnector_def all(1))
qed

text \<open>A log with one record of another channel, read by a participant of the channel that names its source.\<close>

definition demo_query :: QueryRequest where
  "demo_query = \<lparr> qrFlowId = [], qrChannelId = ''c2'', qrConnectorId = ''a'', qrStartTimestamp = - 1, qrEndTimestamp = 0, qrLimit = 0 \<rparr>"

definition demo_evidence_manager :: ChannelManager where
  "demo_evidence_manager = demo_propose\<lparr>cmChannels := [(''c2'', empty_channel\<lparr>chSenderIDs := [''x'']\<rparr>)]\<rparr>"

theorem channel_query_scope_witness:
  "\<exists>logs. QueryEvidence demo_store_ops (Some demo_evidence_manager) (VerifiedChains [[''x'']]) demo_query (demo_submit ''e1'' 1 demo_log) = Inr logs \<and>
     eeChannelId ` set (fst logs) = {''ch''}"
proof -
  let ?al = "demo_submit ''e1'' 1 demo_log"
  obtain r where rs: "alRecords ?al = Some [r]" "evSourceID r = ''a''" "evChannelID r = ''ch''" "evTimestamp r = 1"
    by (simp add: demo_submit_def SubmitBasicEvidenceWithMetadata_def cache_record_def begin_record_def sign_record_def
        demo_log_def Let_def) (simp add: demo_submission_def)
  have st: "alStore ?al = None"
    by (simp add: demo_submit_def SubmitBasicEvidenceWithMetadata_def cache_record_def store_record_def demo_log_def Let_def)
  have "GetChannel ''c2'' demo_evidence_manager = Inr (empty_channel\<lparr>chSenderIDs := [''x'']\<rparr>)"
    by (simp add: GetChannel_def demo_evidence_manager_def)
  moreover have "IsParticipant (empty_channel\<lparr>chSenderIDs := [''x'']\<rparr>) ''x''"
    by (simp add: IsParticipant_def raw_id_def has_colon_def)
  moreover have "ExtractConnectorIDFromContext (VerifiedChains [[''x'']]) = Inr ''x''"
    by (simp add: ExtractConnectorIDFromContext_def)
  ultimately obtain logs where
    "QueryEvidence demo_store_ops (Some demo_evidence_manager) (VerifiedChains [[''x'']]) demo_query ?al = Inr logs"
    and logs: "set (fst logs) = entry_of ` {q \<in> set [r]. (evChannelID q = ''c2'' \<or> evSourceID q = ''a'') \<and>
      in_time_range (from_unix (qrStartTimestamp demo_query)) (query_end demo_query) q}"
    using channel_query_scope [OF demo_log_reach(2) [OF demo_log_reach(1)] st rs(1), of "VerifiedChains [[''x'']]" "''x''" demo_query
        "''c2''" "''a''" demo_evidence_manager] by (auto simp: demo_query_def query_limit_def)
  moreover have "{q \<in> set [r]. (evChannelID q = ''c2'' \<or> evSourceID q = ''a'') \<and>
      in_time_range (from_unix (qrStartTimestamp demo_query)) (query_end demo_query) q} = {r}"
    using rs(2-4) by (auto simp: in_time_range_def demo_query_def from_unix_def query_end_def seconds_def)
  then have "eeChannelId ` set (fst logs) = {''ch''}"
    using rs(3) unfolding logs by (simp add: entry_of_def)
  ultimately show ?thesis by blast
qed

end
