(* ===== verification/Channel_Service.thy ===== *)
theory Channel_Service
  imports Evidence_Log Identity_Service Channel_Delivery Kernel_Network
begin

text \<open>
  The channel service (\<^verbatim>\<open>kernel/server/channel_service.go\<close>): the handlers that negotiate channels and change permissions
  on behalf of the connector named by the certificate of the call, and the notices between kernels.

  A handler returns its answer (\<open>Inl\<close>: a response without success, an error or a panic), the new channel manager, the evidence it
  submits and the goroutines it starts, in order; \<open>None\<close> is a call that waits for a lock that is never released.  The
  body of each goroutine is an operation of its own (\<open>notify_all\<close>, \<open>forwardAcceptToRemoteKernels\<close>,
  \<open>notifyOtherKernelsChannelActivated\<close>).
\<close>

declare map_of_eq_Some_iff [simp del]

section \<open>Results\<close>

datatype svc_error =
  SvcAuth auth_error | SvcChannel channel_error | SvcPerm perm_error | NotOnline string | NotForwarded string string
| ProposalRejected | ParticipantsOnly | ViewersOnly | BadRole string | PanicNilProposal
| OriginUnknown string | OriginUnreachable mk_error | InfoUnavailable string | NotifyFailed notify_error

datatype svc_task =
  NotifyTask "string list" ChannelNotification
| ForwardAcceptTask string string string
| ActivationTask string ChannelNotification
| ManagerEffect effect

type_synonym 'a svc_result = "(svc_error + 'a) \<times> ChannelManager \<times> submission list \<times> svc_task list"

definition EventTypeChannelCreated :: string where
  "EventTypeChannelCreated = ''CHANNEL_CREATED''"

definition EventTypeChannelClosed :: string where
  "EventTypeChannelClosed = ''CHANNEL_CLOSED''"

definition EventTypePermissionRequest :: string where
  "EventTypePermissionRequest = ''PERMISSION_REQUEST''"

definition EventTypePermissionGranted :: string where
  "EventTypePermissionGranted = ''PERMISSION_GRANTED''"

definition EventTypePermissionDenied :: string where
  "EventTypePermissionDenied = ''PERMISSION_DENIED''"

definition EventTypePermissionRevoked :: string where
  "EventTypePermissionRevoked = ''PERMISSION_REVOKED''"

text \<open>The arguments of \<^verbatim>\<open>SubmitBasicEvidence\<close>, here without data hash and flow.\<close>

definition basic_evidence :: "string \<Rightarrow> string \<Rightarrow> string \<Rightarrow> string \<Rightarrow> submission" where
  "basic_evidence src ty ch tgt =
     \<lparr> sbSource = src, sbType = ty, sbChannel = ch, sbDataHash = [], sbDirection = DirectionInternal, sbTarget = tgt,
       sbFlow = [], sbMetadata = Some [(''data_category'', ''control'')] \<rparr>"

definition svc_fail :: "svc_error \<Rightarrow> ChannelManager \<Rightarrow> 'a svc_result" where
  "svc_fail e cm = (Inl e, cm, [], [])"

section \<open>Proposing\<close>

record ProposeChannelRequest =
  pqCreatorId :: string
  pqApproverId :: string
  pqSenderIds :: "string list"
  pqReceiverIds :: "string list"
  pqDataTopic :: string
  pqEncrypted :: bool
  pqEvidenceConfig :: "EvidenceConfig option"
  pqConfigFilePath :: string
  pqReason :: string
  pqTimeoutSeconds :: int

definition creator_of :: "grpc_ctx \<Rightarrow> string \<Rightarrow> auth_error + string" where
  "creator_of ctx creator =
     (if creator = [] then ExtractConnectorIDFromContext ctx
      else case VerifyConnectorID ctx creator of Some e \<Rightarrow> Inl e | None \<Rightarrow> Inr creator)"

definition proposed_notification :: "Channel \<Rightarrow> NegotiationStatus \<Rightarrow> EvidenceConfig option \<Rightarrow> string \<Rightarrow> ChannelNotification" where
  "proposed_notification c st ev pid =
     \<lparr> cnChannelId = chID c, cnCreatorId = chCreatorID c, cnSenderIds = chSenderIDs c, cnReceiverIds = chReceiverIDs c,
       cnEncrypted = chEncrypted c, cnDataTopic = chDataTopic c, cnCreatedAt = unix (chCreatedAt c),
       cnNegotiationStatus = st, cnProposalId = pid, cnEvidenceConfig = ev \<rparr>"

definition ProposeChannel_handler ::
    "time \<Rightarrow> string \<Rightarrow> string \<Rightarrow> grpc_ctx \<Rightarrow> ProposeChannelRequest \<Rightarrow> registry \<Rightarrow> ChannelManager \<Rightarrow> (string \<times> string) svc_result" where
  "ProposeChannel_handler now cid pid ctx req reg cm =
     (case creator_of ctx (pqCreatorId req) of
        Inl e \<Rightarrow> svc_fail (SvcAuth e) cm
      | Inr creator \<Rightarrow>
          (case check_participants creator (pqSenderIds req) (pqReceiverIds req) of
             Some e \<Rightarrow> svc_fail (SvcChannel e) cm
           | None \<Rightarrow>
               (case find (\<lambda>i. \<not> IsOnline now i reg) (creator # pqSenderIds req @ pqReceiverIds req) of
                  Some i \<Rightarrow> svc_fail (NotOnline i) cm
                | None \<Rightarrow>
                    (case ProposeChannel now cid pid creator (if pqApproverId req = [] then creator else pqApproverId req)
                            (pqSenderIds req) (pqReceiverIds req) (pqDataTopic req) True (pqEvidenceConfig req)
                            (pqConfigFilePath req) (pqReason req) (pqTimeoutSeconds req) cm of
                       (Inl e, cm') \<Rightarrow> svc_fail (SvcChannel e) cm'
                     | (Inr c, cm') \<Rightarrow>
                         (Inr (cid, pid), cm', [basic_evidence [] EventTypeChannelCreated cid []],
                          [NotifyTask (filter (\<lambda>i. i \<noteq> creator) (pqReceiverIds req @ pqSenderIds req))
                             (proposed_notification c NegotiationStatusProposed (pqEvidenceConfig req) pid)])))))"

section \<open>Accepting and rejecting\<close>

text \<open>A kernel may accept for one of its connectors, written with its own identifier in front.\<close>

definition forwarded_by :: "MultiKernelManager \<Rightarrow> string \<Rightarrow> string \<Rightarrow> bool" where
  "forwarded_by mk cert accepter =
     (if go_get (mkKernels mk) cert \<noteq> None then prefix (cert @ '':'') accepter
      else cert = ''trusted-data-space-kernel'' \<and> has_colon accepter \<and> prefix ''kernel-'' (kernel_part accepter))"

definition accept_origin :: "grpc_ctx \<Rightarrow> string \<Rightarrow> MultiKernelManager \<Rightarrow> svc_error + bool" where
  "accept_origin ctx accepter mk =
     (case VerifyConnectorID ctx accepter of
        None \<Rightarrow> Inr False
      | Some e \<Rightarrow>
          (case ExtractConnectorIDFromContext ctx of
             Inl e2 \<Rightarrow> Inl (SvcAuth e)
           | Inr cert \<Rightarrow> if forwarded_by mk cert accepter then Inr True else Inl (NotForwarded cert accepter)))"

definition approvals_complete :: "ChannelProposal \<Rightarrow> bool" where
  "approvals_complete p =
     (if list_ex (has_colon \<circ> fst) (prSenderApprovals p) \<or> list_ex (has_colon \<circ> fst) (prReceiverApprovals p)
      then list_all snd (prSenderApprovals p) \<and> list_all snd (prReceiverApprovals p)
      else list_all (\<lambda>(i, ok). has_colon i \<or> ok) (prSenderApprovals p) \<and>
           list_all (\<lambda>(i, ok). has_colon i \<or> ok) (prReceiverApprovals p))"

definition AcceptChannelProposal_handler ::
    "time \<Rightarrow> grpc_ctx \<Rightarrow> string \<Rightarrow> string \<Rightarrow> string \<Rightarrow> MultiKernelManager \<Rightarrow> ChannelManager \<Rightarrow> unit svc_result" where
  "AcceptChannelProposal_handler now ctx ch accepter proposal mk cm =
     (case accept_origin ctx accepter mk of
        Inl e \<Rightarrow> svc_fail e cm
      | Inr forwarded \<Rightarrow>
          (case GetChannel ch cm of
             Inl e \<Rightarrow> svc_fail (SvcChannel e) cm
           | Inr c0 \<Rightarrow>
               if (case chProposal c0 of None \<Rightarrow> False | Some p \<Rightarrow> prStatus p = NegotiationStatusRejected)
               then svc_fail ProposalRejected cm
               else case AcceptChannelProposal now ch accepter cm of
                      (Inl e, cm') \<Rightarrow> svc_fail (SvcChannel e) cm'
                    | (Inr u, cm') \<Rightarrow>
                        (let ts = (if forwarded then [] else [ForwardAcceptTask ch accepter proposal])
                         in case GetChannel ch cm' of
                              Inl e \<Rightarrow> (Inl (SvcChannel e), cm', [], ts)
                            | Inr c \<Rightarrow>
                                (case chProposal c of
                                   None \<Rightarrow> (Inl PanicNilProposal, cm', [], ts)
                                 | Some p \<Rightarrow>
                                     if approvals_complete p
                                     then (let n = proposed_notification c NegotiationStatusAccepted (proto_evidence (chEvidenceConfig c)) (prProposalID p)
                                           in (Inr (), cm', [basic_evidence (mkKernelID mk) EventTypeChannelCreated (chID c) []],
                                               ts @ [NotifyTask (created_targets c) n, ActivationTask ch n]))
                                     else (Inr (), cm', [], ts)))))"

text \<open>
  What is sent to each other kernel whose main server can be reached (\<open>dial\<close>): the kernel, the accepter, the channel and the proposal.
\<close>

definition forwardAcceptToRemoteKernels ::
    "(KernelInfo \<Rightarrow> bool) \<Rightarrow> string \<Rightarrow> string \<Rightarrow> string \<Rightarrow> MultiKernelManager \<Rightarrow> (string \<times> string \<times> string \<times> string) list" where
  "forwardAcceptToRemoteKernels dial ch accepter proposal mk =
     map (\<lambda>i. (kiKernelID i, qualify (mkKernelID mk) accepter, ch, proposal))
       (filter (\<lambda>i. kiKernelID i \<noteq> mkKernelID mk \<and> dial i) (map snd (mkKernels mk)))"

definition map_remote :: "string list \<Rightarrow> Channel \<Rightarrow> Channel" where
  "map_remote ids c = foldl (\<lambda>c i. if has_colon i then SetRemoteReceiver (connector_part i) (kernel_part i) c else c) c ids"

definition notifyOtherKernelsChannelActivated ::
    "(KernelInfo \<Rightarrow> bool) \<Rightarrow> string \<Rightarrow> ChannelNotification \<Rightarrow> MultiKernelManager \<Rightarrow> ChannelManager \<Rightarrow> ChannelManager \<times> notice list" where
  "notifyOtherKernelsChannelActivated dial ch n mk cm =
     (case GetChannel ch cm of
        Inl e \<Rightarrow> (cm, [])
      | Inr c \<Rightarrow>
          (put_channel ch (map_remote (chReceiverIDs c @ chSenderIDs c) c) cm,
           map (\<lambda>i. RemoteNotify (kiKernelID i)
                  \<lparr> nrReceiverId = raw_id (cnCreatorId n), nrChannelId = chID c, nrSenderId = mkKernelID mk @ ''||ACCEPTED'',
                    nrDataTopic = cnDataTopic n \<rparr>)
             (filter (\<lambda>i. kiKernelID i \<noteq> mkKernelID mk \<and> dial i) (map snd (mkKernels mk)))))"

definition RejectChannelProposal_handler ::
    "time \<Rightarrow> grpc_ctx \<Rightarrow> string \<Rightarrow> string \<Rightarrow> ChannelManager \<Rightarrow> unit svc_result" where
  "RejectChannelProposal_handler now ctx ch rejecter cm =
     (case VerifyConnectorID ctx rejecter of
        Some e \<Rightarrow> svc_fail (SvcAuth e) cm
      | None \<Rightarrow>
          (case RejectChannelProposal now ch rejecter cm of
             (Inl e, cm') \<Rightarrow> svc_fail (SvcChannel e) cm'
           | (Inr u, cm') \<Rightarrow>
               (Inr (), cm', [basic_evidence rejecter EventTypeChannelClosed ch rejecter],
                (case GetChannel ch cm' of
                   Inl e \<Rightarrow> []
                 | Inr c \<Rightarrow> [NotifyTask (chCreatorID c # chSenderIDs c)
                              (proposed_notification c NegotiationStatusRejected None (case chProposal c of None \<Rightarrow> [] | Some p \<Rightarrow> prProposalID p))]))))"

definition CloseChannel_handler :: "time \<Rightarrow> grpc_ctx \<Rightarrow> string \<Rightarrow> string \<Rightarrow> ChannelManager \<Rightarrow> unit svc_result" where
  "CloseChannel_handler now ctx ch requester cm =
     (case VerifyConnectorID ctx requester of
        Some e \<Rightarrow> svc_fail (SvcAuth e) cm
      | None \<Rightarrow>
          (case GetChannel ch cm of
             Inl e \<Rightarrow> svc_fail (SvcChannel e) cm
           | Inr c \<Rightarrow>
               if \<not> IsParticipant c requester then svc_fail ParticipantsOnly cm
               else case CloseChannel now ch cm of
                      (Inl e, cm') \<Rightarrow> svc_fail (SvcChannel e) cm'
                    | (Inr u, cm') \<Rightarrow> (Inr (), cm', [basic_evidence requester EventTypeChannelClosed ch ch], [])))"

definition status_view :: "Channel \<Rightarrow> NegotiationStatus option \<times> string" where
  "status_view c =
     (case chProposal c of
        Some p \<Rightarrow> (Some (prStatus p), prProposalID p)
      | None \<Rightarrow> (if chStatus c = ChannelStatusActive then Some NegotiationStatusAccepted else None, []))"

text \<open>What \<^verbatim>\<open>GetChannelInfo\<close> reports of a channel, to every authenticated caller; \<open>None\<close> is the unknown status.\<close>

definition GetChannelInfo :: "grpc_ctx \<Rightarrow> string \<Rightarrow> string \<Rightarrow> ChannelManager \<Rightarrow> svc_error + Channel \<times> NegotiationStatus option \<times> string" where
  "GetChannelInfo ctx ch requester cm =
     (case VerifyConnectorID ctx requester of
        Some e \<Rightarrow> Inl (SvcAuth e)
      | None \<Rightarrow> (case GetChannel ch cm of Inl e \<Rightarrow> Inl (SvcChannel e) | Inr c \<Rightarrow> Inr (c, status_view c)))"

section \<open>Permissions\<close>

text \<open>The frame of the handlers: the certificate names the caller and the channel exists.\<close>

definition on_channel ::
    "grpc_ctx \<Rightarrow> string \<Rightarrow> string \<Rightarrow> ChannelManager \<Rightarrow> (Channel \<Rightarrow> 'a svc_result option) \<Rightarrow> 'a svc_result option" where
  "on_channel ctx caller ch cm f =
     (case VerifyConnectorID ctx caller of
        Some e \<Rightarrow> Some (svc_fail (SvcAuth e) cm)
      | None \<Rightarrow> (case GetChannel ch cm of Inl e \<Rightarrow> Some (svc_fail (SvcChannel e) cm) | Inr c \<Rightarrow> f c))"

definition RequestPermissionChange_handler ::
    "marshal \<Rightarrow> string \<Rightarrow> time \<Rightarrow> grpc_ctx \<Rightarrow> string \<Rightarrow> string \<Rightarrow> string \<Rightarrow> string \<Rightarrow> string \<Rightarrow> ChannelManager \<Rightarrow> string svc_result option" where
  "RequestPermissionChange_handler marshal rid now ctx ch requester ty target why cm =
     on_channel ctx requester ch cm (\<lambda>c.
       (case RequestPermissionChange marshal rid now requester ty target why cm c of
          None \<Rightarrow> None
        | Some (Inl e, c', effs) \<Rightarrow> Some (Inl (SvcPerm e), put_channel ch c' cm, [], map ManagerEffect effs)
        | Some (Inr rq, c', effs) \<Rightarrow>
            Some (Inr (rqRequestID rq), put_channel ch c' cm,
                  [basic_evidence requester (if sublist ''remove'' ty then EventTypePermissionRevoked else EventTypePermissionRequest) ch target],
                  map ManagerEffect effs)))"

definition request_target :: "PermissionChangeRequest option \<Rightarrow> string" where
  "request_target rq = (case rq of None \<Rightarrow> [] | Some r \<Rightarrow> rqTargetID r)"

definition ApprovePermissionChange_handler ::
    "marshal \<Rightarrow> time \<Rightarrow> grpc_ctx \<Rightarrow> string \<Rightarrow> string \<Rightarrow> string \<Rightarrow> ChannelManager \<Rightarrow> unit svc_result option" where
  "ApprovePermissionChange_handler marshal now ctx ch approver rid cm =
     on_channel ctx approver ch cm (\<lambda>c.
       (case ApprovePermissionChange marshal now approver rid cm c of
          None \<Rightarrow> None
        | Some (Inl e, c', effs) \<Rightarrow> Some (Inl (SvcPerm e), put_channel ch c' cm, [], map ManagerEffect effs)
        | Some (Inr u, c', effs) \<Rightarrow>
            map_option (\<lambda>rq. (Inr (), put_channel ch c' cm, [basic_evidence approver EventTypePermissionGranted ch (request_target rq)],
                              map ManagerEffect effs))
              (GetPermissionRequestByID rid c')))"

definition RejectPermissionChange_handler ::
    "marshal \<Rightarrow> time \<Rightarrow> grpc_ctx \<Rightarrow> string \<Rightarrow> string \<Rightarrow> string \<Rightarrow> string \<Rightarrow> ChannelManager \<Rightarrow> unit svc_result option" where
  "RejectPermissionChange_handler marshal now ctx ch approver rid why cm =
     on_channel ctx approver ch cm (\<lambda>c.
       (case RejectPermissionChange marshal now approver rid why cm c of
          None \<Rightarrow> None
        | Some (Inl e, c', effs) \<Rightarrow> Some (Inl (SvcPerm e), put_channel ch c' cm, [], map ManagerEffect effs)
        | Some (Inr u, c', effs) \<Rightarrow>
            map_option (\<lambda>rq. (Inr (), put_channel ch c' cm, [basic_evidence approver EventTypePermissionDenied ch (request_target rq)],
                              map ManagerEffect effs))
              (GetPermissionRequestByID rid c')))"

definition RequestChannelSubscription_handler ::
    "string \<Rightarrow> time \<Rightarrow> grpc_ctx \<Rightarrow> string \<Rightarrow> string \<Rightarrow> string \<Rightarrow> string \<Rightarrow> ChannelManager \<Rightarrow> string svc_result option" where
  "RequestChannelSubscription_handler rid now ctx ch subscriber role why cm =
     on_channel ctx subscriber ch cm (\<lambda>c.
       if role \<noteq> ''sender'' \<and> role \<noteq> ''receiver'' then Some (svc_fail (BadRole role) cm)
       else (case RequestChannelSubscription rid now subscriber role why c of
               None \<Rightarrow> None
             | Some (Inl e, c') \<Rightarrow> Some (Inl (SvcPerm e), put_channel ch c' cm, [], [])
             | Some (Inr rq, c') \<Rightarrow>
                 Some (Inr (rqRequestID rq), put_channel ch c' cm, [basic_evidence subscriber EventTypePermissionRequest ch ch], [])))"

definition update_notification :: "Channel \<Rightarrow> ChannelNotification" where
  "update_notification c = proposed_notification c NegotiationStatusAccepted None []"

definition ApproveChannelSubscription_handler ::
    "marshal \<Rightarrow> time \<Rightarrow> grpc_ctx \<Rightarrow> string \<Rightarrow> string \<Rightarrow> string \<Rightarrow> ChannelManager \<Rightarrow> unit svc_result option" where
  "ApproveChannelSubscription_handler marshal now ctx ch approver rid cm =
     on_channel ctx approver ch cm (\<lambda>c.
       (case ApproveChannelSubscription marshal now approver rid cm c of
          None \<Rightarrow> None
        | Some (Inl e, c', effs) \<Rightarrow> Some (Inl (SvcPerm e), put_channel ch c' cm, [], map ManagerEffect effs)
        | Some (Inr subscriber, c', effs) \<Rightarrow>
            Some (Inr (), put_channel ch c' cm, [basic_evidence approver EventTypePermissionGranted ch subscriber],
                  map ManagerEffect effs @ [NotifyTask [subscriber] (update_notification c')])))"

definition RejectChannelSubscription_handler ::
    "time \<Rightarrow> grpc_ctx \<Rightarrow> string \<Rightarrow> string \<Rightarrow> string \<Rightarrow> string \<Rightarrow> ChannelManager \<Rightarrow> unit svc_result option" where
  "RejectChannelSubscription_handler now ctx ch approver rid why cm =
     on_channel ctx approver ch cm (\<lambda>c.
       (case RejectChannelSubscription now approver rid why c of
          None \<Rightarrow> None
        | Some (Inl e, c') \<Rightarrow> Some (Inl (SvcPerm e), put_channel ch c' cm, [], [])
        | Some (Inr u, c') \<Rightarrow>
            map_option (\<lambda>rqs. (Inr (), put_channel ch c' cm,
                [basic_evidence approver EventTypePermissionDenied ch
                   (case find (\<lambda>rq. rqRequestID rq = rid) rqs of None \<Rightarrow> [] | Some rq \<Rightarrow> rqRequesterID rq)], []))
              (GetPermissionRequests c')))"

definition GetPermissionRequests_handler ::
    "grpc_ctx \<Rightarrow> string \<Rightarrow> string \<Rightarrow> MultiKernelManager \<Rightarrow> ChannelManager \<Rightarrow>
     (svc_error + PermissionChangeRequest list \<times> RemotePermissionRequest list) option" where
  "GetPermissionRequests_handler ctx ch requester mk cm =
     (case VerifyConnectorID ctx requester of
        Some e \<Rightarrow> Some (Inl (SvcAuth e))
      | None \<Rightarrow>
          (case GetChannel ch cm of
             Inl e \<Rightarrow> Some (Inl (SvcChannel e))
           | Inr c \<Rightarrow>
               if \<not> IsParticipant c requester \<and> requester \<noteq> chApproverID c then Some (Inl ViewersOnly)
               else map_option (\<lambda>rqs. Inr (rqs, GetRemotePermissionRequests mk ch)) (GetPermissionRequests c)))"

text \<open>\<^verbatim>\<open>syncPermissionRequestToRemoteKernels\<close>, which has no caller: the kernels of the participants.\<close>

definition remote_kernels :: "string \<Rightarrow> Channel \<Rightarrow> string list" where
  "remote_kernels kid c = remdups (filter (\<lambda>k. k \<noteq> kid) (map kernel_part (filter has_colon (chSenderIDs c @ chReceiverIDs c))))"

section \<open>Notices from other kernels\<close>

text \<open>What the origin answers to \<^verbatim>\<open>GetCrossKernelChannelInfo\<close>; participants as kernel and connector.\<close>

record channel_info =
  ciCreator :: string
  ciSenders :: "(string \<times> string) list"
  ciReceivers :: "(string \<times> string) list"
  ciDataTopic :: string
  ciEncrypted :: bool

definition participant_id :: "string \<times> string \<Rightarrow> string" where
  "participant_id = (\<lambda>(k, i). if k \<noteq> [] then qualify k i else i)"

definition approve_kernel :: "string \<Rightarrow> bool gomap \<Rightarrow> bool gomap" where
  "approve_kernel k m = map (\<lambda>(i, ok). (i, ok \<or> prefix (k @ '':'') i)) m"

definition approve_listed :: "string \<Rightarrow> string list \<Rightarrow> bool gomap \<Rightarrow> bool gomap" where
  "approve_listed k ids m = foldl (\<lambda>m i. if prefix (k @ '':'') i then go_put i True m else m) m ids"

definition is_local :: "string \<Rightarrow> string \<Rightarrow> bool" where
  "is_local kid i \<longleftrightarrow> \<not> (has_colon i \<and> kernel_part i \<noteq> kid)"

fun local_once :: "string \<Rightarrow> string list \<Rightarrow> string list \<Rightarrow> string list" where
  "local_once kid seen [] = []"
| "local_once kid seen (i # is) =
     (if raw_id i \<in> set seen \<or> \<not> is_local kid i then local_once kid seen is
      else i # local_once kid (raw_id i # seen) is)"

definition activate :: "time \<Rightarrow> ChannelProposal \<Rightarrow> Channel \<Rightarrow> Channel" where
  "activate now p c = c\<lparr> chStatus := ChannelStatusActive, chProposal := Some (p\<lparr>prStatus := NegotiationStatusAccepted\<rparr>),
     chLastActivity := now, chDistributors := chDistributors c + 1 \<rparr>"

definition all_agreed :: "ChannelProposal \<Rightarrow> bool" where
  "all_agreed p \<longleftrightarrow> list_all snd (prSenderApprovals p) \<and> list_all snd (prReceiverApprovals p)"

definition status_notification :: "Channel \<Rightarrow> NegotiationStatus \<Rightarrow> ChannelNotification" where
  "status_notification c st = proposed_notification c st None (case chProposal c of None \<Rightarrow> [] | Some p \<Rightarrow> prProposalID p)"

text \<open>
  \<^verbatim>\<open>NotifyChannelCreated\<close> works on three states at once: the channels, the table of kernels and the listeners.
  Its result carries the answer, that state, the evidence, the goroutines and the notices sent to other kernels.
\<close>

type_synonym notify_state = "ChannelManager \<times> MultiKernelManager \<times> NotificationManager"
type_synonym notified = "(svc_error + string) \<times> notify_state \<times> submission list \<times> svc_task list \<times> notice list"

record notify_net =
  nnNet :: kernel_net
  nnEnv :: remote_env
  nnOthers :: "nat \<Rightarrow> NotificationManager \<Rightarrow> NotificationManager"
  nnFetch :: "string \<Rightarrow> string \<Rightarrow> channel_info option"

definition origin_connected :: "kernel_net \<Rightarrow> time \<Rightarrow> string \<Rightarrow> MultiKernelManager \<Rightarrow> (svc_error + unit) \<times> MultiKernelManager" where
  "origin_connected net now k mk =
     (case go_get (mkKernels mk) k of
        None \<Rightarrow> (Inl (OriginUnknown k), mk)
      | Some i \<Rightarrow>
          if kiClient i \<and> kiConn i then (Inr (), mk)
          else case EnsureKernelConnected net now k mk of
                 (Inl e, mk') \<Rightarrow> (Inl (OriginUnreachable e), mk')
               | (Inr u, mk') \<Rightarrow>
                   (case go_get (mkKernels mk') k of
                      None \<Rightarrow> (Inl (OriginUnreachable (ClientUnavailable k)), mk')
                    | Some j \<Rightarrow> if kiClient j then (Inr (), mk') else (Inl (OriginUnreachable (ClientUnavailable k)), mk')))"

text \<open>The channel of another kernel, entered as a proposal under its own identifier.\<close>

definition placeholder ::
    "time \<Rightarrow> string \<Rightarrow> string \<Rightarrow> string \<Rightarrow> channel_info \<Rightarrow> ChannelManager \<Rightarrow> channel_error + Channel" where
  "placeholder now fresh ch pid info cm =
     (let ss = map participant_id (ciSenders info); rs = map participant_id (ciReceivers info)
      in case CreateChannelWithID now fresh ch (ciCreator info) (ciCreator info) ss rs (ciDataTopic info) (ciEncrypted info) None [] cm of
           (Inl e, cm') \<Rightarrow> Inl e
         | (Inr c, cm') \<Rightarrow>
             (let c1 = map_remote (rs @ ss) c
              in Inr (if pid \<noteq> [] then c1\<lparr>chProposal := map_option (\<lambda>p. p\<lparr>prProposalID := pid\<rparr>) (chProposal c1)\<rparr> else c1)))"

definition approve_origin :: "string \<Rightarrow> ChannelProposal \<Rightarrow> ChannelProposal" where
  "approve_origin k p =
     p\<lparr> prSenderApprovals := approve_kernel k (prSenderApprovals p), prReceiverApprovals := approve_kernel k (prReceiverApprovals p) \<rparr>"

definition approve_participants :: "string \<Rightarrow> Channel \<Rightarrow> ChannelProposal \<Rightarrow> ChannelProposal" where
  "approve_participants k c p =
     p\<lparr> prReceiverApprovals := approve_listed k (chReceiverIDs c) (prReceiverApprovals p),
        prSenderApprovals := approve_listed k (chSenderIDs c) (prSenderApprovals p) \<rparr>"

text \<open>
  A stage hands over whether the call is finished (\<open>Some\<close> the answer), the channels and listeners, and what it produced.
\<close>

type_synonym stage = "(svc_error + string) option \<times> ChannelManager \<times> NotificationManager \<times> submission list \<times> svc_task list \<times> notice list"

definition created_evidence :: "string \<Rightarrow> Channel \<Rightarrow> submission" where
  "created_evidence kid c = basic_evidence kid EventTypeChannelCreated (chID c) []"

definition accepted_placeholder ::
    "notify_net \<Rightarrow> time \<Rightarrow> string \<Rightarrow> string \<Rightarrow> string \<Rightarrow> Channel \<Rightarrow> ChannelProposal \<Rightarrow> ChannelManager \<Rightarrow> NotificationManager \<Rightarrow> stage" where
  "accepted_placeholder nn now kid k ch c p cm nm =
     (let p1 = approve_origin k p; p2 = approve_participants k c p1;
          tell = (\<lambda>c' ids st. notify_all (nnEnv nn) (nnOthers nn) kid (put_channel ch c' cm) ids (status_notification c' st) nm)
      in if all_agreed p1
         then (let c' = activate now p1 c
               in case tell c' (GetParticipants c) NegotiationStatusAccepted of
                    (nm', out) \<Rightarrow> (Some (Inr ''channel activated''), put_channel ch c' cm, nm', [created_evidence kid c'], [], out))
         else if all_agreed p2
         then (let c' = activate now p2 c
               in case tell c' (filter (is_local kid) (GetParticipants c)) NegotiationStatusAccepted of
                    (nm', out) \<Rightarrow> (Some (Inr ''channel activated''), put_channel ch c' cm, nm', [created_evidence kid c'],
                                   [ActivationTask ch (status_notification c' NegotiationStatusAccepted)], out))
         else (let c' = c\<lparr>chProposal := Some p2\<rparr>
               in case tell c' (local_once kid [] (GetParticipants c)) NegotiationStatusProposed of
                    (nm', out) \<Rightarrow> (None, put_channel ch c' cm, nm', [], [], out)))"

definition late_accept ::
    "notify_net \<Rightarrow> time \<Rightarrow> string \<Rightarrow> string \<Rightarrow> string \<Rightarrow> Channel \<Rightarrow> ChannelManager \<Rightarrow> NotificationManager \<Rightarrow> stage" where
  "late_accept nn now kid k ch c cm nm =
     (let c1 = c\<lparr>chProposal := map_option (\<lambda>p. p\<lparr>prStatus := NegotiationStatusProposed\<rparr>) (chProposal c)\<rparr>;
          cm1 = put_channel ch c1 cm
      in case notify_all (nnEnv nn) (nnOthers nn) kid cm1 (local_once kid [] (GetParticipants c)) (status_notification c1 NegotiationStatusProposed) nm of
           (nm1, out) \<Rightarrow>
             (case chProposal c1 of
                None \<Rightarrow> (Some (Inl PanicNilProposal), cm1, nm1, [], [], out)
              | Some p \<Rightarrow>
                  (let p2 = approve_participants k c p
                   in if all_agreed p2
                      then (let c2 = activate now p2 c1; cm2 = put_channel ch c2 cm1
                            in case notify_all (nnEnv nn) (nnOthers nn) kid cm2 (GetParticipants c) (status_notification c2 NegotiationStatusAccepted) nm1 of
                                 (nm2, out2) \<Rightarrow> (None, cm2, nm2, [created_evidence kid c2], [], out @ out2))
                      else (None, put_channel ch (c1\<lparr>chProposal := Some p2\<rparr>) cm1, nm1, [], [], out))))"

definition final_notice ::
    "notify_net \<Rightarrow> string \<Rightarrow> string \<Rightarrow> string \<Rightarrow> Channel \<Rightarrow> ChannelManager \<Rightarrow> NotificationManager \<Rightarrow>
     (svc_error + string) \<times> ChannelManager \<times> NotificationManager \<times> notice list" where
  "final_notice nn kid ch receiver c cm nm =
     (let c1 = map_remote (GetParticipants c) c; cm1 = put_channel ch c1 cm
      in case notifyParticipant (nnEnv nn) (nnOthers nn) kid cm1 receiver
                (status_notification c1 (if chStatus c1 = ChannelStatusActive then NegotiationStatusAccepted else NegotiationStatusProposed)) nm of
           (e, nm', out) \<Rightarrow>
             (case e of None \<Rightarrow> Inr ''notification sent successfully'' | Some e \<Rightarrow> Inl (NotifyFailed e), cm1, nm', out))"

text \<open>What follows once the channel is there; \<open>told\<close>: its participants were told of the acceptance already.\<close>

definition notice_tail ::
    "notify_net \<Rightarrow> time \<Rightarrow> string \<Rightarrow> string \<Rightarrow> string \<Rightarrow> string \<Rightarrow> bool \<Rightarrow> string \<Rightarrow> MultiKernelManager \<Rightarrow>
     ChannelManager \<Rightarrow> NotificationManager \<Rightarrow> submission list \<Rightarrow> notice list \<Rightarrow> notified" where
  "notice_tail nn now kid k ch status told receiver mk cm nm evs out =
     (case GetChannel ch cm of
        Inl e \<Rightarrow> (Inl (SvcChannel e), (cm, mk, nm), evs, [], out)
      | Inr c \<Rightarrow>
          (case (if chStatus c = ChannelStatusProposed \<and> status = ''ACCEPTED'' \<and> \<not> told then late_accept nn now kid k ch c cm nm
                 else (None, cm, nm, [], [], [])) of
             (Some r, cm1, nm1, evs1, ts, out1) \<Rightarrow> (r, (cm1, mk, nm1), evs @ evs1, ts, out @ out1)
           | (None, cm1, nm1, evs1, ts, out1) \<Rightarrow>
               (case GetChannel ch cm1 of
                  Inl e \<Rightarrow> (Inl (SvcChannel e), (cm1, mk, nm1), evs @ evs1, ts, out @ out1)
                | Inr c1 \<Rightarrow>
                    (case final_notice nn kid ch receiver c1 cm1 nm1 of
                       (r, cm2, nm2, out2) \<Rightarrow> (r, (cm2, mk, nm2), evs @ evs1, ts, out @ out1 @ out2)))))"

text \<open>A channel that was just entered; \<open>mk\<close> is the table of kernels after the origin was reached.\<close>

definition placeholder_notice ::
    "notify_net \<Rightarrow> time \<Rightarrow> string \<Rightarrow> string \<Rightarrow> string \<Rightarrow> string \<Rightarrow> string \<Rightarrow> Channel \<Rightarrow> MultiKernelManager \<Rightarrow>
     ChannelManager \<Rightarrow> NotificationManager \<Rightarrow> notified" where
  "placeholder_notice nn now kid k ch status receiver c mk cm nm =
     (let panic = (Inl PanicNilProposal, (put_channel ch c cm, mk, nm), [], [], [])
      in if status = ''ACCEPTED''
         then (case chProposal c of
                 None \<Rightarrow> panic
               | Some p \<Rightarrow>
                   (case accepted_placeholder nn now kid k ch c p cm nm of
                      (Some r, cm1, nm1, evs, ts, out) \<Rightarrow> (r, (cm1, mk, nm1), evs, ts, out)
                    | (None, cm1, nm1, evs, ts, out) \<Rightarrow> notice_tail nn now kid k ch status True receiver mk cm1 nm1 evs out))
         else if status = ''REJECTED''
         then (case chProposal c of
                 None \<Rightarrow> panic
               | Some p \<Rightarrow>
                   notice_tail nn now kid k ch status False receiver mk
                     (put_channel ch (c\<lparr>chProposal := Some (p\<lparr>prStatus := NegotiationStatusRejected\<rparr>),
                                       chStatus := ChannelStatusClosed\<rparr>) cm) nm [] [])
         else notice_tail nn now kid k ch status False receiver mk (put_channel ch c cm) nm [] [])"

definition NotifyChannelCreated ::
    "notify_net \<Rightarrow> time \<Rightarrow> string \<Rightarrow> NotifyChannelRequest \<Rightarrow> notify_state \<Rightarrow> notified" where
  "NotifyChannelCreated nn now fresh req = (\<lambda>(cm, mk, nm).
     (case parse_sender (nrSenderId req) of (k, pid, status) \<Rightarrow>
        (let ch = nrChannelId req; kid = mkKernelID mk
         in case GetChannel ch cm of
              Inr c \<Rightarrow> notice_tail nn now kid k ch status False (nrReceiverId req) mk cm nm [] []
            | Inl e \<Rightarrow>
                if k = [] then (Inl (SvcChannel e), (cm, mk, nm), [], [], [])
                else case origin_connected (nnNet nn) now k mk of
                       (Inl e, mk') \<Rightarrow> (Inl e, (cm, mk', nm), [], [], [])
                     | (Inr u, mk') \<Rightarrow>
                         (case nnFetch nn k ch of
                            None \<Rightarrow> (Inl (InfoUnavailable k), (cm, mk', nm), [], [], [])
                          | Some info \<Rightarrow>
                              (case placeholder now fresh ch pid info cm of
                                 Inl e \<Rightarrow> (Inl (SvcChannel e), (cm, mk', nm), [], [], [])
                               | Inr c \<Rightarrow> placeholder_notice nn now kid k ch status (nrReceiverId req) c mk' cm nm)))))"

section \<open>The calls of connectors as one system\<close>

datatype svc_call =
  ProposeCall string string ProposeChannelRequest
| AcceptCall string string string
| RejectCall string string
| CloseCall string string
| ChangeCall string string string string string string
| ApproveChangeCall string string string
| RejectChangeCall string string string string
| SubscribeCall string string string string string
| ApproveSubscriptionCall string string string
| RejectSubscriptionCall string string string string

definition drop_answer :: "'a svc_result \<Rightarrow> unit svc_result" where
  "drop_answer = (\<lambda>(r, rest). (map_sum id (\<lambda>_. ()) r, rest))"

record svc_env =
  seMarshal :: marshal
  seNow :: time
  seContext :: grpc_ctx
  seRegistry :: registry
  seKernels :: MultiKernelManager

fun svc_run :: "svc_env \<Rightarrow> svc_call \<Rightarrow> ChannelManager \<Rightarrow> unit svc_result option" where
  "svc_run e (ProposeCall cid pid req) cm = Some (drop_answer (ProposeChannel_handler (seNow e) cid pid (seContext e) req (seRegistry e) cm))"
| "svc_run e (AcceptCall ch who pid) cm = Some (AcceptChannelProposal_handler (seNow e) (seContext e) ch who pid (seKernels e) cm)"
| "svc_run e (RejectCall ch who) cm = Some (RejectChannelProposal_handler (seNow e) (seContext e) ch who cm)"
| "svc_run e (CloseCall ch who) cm = Some (CloseChannel_handler (seNow e) (seContext e) ch who cm)"
| "svc_run e (ChangeCall rid ch who ty target why) cm =
     map_option drop_answer (RequestPermissionChange_handler (seMarshal e) rid (seNow e) (seContext e) ch who ty target why cm)"
| "svc_run e (ApproveChangeCall ch who rid) cm = ApprovePermissionChange_handler (seMarshal e) (seNow e) (seContext e) ch who rid cm"
| "svc_run e (RejectChangeCall ch who rid why) cm = RejectPermissionChange_handler (seMarshal e) (seNow e) (seContext e) ch who rid why cm"
| "svc_run e (SubscribeCall rid ch who role why) cm =
     map_option drop_answer (RequestChannelSubscription_handler rid (seNow e) (seContext e) ch who role why cm)"
| "svc_run e (ApproveSubscriptionCall ch who rid) cm = ApproveChannelSubscription_handler (seMarshal e) (seNow e) (seContext e) ch who rid cm"
| "svc_run e (RejectSubscriptionCall ch who rid why) cm = RejectChannelSubscription_handler (seNow e) (seContext e) ch who rid why cm"

fun svc_target :: "svc_call \<Rightarrow> string" where
  "svc_target (ProposeCall cid pid req) = cid"
| "svc_target (AcceptCall ch who pid) = ch"
| "svc_target (RejectCall ch who) = ch"
| "svc_target (CloseCall ch who) = ch"
| "svc_target (ChangeCall rid ch who ty target why) = ch"
| "svc_target (ApproveChangeCall ch who rid) = ch"
| "svc_target (RejectChangeCall ch who rid why) = ch"
| "svc_target (SubscribeCall rid ch who role why) = ch"
| "svc_target (ApproveSubscriptionCall ch who rid) = ch"
| "svc_target (RejectSubscriptionCall ch who rid why) = ch"

text \<open>The certificate of the call names the connector it acts for, or a kernel that forwards an acceptance.\<close>

fun svc_authentic :: "svc_env \<Rightarrow> svc_call \<Rightarrow> bool" where
  "svc_authentic e (ProposeCall cid pid req) \<longleftrightarrow> \<not> isl (creator_of (seContext e) (pqCreatorId req))"
| "svc_authentic e (AcceptCall ch who pid) \<longleftrightarrow> \<not> isl (accept_origin (seContext e) who (seKernels e))"
| "svc_authentic e (RejectCall ch who) \<longleftrightarrow> VerifyConnectorID (seContext e) who = None"
| "svc_authentic e (CloseCall ch who) \<longleftrightarrow> VerifyConnectorID (seContext e) who = None"
| "svc_authentic e (ChangeCall rid ch who ty target why) \<longleftrightarrow> VerifyConnectorID (seContext e) who = None"
| "svc_authentic e (ApproveChangeCall ch who rid) \<longleftrightarrow> VerifyConnectorID (seContext e) who = None"
| "svc_authentic e (RejectChangeCall ch who rid why) \<longleftrightarrow> VerifyConnectorID (seContext e) who = None"
| "svc_authentic e (SubscribeCall rid ch who role why) \<longleftrightarrow> VerifyConnectorID (seContext e) who = None"
| "svc_authentic e (ApproveSubscriptionCall ch who rid) \<longleftrightarrow> VerifyConnectorID (seContext e) who = None"
| "svc_authentic e (RejectSubscriptionCall ch who rid why) \<longleftrightarrow> VerifyConnectorID (seContext e) who = None"

text \<open>
  What every handler keeps: a call that is not authentic leaves no trace, no other channel is touched, and evidence is
  submitted for calls that succeed only.
\<close>

definition framed :: "string \<Rightarrow> bool \<Rightarrow> ChannelManager \<Rightarrow> 'a svc_result \<Rightarrow> bool" where
  "framed ch auth cm = (\<lambda>(r, cm', evs, ts).
     (\<forall>k. k \<noteq> ch \<longrightarrow> go_get (cmChannels cm') k = go_get (cmChannels cm) k)
     \<and> (\<not> auth \<longrightarrow> isl r \<and> cm' = cm \<and> evs = [] \<and> ts = [])
     \<and> (isl r \<longrightarrow> evs = []) \<and> length evs \<le> 1)"

named_theorems framed_rules \<open>handlers that touch their own channel only\<close>

lemma framed_fail [simp]: "framed ch auth cm (svc_fail e cm)"
  by (simp add: framed_def svc_fail_def)

lemma framed_drop [simp]: "framed ch auth cm (drop_answer r) = framed ch auth cm r"
  by (auto simp: framed_def drop_answer_def split: prod.splits) (auto simp: map_sum_def split: sum.splits)

lemma framed_put:
  "auth \<Longrightarrow> length evs \<le> 1 \<Longrightarrow> (isl r \<Longrightarrow> evs = []) \<Longrightarrow>
   framed ch auth cm (r, put_channel ch c cm, evs, ts)"
  by (auto simp: framed_def put_channel_def gomap_simps)

lemma framed_on_channel:
  assumes "on_channel ctx who ch cm f = Some r"
    and "\<And>c r. VerifyConnectorID ctx who = None \<Longrightarrow> f c = Some r \<Longrightarrow> framed ch True cm r"
  shows "framed ch (VerifyConnectorID ctx who = None) cm r"
  using assms by (auto simp: on_channel_def split: option.splits sum.splits)

lemma framed_propose: "framed cid (\<not> isl (creator_of ctx (pqCreatorId req))) cm (ProposeChannel_handler now cid pid ctx req reg cm)"
  by (auto simp: ProposeChannel_handler_def ProposeChannel_def Let_def framed_def svc_fail_def gomap_simps
      split: sum.splits option.splits)

lemma AcceptChannelProposal_other:
  "AcceptChannelProposal now ch who cm = (r, cm') \<Longrightarrow> k \<noteq> ch \<Longrightarrow> go_get (cmChannels cm') k = go_get (cmChannels cm) k"
  by (auto simp: AcceptChannelProposal_def Let_def put_channel_def gomap_simps split: option.splits if_splits)

lemma RejectChannelProposal_other:
  "RejectChannelProposal now ch who cm = (r, cm') \<Longrightarrow> k \<noteq> ch \<Longrightarrow> go_get (cmChannels cm') k = go_get (cmChannels cm) k"
  by (auto simp: RejectChannelProposal_def put_channel_def gomap_simps split: option.splits if_splits)

lemma CloseChannel_other:
  "CloseChannel now ch cm = (r, cm') \<Longrightarrow> k \<noteq> ch \<Longrightarrow> go_get (cmChannels cm') k = go_get (cmChannels cm) k"
  by (auto simp: CloseChannel_def Let_def put_channel_def gomap_simps split: option.splits if_splits)

lemma framed_accept:
  "framed ch (\<not> isl (accept_origin ctx who mk)) cm (AcceptChannelProposal_handler now ctx ch who pid mk cm)"
  using AcceptChannelProposal_other [of now ch who cm]
  by (auto simp: AcceptChannelProposal_handler_def Let_def framed_def svc_fail_def
      split: sum.split option.split prod.split)

lemma framed_reject:
  "framed ch (VerifyConnectorID ctx who = None) cm (RejectChannelProposal_handler now ctx ch who cm)"
  using RejectChannelProposal_other [of now ch who cm]
  by (auto simp: RejectChannelProposal_handler_def framed_def svc_fail_def split: sum.split option.split prod.split)

lemma framed_close:
  "framed ch (VerifyConnectorID ctx who = None) cm (CloseChannel_handler now ctx ch who cm)"
  using CloseChannel_other [of now ch cm]
  by (auto simp: CloseChannel_handler_def framed_def svc_fail_def split: sum.split option.split prod.split)

lemma framed_change:
  "RequestPermissionChange_handler marshal rid now ctx ch who ty target why cm = Some r \<Longrightarrow>
   framed ch (VerifyConnectorID ctx who = None) cm r"
  unfolding RequestPermissionChange_handler_def
  by (erule framed_on_channel) (auto intro!: framed_put split: option.splits prod.splits sum.splits)

lemma framed_approve_change:
  "ApprovePermissionChange_handler marshal now ctx ch who rid cm = Some r \<Longrightarrow>
   framed ch (VerifyConnectorID ctx who = None) cm r"
  unfolding ApprovePermissionChange_handler_def
  by (erule framed_on_channel) (auto intro!: framed_put split: option.splits prod.splits sum.splits)

lemma framed_reject_change:
  "RejectPermissionChange_handler marshal now ctx ch who rid why cm = Some r \<Longrightarrow>
   framed ch (VerifyConnectorID ctx who = None) cm r"
  unfolding RejectPermissionChange_handler_def
  by (erule framed_on_channel) (auto intro!: framed_put split: option.splits prod.splits sum.splits)

lemma framed_subscribe:
  "RequestChannelSubscription_handler rid now ctx ch who role why cm = Some r \<Longrightarrow>
   framed ch (VerifyConnectorID ctx who = None) cm r"
  unfolding RequestChannelSubscription_handler_def
  by (erule framed_on_channel) (auto simp: svc_fail_def framed_def put_channel_def gomap_simps split: option.splits prod.splits sum.splits if_splits)

lemma framed_approve_subscription:
  "ApproveChannelSubscription_handler marshal now ctx ch who rid cm = Some r \<Longrightarrow>
   framed ch (VerifyConnectorID ctx who = None) cm r"
  unfolding ApproveChannelSubscription_handler_def
  by (erule framed_on_channel) (auto intro!: framed_put split: option.splits prod.splits sum.splits)

lemma framed_reject_subscription:
  "RejectChannelSubscription_handler now ctx ch who rid why cm = Some r \<Longrightarrow>
   framed ch (VerifyConnectorID ctx who = None) cm r"
  unfolding RejectChannelSubscription_handler_def
  by (erule framed_on_channel) (auto intro!: framed_put split: option.splits prod.splits sum.splits)

lemmas svc_framed = framed_propose framed_accept framed_reject framed_close framed_change framed_approve_change
  framed_reject_change framed_subscribe framed_approve_subscription framed_reject_subscription

lemma svc_run_framed: "svc_run e call cm = Some r \<Longrightarrow> framed (svc_target call) (svc_authentic e call) cm r"
  by (cases call) (auto simp del: not_None_eq intro: svc_framed)

text \<open>A session: calls of any callers, one after the other; a call that blocks changes nothing.\<close>

fun svc_session :: "(svc_env \<times> svc_call) list \<Rightarrow> ChannelManager \<Rightarrow> ChannelManager \<times> submission list" where
  "svc_session [] cm = (cm, [])"
| "svc_session ((e, call) # cs) cm =
     (case svc_run e call cm of
        None \<Rightarrow> svc_session cs cm
      | Some (r, cm', evs, ts) \<Rightarrow> (case svc_session cs cm' of (cm'', evs') \<Rightarrow> (cm'', evs @ evs')))"

lemma svc_run_untouched:
  assumes "svc_run e call cm = Some (r, cm', evs, ts)" and "svc_target call = ch \<Longrightarrow> \<not> svc_authentic e call"
  shows "go_get (cmChannels cm') ch = go_get (cmChannels cm) ch"
  using svc_run_framed [OF assms(1)] assms(2) by (cases "svc_target call = ch") (auto simp: framed_def)

lemma svc_run_evidence:
  "svc_run e call cm = Some (r, cm', evs, ts) \<Longrightarrow> length evs \<le> (if svc_authentic e call then 1 else 0)"
  using svc_run_framed [of e call cm "(r, cm', evs, ts)"] by (auto simp: framed_def)

lemma session_untouched:
  "\<forall>(e, call) \<in> set calls. svc_target call = ch \<longrightarrow> \<not> svc_authentic e call \<Longrightarrow>
   go_get (cmChannels (fst (svc_session calls cm))) ch = go_get (cmChannels cm) ch"
proof (induction calls cm rule: svc_session.induct)
  case (2 e call cs cm)
  then show ?case
    using svc_run_untouched [of e call cm _ _ _ _ ch]
    by (auto split: option.split prod.split)
qed simp

lemma session_evidence:
  "length (snd (svc_session calls cm)) \<le> length (filter (\<lambda>(e, call). svc_authentic e call) calls)"
proof (induction calls cm rule: svc_session.induct)
  case (2 e call cs cm)
  show ?case
  proof (cases "svc_run e call cm")
    case None
    with 2(1) show ?thesis by (auto intro: le_SucI)
  next
    case (Some a)
    obtain r cm' evs ts where a: "a = (r, cm', evs, ts)" by (rule prod_cases4)
    have "length (snd (svc_session cs cm')) \<le> length (filter (\<lambda>(e, call). svc_authentic e call) cs)"
      using 2(2) Some a by blast
    with svc_run_evidence [of e call cm r cm' evs ts] Some a show ?thesis
      by (auto split: prod.split if_splits)
  qed
qed simp

section \<open>What a notice does to a channel\<close>

lemma go_get_approve_kernel [chan_simps]:
  "go_get (approve_kernel k m) i = map_option (\<lambda>ok. ok \<or> prefix (k @ '':'') i) (go_get m i)"
  by (induction m) (auto simp: approve_kernel_def)

lemma approve_kernel_ok [simp]: "go_map_ok (approve_kernel k m) = go_map_ok m"
proof -
  have "map fst (approve_kernel k m) = map fst m" by (auto simp: approve_kernel_def)
  then show ?thesis by simp
qed

lemma go_get_approve_listed [chan_simps]:
  "go_get (approve_listed k ids m) i = (if i \<in> set ids \<and> prefix (k @ '':'') i then Some True else go_get m i)"
  unfolding approve_listed_def using go_get_put_fold [where P = "prefix (k @ '':'')" and f = "\<lambda>_. True"] by simp

lemma approve_listed_ok [simp]: "go_map_ok m \<Longrightarrow> go_map_ok (approve_listed k ids m)"
  unfolding approve_listed_def using go_map_ok_put_fold [where P = "prefix (k @ '':'')" and f = "\<lambda>_. True"] by simp

lemma map_remote_frame: "\<exists>rr. map_remote ids c = c\<lparr>chRemoteReceivers := rr\<rparr>"
proof (induction ids arbitrary: c)
  case (Cons i ids)
  obtain rr where "map_remote ids (if has_colon i then SetRemoteReceiver (connector_part i) (kernel_part i) c else c)
      = (if has_colon i then SetRemoteReceiver (connector_part i) (kernel_part i) c else c)\<lparr>chRemoteReceivers := rr\<rparr>"
    using Cons by blast
  then show ?case by (auto simp: map_remote_def SetRemoteReceiver_def intro: exI [of _ rr])
next
  case Nil
  show ?case by (rule exI [of _ "chRemoteReceivers c"]) (simp add: map_remote_def)
qed

lemma map_remote_keeps [simp]:
  "chStatus (map_remote ids c) = chStatus c" "chProposal (map_remote ids c) = chProposal c"
  "chSenderIDs (map_remote ids c) = chSenderIDs c" "chReceiverIDs (map_remote ids c) = chReceiverIDs c"
  "chID (map_remote ids c) = chID c"
  using map_remote_frame [of ids c] by auto

lemma proposal_ok_cong:
  "chStatus c' = chStatus c \<Longrightarrow> chSenderIDs c' = chSenderIDs c \<Longrightarrow> chReceiverIDs c' = chReceiverIDs c \<Longrightarrow>
   proposal_ok c' p = proposal_ok c p"
  by (simp add: proposal_ok_def)

lemma map_remote_ok [simp]: "channel_ok (map_remote ids c) = channel_ok c"
  by (simp add: channel_ok_def proposal_ok_cong [of "map_remote ids c" c])

lemma approve_origin_ok: "proposal_ok c p \<Longrightarrow> proposal_ok c (approve_origin k p)"
  by (auto simp: proposal_ok_def approve_origin_def chan_simps)

lemma approve_participants_ok: "proposal_ok c p \<Longrightarrow> proposal_ok c (approve_participants k c p)"
  by (auto simp: proposal_ok_def approve_participants_def chan_simps)

lemma all_agreed_iff:
  "proposal_ok c p \<Longrightarrow> all_agreed p \<longleftrightarrow>
     (\<forall>i b. go_get (prSenderApprovals p) i = Some b \<longrightarrow> b) \<and> (\<forall>i b. go_get (prReceiverApprovals p) i = Some b \<longrightarrow> b)"
  by (simp add: all_agreed_def proposal_ok_def list_all_snd)

lemma all_agreed_members: "proposal_ok c p \<Longrightarrow> all_agreed p \<longleftrightarrow> approved_by_all c p"
  using all_agreed_iff all_approved_iff all_approved_members by blast

lemma noticed_activate_ok: "proposal_ok c p \<Longrightarrow> all_agreed p \<Longrightarrow> channel_ok (activate now p c)"
  by (frule all_agreed_iff) (auto simp: channel_ok_def activate_def proposal_ok_def)

lemma replace_proposal_ok: "proposal_ok c p \<Longrightarrow> chProposal c' = Some p \<Longrightarrow> chStatus c' = chStatus c \<Longrightarrow>
    chSenderIDs c' = chSenderIDs c \<Longrightarrow> chReceiverIDs c' = chReceiverIDs c \<Longrightarrow> channel_ok c'"
  by (simp add: channel_ok_def proposal_ok_cong [of c' c])

definition noticed_proposal :: "string \<Rightarrow> Channel \<Rightarrow> ChannelProposal \<Rightarrow> ChannelProposal" where
  "noticed_proposal k c p = approve_participants k c (p\<lparr>prStatus := NegotiationStatusProposed\<rparr>)"

definition noticed_channel :: "time \<Rightarrow> string \<Rightarrow> Channel \<Rightarrow> ChannelProposal \<Rightarrow> Channel" where
  "noticed_channel now k c p =
     (if all_agreed (noticed_proposal k c p) then activate now (noticed_proposal k c p) c
      else c\<lparr>chProposal := Some (noticed_proposal k c p)\<rparr>)"

lemma GetChannel_put [simp]: "GetChannel ch (put_channel ch c cm) = Inr c"
  by (simp add: GetChannel_def put_channel_def gomap_simps)

lemma GetChannel_Inr: "GetChannel ch cm = Inr c \<longleftrightarrow> go_get (cmChannels cm) ch = Some c"
  by (auto simp: GetChannel_def split: option.split)

lemma noticed_proposal_ok:
  "proposal_ok c p \<Longrightarrow> chStatus c = ChannelStatusProposed \<Longrightarrow> proposal_ok c (noticed_proposal k c p)"
  unfolding noticed_proposal_def by (rule approve_participants_ok) (simp add: proposal_ok_def)

lemma noticed_channel_ok:
  "proposal_ok c p \<Longrightarrow> chStatus c = ChannelStatusProposed \<Longrightarrow> channel_ok (noticed_channel now k c p)"
  using noticed_proposal_ok [of c p k]
  by (auto simp: noticed_channel_def intro: noticed_activate_ok replace_proposal_ok [of c "noticed_proposal k c p"])

text \<open>The approvals a notice of kernel \<open>k\<close> adds are those of its own participants.\<close>

lemma noticed_agreed:
  assumes "proposal_ok c p" and "chStatus c = ChannelStatusProposed"
  shows "all_agreed (noticed_proposal k c p) \<longleftrightarrow>
     (\<forall>i \<in> set (chSenderIDs c). prefix (k @ '':'') i \<or> go_get (prSenderApprovals p) i = Some True) \<and>
     (\<forall>i \<in> set (chReceiverIDs c). prefix (k @ '':'') i \<or> go_get (prReceiverApprovals p) i = Some True)"
  unfolding all_agreed_members [OF noticed_proposal_ok [OF assms]] approved_by_all_def
  by (auto simp: noticed_proposal_def approve_participants_def chan_simps)

lemma late_accept_result:
  assumes "late_accept nn now kid k ch c cm nm = (r, cm', nm', evs, ts, out)" and "chProposal c = Some p"
  shows "r = None \<and> GetChannel ch cm' = Inr (noticed_channel now k c p)
    \<and> evs = (if all_agreed (noticed_proposal k c p) then [created_evidence kid c] else [])"
  using assms
  by (auto simp: late_accept_def noticed_channel_def noticed_proposal_def Let_def approve_participants_def activate_def
      created_evidence_def split: prod.splits if_splits)

lemma late_accept_ok:
  assumes "late_accept nn now kid k ch c cm nm = (r, cm', nm', evs, ts, out)"
    and "neg_ok cm" and "channel_ok c" and "chStatus c = ChannelStatusProposed"
  shows "neg_ok cm'"
proof (cases "chProposal c")
  case None
  then have "channel_ok (c\<lparr>chProposal := None\<rparr>)" by (simp add: channel_ok_def)
  with assms None show ?thesis by (auto simp: late_accept_def Let_def intro: neg_ok_put split: prod.splits)
next
  case (Some p)
  then have p: "proposal_ok c p" using assms(3) by (simp add: channel_ok_def)
  let ?c1 = "c\<lparr>chProposal := Some (p\<lparr>prStatus := NegotiationStatusProposed\<rparr>)\<rparr>"
  have "channel_ok ?c1" using p assms(4) by (auto simp: channel_ok_def proposal_ok_def)
  then have cm1: "neg_ok (put_channel ch ?c1 cm)" by (rule neg_ok_put [OF assms(2)])
  have "neg_ok (put_channel ch (noticed_channel now k c p) (put_channel ch ?c1 cm))"
    using cm1 noticed_channel_ok [OF p assms(4)] by (rule neg_ok_put)
  then show ?thesis using assms(1) Some
    by (auto simp: late_accept_def noticed_channel_def noticed_proposal_def Let_def approve_participants_def activate_def
        split: prod.splits if_splits)
qed

lemma final_notice_result:
  assumes "final_notice nn kid ch rcv c cm nm = (r, cm', nm', out)"
  shows "cm' = put_channel ch (map_remote (GetParticipants c) c) cm"
  using assms by (auto simp: final_notice_def Let_def split: prod.splits)

lemma notice_tail_ok:
  assumes "notice_tail nn now kid k ch status told rcv mk cm nm evs out = (r, (cm', mk', nm'), evs', ts', out')"
    and "neg_ok cm"
  shows "neg_ok cm'"
proof (cases "GetChannel ch cm")
  case (Inr c)
  then have c: "channel_ok c" using assms(2) neg_ok_get GetChannel_Inr by blast
  let ?st = "if chStatus c = ChannelStatusProposed \<and> status = ''ACCEPTED'' \<and> \<not> told then late_accept nn now kid k ch c cm nm
             else (None, cm, nm, [], [], [])"
  obtain ro cm1 nm1 evs1 ts1 out1 where st: "?st = (ro, cm1, nm1, evs1, ts1, out1)" by (metis prod.collapse)
  have cm1: "neg_ok cm1" using st assms(2) late_accept_ok [OF _ assms(2) c] by (auto split: if_splits)
  show ?thesis
  proof (cases ro)
    case None
    then show ?thesis
    proof (cases "GetChannel ch cm1")
      case (Inr c1)
      then have "channel_ok c1" using cm1 neg_ok_get GetChannel_Inr by blast
      then have "neg_ok (put_channel ch (map_remote (GetParticipants c1) c1) cm1)" using cm1 by (simp add: neg_ok_put)
      then show ?thesis
        using assms(1) None Inr \<open>GetChannel ch cm = Inr c\<close>
        by (auto simp: notice_tail_def st simp del: if_split split: prod.splits dest!: final_notice_result)
    qed (use assms(1) None \<open>GetChannel ch cm = Inr c\<close> cm1 in \<open>auto simp: notice_tail_def st simp del: if_split\<close>)
  qed (use assms(1) Inr cm1 in \<open>auto simp: notice_tail_def st simp del: if_split\<close>)
qed (use assms in \<open>auto simp: notice_tail_def\<close>)

lemma placeholder_ok:
  assumes "placeholder now fresh ch pid info cm = Inr c"
  shows "channel_ok c \<and> chStatus c = ChannelStatusProposed \<and> chProposal c \<noteq> None"
proof -
  let ?ss = "map participant_id (ciSenders info)" and ?rs = "map participant_id (ciReceivers info)"
  let ?p = "new_proposal now fresh (ciCreator info) (ciCreator info) ?ss ?rs [] 300"
  obtain d where d: "c = (if pid \<noteq> [] then d\<lparr>chProposal := map_option (\<lambda>p. p\<lparr>prProposalID := pid\<rparr>) (chProposal d)\<rparr> else d)"
    and s: "chStatus d = ChannelStatusProposed" "chProposal d = Some ?p" "chSenderIDs d = ?ss" "chReceiverIDs d = ?rs"
    using assms by (auto simp: placeholder_def CreateChannelWithID_def Let_def fresh_channel_def split: if_splits)
  have "proposal_ok d ?p" by (rule new_proposal_ok) (use s in simp_all)
  then show ?thesis using s unfolding d by (auto simp: channel_ok_def proposal_ok_def)
qed

lemma accepted_placeholder_ok:
  assumes "accepted_placeholder nn now kid k ch c p cm nm = (r, cm', nm', evs, ts, out)"
    and "neg_ok cm" and "proposal_ok c p"
  shows "neg_ok cm'"
proof -
  let ?p1 = "approve_origin k p" and ?p2 = "approve_participants k c (approve_origin k p)"
  have p1: "proposal_ok c ?p1" using assms(3) by (rule approve_origin_ok)
  then have p2: "proposal_ok c ?p2" by (rule approve_participants_ok)
  have "channel_ok (c\<lparr>chProposal := Some ?p2\<rparr>)" by (rule replace_proposal_ok [OF p2]) simp_all
  then show ?thesis using assms(1,2) noticed_activate_ok [OF p1, of now] noticed_activate_ok [OF p2, of now]
    by (auto simp: accepted_placeholder_def Let_def intro: neg_ok_put split: prod.splits if_splits)
qed

lemma placeholder_notice_ok:
  assumes "placeholder_notice nn now kid k ch status rcv c mk cm nm = (r, (cm', mk', nm'), evs, ts, out)"
    and "neg_ok cm" and "channel_ok c" and "chProposal c = Some p"
  shows "neg_ok cm'"
proof -
  have pok: "proposal_ok c p" using assms(3,4) by (simp add: channel_ok_def)
  let ?cr = "c\<lparr>chProposal := Some (p\<lparr>prStatus := NegotiationStatusRejected\<rparr>), chStatus := ChannelStatusClosed\<rparr>"
  have "channel_ok ?cr" using pok by (simp add: channel_ok_def proposal_ok_def)
  then have cr: "neg_ok (put_channel ch ?cr cm)" by (rule neg_ok_put [OF assms(2)])
  obtain ro cm1 nm1 evs1 ts1 out1 where st: "accepted_placeholder nn now kid k ch c p cm nm = (ro, cm1, nm1, evs1, ts1, out1)"
    by (metis prod.collapse)
  then have cm1: "neg_ok cm1" using assms(2) pok by (rule accepted_placeholder_ok)
  show ?thesis
    using assms(1,4) cm1 cr neg_ok_put [OF assms(2,3), of ch]
    by (auto simp: placeholder_notice_def Let_def st split: if_splits option.splits dest: notice_tail_ok)
qed

lemma NotifyChannelCreated_ok:
  assumes "NotifyChannelCreated nn now fresh req (cm, mk, nm) = (r, (cm', mk', nm'), evs, ts, out)" and "neg_ok cm"
  shows "neg_ok cm'"
  using assms
  by (auto simp: NotifyChannelCreated_def Let_def split: prod.splits sum.splits if_splits option.splits
      dest: notice_tail_ok placeholder_notice_ok dest!: placeholder_ok)

lemma activation_notice_ok: "neg_ok cm \<Longrightarrow> neg_ok (fst (notifyOtherKernelsChannelActivated dial ch n mk cm))"
  by (auto simp: notifyOtherKernelsChannelActivated_def GetChannel_Inr intro!: neg_ok_put intro: neg_ok_get split: sum.split)

text \<open>
  The handlers that negotiate: each changes the manager as its manager operation does, or not at all.
\<close>

lemma Propose_handler_ok: "neg_ok cm \<Longrightarrow> neg_ok (fst (snd (ProposeChannel_handler now cid pid ctx req reg cm)))"
  using ProposeChannel_ok [of cm now cid pid]
  by (auto simp: ProposeChannel_handler_def svc_fail_def split: sum.split option.split prod.split) (metis snd_conv)+

lemma Accept_handler_ok: "neg_ok cm \<Longrightarrow> neg_ok (fst (snd (AcceptChannelProposal_handler now ctx ch who pid mk cm)))"
  using AcceptChannelProposal_ok [of cm now ch who]
  by (auto simp: AcceptChannelProposal_handler_def Let_def svc_fail_def split: sum.split option.split prod.split)

lemma Reject_handler_ok: "neg_ok cm \<Longrightarrow> neg_ok (fst (snd (RejectChannelProposal_handler now ctx ch who cm)))"
  using RejectChannelProposal_ok [of cm now ch who]
  by (auto simp: RejectChannelProposal_handler_def svc_fail_def split: sum.split option.split prod.split)

lemma Close_handler_ok: "neg_ok cm \<Longrightarrow> neg_ok (fst (snd (CloseChannel_handler now ctx ch who cm)))"
  using CloseChannel_ok [of cm now ch]
  by (auto simp: CloseChannel_handler_def svc_fail_def split: sum.split option.split prod.split)

inductive service_step :: "ChannelManager \<Rightarrow> ChannelManager \<Rightarrow> bool" where
  propose_call: "service_step cm (fst (snd (ProposeChannel_handler now cid pid ctx req reg cm)))"
| accept_call: "service_step cm (fst (snd (AcceptChannelProposal_handler now ctx ch who pid mk cm)))"
| reject_call: "service_step cm (fst (snd (RejectChannelProposal_handler now ctx ch who cm)))"
| close_call: "service_step cm (fst (snd (CloseChannel_handler now ctx ch who cm)))"
| notice_call: "NotifyChannelCreated nn now fresh req (cm, mk, nm) = (r, (cm', mk', nm'), evs, ts, out) \<Longrightarrow> service_step cm cm'"
| activation_notice: "service_step cm (fst (notifyOtherKernelsChannelActivated dial ch n mk cm))"

inductive_cases service_stepE: "service_step cm cm'"

lemmas service_ops_ok = Propose_handler_ok Accept_handler_ok Reject_handler_ok Close_handler_ok activation_notice_ok

interpretation service: invariant_system neg_init service_step neg_ok
proof unfold_locales
  show "neg_ok cm" if "neg_init cm" for cm using that by (rule neg.inv_init)
  show "neg_ok cm'" if "service_step cm cm'" and "neg_ok cm" for cm cm'
    using that by (auto elim!: service_stepE intro: service_ops_ok dest: NotifyChannelCreated_ok)
qed

lemma notice_existing:
  assumes "NotifyChannelCreated nn now fresh req (cm, mk, nm) = (r, (cm', mk', nm'), evs, ts, out)"
    and "GetChannel (nrChannelId req) cm = Inr c" and "chStatus c = ChannelStatusProposed" and "chProposal c = Some p"
    and "parse_sender (nrSenderId req) = (k, pid, ''ACCEPTED'')"
  shows "mk' = mk \<and> evs = (if all_agreed (noticed_proposal k c p) then [created_evidence (mkKernelID mk) c] else [])
    \<and> GetChannel (nrChannelId req) cm' = Inr (map_remote (GetParticipants (noticed_channel now k c p)) (noticed_channel now k c p))"
proof -
  let ?ch = "nrChannelId req" and ?kid = "mkKernelID mk"
  obtain ro cm1 nm1 evs1 ts1 out1 where st: "late_accept nn now ?kid k ?ch c cm nm = (ro, cm1, nm1, evs1, ts1, out1)"
    by (metis prod.collapse)
  note l = late_accept_result [OF st assms(4)]
  show ?thesis
    using assms(1-3,5) l
    by (auto simp: NotifyChannelCreated_def Let_def notice_tail_def st split: prod.splits dest!: final_notice_result)
qed

lemma accept_keeps_proposal:
  assumes "AcceptChannelProposal now ch who cm = (Inr u, cm')" and "GetChannel ch cm = Inr c"
  shows "\<exists>c'. GetChannel ch cm' = Inr c' \<and> (chProposal c' = None \<longleftrightarrow> chProposal c = None) \<and> (chProposal c = None \<longrightarrow> chStatus c = ChannelStatusActive)"
  using assms
  by (auto simp: AcceptChannelProposal_def Let_def GetChannel_Inr put_channel_def gomap_simps split: if_splits option.splits)

lemma accept_active:
  "GetChannel ch cm = Inr c \<Longrightarrow> chStatus c = ChannelStatusActive \<Longrightarrow> AcceptChannelProposal now ch who cm = (Inr (), cm)"
  by (simp add: AcceptChannelProposal_def GetChannel_Inr)

lemma accept_origin_error: "accept_origin ctx who mk = Inl e \<Longrightarrow> e \<noteq> PanicNilProposal"
  by (auto simp: accept_origin_def split: option.splits sum.splits if_splits)

section \<open>Properties\<close>


text \<open>
  C4. A notice that kernel \<open>k\<close> accepted, sent for a proposed channel, activates it exactly when every participant that
  is not of kernel \<open>k\<close> has approved, and records evidence exactly then.  Nothing of who sent the notice enters:
  whoever can reach the service approves for all the participants of a kernel it names.
\<close>

theorem notice_activates_iff:
  assumes "NotifyChannelCreated nn now fresh req (cm, mk, nm) = (r, (cm', mk', nm'), evs, ts, out)" and "neg_ok cm"
    and "GetChannel (nrChannelId req) cm = Inr c" and "chStatus c = ChannelStatusProposed" and "chProposal c = Some p"
    and "parse_sender (nrSenderId req) = (k, pid, ''ACCEPTED'')"
  shows "\<exists>c'. GetChannel (nrChannelId req) cm' = Inr c'
    \<and> (chStatus c' = ChannelStatusActive \<longleftrightarrow>
         (\<forall>i \<in> set (chSenderIDs c). prefix (k @ '':'') i \<or> go_get (prSenderApprovals p) i = Some True) \<and>
         (\<forall>i \<in> set (chReceiverIDs c). prefix (k @ '':'') i \<or> go_get (prReceiverApprovals p) i = Some True))
    \<and> (evs = [] \<longleftrightarrow> chStatus c' = ChannelStatusProposed)"
proof -
  have "proposal_ok c p" using assms(2,3,5) neg_ok_get unfolding channel_ok_def GetChannel_Inr by blast
  note ag = noticed_agreed [OF this assms(4), of k]
  note n = notice_existing [OF assms(1,3-6)]
  have "chStatus (noticed_channel now k c p) = (if all_agreed (noticed_proposal k c p) then ChannelStatusActive else ChannelStatusProposed)"
    using assms(4) by (simp add: noticed_channel_def activate_def)
  with n ag show ?thesis by (auto split: if_splits)
qed


text \<open>
  C6. Accepting dereferences a nil proposal exactly when the call is authentic and the channel is active without ever
  having been proposed, as the channels of a configuration file are; nobody needs to be a participant for that.
\<close>

theorem accept_panics_iff:
  "fst (AcceptChannelProposal_handler now ctx ch who pid mk cm) = Inl PanicNilProposal \<longleftrightarrow>
     svc_authentic \<lparr> seMarshal = marshal, seNow = now, seContext = ctx, seRegistry = reg, seKernels = mk \<rparr> (AcceptCall ch who pid)
     \<and> (case GetChannel ch cm of Inl e \<Rightarrow> False | Inr c \<Rightarrow> chStatus c = ChannelStatusActive \<and> chProposal c = None)"
proof (cases "accept_origin ctx who mk")
  case (Inl e)
  then show ?thesis using accept_origin_error [of ctx who mk e] by (simp add: AcceptChannelProposal_handler_def svc_fail_def)
next
  case f: (Inr fwd)
  show ?thesis
  proof (cases "GetChannel ch cm")
    case (Inr c)
    obtain r cm' where a: "AcceptChannelProposal now ch who cm = (r, cm')" by force
    show ?thesis
      using f Inr a accept_keeps_proposal [of now ch who cm _ cm' c] accept_active [OF Inr, of now who]
      by (cases r; cases "chProposal c") (auto simp: AcceptChannelProposal_handler_def Let_def svc_fail_def split: if_splits)
  qed (use f in \<open>simp add: AcceptChannelProposal_handler_def svc_fail_def\<close>)
qed

definition demo_ctx :: "string \<Rightarrow> grpc_ctx" where
  "demo_ctx who = VerifiedChains [[who]]"

definition demo_preq :: ProposeChannelRequest where
  "demo_preq =
     \<lparr> pqCreatorId = ''a'', pqApproverId = [], pqSenderIds = [''a''], pqReceiverIds = [''b''], pqDataTopic = ''t'',
       pqEncrypted = False, pqEvidenceConfig = None, pqConfigFilePath = [], pqReason = [], pqTimeoutSeconds = 0 \<rparr>"

definition demo_online :: registry where
  "demo_online = [(''a'', demo_hidden), (''b'', demo_hidden)]"

definition demo_kernels :: MultiKernelManager where
  "demo_kernels = NewMultiKernelManager ''k1'' ''h'' 1"

definition demo_proposed :: ChannelManager where
  "demo_proposed =
     fst (snd (ProposeChannel_handler 0 ''ch'' ''pr'' (demo_ctx ''a'') demo_preq demo_online (NewChannelManager demo_evidence)))"

definition demo_agreed :: ChannelManager where
  "demo_agreed = fst (snd (AcceptChannelProposal_handler 1 (demo_ctx ''b'') ''ch'' ''b'' ''pr'' demo_kernels demo_proposed))"

definition demo_remote :: ChannelManager where
  "demo_remote = snd (CreateChannelWithID 0 ''pr'' ''ch'' ''a'' ''a'' [''a''] [''k2:b''] ''t'' False None [] (NewChannelManager demo_evidence))"

lemmas demo_svc_defs = demo_ctx_def demo_preq_def demo_online_def demo_kernels_def demo_hidden_def NewMultiKernelManager_def
  ProposeChannel_handler_def creator_of_def IsOnline_def AcceptChannelProposal_handler_def accept_origin_def
  VerifyConnectorID_def ExtractConnectorIDFromContext_def GetChannel_def

lemma demo_agreed_eval:
  "\<exists>c p. GetChannel ''ch'' demo_agreed = Inr c \<and> chProposal c = Some p \<and> chStatus c = ChannelStatusActive \<and> chSenderIDs c = [''a'']"
  by (simp add: demo_agreed_def demo_proposed_def demo_svc_defs demo_neg_defs svc_fail_def)

lemma demo_agreed_reach: "reach neg_init service_step demo_agreed"
proof -
  have "neg_init (NewChannelManager demo_evidence)" by (simp add: neg_init_def NewChannelManager_def)
  then have "reach neg_init service_step (NewChannelManager demo_evidence)" by (rule reach_init)
  then have "reach neg_init service_step demo_proposed" unfolding demo_proposed_def by (rule reach_step) (rule propose_call)
  then show ?thesis unfolding demo_agreed_def by (rule reach_step) (rule accept_call)
qed


lemma demo_remote_eval:
  "\<exists>c p. GetChannel ''ch'' demo_remote = Inr c \<and> chProposal c = Some p \<and> chStatus c = ChannelStatusProposed
     \<and> chSenderIDs c = [''a''] \<and> chReceiverIDs c = [''k2:b''] \<and> go_get (prSenderApprovals p) ''a'' = Some True"
  by (simp add: demo_remote_def CreateChannelWithID_def add_remote_def demo_svc_defs demo_neg_defs)

lemma demo_remote_ok: "neg_ok demo_remote"
  unfolding demo_remote_def by (rule CreateChannelWithID_ok) (simp add: neg_ok_def NewChannelManager_def)

definition demo_forged :: NotifyChannelRequest where
  "demo_forged = \<lparr> nrReceiverId = ''a'', nrChannelId = ''ch'', nrSenderId = ''k2||ACCEPTED'', nrDataTopic = ''t'' \<rparr>"

definition demo_nn :: notify_net where
  "demo_nn =
     \<lparr> nnNet = \<lparr> ktTls = False, ktDial = (\<lambda>_ _. False), ktRegister = (\<lambda>_ _ _. None), ktSync = (\<lambda>_ _. None), ktWrite = False,
                ktOwnCa = [], ktIntermediateCa = [] \<rparr>,
       nnEnv = \<lparr> reConn = (\<lambda>_. False), reIdentity = (\<lambda>_. False), reCall = (\<lambda>_ _. False) \<rparr>,
       nnOthers = (\<lambda>_ nm. nm), nnFetch = (\<lambda>_ _. None) \<rparr>"

text \<open>Without any certificate: the receiver of kernel \<^verbatim>\<open>k2\<close> is made to agree and the channel becomes active.\<close>

theorem notice_activates_iff_witness:
  "\<exists>cm' mk' nm' r evs ts out. NotifyChannelCreated demo_nn 1 ''x'' demo_forged (demo_remote, demo_kernels, NewNotificationManager) = (r, (cm', mk', nm'), evs, ts, out)
     \<and> (\<exists>c'. GetChannel ''ch'' cm' = Inr c' \<and> chStatus c' = ChannelStatusActive) \<and> evs \<noteq> []"
proof -
  obtain c p where c: "GetChannel (nrChannelId demo_forged) demo_remote = Inr c" "chStatus c = ChannelStatusProposed" "chProposal c = Some p"
    "chSenderIDs c = [''a'']" "chReceiverIDs c = [''k2:b'']" "go_get (prSenderApprovals p) ''a'' = Some True"
    using demo_remote_eval by (auto simp: demo_forged_def)
  have s: "parse_sender (nrSenderId demo_forged) = (''k2'', [], ''ACCEPTED'')"
    by (simp add: demo_forged_def parse_sender_def split_bar_def)
  obtain r cm' mk' nm' evs ts out where
    n: "NotifyChannelCreated demo_nn 1 ''x'' demo_forged (demo_remote, demo_kernels, NewNotificationManager) = (r, (cm', mk', nm'), evs, ts, out)"
    by (metis prod.collapse)
  obtain c' where "GetChannel ''ch'' cm' = Inr c'" "chStatus c' = ChannelStatusActive" "evs \<noteq> []"
    using notice_activates_iff [OF n demo_remote_ok c(1-3) s] c(4-6) by (auto simp: demo_forged_def)
  with n show ?thesis by blast
qed

text \<open>A stranger closes and rejects in vain.\<close>

definition demo_env :: "string \<Rightarrow> svc_env" where
  "demo_env who = \<lparr> seMarshal = (\<lambda>_. None), seNow = 2, seContext = demo_ctx who, seRegistry = demo_online, seKernels = demo_kernels \<rparr>"


end
