(* ===== verification/Data_Service.thy ===== *)
theory Data_Service
  imports Channel_Service Business_Chain Multi_Hop_Routes
begin

text \<open>
  Data through a kernel: the streams and acknowledgements of connectors (\<^verbatim>\<open>StreamData\<close>, \<^verbatim>\<open>SubscribeData\<close> and
  \<^verbatim>\<open>SendAck\<close> of \<^verbatim>\<open>kernel/server/channel_service.go\<close>) and the packets of other kernels (\<^verbatim>\<open>ForwardData\<close> and
  \<^verbatim>\<open>ForwardAckNotification\<close> of \<^verbatim>\<open>kernel/server/kernel_service.go\<close>).

  The state is the channel manager and the kernel's business chain.  What an operation records is a list of
  \<open>data_out\<close>, in order: evidence, the signature of a flow, and the effects of the channel manager.  JSON and protobuf
  encodings, the kernel's signature and whether a statement of the database succeeds are fields of \<open>data_env\<close>.  \<open>None\<close> is
  a call that waits for ever for the permission lock.  A message on the wire is a \<open>DataPacket\<close>.
\<close>

section \<open>State and environment\<close>

record AckPacket =
  apChannelId :: string
  apDataHash :: string
  apSenderId :: string
  apSignature :: string
  apFlowId :: string

record data_env =
  deSha :: "string \<Rightarrow> digest"
  deSign :: "string \<Rightarrow> string \<Rightarrow> sign_error + string"
  deUnmarshal :: unmarshal
  deMessageType :: "string \<Rightarrow> string option"
  deAckBytes :: "AckPacket \<Rightarrow> string option"
  deAckOf :: "string \<Rightarrow> AckPacket option"
  deNow :: time
  deRead :: bool
  deWrite :: bool
  deKernelID :: string

record data_state =
  dsManager :: ChannelManager
  dsChain :: "KernelChainRecord list option"

record AckNotification =
  anSourceKernelId :: string
  anChannelId :: string
  anDataHash :: string
  anConnectorSignature :: string
  anKernelSignature :: string
  anPrevSignature :: string
  anFlowId :: string
  anOriginConnectorId :: string
  anIsFinal :: bool

datatype data_out =
  OutEvidence submission | OutSignFlow string | OutEffect effect | OutAckNotification string AckNotification

datatype data_error =
  InvalidChannel | SenderMissing | SenderUnverified auth_error | NotParticipant string | ChannelGone | ChannelInactive string
| PushRefused channel_error | OnlyReceivers string | NoOriginalSender | AckSignFailed sign_error | AckMarshalFailed
| SubscribeRefused channel_error

definition EventTypeDataSend :: string where
  "EventTypeDataSend = ''DATA_SEND''"

definition EventTypeDataReceive :: string where
  "EventTypeDataReceive = ''DATA_RECEIVE''"

definition EventTypeAckReceived :: string where
  "EventTypeAckReceived = ''ACK_RECEIVED''"

definition data_evidence :: "string \<Rightarrow> string \<Rightarrow> string \<Rightarrow> string \<Rightarrow> string \<Rightarrow> string \<Rightarrow> string \<Rightarrow> submission" where
  "data_evidence src ty ch dh tgt flow category =
     \<lparr> sbSource = src, sbType = ty, sbChannel = ch, sbDataHash = dh, sbDirection = DirectionInternal, sbTarget = tgt,
       sbFlow = flow, sbMetadata = Some [(''data_category'', category)] \<rparr>"

definition determineDataCategory :: "data_env \<Rightarrow> string \<Rightarrow> string" where
  "determineDataCategory env payload =
     (case deMessageType env payload of None \<Rightarrow> ''business'' | Some t \<Rightarrow> if t \<noteq> [] then t else ''business'')"

definition previous_hash :: "data_env \<Rightarrow> string \<Rightarrow> data_state \<Rightarrow> string" where
  "previous_hash env ch ds = (case GetLastDataHash (deRead env) ch (dsChain ds) of Inl e \<Rightarrow> [] | Inr (h, p) \<Rightarrow> h)"

definition record_data :: "data_env \<Rightarrow> string \<Rightarrow> string \<Rightarrow> string \<Rightarrow> string \<Rightarrow> string \<Rightarrow> string \<Rightarrow> data_state \<Rightarrow> data_state" where
  "record_data env connector ch dh prev prev_sig sig ds =
     ds\<lparr>dsChain := snd (RecordDataHash (deWrite env) (deNow env) connector ch dh prev prev_sig sig (dsChain ds))\<rparr>"

definition record_ack :: "data_env \<Rightarrow> string \<Rightarrow> string \<Rightarrow> string \<Rightarrow> data_state \<Rightarrow> data_state" where
  "record_ack env ch prev_sig sig ds =
     ds\<lparr>dsChain := snd (RecordAck (deRead env) (deWrite env) (deNow env) [] ch prev_sig sig (dsChain ds))\<rparr>"

section \<open>Streams of connectors\<close>

text \<open>What \<^verbatim>\<open>StreamData\<close> keeps between the packets of a stream.\<close>

record stream_state =
  ssChannel :: string
  ssSender :: string
  ssFlow :: string
  ssCross :: bool
  ssTarget :: string

definition new_stream :: stream_state where
  "new_stream = \<lparr> ssChannel = [], ssSender = [], ssFlow = [], ssCross = False, ssTarget = [] \<rparr>"

definition stream_scope :: "Channel \<Rightarrow> bool \<times> string" where
  "stream_scope c =
     (case find has_colon (chReceiverIDs c) of
        Some r \<Rightarrow> (True, kernel_part r)
      | None \<Rightarrow> (list_ex has_colon (chSenderIDs c), []))"

definition open_stream :: "grpc_ctx \<Rightarrow> string \<Rightarrow> DataPacket \<Rightarrow> ChannelManager \<Rightarrow> data_error + stream_state" where
  "open_stream ctx fresh p cm =
     (case GetChannel (dpChannelID p) cm of
        Inl e \<Rightarrow> Inl InvalidChannel
      | Inr c \<Rightarrow>
          if dpSenderID p = [] then Inl SenderMissing
          else case VerifyConnectorID ctx (dpSenderID p) of
                 Some e \<Rightarrow> Inl (SenderUnverified e)
               | None \<Rightarrow>
                   if \<not> IsParticipant c (dpSenderID p) then Inl (NotParticipant (dpSenderID p))
                   else Inr \<lparr> ssChannel = dpChannelID p, ssSender = dpSenderID p,
                             ssFlow = (if dpFlowID p \<noteq> [] then dpFlowID p else fresh),
                             ssCross = fst (stream_scope c), ssTarget = snd (stream_scope c) \<rparr>)"

text \<open>The packet that is pushed: the connector's, with the stream's flow and the kernel's hash and signature.\<close>

definition stream_packet :: "stream_state \<Rightarrow> string \<Rightarrow> string \<Rightarrow> DataPacket \<Rightarrow> DataPacket" where
  "stream_packet st dh sig p =
     \<lparr> dpChannelID = dpChannelID p, dpSequenceNumber = dpSequenceNumber p, dpPayload = dpPayload p, dpSignature = sig,
       dpTimestamp = dpTimestamp p, dpSenderID = dpSenderID p, dpSenderKernelID = [], dpTargetIDs = dpTargetIDs p,
       dpMessageType = [], dpFlowID = ssFlow st, dpIsFinal = False, dpDataHash = dh, dpIsAck = False,
       dpAckEvidenceRecorded = False, dpAfterSent = None \<rparr>"

definition stream_evidence :: "data_env \<Rightarrow> stream_state \<Rightarrow> Channel \<Rightarrow> string \<Rightarrow> string \<Rightarrow> submission list" where
  "stream_evidence env st c dh category =
     data_evidence (ssSender st) EventTypeDataSend (ssChannel st) dh (deKernelID env) (ssFlow st) category #
     (if chReceiverIDs c \<noteq> [] \<and> \<not> ssCross st
      then [data_evidence (deKernelID env) EventTypeDataReceive (ssChannel st) dh (hd (chReceiverIDs c)) (ssFlow st) category]
      else [])"

definition stream_data ::
    "data_env \<Rightarrow> DataPacket \<Rightarrow> stream_state \<Rightarrow> data_state \<Rightarrow> ((data_error + unit) \<times> data_state \<times> data_out list) option" where
  "stream_data env p st ds =
     (case GetChannel (dpChannelID p) (dsManager ds) of
        Inl e \<Rightarrow> Some (Inl ChannelGone, ds, [])
      | Inr c \<Rightarrow>
          if chStatus c \<noteq> ChannelStatusActive then Some (Inl (ChannelInactive (chStatus c)), ds, [])
          else let prev = previous_hash env (ssChannel st) ds;
                   dh = data_hash (deSha env) (dpPayload p) prev;
                   sign = deSign env dh (dpSignature p);
                   evs = (case sign of Inl e \<Rightarrow> [] | Inr s \<Rightarrow> stream_evidence env st c dh (determineDataCategory env (dpPayload p)));
                   ds1 = (case sign of
                            Inl e \<Rightarrow> ds
                          | Inr s \<Rightarrow> if is_local (deKernelID env) (ssSender st)
                                    then record_data env (ssSender st) (ssChannel st) dh prev (dpSignature p) s ds else ds);
                   q = stream_packet st dh (case sign of Inl e \<Rightarrow> dpSignature p | Inr s \<Rightarrow> s) p
               in case PushData (deUnmarshal env) (deNow env) (dsManager ds) c q of
                    None \<Rightarrow> None
                  | Some (r, c', cm', effs) \<Rightarrow>
                      Some (case r of Inl e \<Rightarrow> Inl (PushRefused e) | Inr u \<Rightarrow> Inr (),
                            ds1\<lparr>dsManager := put_channel (dpChannelID p) c' cm'\<rparr>,
                            map OutEvidence evs @ map OutEffect effs))"

definition end_packet :: "stream_state \<Rightarrow> DataPacket" where
  "end_packet st =
     \<lparr> dpChannelID = ssChannel st, dpSequenceNumber = -1, dpPayload = [], dpSignature = [], dpTimestamp = 0,
       dpSenderID = ssSender st, dpSenderKernelID = [], dpTargetIDs = [], dpMessageType = [], dpFlowID = ssFlow st,
       dpIsFinal = True, dpDataHash = [], dpIsAck = False, dpAckEvidenceRecorded = False, dpAfterSent = None \<rparr>"

text \<open>The end of a stream: the flow is signed and, across kernels, the end is announced.\<close>

definition end_stream :: "data_env \<Rightarrow> stream_state \<Rightarrow> data_state \<Rightarrow> (data_state \<times> data_out list) option" where
  "end_stream env st ds =
     (if ssChannel st = [] \<or> ssSender st = [] \<or> ssFlow st = [] then Some (ds, [])
      else if \<not> ssCross st \<or> ssTarget st = [] then Some (ds, [OutSignFlow (ssFlow st)])
      else case GetChannel (ssChannel st) (dsManager ds) of
             Inl e \<Rightarrow> Some (ds, [OutSignFlow (ssFlow st)])
           | Inr c \<Rightarrow>
               map_option (\<lambda>(r, c', cm', effs).
                   (ds\<lparr>dsManager := put_channel (ssChannel st) c' cm'\<rparr>, OutSignFlow (ssFlow st) # map OutEffect effs))
                 (PushData (deUnmarshal env) (deNow env) (dsManager ds) c (end_packet st)))"

text \<open>
  \<^verbatim>\<open>StreamData\<close>: the packets of one stream, each with the environment it meets, until the stream ends or a packet is refused.
\<close>

fun StreamData_from ::
    "grpc_ctx \<Rightarrow> string \<Rightarrow> (data_env \<times> DataPacket) list \<Rightarrow> data_env \<Rightarrow> stream_state \<Rightarrow> data_state \<Rightarrow>
     ((data_error + unit) \<times> data_state \<times> data_out list) option" where
  "StreamData_from ctx fresh [] fin st ds = map_option (\<lambda>(ds', out). (Inr (), ds', out)) (end_stream fin st ds)"
| "StreamData_from ctx fresh ((env, p) # ps) fin st ds =
     (case (if ssChannel st = [] then open_stream ctx fresh p (dsManager ds) else Inr st) of
        Inl e \<Rightarrow> Some (Inl e, ds, [])
      | Inr st' \<Rightarrow>
          (case stream_data env p st' ds of
             None \<Rightarrow> None
           | Some (Inl e, ds', out) \<Rightarrow> Some (Inl e, ds', out)
           | Some (Inr u, ds', out) \<Rightarrow>
               map_option (\<lambda>(r, ds'', out'). (r, ds'', out @ out')) (StreamData_from ctx fresh ps fin st' ds')))"

definition StreamData ::
    "grpc_ctx \<Rightarrow> string \<Rightarrow> (data_env \<times> DataPacket) list \<Rightarrow> data_env \<Rightarrow> data_state \<Rightarrow>
     ((data_error + unit) \<times> data_state \<times> data_out list) option" where
  "StreamData ctx fresh ps fin ds = StreamData_from ctx fresh ps fin new_stream ds"

section \<open>Subscriptions\<close>

text \<open>
  The start of \<^verbatim>\<open>SubscribeData\<close>: the connector counts as connected before the channel is looked up, and a connector
  that does not take part is let through (\<^verbatim>\<open>AddParticipant\<close> does nothing).  With the subscription comes the notification
  sent to a connector that restarted.  What follows is the stream of the subscriber's queue.
\<close>

definition AddParticipant :: "string \<Rightarrow> Channel \<Rightarrow> Channel" where
  "AddParticipant i c = c"

definition recovery_notification :: "Channel \<Rightarrow> ChannelNotification" where
  "recovery_notification c = proposed_notification c NegotiationStatusAccepted (proto_evidence (chEvidenceConfig c)) []"

definition subscribe_begin ::
    "time \<Rightarrow> grpc_ctx \<Rightarrow> string \<Rightarrow> string \<Rightarrow> ChannelManager \<Rightarrow> (data_error + ChannelNotification option) \<times> ChannelManager" where
  "subscribe_begin now ctx ch who cm =
     (case VerifyConnectorID ctx who of
        Some e \<Rightarrow> (Inl (SenderUnverified e), cm)
      | None \<Rightarrow>
          (let recovery = IsConnectorRestarting now who cm;
               cm1 = MarkConnectorOnline now who cm
           in case GetChannel ch cm1 of
                Inl e \<Rightarrow> (Inl ChannelGone, MarkConnectorOffline who cm1)
              | Inr c \<Rightarrow>
                  (let c0 = (if IsParticipant c who then c else AddParticipant who c)
                   in case SubscribeWithRecovery who recovery cm1 c0 of
                        (Inl e, c', cm2) \<Rightarrow> (Inl (SubscribeRefused e), MarkConnectorOffline who cm2)
                      | (Inr u, c', cm2) \<Rightarrow>
                          (Inr (if recovery then Some (recovery_notification c') else None), put_channel ch c' cm2))))"

definition subscribe_end :: "string \<Rightarrow> string \<Rightarrow> ChannelManager \<Rightarrow> ChannelManager" where
  "subscribe_end ch who cm =
     MarkConnectorOffline who (case GetChannel ch cm of Inl e \<Rightarrow> cm | Inr c \<Rightarrow> put_channel ch (Unsubscribe who c) cm)"

text \<open>The fields of a packet that reach the subscriber.\<close>

definition delivered :: "DataPacket \<Rightarrow> DataPacket" where
  "delivered p =
     \<lparr> dpChannelID = dpChannelID p, dpSequenceNumber = dpSequenceNumber p, dpPayload = dpPayload p, dpSignature = dpSignature p,
       dpTimestamp = dpTimestamp p, dpSenderID = [], dpSenderKernelID = [], dpTargetIDs = [], dpMessageType = [], dpFlowID = [],
       dpIsFinal = False, dpDataHash = dpDataHash p, dpIsAck = dpIsAck p, dpAckEvidenceRecorded = False, dpAfterSent = None \<rparr>"

section \<open>Acknowledgements of connectors\<close>

text \<open>\<^verbatim>\<open>SendAck\<close> takes no context: the sender is the one the request names.\<close>

definition check_ack :: "AckPacket \<Rightarrow> ChannelManager \<Rightarrow> data_error + Channel \<times> string" where
  "check_ack a cm =
     (case GetChannel (apChannelId a) cm of
        Inl e \<Rightarrow> Inl InvalidChannel
      | Inr c \<Rightarrow>
          if chStatus c \<noteq> ChannelStatusActive then Inl (ChannelInactive (chStatus c))
          else if \<not> IsParticipant c (apSenderId a) then Inl (NotParticipant (apSenderId a))
          else if \<not> CanReceive c (apSenderId a) then Inl (OnlyReceivers (apSenderId a))
          else case find (\<lambda>s. s \<noteq> apSenderId a) (chSenderIDs c) of
                 None \<Rightarrow> Inl NoOriginalSender
               | Some s \<Rightarrow> if s = [] then Inl NoOriginalSender else Inr (c, s))"

definition ack_packet :: "AckPacket \<Rightarrow> string \<Rightarrow> string \<Rightarrow> string \<Rightarrow> string \<Rightarrow> string \<Rightarrow> DataPacket" where
  "ack_packet a payload origin sender flow sig =
     \<lparr> dpChannelID = apChannelId a, dpSequenceNumber = 0, dpPayload = payload, dpSignature = sig, dpTimestamp = 0,
       dpSenderID = apSenderId a, dpSenderKernelID = [], dpTargetIDs = [qualify origin sender],
       dpMessageType = MessageTypeAck, dpFlowID = flow, dpIsFinal = False, dpDataHash = apDataHash a, dpIsAck = True,
       dpAckEvidenceRecorded = True, dpAfterSent = None \<rparr>"

definition SendAck :: "data_env \<Rightarrow> AckPacket \<Rightarrow> data_state \<Rightarrow> ((data_error + unit) \<times> data_state \<times> data_out list) option" where
  "SendAck env a ds =
     (case check_ack a (dsManager ds) of
        Inl e \<Rightarrow> Some (Inl e, ds, [])
      | Inr (c, sender) \<Rightarrow>
          (let flow = (if GetCurrentFlowID c = [] then apFlowId a else GetCurrentFlowID c)
           in case deSign env [] (apSignature a) of
                Inl e \<Rightarrow> Some (Inl (AckSignFailed e), ds, [])
              | Inr sig \<Rightarrow>
                  (case deAckBytes env (a\<lparr>apFlowId := flow\<rparr>) of
                     None \<Rightarrow> Some (Inl AckMarshalFailed, ds, [])
                   | Some payload \<Rightarrow>
                       (let ev = data_evidence (deKernelID env) EventTypeAckReceived (apChannelId a) (apDataHash a) [] flow ''business'';
                            ds1 = record_ack env (apChannelId a) (apSignature a) sig ds
                        in case PushData (deUnmarshal env) (deNow env) (dsManager ds) c
                                  (ack_packet a payload (GetOriginKernelID c) sender flow sig) of
                             None \<Rightarrow> None
                           | Some (r, c', cm', effs) \<Rightarrow>
                               Some (case r of Inl e \<Rightarrow> Inl (PushRefused e) | Inr u \<Rightarrow> Inr (),
                                     ds1\<lparr>dsManager := put_channel (apChannelId a) c' cm'\<rparr>, OutEvidence ev # map OutEffect effs)))))"

section \<open>Packets of other kernels\<close>

record ForwardDataRequest =
  fdSourceKernelId :: string
  fdChannelId :: string
  fdPacket :: DataPacket
  fdIsFinal :: bool

definition forwarded_hash :: "data_env \<Rightarrow> DataPacket \<Rightarrow> string" where
  "forwarded_hash env p =
     (let h = (if dpIsAck p \<and> dpPayload p \<noteq> [] then (case deAckOf env (dpPayload p) of None \<Rightarrow> [] | Some a \<Rightarrow> apDataHash a) else [])
      in if h \<noteq> [] then h else dpDataHash p)"

definition forwarded_flow :: "string \<Rightarrow> DataPacket \<Rightarrow> ChannelManager \<Rightarrow> string" where
  "forwarded_flow fresh p cm =
     (if dpFlowID p \<noteq> [] then dpFlowID p
      else if \<not> dpIsAck p then fresh
      else case GetChannel (dpChannelID p) cm of
             Inl e \<Rightarrow> fresh
           | Inr c \<Rightarrow> if GetCurrentFlowID c \<noteq> [] then GetCurrentFlowID c else fresh)"

definition carries_control :: "data_env \<Rightarrow> DataPacket \<Rightarrow> bool" where
  "carries_control env p \<longleftrightarrow>
     (case deUnmarshal env (dpPayload p) of
        None \<Rightarrow> False | Some msg \<Rightarrow> ctMessageType msg \<in> {''channel_update'', ''permission_request''})"

definition forwarded_type :: "data_env \<Rightarrow> DataPacket \<Rightarrow> string" where
  "forwarded_type env p = (if dpIsAck p then MessageTypeAck else if carries_control env p then MessageTypeControl else [])"

definition forwarded_category :: "data_env \<Rightarrow> DataPacket \<Rightarrow> string" where
  "forwarded_category env p = (if dpIsAck p \<or> carries_control env p then ''control'' else ''business'')"

definition is_end_packet :: "DataPacket \<Rightarrow> bool" where
  "is_end_packet p \<longleftrightarrow> dpPayload p = [] \<and> \<not> dpIsAck p"

definition target_kernel :: "DataPacket \<Rightarrow> string" where
  "target_kernel p = (case find has_colon (dpTargetIDs p) of None \<Rightarrow> [] | Some t \<Rightarrow> kernel_part t)"

definition local_name :: "string \<Rightarrow> string" where
  "local_name r = (if has_colon r then connector_part r else r)"

definition connector_target :: "string \<Rightarrow> DataPacket \<Rightarrow> Channel \<Rightarrow> string" where
  "connector_target kid p c =
     (if target_kernel p \<noteq> kid then []
      else let t = (case find (is_local kid) (chReceiverIDs c) of None \<Rightarrow> [] | Some r \<Rightarrow> local_name r)
           in if t \<noteq> [] then t else case chReceiverIDs c of [] \<Rightarrow> [] | r # rs \<Rightarrow> local_name r)"

text \<open>What the callback records once the packet was handed to the distribution.\<close>

definition receive_evidence :: "data_env \<Rightarrow> ForwardDataRequest \<Rightarrow> string \<Rightarrow> Channel \<Rightarrow> submission list" where
  "receive_evidence env req flow c =
     (let p = fdPacket req; kid = deKernelID env; h = forwarded_hash env p; cat = forwarded_category env p; t = connector_target kid p c
      in if dpIsAck p \<or> h = [] then []
         else data_evidence (fdSourceKernelId req) EventTypeDataReceive (fdChannelId req) h kid flow cat #
              (if t \<noteq> [] then [data_evidence kid EventTypeDataReceive (fdChannelId req) h t flow cat] else []))"

definition ack_evidence :: "data_env \<Rightarrow> ForwardDataRequest \<Rightarrow> string \<Rightarrow> submission list" where
  "ack_evidence env req flow =
     (let p = fdPacket req
      in if dpIsAck p \<and> deKernelID env \<noteq> fdSourceKernelId req
         then [data_evidence (deKernelID env) EventTypeAckReceived (fdChannelId req) (forwarded_hash env p) []
                 (case deAckOf env (dpPayload p) of None \<Rightarrow> flow | Some a \<Rightarrow> if apFlowId a \<noteq> [] then apFlowId a else flow) ''business'']
         else [])"

definition sign_or_keep :: "data_env \<Rightarrow> string \<Rightarrow> string \<Rightarrow> string" where
  "sign_or_keep env dh prev_sig = (case deSign env dh prev_sig of Inl e \<Rightarrow> prev_sig | Inr s \<Rightarrow> s)"

definition forwarded_packet :: "data_env \<Rightarrow> ForwardDataRequest \<Rightarrow> string \<Rightarrow> string \<Rightarrow> DataPacket" where
  "forwarded_packet env req flow dh =
     (let p = fdPacket req; elsewhere = (deKernelID env \<noteq> fdSourceKernelId req)
      in p\<lparr> dpSenderKernelID := (if dpSenderKernelID p = [] then fdSourceKernelId req else dpSenderKernelID p),
            dpFlowID := flow, dpIsFinal := fdIsFinal req, dpDataHash := forwarded_hash env p,
            dpMessageType := forwarded_type env p, dpAckEvidenceRecorded := (dpIsAck p \<and> elsewhere), dpAfterSent := Some 0,
            dpSignature := (if dpIsAck p then sign_or_keep env [] (dpSignature p)
                            else if elsewhere then sign_or_keep env dh (dpSignature p) else dpSignature p) \<rparr>)"

definition run_callback :: "submission list \<Rightarrow> effect \<Rightarrow> data_out list" where
  "run_callback evs e = (case e of CallAfterSent n \<Rightarrow> map OutEvidence evs | _ \<Rightarrow> [OutEffect e])"

definition record_forwarded :: "data_env \<Rightarrow> ForwardDataRequest \<Rightarrow> string \<Rightarrow> string \<Rightarrow> data_state \<Rightarrow> data_state" where
  "record_forwarded env req flow dh ds =
     (let p = fdPacket req; ch = fdChannelId req
      in if flow = [] then ds
         else if dpIsAck p then record_ack env ch (dpSignature p) (sign_or_keep env [] (dpSignature p)) ds
         else if deKernelID env \<noteq> fdSourceKernelId req
         then record_data env [] ch dh (previous_hash env ch ds) (dpSignature p) (sign_or_keep env dh (dpSignature p)) ds
         else ds)"

definition final_evidence :: "data_env \<Rightarrow> MultiHopConfigManager option \<Rightarrow> ForwardDataRequest \<Rightarrow> string \<Rightarrow> data_out list" where
  "final_evidence env hops req flow =
     (let p = fdPacket req; kid = deKernelID env; t = target_kernel p
      in if \<not> fdIsFinal req \<or> flow = [] \<or> dpIsAck p then []
         else (case (if t \<noteq> [] \<and> t \<noteq> kid then Option.bind hops (GetNextHop kid t) else None) of
                 None \<Rightarrow> []
               | Some (k, rest) \<Rightarrow>
                   if k = [] then []
                   else [OutEvidence (data_evidence kid EventTypeDataSend (fdChannelId req) (forwarded_hash env p) k flow (forwarded_category env p))])
              @ [OutSignFlow flow])"

definition ForwardData ::
    "data_env \<Rightarrow> MultiHopConfigManager option \<Rightarrow> string \<Rightarrow> ForwardDataRequest \<Rightarrow> data_state \<Rightarrow>
     ((data_error + unit) \<times> data_state \<times> data_out list) option" where
  "ForwardData env hops fresh req ds =
     (case GetChannel (fdChannelId req) (dsManager ds) of
        Inl e \<Rightarrow> Some (Inl InvalidChannel, ds, [])
      | Inr c \<Rightarrow>
          (let p = fdPacket req;
               flow = forwarded_flow fresh p (dsManager ds);
               dh = data_hash (deSha env) (dpPayload p) (previous_hash env (fdChannelId req) ds);
               after = (if is_end_packet p then [] else receive_evidence env req flow c)
           in case PushData (deUnmarshal env) (deNow env) (dsManager ds) c (forwarded_packet env req flow dh) of
                None \<Rightarrow> None
              | Some (r, c', cm', effs) \<Rightarrow>
                  (let ds1 = ds\<lparr>dsManager := put_channel (fdChannelId req) c' cm'\<rparr>;
                       out1 = map OutEvidence (ack_evidence env req flow) @ concat (map (run_callback after) effs)
                   in if r = Inl PanicSendOnClosedChannel then Some (Inl (PushRefused PanicSendOnClosedChannel), ds1, out1)
                      else if is_end_packet p then Some (Inr (), ds1, out1)
                      else Some (Inr (), record_forwarded env req flow dh ds1, out1 @ final_evidence env hops req flow))))"

definition ForwardAckNotification ::
    "data_env \<Rightarrow> MultiHopConfigManager option \<Rightarrow> AckNotification \<Rightarrow> data_state \<Rightarrow> data_state \<times> data_out list" where
  "ForwardAckNotification env hops a ds =
     (let sig = sign_or_keep env [] (anKernelSignature a);
          ev = data_evidence (deKernelID env) EventTypeAckReceived (anChannelId a) (anDataHash a) [] (anFlowId a) ''business'';
          forward = (case (if anIsFinal a then None else Option.bind hops (GetPreviousHop (anSourceKernelId a))) of
                       None \<Rightarrow> []
                     | Some (k, rest) \<Rightarrow>
                         if k = [] then []
                         else [OutAckNotification k (a\<lparr>anSourceKernelId := deKernelID env, anKernelSignature := sig, anIsFinal := True\<rparr>)])
      in (record_ack env (anChannelId a) (anKernelSignature a) sig ds, OutEvidence ev # forward))"

section \<open>From kernel to kernel\<close>

text \<open>
  The callback \<^verbatim>\<open>forwardToKernel\<close> of \<^verbatim>\<open>kernel/cmd/main.go\<close>: the evidence of the hop and the packet on the wire, which
  leaves out the kernel of the sender and the type of the message.
\<close>

definition hop_evidence :: "string \<Rightarrow> string \<Rightarrow> DataPacket \<Rightarrow> bool \<Rightarrow> submission list" where
  "hop_evidence kid k q fin =
     (if \<not> dpIsAck q \<and> \<not> fin \<and> dpDataHash q \<noteq> []
      then [data_evidence kid EventTypeDataSend (dpChannelID q) (dpDataHash q) k (dpFlowID q) ''business''] else [])"

definition wire_packet :: "DataPacket \<Rightarrow> bool \<Rightarrow> DataPacket" where
  "wire_packet q fin =
     q\<lparr> dpSenderKernelID := [], dpMessageType := [], dpIsFinal := fin, dpAckEvidenceRecorded := False, dpAfterSent := None \<rparr>"

definition forward_request :: "string \<Rightarrow> DataPacket \<Rightarrow> bool \<Rightarrow> ForwardDataRequest" where
  "forward_request kid q fin =
     \<lparr> fdSourceKernelId = kid, fdChannelId = dpChannelID q, fdPacket = wire_packet q fin, fdIsFinal = fin \<rparr>"

section \<open>Lemmas\<close>

lemma kernel_row_prev [simp]: "brPrevHash (kernel_row c ch dh ph ps sig now) = ph"
  by (simp add: kernel_row_def)

text \<open>The data hashes of a channel in the kernel's table, in order.\<close>

definition data_hashes :: "string \<Rightarrow> data_state \<Rightarrow> string list" where
  "data_hashes ch ds = (case dsChain ds of None \<Rightarrow> [] | Some t \<Rightarrow> map brDataHash (filter is_data (channel_rows ch t)))"

definition chain_state_ok :: "data_state \<Rightarrow> bool" where
  "chain_state_ok ds \<longleftrightarrow> (\<forall>t. dsChain ds = Some t \<longrightarrow> chain_table_ok t)"

named_theorems data_simps \<open>what the recording steps do to the chain\<close>

lemma previous_hash_tip:
  "deRead env \<Longrightarrow> dsChain ds = Some t \<Longrightarrow>
   previous_hash env ch ds = chain_tip brDataHash [] (filter is_data (channel_rows ch t))"
  by (auto simp: previous_hash_def GetLastDataHash_def GetLastRecord_def last_row_def chain_tip_def)

lemma previous_hash_last:
  "deRead env \<Longrightarrow> previous_hash env ch ds = (if data_hashes ch ds = [] then [] else last (data_hashes ch ds))"
  by (cases "dsChain ds")
    (auto simp: previous_hash_tip data_hashes_def chain_tip_def last_map, simp add: previous_hash_def GetLastDataHash_def)

lemma dsManager_frame [data_simps]:
  "dsManager (record_data env c ch dh pv ps s ds) = dsManager ds" "dsManager (record_ack env ch ps s ds) = dsManager ds"
  by (simp_all add: record_data_def record_ack_def)

lemma data_hashes_cong [data_simps]: "data_hashes ch (ds\<lparr>dsManager := cm\<rparr>) = data_hashes ch ds"
  by (simp add: data_hashes_def)

lemma record_data_hashes [data_simps]:
  "data_hashes ch (record_data env c ch' dh pv ps s ds) =
     data_hashes ch ds @ (if deWrite env \<and> dsChain ds \<noteq> None \<and> ch' = ch \<and> dh \<noteq> [] then [dh] else [])"
  by (auto simp: data_hashes_def record_data_def RecordDataHash_def InsertRecord_def AppendChainRecord_def channel_rows_append
      is_data_def split: option.split)

lemma record_ack_hashes [data_simps]: "data_hashes ch (record_ack env ch' ps s ds) = data_hashes ch ds"
  by (auto simp: data_hashes_def record_ack_def RecordAck_def InsertRecord_def AppendChainRecord_def channel_rows_append
      is_data_def kernel_row_def split: option.split prod.split)

lemma record_data_ok:
  assumes "chain_state_ok ds" and "deRead env" and "dsChain ds' = dsChain ds"
  shows "chain_state_ok (record_data env c ch dh (previous_hash env ch ds') ps s ds)"
proof (cases "dsChain ds")
  case (Some t)
  then have "chain_table_ok t" using assms(1) by (simp add: chain_state_ok_def)
  moreover have "previous_hash env ch ds' = chain_tip brDataHash [] (filter is_data (channel_rows ch t))"
    using previous_hash_tip [of env ds' t] assms(2,3) Some by simp
  ultimately show ?thesis
    using Some chain_table_ok_append [of t "kernel_row c ch dh (previous_hash env ch ds') ps s (deNow env)"]
    by (auto simp: chain_state_ok_def record_data_def RecordDataHash_def InsertRecord_def AppendChainRecord_def)
qed (simp add: chain_state_ok_def record_data_def RecordDataHash_def)

lemma record_ack_ok: "chain_state_ok ds \<Longrightarrow> chain_state_ok (record_ack env ch ps s ds)"
  by (auto simp: chain_state_ok_def record_ack_def RecordAck_def InsertRecord_def AppendChainRecord_def is_data_def
      split: option.splits prod.splits if_splits intro!: chain_table_ok_append)

lemma manager_ok [simp]: "chain_state_ok (ds\<lparr>dsManager := cm\<rparr>) = chain_state_ok ds"
  by (simp add: chain_state_ok_def)

lemma stream_data_ok:
  "stream_data env p st ds = Some (r, ds', out) \<Longrightarrow> deRead env \<Longrightarrow> chain_state_ok ds \<Longrightarrow> chain_state_ok ds'"
  by (auto simp: stream_data_def Let_def intro!: record_data_ok split: sum.splits if_splits option.splits prod.splits)

lemma SendAck_ok: "SendAck env a ds = Some (r, ds', out) \<Longrightarrow> chain_state_ok ds \<Longrightarrow> chain_state_ok ds'"
  by (auto simp: SendAck_def Let_def intro!: record_ack_ok split: sum.splits option.splits prod.splits)

lemma record_forwarded_ok: "deRead env \<Longrightarrow> chain_state_ok ds \<Longrightarrow> chain_state_ok (record_forwarded env req flow dh ds)"
  by (auto simp: record_forwarded_def Let_def intro: record_ack_ok record_data_ok)

lemma ForwardData_ok:
  "ForwardData env hops fresh req ds = Some (r, ds', out) \<Longrightarrow> deRead env \<Longrightarrow> chain_state_ok ds \<Longrightarrow> chain_state_ok ds'"
  by (auto simp: ForwardData_def Let_def intro!: record_forwarded_ok split: sum.splits option.splits prod.splits if_splits)

lemma ForwardAckNotification_ok: "chain_state_ok ds \<Longrightarrow> chain_state_ok (fst (ForwardAckNotification env hops a ds))"
  by (simp add: ForwardAckNotification_def Let_def record_ack_ok)

text \<open>A kernel at work: its operations on data with a readable database, and whatever else its channels do.\<close>

inductive data_step :: "data_state \<Rightarrow> data_state \<Rightarrow> bool" where
  step_stream: "stream_data env p st ds = Some (r, ds', out) \<Longrightarrow> deRead env \<Longrightarrow> data_step ds ds'"
| step_ack: "SendAck env a ds = Some (r, ds', out) \<Longrightarrow> data_step ds ds'"
| step_forward: "ForwardData env hops fresh req ds = Some (r, ds', out) \<Longrightarrow> deRead env \<Longrightarrow> data_step ds ds'"
| step_ack_notice: "data_step ds (fst (ForwardAckNotification env hops a ds))"
| step_channels: "data_step ds (ds\<lparr>dsManager := cm\<rparr>)"

definition data_init :: "data_state \<Rightarrow> bool" where
  "data_init ds \<longleftrightarrow> dsChain ds = None \<or> dsChain ds = Some []"

interpretation kdata: invariant_system data_init data_step chain_state_ok
proof unfold_locales
  show "chain_state_ok ds" if "data_init ds" for ds
    using that by (auto simp: data_init_def chain_state_ok_def chain_table_ok_def channel_rows_def)
  show "chain_state_ok ds'" if "data_step ds ds'" and "chain_state_ok ds" for ds ds'
    using that by induction (auto intro: stream_data_ok SendAck_ok ForwardData_ok ForwardAckNotification_ok)
qed

section \<open>Two kernels and one stream\<close>

lemma out_packet_same [simp]:
  "dpPayload (out_packet rk cids p) = dpPayload p" "dpIsAck (out_packet rk cids p) = dpIsAck p"
  "dpChannelID (out_packet rk cids p) = dpChannelID p" "dpDataHash (out_packet rk cids p) = dpDataHash p"
  by (simp_all add: out_packet_def)

lemma forwarded_by_push:
  assumes "PushData um now cm c p = Some (r, c', cm', effs)" and "dpMessageType p \<noteq> MessageTypeControl" and "Forward k q b \<in> set effs"
  shows "dpPayload q = dpPayload p \<and> dpIsAck q = dpIsAck p \<and> dpChannelID q = dpChannelID p \<and> b = dpIsFinal p"
proof -
  have "push_data now cm c p = (r, c', cm', effs)" using assms(1,2) by (simp add: PushData_plain)
  then have "Forward k q b \<in> set (concat (map (forward_one cm p) m)) \<Longrightarrow> ?thesis" for m
    unfolding forward_effect_iff by auto
  moreover have "\<exists>m. Forward k q b \<in> set (concat (map (forward_one cm p) m))"
    using \<open>push_data now cm c p = (r, c', cm', effs)\<close> assms(3)
    by (fastforce simp: push_data_def push_to_targets_def Let_def simp del: set_concat split: if_splits option.splits)
  ultimately show ?thesis by blast
qed

lemma stream_packet_simps [simp]:
  "dpPayload (stream_packet st dh s p) = dpPayload p" "dpIsAck (stream_packet st dh s p) = False"
  "dpChannelID (stream_packet st dh s p) = dpChannelID p" "dpIsFinal (stream_packet st dh s p) = False"
  "dpMessageType (stream_packet st dh s p) = []" "dpSenderID (stream_packet st dh s p) = dpSenderID p"
  by (simp_all add: stream_packet_def)

text \<open>A packet of a stream is either turned away before anything is recorded or pushed.\<close>

lemma stream_data_pushed:
  assumes "stream_data env p st ds = Some (r, ds', out)"
  shows "(ds' = ds \<and> out = [] \<and> isl r) \<or>
     (\<exists>c r' c' cm' effs evs dh sig. GetChannel (dpChannelID p) (dsManager ds) = Inr c
        \<and> PushData (deUnmarshal env) (deNow env) (dsManager ds) c (stream_packet st dh sig p) = Some (r', c', cm', effs)
        \<and> out = map OutEvidence evs @ map OutEffect effs \<and> (isl r \<longleftrightarrow> isl r')
        \<and> (evs = [] \<or> evs = stream_evidence env st c dh (determineDataCategory env (dpPayload p))))"
proof (cases "GetChannel (dpChannelID p) (dsManager ds)")
  case (Inr c)
  show ?thesis
  proof (cases "chStatus c = ChannelStatusActive")
    case True
    define dh where "dh = data_hash (deSha env) (dpPayload p) (previous_hash env (ssChannel st) ds)"
    define sig where "sig = (case deSign env dh (dpSignature p) of Inl e \<Rightarrow> dpSignature p | Inr s \<Rightarrow> s)"
    define evs where "evs = (case deSign env dh (dpSignature p) of
      Inl e \<Rightarrow> [] | Inr s \<Rightarrow> stream_evidence env st c dh (determineDataCategory env (dpPayload p)))"
    note data = assms [unfolded stream_data_def Let_def Inr sum.case, folded dh_def, folded sig_def evs_def]
    obtain r' c' cm' effs where
      push: "PushData (deUnmarshal env) (deNow env) (dsManager ds) c (stream_packet st dh sig p) = Some (r', c', cm', effs)"
      using data True by (cases "PushData (deUnmarshal env) (deNow env) (dsManager ds) c (stream_packet st dh sig p)") auto
    moreover have "out = map OutEvidence evs @ map OutEffect effs" "isl r \<longleftrightarrow> isl r'"
      using data True by (auto simp: push split: sum.splits)
    moreover have "evs = [] \<or> evs = stream_evidence env st c dh (determineDataCategory env (dpPayload p))"
      by (simp add: evs_def split: sum.split)
    ultimately show ?thesis using Inr by blast
  qed (use assms Inr in \<open>auto simp: stream_data_def\<close>)
qed (use assms in \<open>auto simp: stream_data_def\<close>)

lemma stream_forwards:
  assumes "stream_data env p st ds = Some (r, ds', out)" and "OutEffect (Forward k q b) \<in> set out"
  shows "dpPayload q = dpPayload p \<and> \<not> dpIsAck q \<and> dpChannelID q = dpChannelID p \<and> \<not> b"
proof -
  obtain c r' c' cm' effs evs dh sig where
    push: "PushData (deUnmarshal env) (deNow env) (dsManager ds) c (stream_packet st dh sig p) = Some (r', c', cm', effs)"
    and out: "out = map OutEvidence evs @ map OutEffect effs"
    using stream_data_pushed [OF assms(1)] assms(2) by auto
  from out assms(2) have "Forward k q b \<in> set effs" by auto
  from forwarded_by_push [OF push _ this] show ?thesis by (simp add: message_type_defs)
qed

text \<open>The hash a kernel records for a payload: it depends on its last hash alone.\<close>

definition extended :: "(string \<Rightarrow> digest) \<Rightarrow> string \<Rightarrow> string list \<Rightarrow> string list" where
  "extended sha payload hs = hs @ [data_hash sha payload (if hs = [] then [] else last hs)]"

lemma data_hash_nonempty [simp]: "data_hash sha x y \<noteq> []"
  by (simp add: data_hash_def)

lemma stream_data_hashes:
  assumes "stream_data env p st ds = Some (Inr u, ds', out)" and "deRead env" and "deWrite env"
    and "is_local (deKernelID env) (ssSender st)" and "\<exists>s. deSign env (data_hash (deSha env) (dpPayload p) (previous_hash env (ssChannel st) ds)) (dpSignature p) = Inr s"
    and "dsChain ds \<noteq> None"
  shows "data_hashes (ssChannel st) ds' = extended (deSha env) (dpPayload p) (data_hashes (ssChannel st) ds)"
  using assms
  by (auto simp: stream_data_def Let_def data_simps extended_def previous_hash_last split: sum.splits if_splits option.splits prod.splits)

lemma ForwardData_hashes:
  assumes "ForwardData env hops fresh req ds = Some (Inr u, ds', out)" and "deRead env" and "deWrite env" and "fresh \<noteq> []"
    and "deKernelID env \<noteq> fdSourceKernelId req" and "\<not> dpIsAck (fdPacket req)" and "dpPayload (fdPacket req) \<noteq> []"
    and "dsChain ds \<noteq> None"
  shows "data_hashes (fdChannelId req) ds' = extended (deSha env) (dpPayload (fdPacket req)) (data_hashes (fdChannelId req) ds)"
proof -
  have "forwarded_flow fresh (fdPacket req) (dsManager ds) \<noteq> []" using assms(4,6) by (simp add: forwarded_flow_def)
  then show ?thesis
    using assms
    by (auto simp: ForwardData_def Let_def data_simps extended_def previous_hash_last record_forwarded_def is_end_packet_def
        split: sum.splits if_splits option.splits prod.splits)
qed

lemma SendAck_hashes: "SendAck env a ds = Some (r, ds', out) \<Longrightarrow> data_hashes ch ds' = data_hashes ch ds"
  by (auto simp: SendAck_def Let_def data_simps split: sum.splits option.splits prod.splits)

lemma ForwardData_ack_hashes:
  "ForwardData env hops fresh req ds = Some (r, ds', out) \<Longrightarrow> dpIsAck (fdPacket req) \<Longrightarrow> data_hashes ch ds' = data_hashes ch ds"
  by (auto simp: ForwardData_def Let_def data_simps record_forwarded_def split: sum.splits option.splits prod.splits if_splits)

definition kernel_works :: "(string \<Rightarrow> digest) \<Rightarrow> data_env \<Rightarrow> bool" where
  "kernel_works sha env \<longleftrightarrow> deSha env = sha \<and> deRead env \<and> deWrite env \<and> (\<forall>dh s. \<not> isl (deSign env dh s))"

text \<open>
  A kernel \<open>a\<close> whose connector streams on a channel and the next kernel \<open>b\<close>, each packet being handled there before the next
  one is sent; acknowledgements go back, and the channels of both do what they like.
\<close>

inductive relay_step :: "(string \<Rightarrow> digest) \<Rightarrow> string \<Rightarrow> data_state \<times> data_state \<Rightarrow> data_state \<times> data_state \<Rightarrow> bool"
  for sha and ch where
  relay_data: "stream_data ea p st a = Some (Inr u, a', out) \<Longrightarrow> kernel_works sha ea \<Longrightarrow> is_local (deKernelID ea) (ssSender st) \<Longrightarrow>
     ssChannel st = ch \<Longrightarrow> dpChannelID p = ch \<Longrightarrow> dpPayload p \<noteq> [] \<Longrightarrow> OutEffect (Forward k q fin) \<in> set out \<Longrightarrow>
     ForwardData eb hops fresh (forward_request (deKernelID ea) q fin) b = Some (Inr v, b', out') \<Longrightarrow>
     kernel_works sha eb \<Longrightarrow> fresh \<noteq> [] \<Longrightarrow> deKernelID eb \<noteq> deKernelID ea \<Longrightarrow> relay_step sha ch (a, b) (a', b')"
| relay_ack: "SendAck eb k b = Some (r, b', out) \<Longrightarrow> relay_step sha ch (a, b) (a, b')"
| relay_ack_back: "ForwardData ea hops fresh req a = Some (r, a', out) \<Longrightarrow> dpIsAck (fdPacket req) \<Longrightarrow> relay_step sha ch (a, b) (a', b)"
| relay_channels: "relay_step sha ch (a, b) (a\<lparr>dsManager := cma\<rparr>, b\<lparr>dsManager := cmb\<rparr>)"

definition relay_init :: "data_state \<times> data_state \<Rightarrow> bool" where
  "relay_init s \<longleftrightarrow> dsChain (fst s) = Some [] \<and> dsChain (snd s) = Some []"

definition relay_ok :: "string \<Rightarrow> data_state \<times> data_state \<Rightarrow> bool" where
  "relay_ok ch s \<longleftrightarrow> data_hashes ch (fst s) = data_hashes ch (snd s) \<and> dsChain (fst s) \<noteq> None \<and> dsChain (snd s) \<noteq> None"

lemma chain_stays [simp]:
  "dsChain (record_data env c ch dh pv ps s ds) = None \<longleftrightarrow> dsChain ds = None"
  "dsChain (record_ack env ch ps s ds) = None \<longleftrightarrow> dsChain ds = None"
  by (auto simp: record_data_def RecordDataHash_def record_ack_def RecordAck_def split: option.splits prod.splits)

lemma stream_chain_stays: "stream_data env p st ds = Some (r, ds', out) \<Longrightarrow> dsChain ds' = None \<longleftrightarrow> dsChain ds = None"
  by (auto simp: stream_data_def Let_def split: sum.splits if_splits option.splits prod.splits)

lemma ack_chain_stays: "SendAck env a ds = Some (r, ds', out) \<Longrightarrow> dsChain ds' = None \<longleftrightarrow> dsChain ds = None"
  by (auto simp: SendAck_def Let_def split: sum.splits option.splits prod.splits)

lemma forward_chain_stays:
  "ForwardData env hops fresh req ds = Some (r, ds', out) \<Longrightarrow> dsChain ds' = None \<longleftrightarrow> dsChain ds = None"
  by (auto simp: ForwardData_def record_forwarded_def Let_def split: sum.splits if_splits option.splits prod.splits)

lemma relay_step_ok: "relay_step sha ch s s' \<Longrightarrow> relay_ok ch s \<Longrightarrow> relay_ok ch s'"
proof (induction rule: relay_step.induct)
  case (relay_data ea p st a u a' out k q fin eb hops fresh b v b' out')
  note q = stream_forwards [OF relay_data(1,7)]
  have signed: "\<exists>s. deSign ea x y = Inr s" for x y
    using relay_data(2) by (metis kernel_works_def sum.collapse(2))
  have "data_hashes ch a' = extended sha (dpPayload p) (data_hashes ch a)"
    using stream_data_hashes [OF relay_data(1) _ _ relay_data(3) signed] relay_data(2,4,12)
    by (simp add: kernel_works_def relay_ok_def)
  moreover have "data_hashes ch b' = extended sha (dpPayload p) (data_hashes ch b)"
    using ForwardData_hashes [OF relay_data(8) _ _ relay_data(10)] relay_data(5,6,9,11,12) q
    by (simp add: kernel_works_def relay_ok_def forward_request_def wire_packet_def)
  ultimately show ?case
    using relay_data(12) stream_chain_stays [OF relay_data(1)] forward_chain_stays [OF relay_data(8)] by (simp add: relay_ok_def)
next
  case (relay_ack eb k b r b' out a)
  then show ?case using SendAck_hashes ack_chain_stays by (fastforce simp: relay_ok_def)
next
  case (relay_ack_back ea hops fresh req a r a' out b)
  then show ?case using ForwardData_ack_hashes forward_chain_stays by (fastforce simp: relay_ok_def)
qed (simp add: relay_ok_def data_simps)

interpretation relay: invariant_system relay_init "relay_step sha ch" "relay_ok ch" for sha ch
proof unfold_locales
  show "relay_ok ch s" if "relay_init s" for s
    using that by (simp add: relay_init_def relay_ok_def data_hashes_def channel_rows_def)
qed (rule relay_step_ok)

section \<open>Evidence of a stream\<close>

lemma stream_evidence_kinds:
  "sb \<in> set (stream_evidence env st c dh cat) \<Longrightarrow>
   sbChannel sb = ssChannel st \<and> sbFlow sb = ssFlow st \<and>
   (sbType sb = EventTypeDataSend \<and> sbSource sb = ssSender st \<or> sbType sb = EventTypeDataReceive \<and> sbSource sb = deKernelID env)"
  by (auto simp: stream_evidence_def data_evidence_def split: if_splits)

lemma stream_data_evidence:
  assumes "stream_data env p st ds = Some (r, ds', out)" and "OutEvidence sb \<in> set out"
  shows "\<exists>c dh cat. sb \<in> set (stream_evidence env st c dh cat)"
  using stream_data_pushed [OF assms(1)] assms(2) by (elim disjE exE conjE) auto

lemma open_stream_sender:
  "open_stream ctx fresh p cm = Inr st \<Longrightarrow> ExtractConnectorIDFromContext ctx = Inr (ssSender st)"
  by (auto simp: open_stream_def VerifyConnectorID_None split: sum.splits if_splits option.splits)

lemma end_stream_evidence: "end_stream env st ds = Some (ds', out) \<Longrightarrow> OutEvidence sb \<notin> set out"
  by (auto simp: end_stream_def split: if_splits sum.splits)

lemma stream_from_source:
  assumes "StreamData_from ctx fresh ps fin st ds = Some (r, ds', out)" and "OutEvidence sb \<in> set out"
    and "ssChannel st \<noteq> [] \<Longrightarrow> ExtractConnectorIDFromContext ctx = Inr (ssSender st)" and "sbType sb = EventTypeDataSend"
  shows "ExtractConnectorIDFromContext ctx = Inr (sbSource sb)"
  using assms(1-3)
proof (induction ctx fresh ps fin st ds arbitrary: r ds' out rule: StreamData_from.induct)
  case (1 ctx fresh fin st ds)
  then show ?case by (auto dest: end_stream_evidence)
next
  case (2 ctx fresh env p ps fin st ds)
  obtain st' where st': "(if ssChannel st = [] then open_stream ctx fresh p (dsManager ds) else Inr st) = Inr st'"
    using 2(2,3) by (auto split: sum.splits)
  have cert: "ExtractConnectorIDFromContext ctx = Inr (ssSender st')"
    using st' 2(4) open_stream_sender by (auto split: if_splits)
  obtain r1 ds1 out1 where one: "stream_data env p st' ds = Some (r1, ds1, out1)"
    using 2(2) st' by (auto split: option.splits)
  have "OutEvidence sb \<in> set out1 \<Longrightarrow> ?case"
    using stream_data_evidence [OF one] stream_evidence_kinds cert assms(4)
    by (fastforce simp: EventTypeDataSend_def EventTypeDataReceive_def)
  moreover have ?case if later: "OutEvidence sb \<notin> set out1"
  proof -
    obtain out2 r2 ds2 where "StreamData_from ctx fresh ps fin st' ds1 = Some (r2, ds2, out2)" "OutEvidence sb \<in> set out2" "r1 = Inr ()"
      using 2(2,3) st' one later by (cases r1) auto
    then show ?thesis using 2(1) [OF st' one] cert by blast
  qed
  ultimately show ?case by blast
qed

section \<open>What is recorded without being delivered\<close>

lemma stream_recorded:
  assumes "stream_data env p st ds = Some (r, ds', out)"
  shows "dsChain ds' = dsChain ds \<or>
     (\<exists>dh s. dh \<noteq> [] \<and> dsChain ds' = dsChain (record_data env (ssSender st) (ssChannel st) dh (previous_hash env (ssChannel st) ds) (dpSignature p) s ds))"
  using assms
  by (auto simp: stream_data_def Let_def split: sum.splits if_splits option.splits prod.splits)
    (use data_hash_nonempty in blast)+

lemma refused_push:
  "chStatus c = ChannelStatusActive \<Longrightarrow> \<not> CanSend c (dpSenderID q) \<Longrightarrow> \<not> dpIsAck q \<Longrightarrow> dpMessageType q = [] \<Longrightarrow>
   PushData um now cm c q = Some (Inl (SenderNotAuthorized (dpSenderID q)), c, cm, [])"
  by (simp add: PushData_def push_data_def push_allowed_def message_type_defs)

lemma inactive_push:
  "chStatus c \<noteq> ChannelStatusActive \<Longrightarrow> dpMessageType q \<noteq> MessageTypeControl \<Longrightarrow> PushData um now cm c q = Some (Inl NotActive, c, cm, [])"
  by (simp add: PushData_def push_data_def)

section \<open>Properties\<close>


text \<open>
  A packet recorded while the read of the last hash fails breaks the chain of a channel that has data already: the
  failure is taken for an empty chain.
\<close>

theorem failed_read_breaks_chain:
  assumes "stream_data env p st ds = Some (r, ds', out)" and "\<not> deRead env" and "dsChain ds' \<noteq> dsChain ds"
    and "data_hashes (ssChannel st) ds \<noteq> []" and "dsChain ds' = Some t'"
  shows "VerifyChain True (ssChannel st) t' \<noteq> Inr True"
proof -
  obtain t where t: "dsChain ds = Some t" and ne: "filter is_data (channel_rows (ssChannel st) t) \<noteq> []"
    using assms(4) by (auto simp: data_hashes_def split: option.splits)
  have "previous_hash env (ssChannel st) ds = []" using assms(2) t by (simp add: previous_hash_def GetLastDataHash_def GetLastRecord_def)
  then obtain dh s where "dh \<noteq> []" "dsChain ds' = dsChain (record_data env (ssSender st) (ssChannel st) dh [] (dpSignature p) s ds)"
    using stream_recorded [OF assms(1)] assms(3) by auto
  then obtain i where t': "t' = t @ [(kernel_row (ssSender st) (ssChannel st) dh [] (dpSignature p) s (deNow env))\<lparr>brID := i\<rparr>]" and "dh \<noteq> []"
    using assms(3,5) t
    by (auto simp: record_data_def RecordDataHash_def InsertRecord_def AppendChainRecord_def split: if_splits)
  have "is_data (last (filter is_data (channel_rows (ssChannel st) t)))" using ne last_in_set [OF ne] by simp
  then have tip: "chain_tip brDataHash q (filter is_data (channel_rows (ssChannel st) t)) \<noteq> []" for q
    using ne by (simp add: chain_tip_def is_data_def)
  have "is_data (kernel_row (ssSender st) (ssChannel st) dh [] (dpSignature p) s (deNow env))"
    using \<open>dh \<noteq> []\<close> by (simp add: is_data_def)
  moreover have "channel_rows (ssChannel st) t' =
      channel_rows (ssChannel st) t @ [(kernel_row (ssSender st) (ssChannel st) dh [] (dpSignature p) s (deNow env))\<lparr>brID := i\<rparr>]"
    by (simp add: t' channel_rows_append)
  ultimately show ?thesis
    using tip [symmetric] by (simp add: VerifyChain_iff linked_append_one)
qed



text \<open>
  A packet of a participant that may not send is refused, but only after it was recorded: there is evidence that it was
  sent, and its hash is in the chain.
\<close>

theorem refused_stream_recorded:
  assumes "GetChannel (dpChannelID p) (dsManager ds) = Inr c" and "chStatus c = ChannelStatusActive" and "\<not> CanSend c (dpSenderID p)"
    and "kernel_works sha env" and "is_local (deKernelID env) (ssSender st)" and "dsChain ds = Some t"
  shows "\<exists>ds' out. stream_data env p st ds = Some (Inl (PushRefused (SenderNotAuthorized (dpSenderID p))), ds', out)
    \<and> data_hashes (ssChannel st) ds' = extended sha (dpPayload p) (data_hashes (ssChannel st) ds)
    \<and> (\<exists>sb. OutEvidence sb \<in> set out \<and> sbType sb = EventTypeDataSend \<and> sbSource sb = ssSender st)"
proof -
  define dh where "dh = data_hash (deSha env) (dpPayload p) (previous_hash env (ssChannel st) ds)"
  obtain s where s: "deSign env dh (dpSignature p) = Inr s"
    using assms(4) by (metis kernel_works_def sum.collapse(2))
  have push: "PushData um now cm c (stream_packet st d x p) = Some (Inl (SenderNotAuthorized (dpSenderID p)), c, cm, [])" for um now cm d x
    using refused_push [OF assms(2), of "stream_packet st d x p" um now cm] assms(3) by simp
  let ?ev = "stream_evidence env st c dh (determineDataCategory env (dpPayload p))"
  obtain ds' out where result: "stream_data env p st ds = Some (Inl (PushRefused (SenderNotAuthorized (dpSenderID p))), ds', out)"
    and ds': "ds' = (record_data env (ssSender st) (ssChannel st) dh (previous_hash env (ssChannel st) ds) (dpSignature p) s ds)
                    \<lparr>dsManager := put_channel (dpChannelID p) c (dsManager ds)\<rparr>"
    and out: "out = map OutEvidence ?ev"
    using assms(1,2,5) by (simp add: stream_data_def Let_def s [unfolded dh_def] push dh_def)
  have env: "deRead env" "deWrite env" "deSha env = sha" using assms(4) by (simp_all add: kernel_works_def)
  note ph = previous_hash_last [OF env(1), of "ssChannel st" ds]
  have "data_hashes (ssChannel st) ds' = extended sha (dpPayload p) (data_hashes (ssChannel st) ds)"
    using assms(6) env(2,3) by (simp add: ds' data_simps extended_def ph dh_def)
  moreover have "\<exists>sb. OutEvidence sb \<in> set out \<and> sbType sb = EventTypeDataSend \<and> sbSource sb = ssSender st"
    by (rule exI [of _ "hd ?ev"]) (simp add: out stream_evidence_def data_evidence_def)
  ultimately show ?thesis using result by blast
qed

text \<open>
  A packet for a channel that is not active is answered with success by the next kernel, which delivers it to nobody
  and records no reception, but enters its hash into the chain.
\<close>

theorem closed_forward_recorded:
  assumes "GetChannel (fdChannelId req) (dsManager ds) = Inr c" and "chStatus c \<noteq> ChannelStatusActive"
    and "\<not> dpIsAck (fdPacket req)" and "\<not> carries_control env (fdPacket req)" and "dpPayload (fdPacket req) \<noteq> []"
    and "kernel_works sha env" and "deKernelID env \<noteq> fdSourceKernelId req" and "fresh \<noteq> []" and "dsChain ds = Some t"
  shows "\<exists>ds' out. ForwardData env hops fresh req ds = Some (Inr (), ds', out)
    \<and> data_hashes (fdChannelId req) ds' = extended sha (dpPayload (fdPacket req)) (data_hashes (fdChannelId req) ds)
    \<and> (\<forall>sb. OutEvidence sb \<in> set out \<longrightarrow> sbType sb \<noteq> EventTypeDataReceive)"
proof -
  let ?q = "forwarded_packet env req"
  have "dpMessageType (?q f d) \<noteq> MessageTypeControl" for f d
    using assms(3,4) by (simp add: forwarded_packet_def Let_def forwarded_type_def message_type_defs)
  then have push: "PushData um now cm c (?q f d) = Some (Inl NotActive, c, cm, [])" for um now cm f d
    by (rule inactive_push [OF assms(2)])
  obtain ds' out where fwd: "ForwardData env hops fresh req ds = Some (Inr (), ds', out)"
    and out: "out = map OutEvidence (ack_evidence env req (forwarded_flow fresh (fdPacket req) (dsManager ds)))
                @ final_evidence env hops req (forwarded_flow fresh (fdPacket req) (dsManager ds))"
    using assms(1,5) by (simp add: ForwardData_def Let_def push is_end_packet_def)
  have "OutEvidence sb \<in> set out \<Longrightarrow> sbType sb \<noteq> EventTypeDataReceive" for sb
    using assms(3)
    by (auto simp: out ack_evidence_def final_evidence_def Let_def data_evidence_def EventTypeDataSend_def EventTypeDataReceive_def
        split: if_splits option.splits)
  moreover have "data_hashes (fdChannelId req) ds' = extended sha (dpPayload (fdPacket req)) (data_hashes (fdChannelId req) ds)"
    using ForwardData_hashes [OF fwd _ _ assms(8,7,3,5)] assms(6,9) by (simp add: kernel_works_def)
  ultimately show ?thesis using fwd by blast
qed

text \<open>
  An acknowledgement that is accepted names a receiver of an active channel and leaves exactly one record, of its
  arrival at the kernel; which connector sent it is not looked at.
\<close>

theorem send_ack_recorded:
  assumes "SendAck env a ds = Some (Inr u, ds', out)"
  shows "\<exists>c. GetChannel (apChannelId a) (dsManager ds) = Inr c \<and> chStatus c = ChannelStatusActive \<and> CanReceive c (apSenderId a)
    \<and> {sb. OutEvidence sb \<in> set out} = {data_evidence (deKernelID env) EventTypeAckReceived (apChannelId a) (apDataHash a) []
         (if GetCurrentFlowID c = [] then apFlowId a else GetCurrentFlowID c) ''business''}"
proof (cases "check_ack a (dsManager ds)")
  case (Inr cs)
  obtain c sender where cs: "cs = (c, sender)" by force
  have c: "GetChannel (apChannelId a) (dsManager ds) = Inr c" "chStatus c = ChannelStatusActive" "CanReceive c (apSenderId a)"
    using Inr cs by (auto simp: check_ack_def split: sum.splits if_splits option.splits)
  show ?thesis
    using assms Inr cs c by (auto simp: SendAck_def Let_def split: sum.splits option.splits prod.splits)
qed (use assms in \<open>simp add: SendAck_def\<close>)

section \<open>Witnesses\<close>

definition demo_denv :: "string \<Rightarrow> bool \<Rightarrow> data_env" where
  "demo_denv kid read =
     \<lparr> deSha = clSha256 demo_lib, deSign = (\<lambda>dh s. Inr ''s''), deUnmarshal = (\<lambda>_. None), deMessageType = (\<lambda>_. None),
       deAckBytes = (\<lambda>_. Some ''k''), deAckOf = (\<lambda>_. None), deNow = 0, deRead = read, deWrite = True, deKernelID = kid \<rparr>"

definition demo_dpacket :: "string \<Rightarrow> DataPacket" where
  "demo_dpacket who =
     \<lparr> dpChannelID = ''ch'', dpSequenceNumber = 1, dpPayload = ''x'', dpSignature = ''q'', dpTimestamp = 0, dpSenderID = who,
       dpSenderKernelID = [], dpTargetIDs = [], dpMessageType = [], dpFlowID = ''f'', dpIsFinal = False, dpDataHash = [],
       dpIsAck = False, dpAckEvidenceRecorded = False, dpAfterSent = None \<rparr>"

definition demo_dchannel :: "string list \<Rightarrow> string list \<Rightarrow> Channel" where
  "demo_dchannel ss rs = empty_channel\<lparr>chSenderIDs := ss, chReceiverIDs := rs\<rparr>"

definition demo_dstate :: "string \<Rightarrow> Channel \<Rightarrow> KernelChainRecord list \<Rightarrow> data_state" where
  "demo_dstate kid c t =
     \<lparr> dsManager = (NewChannelManager demo_evidence)\<lparr>cmKernelID := kid, cmForward := True, cmChannels := [(''ch'', c)]\<rparr>,
       dsChain = Some t \<rparr>"

definition demo_stream :: stream_state where
  "demo_stream = \<lparr> ssChannel = ''ch'', ssSender = ''a'', ssFlow = ''f'', ssCross = True, ssTarget = ''k2'' \<rparr>"

lemmas demo_data_defs = demo_denv_def demo_dpacket_def demo_dchannel_def demo_dstate_def demo_stream_def empty_channel_def
  NewChannelManager_def GetChannel_def PushData_def push_data_def push_allowed_def message_type_defs channel_status_defs
  CanSend_def can_send_as_def has_colon_def raw_id_def last_kernel_def make_plan_def empty_plan_def broadcast_target_def add_offline_def
  IsSubscribed_def IsConnectorOnline_def push_to_targets_def should_buffer_def CanReceive_def can_receive_as_def
  BufferDataForOfflineConnector_def

abbreviation demo_near :: data_state where
  "demo_near \<equiv> demo_dstate ''k1'' (demo_dchannel [''a''] [''k2:b'']) []"

abbreviation demo_far :: data_state where
  "demo_far \<equiv> demo_dstate ''k2'' (demo_dchannel [''k1:a''] [''b'']) []"

lemma demo_stream_data:
  "\<exists>ds' out q. stream_data (demo_denv ''k1'' True) (demo_dpacket ''a'') demo_stream demo_near = Some (Inr (), ds', out)
     \<and> OutEffect (Forward ''k2'' q False) \<in> set out \<and> dsChain ds' \<noteq> Some [] \<and> dsChain ds' \<noteq> None"
  by (simp add: stream_data_def Let_def demo_data_defs stream_packet_def is_local_def append_target_def forward_one_def next_hop_def
      after_sent_def kernel_part_def connector_part_def record_data_def RecordDataHash_def InsertRecord_def AppendChainRecord_def
      previous_hash_def GetLastDataHash_def GetLastRecord_def last_row_def channel_rows_def image_iff)

lemma demo_near_init: "data_init demo_near" "dsChain demo_near = Some []" "dsChain demo_far = Some []"
  by (simp_all add: data_init_def demo_dstate_def)


abbreviation demo_filled :: data_state where
  "demo_filled \<equiv> demo_dstate ''k1'' (demo_dchannel [''a''] [''k2:b'']) [kernel_row ''a'' ''ch'' ''h'' [] [] [] 0]"

theorem failed_read_breaks_chain_witness:
  "\<exists>ds' out t'. stream_data (demo_denv ''k1'' False) (demo_dpacket ''a'') demo_stream demo_filled = Some (Inr (), ds', out)
     \<and> dsChain ds' = Some t' \<and> VerifyChain True ''ch'' t' \<noteq> Inr True"
proof -
  have hs: "data_hashes (ssChannel demo_stream) demo_filled \<noteq> []"
    by (simp add: data_hashes_def demo_dstate_def demo_stream_def channel_rows_def is_data_def)
  have "\<exists>ds' out t'. stream_data (demo_denv ''k1'' False) (demo_dpacket ''a'') demo_stream demo_filled = Some (Inr (), ds', out)
     \<and> dsChain ds' = Some t' \<and> dsChain ds' \<noteq> dsChain demo_filled"
    by (simp add: stream_data_def Let_def demo_data_defs stream_packet_def is_local_def append_target_def forward_one_def next_hop_def
        after_sent_def kernel_part_def connector_part_def record_data_def RecordDataHash_def InsertRecord_def AppendChainRecord_def)
  then obtain ds' out t' where s: "stream_data (demo_denv ''k1'' False) (demo_dpacket ''a'') demo_stream demo_filled = Some (Inr (), ds', out)"
    and t: "dsChain ds' = Some t'" "dsChain ds' \<noteq> dsChain demo_filled" by blast
  have "VerifyChain True (ssChannel demo_stream) t' \<noteq> Inr True"
    by (rule failed_read_breaks_chain [OF s _ t(2) hs t(1)]) (simp add: demo_denv_def)
  with s t(1) show ?thesis by (auto simp: demo_stream_def)
qed

lemma demo_works: "kernel_works (clSha256 demo_lib) (demo_denv kid True)"
  by (simp add: kernel_works_def demo_denv_def)

definition demo_sent :: DataPacket where
  "demo_sent = stream_packet demo_stream (data_hash (clSha256 demo_lib) ''x'' []) ''s'' (demo_dpacket ''a'')"

lemma demo_stream_sent:
  "\<exists>ds' out. stream_data (demo_denv ''k1'' True) (demo_dpacket ''a'') demo_stream demo_near = Some (Inr (), ds', out)
     \<and> OutEffect (Forward ''k2'' demo_sent False) \<in> set out"
  by (simp add: stream_data_def Let_def demo_data_defs stream_packet_def is_local_def append_target_def forward_one_def next_hop_def
      after_sent_def kernel_part_def connector_part_def demo_sent_def out_packet_def
      previous_hash_def GetLastDataHash_def GetLastRecord_def last_row_def channel_rows_def image_iff)

lemma demo_forward_data:
  "\<exists>ds' out. ForwardData (demo_denv ''k2'' True) None ''g'' (forward_request ''k1'' demo_sent False) demo_far = Some (Inr (), ds', out)"
  by (simp add: ForwardData_def Let_def forward_request_def wire_packet_def demo_sent_def stream_packet_def forwarded_packet_def
      forwarded_type_def carries_control_def demo_data_defs is_end_packet_def)



theorem refused_stream_recorded_witness:
  "\<exists>ds' out. stream_data (demo_denv ''k1'' True) (demo_dpacket ''b'') (demo_stream\<lparr>ssSender := ''b''\<rparr>) demo_near
       = Some (Inl (PushRefused (SenderNotAuthorized ''b'')), ds', out)
     \<and> data_hashes ''ch'' ds' \<noteq> []"
proof -
  let ?c = "demo_dchannel [''a''] [''k2:b'']" and ?p = "demo_dpacket ''b''"
  have "GetChannel (dpChannelID ?p) (dsManager demo_near) = Inr ?c" "chStatus ?c = ChannelStatusActive" "\<not> CanSend ?c (dpSenderID ?p)"
    "is_local (deKernelID (demo_denv ''k1'' True)) (ssSender (demo_stream\<lparr>ssSender := ''b''\<rparr>))"
    by (simp_all add: demo_data_defs is_local_def)
  from refused_stream_recorded [OF this(1-3) demo_works this(4) demo_near_init(2)]
  show ?thesis by (fastforce simp: demo_stream_def demo_dpacket_def extended_def)
qed

theorem closed_forward_recorded_witness:
  "\<exists>ds' out. ForwardData (demo_denv ''k2'' True) None ''g'' (forward_request ''k1'' demo_sent False)
       (demo_dstate ''k2'' (demo_dchannel [''k1:a''] [''b''] \<lparr>chStatus := ChannelStatusClosed\<rparr>) []) = Some (Inr (), ds', out)
     \<and> data_hashes ''ch'' ds' \<noteq> []"
proof -
  let ?c = "demo_dchannel [''k1:a''] [''b''] \<lparr>chStatus := ChannelStatusClosed\<rparr>" and ?req = "forward_request ''k1'' demo_sent False"
  let ?s = "demo_dstate ''k2'' ?c []"
  have sent: "dpChannelID demo_sent = ''ch''" "dpPayload demo_sent = ''x''" "\<not> dpIsAck demo_sent"
    by (simp_all add: demo_sent_def stream_packet_def demo_dpacket_def)
  have "GetChannel (fdChannelId ?req) (dsManager ?s) = Inr ?c" "chStatus ?c \<noteq> ChannelStatusActive" "\<not> dpIsAck (fdPacket ?req)"
    "\<not> carries_control (demo_denv ''k2'' True) (fdPacket ?req)" "dpPayload (fdPacket ?req) \<noteq> []"
    "deKernelID (demo_denv ''k2'' True) \<noteq> fdSourceKernelId ?req" "dsChain ?s = Some []"
    by (simp_all add: sent forward_request_def wire_packet_def demo_dstate_def GetChannel_def carries_control_def demo_denv_def)
  from closed_forward_recorded [OF this(1-5) demo_works this(6) _ this(7), of "''g''" None] show ?thesis by (fastforce simp: extended_def sent forward_request_def)
qed

definition demo_ack :: AckPacket where
  "demo_ack = \<lparr> apChannelId = ''ch'', apDataHash = ''h'', apSenderId = ''b'', apSignature = ''q'', apFlowId = ''f'' \<rparr>"

theorem send_ack_recorded_witness:
  "\<exists>ds' out sb. SendAck (demo_denv ''k2'' True) demo_ack demo_far = Some (Inr (), ds', out) \<and> OutEvidence sb \<in> set out"
proof -
  have "\<exists>ds' out. SendAck (demo_denv ''k2'' True) demo_ack demo_far = Some (Inr (), ds', out)"
    by (simp add: SendAck_def Let_def check_ack_def demo_ack_def IsParticipant_def GetCurrentFlowID_def ack_packet_def GetOriginKernelID_def
        demo_data_defs qualify_def kernel_part_def connector_part_def directed_target_def append_target_def ack_route_def after_sent_def
        forward_one_def next_hop_def)
  then obtain ds' out where s: "SendAck (demo_denv ''k2'' True) demo_ack demo_far = Some (Inr (), ds', out)" by blast
  from send_ack_recorded [OF s] have "{sb. OutEvidence sb \<in> set out} \<noteq> {}" by auto
  with s show ?thesis by blast
qed

end
