(* ===== verification/Cross_Kernel.thy ===== *)
theory Cross_Kernel
  imports Channel_Service
begin

text \<open>
  Channels across kernels (\<^verbatim>\<open>kernel/server/kernel_service.go\<close>): \<^verbatim>\<open>CreateCrossKernelChannel\<close> proposes a channel and
  tells the other kernels, which fetch it with \<^verbatim>\<open>GetCrossKernelChannelInfo\<close>; and what kernels tell each other of their
  connectors and permission requests.  No handler of this service looks at a certificate.

  A participant on the wire is a pair of kernel and connector.  \<open>remote_env\<close> says which kernels can be reached and which
  calls succeed.
\<close>

declare map_of_eq_Some_iff [simp del]

section \<open>Proposing across kernels\<close>

type_synonym participant = "string \<times> string"

record CrossKernelRequest =
  ckCreatorKernelId :: string
  ckCreatorConnectorId :: string
  ckSenderIds :: "participant list"
  ckReceiverIds :: "participant list"
  ckDataTopic :: string
  ckEncrypted :: bool
  ckEvidenceConfig :: "EvidenceConfig option"
  ckReason :: string

datatype cross_error =
  LocalMissing string | CrossProposeFailed channel_error | RemoteNotConnected string | RemoteUnnotified string
| RemoteRejected string

type_synonym cross_result = "(cross_error + string) \<times> ChannelManager \<times> NotificationManager \<times> notice list"

definition missing_local :: "string \<Rightarrow> registry \<Rightarrow> participant list \<Rightarrow> string option" where
  "missing_local kid reg ps =
     map_option snd (find (\<lambda>(k, i). (k = [] \<or> k = kid) \<and> isl (GetConnector i reg)) ps)"

text \<open>Identifiers: bare for connectors of the receiving kernel, always qualified on the proposing one.\<close>

definition incoming_id :: "string \<Rightarrow> participant \<Rightarrow> string" where
  "incoming_id kid = (\<lambda>(k, i). if k \<noteq> [] \<and> k \<noteq> kid then qualify k i else i)"

definition outgoing_id :: "string \<Rightarrow> participant \<Rightarrow> string" where
  "outgoing_id kid = (\<lambda>(k, i). if k \<noteq> [] then qualify k i else qualify kid i)"

definition propose_cross ::
    "time \<Rightarrow> string \<Rightarrow> string \<Rightarrow> (participant \<Rightarrow> string) \<Rightarrow> CrossKernelRequest \<Rightarrow> ChannelManager \<Rightarrow>
     (channel_error + Channel) \<times> ChannelManager" where
  "propose_cross now cid pid f req cm =
     ProposeChannel now cid pid (ckCreatorConnectorId req) (ckCreatorConnectorId req) (map f (ckSenderIds req))
       (map f (ckReceiverIds req)) (ckDataTopic req) (ckEncrypted req) (ckEvidenceConfig req) [] (ckReason req) 300 cm"

text \<open>A receiver without kernel is mapped to the own kernel, a sender without kernel is not mapped.\<close>

definition map_receivers :: "string \<Rightarrow> string list \<Rightarrow> Channel \<Rightarrow> Channel" where
  "map_receivers kid ids c =
     foldl (\<lambda>c i. if has_colon i then SetRemoteReceiver (connector_part i) (kernel_part i) c else SetRemoteReceiver i kid c) c ids"

definition map_participants :: "string \<Rightarrow> Channel \<Rightarrow> Channel" where
  "map_participants kid c = map_remote (chSenderIDs c) (map_receivers kid (chReceiverIDs c) c)"

definition notify_locals ::
    "(nat \<Rightarrow> NotificationManager \<Rightarrow> NotificationManager) \<Rightarrow> string list \<Rightarrow> ChannelNotification \<Rightarrow> NotificationManager \<Rightarrow> NotificationManager" where
  "notify_locals others ids n nm = foldl (\<lambda>nm i. if has_colon i then nm else snd (Notify others i n nm)) nm ids"

text \<open>The call of another kernel: a proposal of its own with a new identifier, and its connectors are notified.\<close>

definition incoming_proposal ::
    "time \<Rightarrow> string \<Rightarrow> string \<Rightarrow> (nat \<Rightarrow> NotificationManager \<Rightarrow> NotificationManager) \<Rightarrow> string \<Rightarrow> registry \<Rightarrow>
     CrossKernelRequest \<Rightarrow> ChannelManager \<Rightarrow> NotificationManager \<Rightarrow> cross_result" where
  "incoming_proposal now cid pid others kid reg req cm nm =
     (case missing_local kid reg (ckSenderIds req @ ckReceiverIds req) of
        Some i \<Rightarrow> (Inl (LocalMissing i), cm, nm, [])
      | None \<Rightarrow>
          (case propose_cross now cid pid (incoming_id kid) req cm of
             (Inl e, cm') \<Rightarrow> (Inl (CrossProposeFailed e), cm', nm, [])
           | (Inr c, cm') \<Rightarrow>
               (Inr [], put_channel cid (map_participants kid c) cm',
                notify_locals others (chReceiverIDs c @ chSenderIDs c) (proposed_notification c NegotiationStatusProposed None pid) nm, [])))"

definition accepted_meta :: "string \<Rightarrow> Channel \<Rightarrow> string" where
  "accepted_meta kid c =
     (case chProposal c of
        None \<Rightarrow> kid @ ''|ACCEPTED''
      | Some p \<Rightarrow> if prProposalID p \<noteq> [] then kid @ ''|'' @ prProposalID p @ ''|ACCEPTED'' else kid @ ''|ACCEPTED'')"

fun tell_targets :: "remote_env \<Rightarrow> string \<Rightarrow> Channel \<Rightarrow> string \<Rightarrow> string list \<Rightarrow> bool \<times> notice list" where
  "tell_targets env kid c k [] = (True, [])"
| "tell_targets env kid c k (i # is) =
     (let r = \<lparr> nrReceiverId = i, nrChannelId = chID c, nrSenderId = accepted_meta kid c, nrDataTopic = chDataTopic c \<rparr>
      in if reCall env k r then (case tell_targets env kid c k is of (ok, out) \<Rightarrow> (ok, RemoteNotify k r # out))
         else (False, [RemoteNotify k r]))"

definition targets_of :: "string \<Rightarrow> participant list \<Rightarrow> string list" where
  "targets_of k ps = map snd (filter (\<lambda>(q, i). q = k \<and> i \<noteq> []) ps)"

definition other_kernels :: "string \<Rightarrow> participant list \<Rightarrow> string list" where
  "other_kernels kid ps = remdups (filter (\<lambda>k. k \<noteq> [] \<and> k \<noteq> kid) (map fst ps))"

fun tell_kernels :: "remote_env \<Rightarrow> string \<Rightarrow> Channel \<Rightarrow> participant list \<Rightarrow> string list \<Rightarrow> cross_error option \<times> notice list" where
  "tell_kernels env kid c ps [] = (None, [])"
| "tell_kernels env kid c ps (k # ks) =
     (if \<not> reConn env k then (Some (RemoteNotConnected k), [])
      else if targets_of k ps = [] then tell_kernels env kid c ps ks
      else if \<not> reIdentity env k then (Some (RemoteUnnotified k), [])
      else case tell_targets env kid c k (targets_of k ps) of
             (False, out) \<Rightarrow> (Some (RemoteRejected k), out)
           | (True, out) \<Rightarrow> (case tell_kernels env kid c ps ks of (e, out') \<Rightarrow> (e, out @ out')))"

text \<open>A failure is followed by a rejection of the proposal in the name of the creator, whose result is not looked at.\<close>

definition outgoing_proposal ::
    "time \<Rightarrow> string \<Rightarrow> string \<Rightarrow> remote_env \<Rightarrow> string \<Rightarrow> registry \<Rightarrow> CrossKernelRequest \<Rightarrow> ChannelManager \<Rightarrow>
     NotificationManager \<Rightarrow> cross_result" where
  "outgoing_proposal now cid pid env kid reg req cm nm =
     (let ps = ckSenderIds req @ ckReceiverIds req
      in case missing_local kid reg ps of
           Some i \<Rightarrow> (Inl (LocalMissing i), cm, nm, [])
         | None \<Rightarrow>
             (case propose_cross now cid pid (outgoing_id kid) req cm of
                (Inl e, cm') \<Rightarrow> (Inl (CrossProposeFailed e), cm', nm, [])
              | (Inr c, cm') \<Rightarrow>
                  (let c1 = map_participants kid c; cm1 = put_channel cid c1 cm'
                   in case tell_kernels env kid c1 ps (other_kernels kid ps) of
                        (None, out) \<Rightarrow> (Inr cid, cm1, nm, out)
                      | (Some e, out) \<Rightarrow> (Inl e, snd (RejectChannelProposal now cid (ckCreatorConnectorId req) cm1), nm, out))))"

definition CreateCrossKernelChannel ::
    "time \<Rightarrow> string \<Rightarrow> string \<Rightarrow> remote_env \<Rightarrow> (nat \<Rightarrow> NotificationManager \<Rightarrow> NotificationManager) \<Rightarrow> string \<Rightarrow> registry \<Rightarrow>
     CrossKernelRequest \<Rightarrow> ChannelManager \<Rightarrow> NotificationManager \<Rightarrow> cross_result" where
  "CreateCrossKernelChannel now cid pid env others kid reg req cm nm =
     (if ckCreatorKernelId req \<noteq> [] \<and> ckCreatorKernelId req \<noteq> kid
      then incoming_proposal now cid pid others kid reg req cm nm
      else outgoing_proposal now cid pid env kid reg req cm nm)"

section \<open>Telling other kernels\<close>

record cross_info = channel_info +
  ccCreatorKernel :: string
  ccStatus :: channel_status
  ccCreatedAt :: int
  ccLastActivity :: int
  ccNegotiation :: "NegotiationStatus option"

definition split_participant :: "string \<Rightarrow> string \<Rightarrow> participant" where
  "split_participant kid i = (if has_colon i then (kernel_part i, connector_part i) else (kid, i))"

definition channelStatusToProto :: "channel_status \<Rightarrow> NegotiationStatus option" where
  "channelStatusToProto st =
     (if st = ChannelStatusProposed then Some NegotiationStatusProposed
      else if st = ChannelStatusActive then Some NegotiationStatusAccepted
      else if st = ChannelStatusClosed then Some NegotiationStatusRejected else None)"

definition GetCrossKernelChannelInfo :: "string \<Rightarrow> string \<Rightarrow> ChannelManager \<Rightarrow> cross_info option" where
  "GetCrossKernelChannelInfo kid ch cm =
     (case GetChannel ch cm of
        Inl e \<Rightarrow> None
      | Inr c \<Rightarrow>
          Some \<lparr> ciCreator = chCreatorID c, ciSenders = map (split_participant kid) (chSenderIDs c),
                 ciReceivers = map (split_participant kid) (chReceiverIDs c), ciDataTopic = chDataTopic c,
                 ciEncrypted = chEncrypted c, ccCreatorKernel = kid, ccStatus = chStatus c, ccCreatedAt = unix (chCreatedAt c),
                 ccLastActivity = unix (chLastActivity c), ccNegotiation = channelStatusToProto (chStatus c) \<rparr>)"

text \<open>Connectors of other kernels enter the registry under their bare name.\<close>

record remote_connector =
  rnConnectorId :: string
  rnEntityType :: string
  rnPublicKey :: string
  rnStatus :: string
  rnExposed :: bool
  rnDataCatalog :: "string list"
  rnDataCatalogItems :: "DataCatalogItem list"

definition sync_connector :: "time \<Rightarrow> nat \<times> registry \<Rightarrow> remote_connector \<Rightarrow> nat \<times> registry" where
  "sync_connector now = (\<lambda>(n, reg) i.
     if rnConnectorId i = [] then (n, reg)
     else case Register now (rnConnectorId i) (rnEntityType i) (rnPublicKey i) [] (rnExposed i) (rnDataCatalog i)
                 (if rnDataCatalogItems i = [] then None else Some (rnDataCatalogItems i)) reg of
            Inl e \<Rightarrow> (n, reg)
          | Inr reg1 \<Rightarrow>
              (Suc n, if rnStatus i = [] then reg1
                      else case SetStatus (rnConnectorId i) (rnStatus i) reg1 of Inl e \<Rightarrow> reg1 | Inr reg2 \<Rightarrow> reg2))"

definition SyncConnectorInfo :: "time \<Rightarrow> remote_connector list \<Rightarrow> registry \<Rightarrow> nat \<times> registry" where
  "SyncConnectorInfo now is reg = foldl (sync_connector now) (0, reg) is"

text \<open>\<open>None\<close> waits for the lock of the channel's requests; the requester entered into the channel is the source kernel.\<close>

definition SyncPermissionRequest ::
    "time \<Rightarrow> string \<Rightarrow> RemotePermissionRequest option \<Rightarrow> MultiKernelManager \<Rightarrow> ChannelManager \<Rightarrow>
     (bool \<times> MultiKernelManager \<times> ChannelManager) option" where
  "SyncPermissionRequest now ch req mk cm =
     (if ch = [] then Some (False, mk, cm)
      else case req of
             None \<Rightarrow> Some (False, mk, cm)
           | Some r \<Rightarrow>
               (let mk' = AddRemotePermissionRequest r mk
                in case GetChannel ch cm of
                     Inl e \<Rightarrow> Some (True, mk', cm)
                   | Inr c \<Rightarrow>
                       map_option (\<lambda>c'. (True, mk', put_channel ch c' cm))
                         (StorePermissionRequestFromRemote now
                            \<lparr> pmRequestID = rpRequestID r, pmChannelID = rpChannelID r, pmChangeType = rpChangeType r,
                              pmTargetID = rpTargetID r, pmReason = rpReason r \<rparr> (rpSourceKernelID r) c)))"

definition GetRemotePermissionRequests_handler :: "string \<Rightarrow> MultiKernelManager \<Rightarrow> RemotePermissionRequest list option" where
  "GetRemotePermissionRequests_handler ch mk = (if ch = [] then None else Some (GetRemotePermissionRequests mk ch))"

section \<open>Lemmas\<close>

lemma map_receivers_frame: "\<exists>rr. map_receivers kid ids c = c\<lparr>chRemoteReceivers := rr\<rparr>"
proof (induction ids arbitrary: c)
  case (Cons i ids)
  let ?c = "if has_colon i then SetRemoteReceiver (connector_part i) (kernel_part i) c else SetRemoteReceiver i kid c"
  obtain rr where "map_receivers kid ids ?c = ?c\<lparr>chRemoteReceivers := rr\<rparr>" using Cons by blast
  then show ?case by (auto simp: map_receivers_def SetRemoteReceiver_def intro: exI [of _ rr])
next
  case Nil
  show ?case by (rule exI [of _ "chRemoteReceivers c"]) (simp add: map_receivers_def)
qed

lemma map_participants_frame: "\<exists>rr. map_participants kid c = c\<lparr>chRemoteReceivers := rr\<rparr>"
proof -
  obtain r1 where "map_receivers kid (chReceiverIDs c) c = c\<lparr>chRemoteReceivers := r1\<rparr>" using map_receivers_frame by blast
  moreover obtain r2 where "map_remote (chSenderIDs c) (c\<lparr>chRemoteReceivers := r1\<rparr>) = (c\<lparr>chRemoteReceivers := r1\<rparr>)\<lparr>chRemoteReceivers := r2\<rparr>"
    using map_remote_frame by blast
  ultimately show ?thesis unfolding map_participants_def by (intro exI [of _ r2]) simp
qed

text \<open>What two kernels must agree on.\<close>

definition same_deal :: "Channel \<Rightarrow> Channel \<Rightarrow> bool" where
  "same_deal c d \<longleftrightarrow> chID c = chID d \<and> chCreatorID c = chCreatorID d \<and> chSenderIDs c = chSenderIDs d
     \<and> chReceiverIDs c = chReceiverIDs d \<and> chDataTopic c = chDataTopic d \<and> chEncrypted c = chEncrypted d"

lemma same_deal_refl [simp]: "same_deal c c"
  by (simp add: same_deal_def)

lemma same_deal_trans: "same_deal c d \<Longrightarrow> same_deal d e \<Longrightarrow> same_deal c e"
  by (simp add: same_deal_def)

lemma same_deal_updates [simp]:
  "same_deal c (c\<lparr>chRemoteReceivers := rr\<rparr>)" "same_deal c (c\<lparr>chProposal := pr\<rparr>)" "same_deal c (activate now p c)"
  by (simp_all add: same_deal_def activate_def)

lemma same_deal_maps [simp]: "same_deal c (map_remote ids c)" "same_deal c (map_participants kid c)"
  using map_remote_frame [of ids c] map_participants_frame [of kid c] by auto

text \<open>Nobody but the creator has approved.\<close>

definition own_only :: "string \<Rightarrow> ChannelProposal \<Rightarrow> bool" where
  "own_only w p \<longleftrightarrow> (\<forall>i. go_get (prSenderApprovals p) i = Some True \<longrightarrow> is_self w i)
     \<and> (\<forall>i. go_get (prReceiverApprovals p) i = Some True \<longrightarrow> is_self w i)"

lemma propose_cross_result:
  assumes "propose_cross now cid pid f req cm = (Inr c, cm')"
  shows "chID c = cid" "chCreatorID c = ckCreatorConnectorId req" "chSenderIDs c = map f (ckSenderIds req)"
    "chReceiverIDs c = map f (ckReceiverIds req)" "chDataTopic c = ckDataTopic req" "chEncrypted c = ckEncrypted req"
    "chStatus c = ChannelStatusProposed" "ckCreatorConnectorId req \<noteq> []" "chSenderIDs c \<noteq> []" "chReceiverIDs c \<noteq> []"
    "\<exists>p. chProposal c = Some p \<and> prProposalID p = pid \<and> own_only (ckCreatorConnectorId req) p"
  using assms by (auto simp: propose_cross_def own_only_def ProposeChannel_def Let_def fresh_channel_def new_proposal_def chan_simps split: option.splits)

lemma tell_targets_notices:
  "RemoteNotify k' r \<in> set (snd (tell_targets env kid c k is)) \<Longrightarrow>
     nrChannelId r = chID c \<and> nrSenderId r = accepted_meta kid c \<and> nrDataTopic r = chDataTopic c"
proof (induction "is")
  case (Cons i "is")
  then show ?case
    by (cases "tell_targets env kid c k is") (auto simp: Let_def split: if_splits)
qed simp

lemma tell_kernels_notices:
  "RemoteNotify k r \<in> set (snd (tell_kernels env kid c ps ks)) \<Longrightarrow>
     nrChannelId r = chID c \<and> nrSenderId r = accepted_meta kid c \<and> nrDataTopic r = chDataTopic c"
proof (induction ks)
  case (Cons q qs)
  obtain ok out where t: "tell_targets env kid c q (targets_of q ps) = (ok, out)" by force
  obtain e out' where k: "tell_kernels env kid c ps qs = (e, out')" by force
  show ?case
    using Cons tell_targets_notices [of k r env kid c q "targets_of q ps"] by (auto simp: t k split: if_splits bool.splits)
qed simp

text \<open>Unwinding a notice that comes with the acceptance of the origin.\<close>

lemma parse_accepted:
  assumes "CHR ''|'' \<notin> set kid" and "CHR ''|'' \<notin> set pid" and "pid \<noteq> []" and "chProposal c = Some p" and "prProposalID p = pid"
  shows "parse_sender (accepted_meta kid c) = (kid, pid, ''ACCEPTED'')"
  using assms by (simp add: parse_sender_def accepted_meta_def split_bar_def takeWhile_sep dropWhile_sep)

text \<open>The approvals of kernel \<open>k\<close> were added, and no others.\<close>

definition vouched :: "string \<Rightarrow> ChannelProposal \<Rightarrow> ChannelProposal \<Rightarrow> bool" where
  "vouched k p q \<longleftrightarrow> prProposalID q = prProposalID p
     \<and> (\<forall>i. go_get (prSenderApprovals q) i = map_option (\<lambda>ok. ok \<or> prefix (k @ '':'') i) (go_get (prSenderApprovals p) i))
     \<and> (\<forall>i. go_get (prReceiverApprovals q) i = map_option (\<lambda>ok. ok \<or> prefix (k @ '':'') i) (go_get (prReceiverApprovals p) i))"

lemma vouched_origin: "vouched k p (approve_origin k p)"
  by (simp add: vouched_def approve_origin_def chan_simps)

lemma vouched_participants:
  assumes "proposal_ok c p"
  shows "vouched k p (approve_participants k c (approve_origin k p))"
proof -
  have "i \<in> set (chSenderIDs c) \<Longrightarrow> \<exists>ok. go_get (prSenderApprovals p) i = Some ok"
    "i \<in> set (chReceiverIDs c) \<Longrightarrow> \<exists>ok. go_get (prReceiverApprovals p) i = Some ok" for i
    using assms by (auto simp: proposal_ok_def)
  then show ?thesis by (fastforce simp: vouched_def approve_participants_def approve_origin_def chan_simps)
qed

lemma vouched_status: "vouched k p q \<Longrightarrow> vouched k p (q\<lparr>prStatus := st\<rparr>)"
  by (simp add: vouched_def)

lemma accepted_placeholder_view:
  assumes "accepted_placeholder nn now kid k ch c p cm nm = (r, cm', nm', evs, ts, out)" and "proposal_ok c p"
  shows "\<exists>d q. GetChannel ch cm' = Inr d \<and> same_deal c d \<and> chProposal d = Some q \<and> vouched k p q"
proof -
  have act: "chProposal (activate now q c) = Some (q\<lparr>prStatus := NegotiationStatusAccepted\<rparr>)" for q by (simp add: activate_def)
  show ?thesis
    using assms(1) vouched_origin [of k p] vouched_participants [OF assms(2), of k] vouched_status
    by (fastforce simp: accepted_placeholder_def Let_def act split: prod.splits if_splits)
qed

lemma notice_tail_told:
  assumes "notice_tail nn now kid k ch st True rcv mk cm nm evs out = (r, (cm', mk', nm'), evs', ts', out')" and "GetChannel ch cm = Inr c"
  shows "cm' = put_channel ch (map_remote (GetParticipants c) c) cm"
  using assms by (auto simp: notice_tail_def split: prod.splits dest!: final_notice_result)

lemma outgoing_success:
  assumes "CreateCrossKernelChannel now cid pid env others kid reg req cm nm = (Inr ch, cm', nm', out)"
    and "ckCreatorKernelId req = [] \<or> ckCreatorKernelId req = kid"
  obtains c where "chID c = cid" "chSenderIDs c = map (outgoing_id kid) (ckSenderIds req)" "chReceiverIDs c = map (outgoing_id kid) (ckReceiverIds req)"
    "chCreatorID c = ckCreatorConnectorId req" "ckCreatorConnectorId req \<noteq> []" "chSenderIDs c \<noteq> []" "chReceiverIDs c \<noteq> []"
    "GetChannel cid cm' = Inr c" "\<exists>p. chProposal c = Some p \<and> prProposalID p = pid \<and> own_only (ckCreatorConnectorId req) p"
    "\<And>k r. RemoteNotify k r \<in> set out \<Longrightarrow> nrChannelId r = cid \<and> nrSenderId r = accepted_meta kid c"
proof -
  obtain c cm1 where p: "propose_cross now cid pid (outgoing_id kid) req cm = (Inr c, cm1)"
    and cm': "cm' = put_channel cid (map_participants kid c) cm1"
    and t: "tell_kernels env kid (map_participants kid c) (ckSenderIds req @ ckReceiverIds req)
      (other_kernels kid (ckSenderIds req @ ckReceiverIds req)) = (None, out)"
    using assms by (auto simp: CreateCrossKernelChannel_def outgoing_proposal_def Let_def split: option.splits sum.splits prod.splits)
  obtain rr where rr: "map_participants kid c = c\<lparr>chRemoteReceivers := rr\<rparr>" using map_participants_frame by blast
  have notices: "RemoteNotify k r \<in> set out \<Longrightarrow> nrChannelId r = cid \<and> nrSenderId r = accepted_meta kid (map_participants kid c)" for k r
    using tell_kernels_notices [of k r env kid "map_participants kid c" "ckSenderIds req @ ckReceiverIds req"
        "other_kernels kid (ckSenderIds req @ ckReceiverIds req)"] t propose_cross_result(1) [OF p]
    by (simp add: rr)
  show thesis
    by (rule that [of "map_participants kid c"])
      (use propose_cross_result [OF p] notices in \<open>auto simp: rr cm'\<close>)
qed

text \<open>The participants of a channel come back from the wire as they were.\<close>

lemma participant_round_trip:
  assumes "has_colon i" and "kernel_part i \<noteq> []"
  shows "participant_id (split_participant kid i) = i"
  using assms qualify_parts [OF assms(1)] by (simp add: participant_id_def split_participant_def)

lemma outgoing_id_parts:
  assumes "kid \<noteq> []" and "\<not> has_colon kid" and "\<not> has_colon (fst p)"
  shows "has_colon (outgoing_id kid p)" and "kernel_part (outgoing_id kid p) \<noteq> []"
  using assms by (auto simp: outgoing_id_def kernel_part_qualify split: prod.splits if_splits)

lemma map_remote_keeps_deal [simp]:
  "chCreatorID (map_remote ids c) = chCreatorID c" "chDataTopic (map_remote ids c) = chDataTopic c"
  "chEncrypted (map_remote ids c) = chEncrypted c"
  using map_remote_frame [of ids c] by auto

lemma placeholder_view:
  assumes "placeholder now fresh ch pid info cm = Inr c" and "pid \<noteq> []"
  shows "chID c = ch \<and> chCreatorID c = ciCreator info \<and> chSenderIDs c = map participant_id (ciSenders info)
    \<and> chReceiverIDs c = map participant_id (ciReceivers info) \<and> chDataTopic c = ciDataTopic info \<and> chEncrypted c = ciEncrypted info
    \<and> (\<exists>p. chProposal c = Some p \<and> prProposalID p = pid)"
  using assms by (auto simp: placeholder_def CreateChannelWithID_def Let_def fresh_channel_def split: if_splits)

lemma placeholder_succeeds:
  "GetChannel ch cm = Inl e \<Longrightarrow> ch \<noteq> [] \<Longrightarrow> ciCreator info \<noteq> [] \<Longrightarrow> ciSenders info \<noteq> [] \<Longrightarrow> ciReceivers info \<noteq> [] \<Longrightarrow>
   \<exists>c. placeholder now fresh ch pid info cm = Inr c"
  by (auto simp: placeholder_def CreateChannelWithID_def Let_def GetChannel_def split: option.splits)

text \<open>A notice about an unknown channel whose origin is connected and answers.\<close>

lemma notice_new:
  assumes "NotifyChannelCreated nn now fresh req (cm, mk, nm) = (r, (cm', mk', nm'), evs, ts, out)"
    and "GetChannel (nrChannelId req) cm = Inl e" and "nrChannelId req \<noteq> []"
    and "parse_sender (nrSenderId req) = (k, pid, ''ACCEPTED'')" and "k \<noteq> []" and "pid \<noteq> []"
    and "go_get (mkKernels mk) k = Some i" and "kiClient i" and "kiConn i" and "nnFetch nn k (nrChannelId req) = Some info"
    and "ciCreator info \<noteq> []" and "ciSenders info \<noteq> []" and "ciReceivers info \<noteq> []"
  shows "\<exists>c p d q. placeholder now fresh (nrChannelId req) pid info cm = Inr c \<and> chProposal c = Some p
    \<and> GetChannel (nrChannelId req) cm' = Inr d \<and> same_deal c d \<and> chProposal d = Some q \<and> vouched k p q
    \<and> proposal_ok c p"
proof -
  let ?ch = "nrChannelId req" and ?kid = "mkKernelID mk"
  obtain c where c: "placeholder now fresh ?ch pid info cm = Inr c"
    using placeholder_succeeds [OF assms(2,3,11-13)] by blast
  obtain p where p: "chProposal c = Some p" "proposal_ok c p"
    using placeholder_ok [OF c] by (auto simp: channel_ok_def)
  obtain ro cm1 nm1 evs1 ts1 out1 where st: "accepted_placeholder nn now ?kid k ?ch c p cm nm = (ro, cm1, nm1, evs1, ts1, out1)"
    by (metis prod.collapse)
  obtain d q where d: "GetChannel ?ch cm1 = Inr d" "same_deal c d" "chProposal d = Some q" "vouched k p q"
    using accepted_placeholder_view [OF st p(2)] by blast
  have tail: "(case ro of Some r \<Rightarrow> (r, (cm1, mk, nm1), evs1, ts1, out1)
      | None \<Rightarrow> notice_tail nn now ?kid k ?ch ''ACCEPTED'' True (nrReceiverId req) mk cm1 nm1 evs1 out1) = (r, (cm', mk', nm'), evs, ts, out)"
    using assms(1,2,4-10) c p(1) by (auto simp: NotifyChannelCreated_def placeholder_notice_def origin_connected_def Let_def st split: option.splits)
  have "cm' = cm1 \<or> cm' = put_channel ?ch (map_remote (GetParticipants d) d) cm1"
    using tail notice_tail_told [OF _ d(1)] by (cases ro) auto
  then show ?thesis using c p d same_deal_trans [OF d(2)] by fastforce
qed

text \<open>Every participant of kernel \<open>k\<close> counts as having approved.\<close>

definition vouches_for :: "string \<Rightarrow> Channel \<Rightarrow> ChannelProposal \<Rightarrow> bool" where
  "vouches_for k c q \<longleftrightarrow>
     (\<forall>i \<in> set (chSenderIDs c). prefix (k @ '':'') i \<longrightarrow> go_get (prSenderApprovals q) i = Some True)
     \<and> (\<forall>i \<in> set (chReceiverIDs c). prefix (k @ '':'') i \<longrightarrow> go_get (prReceiverApprovals q) i = Some True)"

lemma vouched_vouches: "vouched k p q \<Longrightarrow> proposal_ok c p \<Longrightarrow> vouches_for k c q"
  by (fastforce simp: vouched_def vouches_for_def proposal_ok_def)

lemma outgoing_round_trip:
  assumes "kid \<noteq> []" and "\<not> has_colon kid" and "\<not> has_colon (fst p)"
  shows "participant_id (split_participant kid (outgoing_id kid p)) = outgoing_id kid p"
  using participant_round_trip [OF outgoing_id_parts [OF assms]] .

lemma fetched_info:
  assumes "GetChannel ch cm = Inr c"
  shows "map_option channel_info.truncate (GetCrossKernelChannelInfo kid ch cm) =
    Some \<lparr> ciCreator = chCreatorID c, ciSenders = map (split_participant kid) (chSenderIDs c),
           ciReceivers = map (split_participant kid) (chReceiverIDs c), ciDataTopic = chDataTopic c, ciEncrypted = chEncrypted c \<rparr>"
  using assms by (simp add: GetCrossKernelChannelInfo_def channel_info.truncate_def)

lemma outgoing_id_colon [simp]: "kid \<noteq> [] \<Longrightarrow> has_colon (outgoing_id kid p)"
  by (simp add: outgoing_id_def split: prod.splits)

lemma outgoing_failure:
  assumes "CreateCrossKernelChannel now cid pid env others kid reg req cm nm = (Inl e, cm', nm', out)"
    and "ckCreatorKernelId req = [] \<or> ckCreatorKernelId req = kid" and "e \<in> {RemoteNotConnected k, RemoteUnnotified k, RemoteRejected k}"
  obtains c cm1 where "propose_cross now cid pid (outgoing_id kid) req cm = (Inr c, cm1)"
    "cm' = snd (RejectChannelProposal now cid (ckCreatorConnectorId req) (put_channel cid (map_participants kid c) cm1))"
  using assms by (auto simp: CreateCrossKernelChannel_def outgoing_proposal_def Let_def split: option.splits sum.splits prod.splits)

lemma reject_stranger:
  "GetChannel ch cm = Inr c \<Longrightarrow> who \<notin> set (chSenderIDs c) \<Longrightarrow> who \<notin> set (chReceiverIDs c) \<Longrightarrow>
   snd (RejectChannelProposal now ch who cm) = cm"
  by (auto simp: RejectChannelProposal_def GetChannel_Inr split: option.splits)

text \<open>One entry of a synchronisation.\<close>

definition synced_as :: "time \<Rightarrow> remote_connector \<Rightarrow> ConnectorInfo \<Rightarrow> bool" where
  "synced_as now i info \<longleftrightarrow> EntityType info = rnEntityType i \<and> PublicKey info = rnPublicKey i \<and> SessionToken info = []
     \<and> Exposed info = rnExposed i \<and> LastHeartbeat info = now \<and> (rnStatus i \<noteq> [] \<longrightarrow> Status info = rnStatus i)"

lemma sync_connector_result:
  assumes "rnConnectorId i \<noteq> []" and "sync_connector now (n, reg) i = (m, reg')"
  shows "m = Suc n \<and> (\<exists>info. go_get reg' (rnConnectorId i) = Some info \<and> synced_as now i info)
    \<and> (\<forall>j. j \<noteq> rnConnectorId i \<longrightarrow> go_get reg' j = go_get reg j)"
proof (cases "go_get reg (rnConnectorId i)")
  case None
  then show ?thesis
    using assms by (auto simp: sync_connector_def Register_def SetStatus_def synced_as_def gomap_simps split: if_splits)
next
  case (Some old)
  then show ?thesis
    using assms by (auto simp: sync_connector_def Register_def SetStatus_def synced_as_def gomap_simps split: if_splits)
qed

lemma sync_all:
  "distinct (map rnConnectorId is) \<Longrightarrow> \<forall>i \<in> set is. rnConnectorId i \<noteq> [] \<Longrightarrow>
   \<exists>reg'. foldl (sync_connector now) (n, reg) is = (n + length is, reg')
     \<and> (\<forall>i \<in> set is. \<exists>info. go_get reg' (rnConnectorId i) = Some info \<and> synced_as now i info)
     \<and> (\<forall>j. j \<notin> rnConnectorId ` set is \<longrightarrow> go_get reg' j = go_get reg j)"
proof (induction "is" arbitrary: n reg)
  case (Cons i "is")
  obtain reg1 info where 1: "sync_connector now (n, reg) i = (Suc n, reg1)" "go_get reg1 (rnConnectorId i) = Some info"
    "synced_as now i info" "\<And>j. j \<noteq> rnConnectorId i \<Longrightarrow> go_get reg1 j = go_get reg j"
    using sync_connector_result [of i now n reg] Cons.prems(2) by (metis list.set_intros(1) prod.collapse)
  obtain reg' where 2: "foldl (sync_connector now) (Suc n, reg1) is = (Suc n + length is, reg')"
    "\<forall>i \<in> set is. \<exists>info. go_get reg' (rnConnectorId i) = Some info \<and> synced_as now i info"
    "\<forall>j. j \<notin> rnConnectorId ` set is \<longrightarrow> go_get reg' j = go_get reg1 j"
    using Cons.IH [of "Suc n" reg1] Cons.prems by auto
  have "go_get reg' (rnConnectorId i) = Some info" using 1(2) 2(3) Cons.prems(1) by auto
  then show ?case using 1 2 by auto
qed simp

section \<open>Properties\<close>

text \<open>
  C12. A channel proposed by a connector of kernel \<open>kA\<close> arrives unchanged at a kernel that is notified and does not know it:
  same identifier, creator, participants, topic and proposal.  The approvals differ: kernel \<open>kA\<close> holds that of the creator only,
  while the notice says accepted, so the other kernel counts every participant of kernel \<open>kA\<close> as having approved.
\<close>

theorem cross_channel_replicated:
  assumes "CreateCrossKernelChannel now cid pid env others kA reg req cmA nmA = (Inr ch, cmA', nmA', out)"
    and "ckCreatorKernelId req = [] \<or> ckCreatorKernelId req = kA"
    and "kA \<noteq> []" and "\<not> has_colon kA" and "CHR ''|'' \<notin> set kA" and "cid \<noteq> []" and "pid \<noteq> []" and "CHR ''|'' \<notin> set pid"
    and "\<forall>p \<in> set (ckSenderIds req @ ckReceiverIds req). \<not> has_colon (fst p)"
    and "RemoteNotify kB n \<in> set out" and "NotifyChannelCreated nn later fresh n (cmB, mkB, nmB) = (r, (cmB', mkB', nmB'), evs, ts, out')"
    and "GetChannel cid cmB = Inl e" and "go_get (mkKernels mkB) kA = Some i" and "kiClient i" and "kiConn i"
    and "nnFetch nn kA cid = map_option channel_info.truncate (GetCrossKernelChannelInfo kA cid cmA')"
  shows "\<exists>c p d q. GetChannel cid cmA' = Inr c \<and> GetChannel cid cmB' = Inr d \<and> same_deal c d
    \<and> chProposal c = Some p \<and> chProposal d = Some q \<and> prProposalID q = prProposalID p
    \<and> own_only (ckCreatorConnectorId req) p \<and> vouches_for kA d q"
proof -
  from outgoing_success [OF assms(1,2)] obtain c p where
    c: "chID c = cid" "chSenderIDs c = map (outgoing_id kA) (ckSenderIds req)" "chReceiverIDs c = map (outgoing_id kA) (ckReceiverIds req)"
      "chCreatorID c \<noteq> []" "chSenderIDs c \<noteq> []" "chReceiverIDs c \<noteq> []" "GetChannel cid cmA' = Inr c"
      and p: "chProposal c = Some p" "prProposalID p = pid" "own_only (ckCreatorConnectorId req) p"
      and n: "nrChannelId n = cid" "nrSenderId n = accepted_meta kA c"
    using assms(10) by metis
  let ?info = "\<lparr> ciCreator = chCreatorID c, ciSenders = map (split_participant kA) (chSenderIDs c),
    ciReceivers = map (split_participant kA) (chReceiverIDs c), ciDataTopic = chDataTopic c, ciEncrypted = chEncrypted c \<rparr>"
  have fetch: "nnFetch nn kA (nrChannelId n) = Some ?info" using assms(16) fetched_info [OF c(7)] n(1) by simp
  have new: "GetChannel (nrChannelId n) cmB = Inl e" "nrChannelId n \<noteq> []" using assms(6,12) n(1) by simp_all
  have sender: "parse_sender (nrSenderId n) = (kA, pid, ''ACCEPTED'')"
    unfolding n(2) by (rule parse_accepted [OF assms(5,8,7) p(1,2)])
  obtain b pb d q where b: "placeholder later fresh (nrChannelId n) pid ?info cmB = Inr b" "chProposal b = Some pb"
    "GetChannel (nrChannelId n) cmB' = Inr d" "same_deal b d" "chProposal d = Some q" "vouched kA pb q" "proposal_ok b pb"
    using notice_new [OF assms(11) new sender assms(3,7,13,14,15) fetch] c(4-6) by auto
  have ids: "map participant_id (map (split_participant kA) (chSenderIDs c)) = chSenderIDs c"
    "map participant_id (map (split_participant kA) (chReceiverIDs c)) = chReceiverIDs c"
    using outgoing_round_trip [OF assms(3,4)] assms(9) c(2,3) by auto
  have "same_deal c b" and "prProposalID pb = pid"
    using placeholder_view [OF b(1) assms(7)] c(1) ids n(1) b(2) by (auto simp: same_deal_def)
  moreover from this(2) b(6) have "prProposalID q = pid" by (simp add: vouched_def)
  moreover have "vouches_for kA d q" using vouched_vouches [OF b(6,7)] b(4) by (simp add: vouches_for_def same_deal_def)
  ultimately show ?thesis using c(7) b(3-5) p n(1) same_deal_trans by auto
qed

text \<open>
  When another kernel cannot be told, the proposal is not withdrawn although the request is answered with a failure: it is
  rejected in the name of the bare creator, who is not among the qualified participants, and the channel stays proposed.
\<close>

theorem rollback_ineffective:
  assumes "CreateCrossKernelChannel now cid pid env others kid reg req cm nm = (Inl e, cm', nm', out)"
    and "ckCreatorKernelId req = [] \<or> ckCreatorKernelId req = kid" and "e \<in> {RemoteNotConnected k, RemoteUnnotified k, RemoteRejected k}"
    and "kid \<noteq> []" and "\<not> has_colon (ckCreatorConnectorId req)"
  shows "\<exists>c p. GetChannel cid cm' = Inr c \<and> chStatus c = ChannelStatusProposed \<and> chProposal c = Some p
    \<and> prProposalID p = pid \<and> own_only (ckCreatorConnectorId req) p"
proof -
  obtain c cm1 where p: "propose_cross now cid pid (outgoing_id kid) req cm = (Inr c, cm1)"
    and cm': "cm' = snd (RejectChannelProposal now cid (ckCreatorConnectorId req) (put_channel cid (map_participants kid c) cm1))"
    using outgoing_failure [OF assms(1-3)] by blast
  obtain rr where rr: "map_participants kid c = c\<lparr>chRemoteReceivers := rr\<rparr>" using map_participants_frame by blast
  have "ckCreatorConnectorId req \<notin> set (chSenderIDs c)" and "ckCreatorConnectorId req \<notin> set (chReceiverIDs c)"
    using assms(4,5) propose_cross_result(3,4) [OF p] by auto
  then have "cm' = put_channel cid (c\<lparr>chRemoteReceivers := rr\<rparr>) cm1" unfolding cm' rr
    by (intro reject_stranger [of cid _ "c\<lparr>chRemoteReceivers := rr\<rparr>"]) auto
  then show ?thesis using propose_cross_result(7,11) [OF p] by auto
qed

text \<open>
  A synchronisation of connectors writes every connector it lists and leaves the others: key, type and status are those of the
  message and the session token is erased, also for a connector that registered with this kernel itself.
\<close>

theorem sync_overwrites:
  assumes "distinct (map rnConnectorId is)" and "\<forall>i \<in> set is. rnConnectorId i \<noteq> []"
  shows "\<exists>reg'. SyncConnectorInfo now is reg = (length is, reg')
    \<and> (\<forall>i \<in> set is. \<exists>info. GetConnector (rnConnectorId i) reg' = Inr info \<and> synced_as now i info)
    \<and> (\<forall>j. j \<notin> rnConnectorId ` set is \<longrightarrow> GetConnector j reg' = GetConnector j reg)"
proof -
  obtain reg' where "foldl (sync_connector now) (0, reg) is = (0 + length is, reg')"
    "\<forall>i \<in> set is. \<exists>info. go_get reg' (rnConnectorId i) = Some info \<and> synced_as now i info"
    "\<forall>j. j \<notin> rnConnectorId ` set is \<longrightarrow> go_get reg' j = go_get reg j"
    using sync_all [OF assms] by blast
  then show ?thesis unfolding SyncConnectorInfo_def GetConnector_def by (intro exI [of _ reg']) fastforce
qed

definition demo_cross :: CrossKernelRequest where
  "demo_cross =
     \<lparr> ckCreatorKernelId = [], ckCreatorConnectorId = ''a'', ckSenderIds = [([], ''a'')], ckReceiverIds = [(''k2'', ''b'')],
       ckDataTopic = ''t'', ckEncrypted = False, ckEvidenceConfig = None, ckReason = [] \<rparr>"

definition demo_reachable :: "bool \<Rightarrow> remote_env" where
  "demo_reachable ok = \<lparr> reConn = (\<lambda>_. ok), reIdentity = (\<lambda>_. True), reCall = (\<lambda>_ _. True) \<rparr>"

definition demo_crossed :: "bool \<Rightarrow> cross_result" where
  "demo_crossed ok =
     CreateCrossKernelChannel 0 ''ch'' ''pr'' (demo_reachable ok) (\<lambda>_ nm. nm) ''k1'' demo_online demo_cross
       (NewChannelManager demo_evidence) NewNotificationManager"

lemmas demo_cross_defs = demo_crossed_def demo_cross_def demo_reachable_def demo_online_def demo_hidden_def CreateCrossKernelChannel_def
  outgoing_proposal_def missing_local_def propose_cross_def outgoing_id_def other_kernels_def targets_of_def GetConnector_def

lemma demo_crossed_eval:
  "fst (demo_crossed False) = Inl (RemoteNotConnected ''k2'')" "fst (demo_crossed True) = Inr ''ch''"
  "\<exists>n. RemoteNotify ''k2'' n \<in> set (snd (snd (snd (demo_crossed True))))"
  by (simp_all add: demo_cross_defs demo_neg_defs qualify_def)

definition demo_origin :: KernelInfo where
  "demo_origin =
     \<lparr> kiKernelID = ''k1'', kiAddress = ''h'', kiPort = 1, kiMainPort = 2, kiStatus = ''active'', kiLastHeartbeat = 0,
       kiPublicKey = [], kiClient = True, kiConn = True \<rparr>"

definition demo_second :: MultiKernelManager where
  "demo_second = (NewMultiKernelManager ''k2'' ''h'' 3)\<lparr>mkKernels := [(''k1'', demo_origin)]\<rparr>"

definition demo_fetch :: notify_net where
  "demo_fetch = demo_nn\<lparr>nnFetch := (\<lambda>k ch.
     map_option channel_info.truncate (GetCrossKernelChannelInfo ''k1'' ch (fst (snd (demo_crossed True)))))\<rparr>"

text \<open>Kernel \<^verbatim>\<open>k2\<close> learns of the channel, and takes connector \<^verbatim>\<open>a\<close> of kernel \<^verbatim>\<open>k1\<close> to have agreed.\<close>

theorem cross_channel_replicated_witness:
  "\<exists>n r cm' mk' nm' evs ts out c d q. RemoteNotify ''k2'' n \<in> set (snd (snd (snd (demo_crossed True))))
     \<and> NotifyChannelCreated demo_fetch 1 ''x'' n (NewChannelManager demo_evidence, demo_second, NewNotificationManager) = (r, (cm', mk', nm'), evs, ts, out)
     \<and> GetChannel ''ch'' (fst (snd (demo_crossed True))) = Inr c \<and> GetChannel ''ch'' cm' = Inr d
     \<and> same_deal c d \<and> chProposal d = Some q \<and> vouches_for ''k1'' d q"
proof -
  obtain n where n: "RemoteNotify ''k2'' n \<in> set (snd (snd (snd (demo_crossed True))))"
    using demo_crossed_eval(3) by blast
  obtain cmA nmA outA where A: "demo_crossed True = (Inr ''ch'', cmA, nmA, outA)"
    using demo_crossed_eval(2) by (metis prod.collapse)
  obtain r cm' mk' nm' evs ts out where
    B: "NotifyChannelCreated demo_fetch 1 ''x'' n (NewChannelManager demo_evidence, demo_second, NewNotificationManager) = (r, (cm', mk', nm'), evs, ts, out)"
    by (metis prod.collapse)
  have "\<exists>c p d q. GetChannel ''ch'' cmA = Inr c \<and> GetChannel ''ch'' cm' = Inr d \<and> same_deal c d
    \<and> chProposal c = Some p \<and> chProposal d = Some q \<and> prProposalID q = prProposalID p
    \<and> own_only (ckCreatorConnectorId demo_cross) p \<and> vouches_for ''k1'' d q"
    by (rule cross_channel_replicated [OF A [unfolded demo_crossed_def] _ _ _ _ _ _ _ _ _ B, where kB = "''k2''" and i = demo_origin and e = ChannelNotFound])
      (use n A in \<open>simp_all add: demo_cross_def has_colon_def GetChannel_def NewChannelManager_def demo_second_def NewMultiKernelManager_def
         demo_origin_def demo_fetch_def demo_nn_def\<close>)
  with n A B show ?thesis by auto
qed

text \<open>Kernel \<^verbatim>\<open>k2\<close> is not connected: the request fails and the proposal stays.\<close>

theorem rollback_ineffective_witness:
  "fst (demo_crossed False) = Inl (RemoteNotConnected ''k2'')
     \<and> (\<exists>c. GetChannel ''ch'' (fst (snd (demo_crossed False))) = Inr c \<and> chStatus c = ChannelStatusProposed)"
proof -
  obtain cm' nm' out where r: "demo_crossed False = (Inl (RemoteNotConnected ''k2''), cm', nm', out)"
    using demo_crossed_eval(1) by (metis prod.collapse)
  have "\<exists>c p. GetChannel ''ch'' cm' = Inr c \<and> chStatus c = ChannelStatusProposed \<and> chProposal c = Some p
    \<and> prProposalID p = ''pr'' \<and> own_only (ckCreatorConnectorId demo_cross) p"
    by (rule rollback_ineffective [OF r [unfolded demo_crossed_def], of "''k2''"])
      (simp_all add: demo_cross_def has_colon_def)
  with r show ?thesis by auto
qed

text \<open>A connector registered here, whose key is replaced by that of the message.\<close>

theorem sync_overwrites_witness:
  "\<exists>info. GetConnector ''a'' (snd (SyncConnectorInfo 9
       [\<lparr> rnConnectorId = ''a'', rnEntityType = ''e'', rnPublicKey = ''other'', rnStatus = [], rnExposed = True,
          rnDataCatalog = [], rnDataCatalogItems = [] \<rparr>] demo_online)) = Inr info
     \<and> PublicKey info = ''other''"
  using sync_overwrites [of "[\<lparr> rnConnectorId = ''a'', rnEntityType = ''e'', rnPublicKey = ''other'', rnStatus = [], rnExposed = True,
          rnDataCatalog = [], rnDataCatalogItems = [] \<rparr>]" 9 demo_online]
  by (auto simp: synced_as_def)

end
