(* ===== verification/File_Transfer.thy ===== *)
theory File_Transfer
  imports Hash_Chain Channel_Types "HOL-Library.Multiset"
begin

text \<open>
  Files over a channel (\<^verbatim>\<open>connector/client/connector.go\<close>): \<^verbatim>\<open>SendFile\<close> cuts a file into chunks of one megabyte between a
  header and an end packet, \<^verbatim>\<open>FileReceiver\<close> collects the chunks of several transfers and writes a file once it has as many as
  the header announced.

  A file system is a Go map from cleaned paths to contents with their modification time; \<^verbatim>\<open>filepath.Join\<close> is modelled
  with its cleaning.  The JSON of the three packet types is a parameter, whose round trip is the hypothesis \<open>json_ok\<close>; whether an
  access to a file or a stream succeeds is a field of the environment.
\<close>

declare map_of_eq_Some_iff [simp del]

section \<open>Paths\<close>

fun split_slash :: "string \<Rightarrow> string list" where
  "split_slash [] = [[]]"
| "split_slash (c # s) =
     (if c = CHR ''/'' then [] # split_slash s
      else case split_slash s of [] \<Rightarrow> [[c]] | w # ws \<Rightarrow> (c # w) # ws)"

text \<open>One element of a path; the elements so far stand in reverse.\<close>

definition path_element :: "bool \<Rightarrow> string list \<Rightarrow> string \<Rightarrow> string list" where
  "path_element rooted acc w =
     (if w = [] \<or> w = ''.'' then acc
      else if w = ''..'' then (case acc of [] \<Rightarrow> if rooted then [] else [w] | v # vs \<Rightarrow> if v = ''..'' then w # acc else vs)
      else w # acc)"

definition path_clean :: "string \<Rightarrow> string" where
  "path_clean p =
     (let rooted = (p \<noteq> [] \<and> hd p = CHR ''/''); ws = rev (foldl (path_element rooted) [] (split_slash p))
      in if rooted then CHR ''/'' # join (CHR ''/'') ws else if ws = [] then ''.'' else join (CHR ''/'') ws)"

definition path_join :: "string \<Rightarrow> string \<Rightarrow> string" where
  "path_join dir name =
     (if dir = [] \<and> name = [] then []
      else path_clean (if dir = [] then name else if name = [] then dir else dir @ CHR ''/'' # name))"

definition path_base :: "string \<Rightarrow> string" where
  "path_base p = last (split_slash p)"

section \<open>Packets\<close>

definition FileTransferPrefix :: string where
  "FileTransferPrefix = ''__FILE_TRANSFER__''"

definition FileHeaderType :: string where
  "FileHeaderType = ''FILE_HEADER''"

definition FileChunkType :: string where
  "FileChunkType = ''FILE_CHUNK''"

definition FileEndType :: string where
  "FileEndType = ''FILE_END''"

lemmas file_type_defs = FileHeaderType_def FileChunkType_def FileEndType_def

record FileHeader =
  fhType :: string
  fhFileName :: string
  fhFileSize :: int
  fhTotalChunks :: int
  fhFileHash :: string
  fhTransferID :: string

record FileChunk =
  fkType :: string
  fkTransferID :: string
  fkChunkIndex :: int
  fkChunkSize :: int
  fkData :: string

record FileEnd =
  feType :: string
  feTransferID :: string
  feSuccess :: bool

record file_codec =
  jcHeader :: "FileHeader \<Rightarrow> string"
  jcChunk :: "FileChunk \<Rightarrow> string"
  jcEnd :: "FileEnd \<Rightarrow> string"
  jcType :: "string \<Rightarrow> string option"
  jcHeaderOf :: "string \<Rightarrow> FileHeader option"
  jcChunkOf :: "string \<Rightarrow> FileChunk option"
  jcEndOf :: "string \<Rightarrow> FileEnd option"

definition IsFileTransferPacket :: "string \<Rightarrow> bool" where
  "IsFileTransferPacket payload \<longleftrightarrow>
     length payload > length FileTransferPrefix \<and> take (length FileTransferPrefix) payload = FileTransferPrefix"

datatype file_error =
  OpenFailed | StreamFailed | SendFailed int | ReadFailed int
| NotFilePacket | BadPacketType | UnknownPacketType string | BadHeader | BadChunk | BadEnd
| HeaderNotReceived string | TransferFailed string | TransferNotFound string | Incomplete int int
| CreateFailed | MissingChunk int | WriteFailed int | HashUnread | HashMismatch string string

section \<open>Sending\<close>

record send_env =
  snCodec :: file_codec
  snSha :: "string \<Rightarrow> digest"
  snConnector :: string
  snNow :: time
  snStream :: bool
  snReads :: "int \<Rightarrow> bool"
  snSends :: "int \<Rightarrow> bool"

definition chunkSize :: nat where
  "chunkSize = 1024 * 1024"

definition file_packet :: "send_env \<Rightarrow> string \<Rightarrow> string list \<Rightarrow> int \<Rightarrow> string \<Rightarrow> DataPacket" where
  "file_packet env ch targets seq json =
     (let payload = FileTransferPrefix @ json
      in \<lparr> dpChannelID = ch, dpSequenceNumber = seq, dpPayload = payload, dpSignature = hash_text (snSha env) payload,
           dpTimestamp = unix (snNow env), dpSenderID = snConnector env, dpSenderKernelID = [], dpTargetIDs = targets,
           dpMessageType = [], dpFlowID = [], dpIsFinal = False, dpDataHash = [], dpIsAck = False,
           dpAckEvidenceRecorded = False, dpAfterSent = None \<rparr>)"

definition file_chunk :: "string \<Rightarrow> int \<Rightarrow> string \<Rightarrow> FileChunk" where
  "file_chunk tid i d = \<lparr> fkType = FileChunkType, fkTransferID = tid, fkChunkIndex = i, fkChunkSize = int (length d), fkData = d \<rparr>"

text \<open>The loop over the chunks from \<open>i\<close> on, of which \<open>n\<close> are left; a read takes a full chunk as long as there is one.\<close>

fun send_chunks ::
    "send_env \<Rightarrow> string \<Rightarrow> string list \<Rightarrow> string \<Rightarrow> int \<Rightarrow> nat \<Rightarrow> string \<Rightarrow> (file_error + int) \<times> DataPacket list" where
  "send_chunks env ch targets tid i 0 rest = (Inr (i + 1), [])"
| "send_chunks env ch targets tid i (Suc n) rest =
     (if \<not> snReads env i then (Inl (ReadFailed i), [])
      else if rest = [] then (Inr (i + 1), [])
      else if \<not> snSends env (i + 1) then (Inl (SendFailed (i + 1)), [])
      else case send_chunks env ch targets tid (i + 1) n (drop chunkSize rest) of
             (r, ps) \<Rightarrow> (r, file_packet env ch targets (i + 1) (jcChunk (snCodec env) (file_chunk tid i (take chunkSize rest))) # ps))"

definition total_chunks :: "int \<Rightarrow> int" where
  "total_chunks n = (n + int chunkSize - 1) div int chunkSize"

definition transfer_id :: "send_env \<Rightarrow> string" where
  "transfer_id env = snConnector env @ ''_'' @ show_int (snNow env)"

text \<open>
  The file is read twice, once for its hash (\<open>hashed\<close>) and once to be sent (\<open>sent\<close>); \<open>None\<close> is an access that fails.
  Beside the result stand the packets that were handed to the stream.
\<close>

definition SendFile ::
    "send_env \<Rightarrow> string \<Rightarrow> string \<Rightarrow> int \<Rightarrow> string option \<Rightarrow> string option \<Rightarrow> string list \<Rightarrow> (file_error + unit) \<times> DataPacket list" where
  "SendFile env ch name fsize hashed sent targets =
     (case (hashed, sent) of
        (Some old, Some new) \<Rightarrow>
          if \<not> snStream env then (Inl StreamFailed, [])
          else if \<not> snSends env 0 then (Inl (SendFailed 0), [])
          else (let tid = transfer_id env;
                    h = file_packet env ch targets 0 (jcHeader (snCodec env)
                          \<lparr> fhType = FileHeaderType, fhFileName = name, fhFileSize = fsize, fhTotalChunks = total_chunks fsize,
                            fhFileHash = hash_text (snSha env) old, fhTransferID = tid \<rparr>)
                in case send_chunks env ch targets tid 0 (nat (total_chunks fsize)) new of
                     (Inl e, ps) \<Rightarrow> (Inl e, h # ps)
                   | (Inr seq, ps) \<Rightarrow>
                       if \<not> snSends env seq then (Inl (SendFailed seq), h # ps)
                       else (Inr (), h # ps @ [file_packet env ch targets seq (jcEnd (snCodec env)
                               \<lparr> feType = FileEndType, feTransferID = tid, feSuccess = True \<rparr>)]))
      | _ \<Rightarrow> (Inl OpenFailed, []))"

section \<open>Receiving\<close>

record fileTransfer =
  ftTransferID :: string
  ftFileName :: string
  ftFileSize :: int
  ftTotalChunks :: int
  ftFileHash :: string
  ftChunks :: "(int \<times> string) list"
  ftReceivedChunks :: int

text \<open>\<open>frCompleted\<close> are the calls of \<^verbatim>\<open>onComplete\<close>.\<close>

record FileReceiver =
  frTransfers :: "fileTransfer gomap"
  frOutput :: string
  frFiles :: "(string \<times> time) gomap"
  frCompleted :: "(string \<times> string) list"

record receive_env =
  rvCodec :: file_codec
  rvSha :: "string \<Rightarrow> digest"
  rvNow :: time
  rvCreate :: bool
  rvWrite :: "int \<Rightarrow> bool"
  rvRead :: bool
  rvRemove :: bool

definition NewFileReceiver :: "string \<Rightarrow> (string \<times> time) gomap \<Rightarrow> FileReceiver" where
  "NewFileReceiver out fs = \<lparr> frTransfers = [], frOutput = out, frFiles = fs, frCompleted = [] \<rparr>"

fun write_chunks :: "receive_env \<Rightarrow> (int \<times> string) list \<Rightarrow> int list \<Rightarrow> string \<Rightarrow> file_error option \<times> string" where
  "write_chunks env chunks [] w = (None, w)"
| "write_chunks env chunks (i # is) w =
     (case map_of chunks i of
        None \<Rightarrow> (Some (MissingChunk i), w)
      | Some d \<Rightarrow> if rvWrite env i then write_chunks env chunks is (w @ d) else (Some (WriteFailed i), w))"

definition store_file :: "receive_env \<Rightarrow> string \<Rightarrow> string \<Rightarrow> FileReceiver \<Rightarrow> FileReceiver" where
  "store_file env p w fr = fr\<lparr>frFiles := go_put p (w, rvNow env) (frFiles fr)\<rparr>"

definition assembleFile :: "receive_env \<Rightarrow> string \<Rightarrow> FileReceiver \<Rightarrow> (file_error + unit) \<times> FileReceiver" where
  "assembleFile env tid fr =
     (case go_get (frTransfers fr) tid of
        None \<Rightarrow> (Inl (TransferNotFound tid), fr)
      | Some tr \<Rightarrow>
          if ftReceivedChunks tr < ftTotalChunks tr then (Inl (Incomplete (ftReceivedChunks tr) (ftTotalChunks tr)), fr)
          else (let p = path_join (frOutput fr) (ftFileName tr); fr1 = fr\<lparr>frTransfers := go_del tid (frTransfers fr)\<rparr>
                in if \<not> rvCreate env then (Inl CreateFailed, fr1)
                   else case write_chunks env (ftChunks tr) [0..ftTotalChunks tr - 1] [] of
                          (Some e, w) \<Rightarrow> (Inl e, store_file env p w fr1)
                        | (None, w) \<Rightarrow>
                            if \<not> rvRead env then (Inl HashUnread, store_file env p w fr1)
                            else if hash_text (rvSha env) w \<noteq> ftFileHash tr
                            then (Inl (HashMismatch (ftFileHash tr) (hash_text (rvSha env) w)),
                                  if rvRemove env then fr1\<lparr>frFiles := go_del p (frFiles fr1)\<rparr> else store_file env p w fr1)
                            else (Inr (), (store_file env p w fr1)\<lparr>frCompleted := frCompleted fr1 @ [(p, hash_text (rvSha env) w)]\<rparr>)))"

definition handleFileHeader :: "receive_env \<Rightarrow> string \<Rightarrow> FileReceiver \<Rightarrow> (file_error + unit) \<times> FileReceiver" where
  "handleFileHeader env json fr =
     (case jcHeaderOf (rvCodec env) json of
        None \<Rightarrow> (Inl BadHeader, fr)
      | Some h \<Rightarrow>
          (Inr (), fr\<lparr>frTransfers := go_put (fhTransferID h)
             \<lparr> ftTransferID = fhTransferID h, ftFileName = fhFileName h, ftFileSize = fhFileSize h, ftTotalChunks = fhTotalChunks h,
               ftFileHash = fhFileHash h, ftChunks = [], ftReceivedChunks = 0 \<rparr> (frTransfers fr)\<rparr>))"

definition add_chunk :: "FileChunk \<Rightarrow> fileTransfer \<Rightarrow> fileTransfer" where
  "add_chunk k tr =
     tr\<lparr> ftChunks := AList.update (fkChunkIndex k) (fkData k) (ftChunks tr), ftReceivedChunks := ftReceivedChunks tr + 1 \<rparr>"

definition handleFileChunk :: "receive_env \<Rightarrow> string \<Rightarrow> FileReceiver \<Rightarrow> (file_error + unit) \<times> FileReceiver" where
  "handleFileChunk env json fr =
     (case jcChunkOf (rvCodec env) json of
        None \<Rightarrow> (Inl BadChunk, fr)
      | Some k \<Rightarrow>
          (case go_get (frTransfers fr) (fkTransferID k) of
             None \<Rightarrow> (Inl (HeaderNotReceived (fkTransferID k)), fr)
           | Some tr \<Rightarrow>
               (let tr' = add_chunk k tr; fr' = fr\<lparr>frTransfers := go_put (fkTransferID k) tr' (frTransfers fr)\<rparr>
                in if ftReceivedChunks tr' \<ge> ftTotalChunks tr' then assembleFile env (ftTransferID tr) fr' else (Inr (), fr'))))"

text \<open>Some file of the output directory was written within the last thirty seconds.\<close>

definition recent_file :: "receive_env \<Rightarrow> FileReceiver \<Rightarrow> bool" where
  "recent_file env fr \<longleftrightarrow>
     list_ex (\<lambda>(p, c, t). p = path_join (frOutput fr) (path_base p) \<and> rvNow env - t < seconds 30) (frFiles fr)"

definition handleFileEnd :: "receive_env \<Rightarrow> string \<Rightarrow> FileReceiver \<Rightarrow> (file_error + unit) \<times> FileReceiver" where
  "handleFileEnd env json fr =
     (case jcEndOf (rvCodec env) json of
        None \<Rightarrow> (Inl BadEnd, fr)
      | Some e \<Rightarrow>
          if \<not> feSuccess e then (Inl (TransferFailed (feTransferID e)), fr)
          else case go_get (frTransfers fr) (feTransferID e) of
                 None \<Rightarrow> (if recent_file env fr then Inr () else Inl (HeaderNotReceived (feTransferID e)), fr)
               | Some tr \<Rightarrow> assembleFile env (feTransferID e) fr)"

definition HandleFilePacket :: "receive_env \<Rightarrow> DataPacket \<Rightarrow> FileReceiver \<Rightarrow> (file_error + unit) \<times> FileReceiver" where
  "HandleFilePacket env p fr =
     (if \<not> IsFileTransferPacket (dpPayload p) then (Inl NotFilePacket, fr)
      else (let json = drop (length FileTransferPrefix) (dpPayload p)
            in case jcType (rvCodec env) json of
                 None \<Rightarrow> (Inl BadPacketType, fr)
               | Some ty \<Rightarrow>
                   if ty = FileHeaderType then handleFileHeader env json fr
                   else if ty = FileChunkType then handleFileChunk env json fr
                   else if ty = FileEndType then handleFileEnd env json fr
                   else (Inl (UnknownPacketType ty), fr)))"

section \<open>Lemmas\<close>

text \<open>Documented of \<^verbatim>\<open>encoding/json\<close>: what is marshalled comes back, for names that are valid UTF-8.\<close>

definition json_ok :: "file_codec \<Rightarrow> bool" where
  "json_ok j \<longleftrightarrow>
     (\<forall>h. jcHeader j h \<noteq> [] \<and> jcType j (jcHeader j h) = Some (fhType h) \<and> jcHeaderOf j (jcHeader j h) = Some h) \<and>
     (\<forall>k. jcChunk j k \<noteq> [] \<and> jcType j (jcChunk j k) = Some (fkType k) \<and> jcChunkOf j (jcChunk j k) = Some k) \<and>
     (\<forall>e. jcEnd j e \<noteq> [] \<and> jcType j (jcEnd j e) = Some (feType e) \<and> jcEndOf j (jcEnd j e) = Some e)"

lemma json_okD:
  assumes "json_ok j"
  shows "jcHeader j h \<noteq> []" "jcType j (jcHeader j h) = Some (fhType h)" "jcHeaderOf j (jcHeader j h) = Some h"
    "jcChunk j k \<noteq> []" "jcType j (jcChunk j k) = Some (fkType k)" "jcChunkOf j (jcChunk j k) = Some k"
    "jcEnd j e \<noteq> []" "jcType j (jcEnd j e) = Some (feType e)" "jcEndOf j (jcEnd j e) = Some e"
  using assms by (simp_all add: json_ok_def)

text \<open>Accesses succeed.\<close>

definition sender_works :: "send_env \<Rightarrow> bool" where
  "sender_works env \<longleftrightarrow> snStream env \<and> (\<forall>i. snReads env i) \<and> (\<forall>i. snSends env i)"

definition receiver_works :: "file_codec \<Rightarrow> (string \<Rightarrow> digest) \<Rightarrow> receive_env \<Rightarrow> bool" where
  "receiver_works j sha env \<longleftrightarrow> rvCodec env = j \<and> rvSha env = sha \<and> rvCreate env \<and> (\<forall>i. rvWrite env i) \<and> rvRead env"

text \<open>The chunks of a content, and what the loop sends.\<close>

fun content_chunks :: "string \<Rightarrow> int \<Rightarrow> nat \<Rightarrow> string \<Rightarrow> FileChunk list" where
  "content_chunks tid i 0 rest = []"
| "content_chunks tid i (Suc n) rest =
     (if rest = [] then [] else file_chunk tid i (take chunkSize rest) # content_chunks tid (i + 1) n (drop chunkSize rest))"

lemma chunkSize_pos [simp]: "0 < chunkSize" "chunkSize \<noteq> 0"
  by (simp_all add: chunkSize_def)

lemma send_chunks_all:
  "sender_works env \<Longrightarrow> send_chunks env ch targets tid i n rest =
     (Inr (i + int (length (content_chunks tid i n rest)) + 1),
      map (\<lambda>k. file_packet env ch targets (fkChunkIndex k + 1) (jcChunk (snCodec env) k)) (content_chunks tid i n rest))"
  by (induction n arbitrary: i rest) (auto simp: sender_works_def file_chunk_def)

lemma content_chunks_indices: "map fkChunkIndex (content_chunks tid i n rest) = map (\<lambda>m. i + int m) [0..<length (content_chunks tid i n rest)]"
proof (induction n arbitrary: i rest)
  case (Suc n)
  have "map (\<lambda>m. i + int m) [0..<Suc l] = i # map (\<lambda>m. (i + 1) + int m) [0..<l]" for l
    by (simp add: upt_conv_Cons map_Suc_upt [symmetric] comp_def add.assoc del: upt_Suc)
  then show ?case using Suc by (simp add: file_chunk_def del: upt_Suc)
qed simp

lemma content_chunks_data: "length rest \<le> n * chunkSize \<Longrightarrow> concat (map fkData (content_chunks tid i n rest)) = rest"
proof (induction n arbitrary: i rest)
  case (Suc n)
  have "length (drop chunkSize rest) \<le> n * chunkSize" using Suc.prems by simp
  then show ?case using Suc.IH [of "drop chunkSize rest" "i + 1"] by (simp add: file_chunk_def)
qed simp

lemma content_chunks_length:
  "length rest \<le> n * chunkSize \<Longrightarrow> (n - 1) * chunkSize < length rest \<or> n = 0 \<Longrightarrow> length (content_chunks tid i n rest) = n"
proof (induction n arbitrary: i rest)
  case (Suc n)
  show ?case
  proof (cases n)
    case (Suc m)
    have "length (drop chunkSize rest) \<le> n * chunkSize" "(n - 1) * chunkSize < length (drop chunkSize rest)"
      using Suc.prems Suc by auto
    then show ?thesis using Suc.IH [of "drop chunkSize rest" "i + 1"] Suc.prems by auto
  qed (use Suc.prems in auto)
qed simp

lemma content_chunks_ids: "k \<in> set (content_chunks tid i n rest) \<Longrightarrow> fkType k = FileChunkType \<and> fkTransferID k = tid"
  by (induction n arbitrary: i rest) (auto simp: file_chunk_def split: if_splits)

lemma total_chunks_bounds:
  "length content \<le> nat (total_chunks (int (length content))) * chunkSize"
  "(nat (total_chunks (int (length content))) - 1) * chunkSize < length content \<or> nat (total_chunks (int (length content))) = 0"
proof -
  have n: "nat (total_chunks (int l)) = (l + chunkSize - 1) div chunkSize" for l
  proof -
    have "total_chunks (int l) = int ((l + chunkSize - 1) div chunkSize)"
      by (simp add: total_chunks_def zdiv_int of_nat_diff Suc_leI)
    then show ?thesis by simp
  qed
  let ?l = "length content" and ?q = "(length content + chunkSize - 1) div chunkSize"
  have "?l + chunkSize - 1 < (?q + 1) * chunkSize"
    by (metis add.commute chunkSize_pos(1) dividend_less_div_times mult.commute mult_Suc_right plus_1_eq_Suc)
  then show "?l \<le> nat (total_chunks (int ?l)) * chunkSize" unfolding n by (simp add: algebra_simps)
  have le: "?q * chunkSize \<le> ?l + chunkSize - 1" by (rule div_times_less_eq_dividend)
  then show "(nat (total_chunks (int ?l)) - 1) * chunkSize < ?l \<or> nat (total_chunks (int ?l)) = 0"
    unfolding n
  proof (cases ?q)
    case (Suc m)
    have "chunkSize + m * chunkSize \<le> ?l + chunkSize - 1" using le [unfolded Suc] by simp
    then have "m * chunkSize < ?l" using chunkSize_pos(1) by linarith
    then show "(?q - 1) * chunkSize < ?l \<or> ?q = 0" using Suc by simp
  qed simp
qed

text \<open>What a well-formed packet of a transfer does.\<close>

lemma prefix_payload [simp]:
  "json \<noteq> [] \<Longrightarrow> IsFileTransferPacket (FileTransferPrefix @ json)"
  by (simp add: IsFileTransferPacket_def)

lemma file_packet_payload [simp]: "dpPayload (file_packet env ch targets seq json) = FileTransferPrefix @ json"
  by (simp add: file_packet_def Let_def)

lemma handle_header:
  "json_ok (rvCodec env) \<Longrightarrow> fhType h = FileHeaderType \<Longrightarrow>
   HandleFilePacket env (file_packet se ch ts seq (jcHeader (rvCodec env) h)) fr = handleFileHeader env (jcHeader (rvCodec env) h) fr"
  by (simp add: HandleFilePacket_def json_okD)

lemma handle_chunk:
  "json_ok (rvCodec env) \<Longrightarrow> fkType k = FileChunkType \<Longrightarrow>
   HandleFilePacket env (file_packet se ch ts seq (jcChunk (rvCodec env) k)) fr = handleFileChunk env (jcChunk (rvCodec env) k) fr"
  by (simp add: HandleFilePacket_def json_okD file_type_defs)

lemma handle_end:
  "json_ok (rvCodec env) \<Longrightarrow> feType e = FileEndType \<Longrightarrow>
   HandleFilePacket env (file_packet se ch ts seq (jcEnd (rvCodec env) e)) fr = handleFileEnd env (jcEnd (rvCodec env) e) fr"
  by (simp add: HandleFilePacket_def json_okD file_type_defs)

lemma update_int_get: "map_of (AList.update (i :: int) d m) j = (if j = i then Some d else map_of m j)"
  by (simp add: update_conv')

text \<open>Writing chunks that are all there.\<close>

lemma write_chunks_all:
  assumes "\<forall>i \<in> set is. map_of chunks i = Some (f i)" and "\<forall>i. rvWrite env i"
  shows "write_chunks env chunks is w = (None, w @ concat (map f is))"
  using assms(1)
proof (induction "is" arbitrary: w)
  case (Cons i "is")
  then show ?case using assms(2) by simp
qed simp

text \<open>A transfer that holds exactly the chunks \<open>ks\<close>.\<close>

definition holds_chunks :: "FileHeader \<Rightarrow> FileChunk list \<Rightarrow> fileTransfer \<Rightarrow> bool" where
  "holds_chunks h ks tr \<longleftrightarrow> ftTransferID tr = fhTransferID h \<and> ftFileName tr = fhFileName h \<and> ftTotalChunks tr = fhTotalChunks h
     \<and> ftFileHash tr = fhFileHash h \<and> ftReceivedChunks tr = int (length ks)
     \<and> (\<forall>k \<in> set ks. map_of (ftChunks tr) (fkChunkIndex k) = Some (fkData k))"

lemma holds_add:
  "holds_chunks h ks tr \<Longrightarrow> fkChunkIndex k \<notin> fkChunkIndex ` set ks \<Longrightarrow> holds_chunks h (ks @ [k]) (add_chunk k tr)"
  by (auto simp: holds_chunks_def add_chunk_def update_int_get image_iff)

definition completed :: "(string \<Rightarrow> digest) \<Rightarrow> FileHeader \<Rightarrow> string \<Rightarrow> FileReceiver \<Rightarrow> FileReceiver \<Rightarrow> bool" where
  "completed sha h content fr fr' \<longleftrightarrow> go_get (frTransfers fr') (fhTransferID h) = None \<and> frOutput fr' = frOutput fr
     \<and> frCompleted fr' = frCompleted fr @ [(path_join (frOutput fr) (fhFileName h), hash_text sha content)]
     \<and> (\<exists>t. go_get (frFiles fr') (path_join (frOutput fr) (fhFileName h)) = Some (content, t))"

lemma assemble_complete:
  assumes "receiver_works j sha env" and "go_get (frTransfers fr) (fhTransferID h) = Some tr" and "holds_chunks h ks tr"
    and "fhTotalChunks h = int (length ks)" and "fkChunkIndex ` set ks = {0..<int (length ks)}"
    and "\<forall>k \<in> set ks. fkData k = f (fkChunkIndex k)"
    and "concat (map f [0..int (length ks) - 1]) = content" and "fhFileHash h = hash_text sha content"
  shows "\<exists>fr'. assembleFile env (fhTransferID h) fr = (Inr (), fr') \<and> completed sha h content fr fr'"
proof -
  have works: "rvCodec env = j" "rvSha env = sha" "rvCreate env" "\<forall>i. rvWrite env i" "rvRead env"
    using assms(1) by (simp_all add: receiver_works_def)
  have "\<forall>i \<in> set [0..int (length ks) - 1]. map_of (ftChunks tr) i = Some (f i)"
  proof
    fix i assume "i \<in> set [0..int (length ks) - 1]"
    then have "i \<in> fkChunkIndex ` set ks" using assms(5) by simp
    then show "map_of (ftChunks tr) i = Some (f i)" using assms(3,6) by (auto simp: holds_chunks_def)
  qed
  then have "write_chunks env (ftChunks tr) [0..int (length ks) - 1] [] = (None, content)"
    using write_chunks_all [of "[0..int (length ks) - 1]" "ftChunks tr" f env "[]", OF _ works(4)] assms(7) by simp
  then show ?thesis
    using assms(2-4,8) works
    by (auto simp: assembleFile_def Let_def holds_chunks_def completed_def store_file_def gomap_simps)
qed

lemma completed_cong:
  "frOutput fr1 = frOutput fr \<Longrightarrow> frCompleted fr1 = frCompleted fr \<Longrightarrow> completed sha h content fr1 = completed sha h content fr"
  by (rule ext) (simp add: completed_def)

lemma chunk_step:
  assumes "json_ok j" and "rvCodec env = j" and "go_get (frTransfers fr) (fhTransferID h) = Some tr" and "holds_chunks h ks tr"
    and "fkType k = FileChunkType" and "fkTransferID k = fhTransferID h"
  shows "HandleFilePacket env (file_packet se ch ts seq (jcChunk j k)) fr =
    (let fr' = fr\<lparr>frTransfers := go_put (fhTransferID h) (add_chunk k tr) (frTransfers fr)\<rparr>
     in if int (length ks) + 1 \<ge> fhTotalChunks h then assembleFile env (fhTransferID h) fr' else (Inr (), fr'))"
proof -
  have "HandleFilePacket env (file_packet se ch ts seq (jcChunk j k)) fr = handleFileChunk env (jcChunk j k) fr"
    using handle_chunk [of env k se ch ts seq fr] assms(1,2,5) by simp
  then show ?thesis
    using assms(2-4,6) json_okD(6) [OF assms(1)] by (simp add: handleFileChunk_def add_chunk_def holds_chunks_def Let_def)
qed

fun receive_files :: "(receive_env \<times> DataPacket) list \<Rightarrow> FileReceiver \<Rightarrow> FileReceiver" where
  "receive_files [] fr = fr"
| "receive_files ((env, p) # eps) fr = receive_files eps (snd (HandleFilePacket env p fr))"

lemma receive_files_append: "receive_files (xs @ ys) fr = receive_files ys (receive_files xs fr)"
  by (induction xs fr rule: receive_files.induct) auto

lemma receive_chunks:
  assumes "json_ok j" and "\<forall>(env, k) \<in> set qs. receiver_works j sha env \<and> fkType k = FileChunkType \<and> fkTransferID k = fhTransferID h"
    and "distinct (map fkChunkIndex (ks @ map snd qs))" and "fkChunkIndex ` set (ks @ map snd qs) = {0..<fhTotalChunks h}"
    and "fhTotalChunks h = int (length ks + length qs)" and "qs \<noteq> []"
    and "\<forall>k \<in> set (ks @ map snd qs). fkData k = f (fkChunkIndex k)"
    and "concat (map f [0..fhTotalChunks h - 1]) = content" and "fhFileHash h = hash_text sha content"
    and "go_get (frTransfers fr) (fhTransferID h) = Some tr" and "holds_chunks h ks tr"
  shows "completed sha h content fr (receive_files (map (\<lambda>(env, k). (env, file_packet se ch ts (fkChunkIndex k + 1) (jcChunk j k))) qs) fr)"
  using assms(2-)
proof (induction qs arbitrary: ks fr tr)
  case (Cons q qs)
  obtain env k where q: "q = (env, k)" by force
  let ?fr = "fr\<lparr>frTransfers := go_put (fhTransferID h) (add_chunk k tr) (frTransfers fr)\<rparr>"
  have works: "receiver_works j sha env" and k: "fkType k = FileChunkType" "fkTransferID k = fhTransferID h"
    using Cons.prems(1) q by auto
  then have codec: "rvCodec env = j" by (simp add: receiver_works_def)
  have add: "holds_chunks h (ks @ [k]) (add_chunk k tr)" using holds_add [OF Cons.prems(10)] Cons.prems(2) q by auto
  have get: "go_get (frTransfers ?fr) (fhTransferID h) = Some (add_chunk k tr)" by (simp add: gomap_simps)
  note step = chunk_step [OF assms(1) codec Cons.prems(9,10) k, of se ch ts "fkChunkIndex k + 1"]
  show ?case
  proof (cases "qs = []")
    case True
    have "\<exists>fr'. assembleFile env (fhTransferID h) ?fr = (Inr (), fr') \<and> completed sha h content ?fr fr'"
      by (rule assemble_complete [OF works get add, where f = f]) (use Cons.prems(3,4,6-8) q True in auto)
    then show ?thesis using step True q Cons.prems(4) by (auto simp: Let_def completed_cong [of ?fr fr])
  next
    case False
    have "completed sha h content ?fr (receive_files (map (\<lambda>(env, k). (env, file_packet se ch ts (fkChunkIndex k + 1) (jcChunk j k))) qs) ?fr)"
      by (rule Cons.IH [OF _ _ _ _ False _ _ _ get add]) (use Cons.prems(1-4,6-8) q in auto)
    then show ?thesis using step False q Cons.prems(4) by (auto simp: Let_def completed_cong [of ?fr fr])
  qed
qed simp

lemma mset_map_arrange: "mset qs = mset (map g cs) \<Longrightarrow> \<exists>ks. qs = map g ks \<and> mset ks = mset cs"
proof (induction qs arbitrary: cs)
  case (Cons q qs)
  have "q \<in> set (map g cs)" using Cons.prems by (metis list.set_intros(1) mset_eq_setD)
  then obtain c where c: "c \<in> set cs" "q = g c" by auto
  then obtain as bs where cs: "cs = as @ c # bs" by (meson split_list)
  have "mset qs = mset (map g (as @ bs))" using Cons.prems c cs by simp
  then obtain ks where "qs = map g ks" "mset ks = mset (as @ bs)" using Cons.IH by blast
  then show ?case using c cs by (intro exI [of _ "c # ks"]) auto
qed simp

lemma upto_int: "[0..int n - 1] = map int [0..<n]"
proof (induction n)
  case (Suc n)
  then show ?case using upto_rec2 [of 0 "int n"] by simp
qed simp

text \<open>The chunks of a content are those of their indices.\<close>

lemma content_chunks_facts:
  fixes content tid
  defines "n \<equiv> nat (total_chunks (int (length content)))"
  defines "cs \<equiv> content_chunks tid 0 n content"
  defines "f \<equiv> \<lambda>i. fkData (cs ! nat i)"
  shows "length cs = n" and "map fkChunkIndex cs = map int [0..<n]" and "total_chunks (int (length content)) = int n"
    and "k \<in> set cs \<Longrightarrow> fkData k = f (fkChunkIndex k)" and "concat (map f [0..int n - 1]) = content"
proof -
  show len: "length cs = n" unfolding cs_def n_def by (rule content_chunks_length) (rule total_chunks_bounds)+
  then show idx: "map fkChunkIndex cs = map int [0..<n]"
    using content_chunks_indices [of tid 0 n content] by (simp add: cs_def)
  have "0 < int (length content) + int chunkSize" using chunkSize_pos(1) by linarith
  then have "0 \<le> total_chunks (int (length content))" by (simp add: total_chunks_def pos_imp_zdiv_nonneg_iff)
  then show "total_chunks (int (length content)) = int n" by (simp add: n_def)
  show "fkData k = f (fkChunkIndex k)" if k: "k \<in> set cs"
  proof -
    obtain m where m: "m < n" "k = cs ! m" using k len by (auto simp: in_set_conv_nth)
    have "fkChunkIndex k = int m" using m len idx [THEN arg_cong [of _ _ "\<lambda>xs. xs ! m"]] by simp
    then show ?thesis using m by (simp add: f_def)
  qed
  have "map f [0..int n - 1] = map fkData cs"
    by (rule nth_equalityI) (simp_all add: upto_int len f_def)
  then show "concat (map f [0..int n - 1]) = content"
    using content_chunks_data [of content n tid 0] total_chunks_bounds(1) [of content] by (simp add: cs_def n_def)
qed

lemma SendFile_all:
  assumes "sender_works se"
  shows "SendFile se ch name (int (length content)) (Some old) (Some content) ts =
    (let tid = transfer_id se; cs = content_chunks tid 0 (nat (total_chunks (int (length content)))) content
     in (Inr (), file_packet se ch ts 0 (jcHeader (snCodec se)
             \<lparr> fhType = FileHeaderType, fhFileName = name, fhFileSize = int (length content),
               fhTotalChunks = total_chunks (int (length content)), fhFileHash = hash_text (snSha se) old, fhTransferID = tid \<rparr>)
           # map (\<lambda>k. file_packet se ch ts (fkChunkIndex k + 1) (jcChunk (snCodec se) k)) cs
           @ [file_packet se ch ts (int (length cs) + 1) (jcEnd (snCodec se) \<lparr> feType = FileEndType, feTransferID = tid, feSuccess = True \<rparr>)]))"
  using assms send_chunks_all [OF assms] by (simp add: SendFile_def Let_def) (simp add: sender_works_def)

text \<open>After the chunks, the end packet completes an empty file and changes nothing else.\<close>

lemma end_step:
  assumes "json_ok j" and "receiver_works j sha env"
  shows "snd (HandleFilePacket env (file_packet se ch ts seq (jcEnd j \<lparr> feType = FileEndType, feTransferID = tid, feSuccess = True \<rparr>)) fr) =
    (case go_get (frTransfers fr) tid of None \<Rightarrow> fr | Some tr \<Rightarrow> snd (assembleFile env tid fr))"
proof -
  have "rvCodec env = j" using assms(2) by (simp add: receiver_works_def)
  then show ?thesis
    using assms(1) handle_end [of env "\<lparr> feType = FileEndType, feTransferID = tid, feSuccess = True \<rparr>" se ch ts seq fr] json_okD(9) [OF assms(1)]
    by (auto simp: handleFileEnd_def split: option.splits)
qed

lemma assemble_cases:
  assumes "assembleFile env tid fr = (r, fr')" and "frCompleted fr' \<noteq> frCompleted fr"
  shows "r = Inr () \<and> (\<exists>tr w. go_get (frTransfers fr) tid = Some tr \<and> hash_text (rvSha env) w = ftFileHash tr
    \<and> frCompleted fr' = frCompleted fr @ [(path_join (frOutput fr) (ftFileName tr), ftFileHash tr)]
    \<and> go_get (frFiles fr') (path_join (frOutput fr) (ftFileName tr)) = Some (w, rvNow env))"
  using assms
  by (auto simp: assembleFile_def Let_def store_file_def gomap_simps split: option.splits if_splits prod.splits)

lemma write_chunks_missing:
  assumes "i \<in> set is" and "map_of chunks i = None" and "\<forall>i. rvWrite env i"
  shows "\<exists>m w'. write_chunks env chunks is w = (Some (MissingChunk m), w') \<and> m \<in> set is \<and> map_of chunks m = None"
  using assms(1)
proof (induction "is" arbitrary: w)
  case (Cons j "is")
  show ?case
  proof (cases "map_of chunks j")
    case (Some a)
    then show ?thesis using Cons.IH [of "w @ a"] Cons.prems assms(2,3) by auto
  qed auto
qed simp

lemma framed_packets:
  assumes "map snd eps = x # map P ks @ [y]"
  obtains e0 e1 evs where "eps = (e0, x) # map (\<lambda>(env, k). (env, P k)) (zip evs ks) @ [(e1, y)]" and "length evs = length ks"
    and "set (map fst eps) = insert e0 (insert e1 (set evs))"
proof -
  obtain e0 rest where e0: "eps = (e0, x) # rest" "map snd rest = map P ks @ [y]"
    using assms by (cases eps) auto
  obtain mid e1 where mid: "rest = mid @ [(e1, y)]" "map snd mid = map P ks"
    using e0(2) by (cases rest rule: rev_cases) auto
  have "mid = zip (map fst mid) (map snd mid)" by (rule sym) (rule zip_map_fst_snd)
  then have mid': "mid = map (\<lambda>(env, k). (env, P k)) (zip (map fst mid) ks)"
    unfolding mid(2) zip_map2 by simp
  show thesis
  proof (rule that)
    show "eps = (e0, x) # map (\<lambda>(env, k). (env, P k)) (zip (map fst mid) ks) @ [(e1, y)]"
      unfolding e0(1) mid(1) mid' [symmetric] by simp
    show "length (map fst mid) = length ks" using mid(2) by (metis length_map)
  qed (auto simp: e0(1) mid(1))
qed

lemma rearranged_chunks:
  assumes "mset ks = mset (content_chunks tid 0 (nat (total_chunks (int (length content)))) content)"
  shows "fkChunkIndex ` set ks = {0..<total_chunks (int (length content))}" and "distinct (map fkChunkIndex ks)"
    and "length ks = nat (total_chunks (int (length content)))"
proof -
  let ?total = "total_chunks (int (length content))"
  define cs where "cs = content_chunks tid 0 (nat ?total) content"
  note facts = content_chunks_facts(1,2) [where content = content and tid = tid, folded cs_def] content_chunks_facts(3) [of content]
  have same: "set ks = set cs" "length ks = length cs" "mset (map fkChunkIndex ks) = mset (map fkChunkIndex cs)"
    using assms by (auto simp: cs_def dest: mset_eq_setD mset_eq_length)
  have "fkChunkIndex ` set cs = {0..<int (nat ?total)}"
    unfolding set_map [symmetric] facts(2) unfolding set_map set_upt by (simp only: image_int_atLeastLessThan) simp
  moreover have "distinct (map fkChunkIndex cs)" unfolding facts(2) by (simp add: distinct_map)
  moreover have "int (nat ?total) = ?total" by (rule facts(3) [symmetric])
  ultimately show "fkChunkIndex ` set ks = {0..<?total}" "distinct (map fkChunkIndex ks)" "length ks = nat ?total"
    using same(1,2) facts(1) mset_eq_imp_distinct_iff [OF same(3)] by simp_all
qed

text \<open>Elements that lead upwards are taken as they come.\<close>

lemma path_escapes: "path_join ''./received'' ''../x'' = ''x''" "path_join ''./received'' ''../../x'' = ''../x''"
  by (simp_all add: path_join_def path_clean_def path_element_def)

section \<open>Properties\<close>


text \<open>
  C31. Whatever packets come, a file is reported only when it was announced, and then its content as it stands on disk has the hash that
  was announced.
\<close>

theorem reported_file_genuine:
  assumes "HandleFilePacket env p fr = (r, fr')" and "frCompleted fr' \<noteq> frCompleted fr"
  shows "\<exists>tid tr w. go_get (frTransfers fr) tid = Some tr \<and> hash_text (rvSha env) w = ftFileHash tr
    \<and> frCompleted fr' = frCompleted fr @ [(path_join (frOutput fr) (ftFileName tr), ftFileHash tr)]
    \<and> go_get (frFiles fr') (path_join (frOutput fr) (ftFileName tr)) = Some (w, rvNow env)"
proof -
  define json where "json = drop (length FileTransferPrefix) (dpPayload p)"
  have kinds: "handleFileHeader env json fr = (r, fr') \<or> handleFileChunk env json fr = (r, fr') \<or> handleFileEnd env json fr = (r, fr')"
    using assms by (auto simp: HandleFilePacket_def json_def Let_def split: option.splits if_splits)
  moreover have "handleFileHeader env json fr \<noteq> (r, fr')"
    using assms(2) by (auto simp: handleFileHeader_def split: option.splits)
  moreover have ?thesis if e: "handleFileEnd env json fr = (r, fr')"
  proof -
    obtain tid where "assembleFile env tid fr = (r, fr')"
      using e assms(2) by (auto simp: handleFileEnd_def split: option.splits if_splits)
    from assemble_cases [OF this assms(2)] show ?thesis by blast
  qed
  moreover have ?thesis if c: "handleFileChunk env json fr = (r, fr')"
  proof -
    obtain k tr where k: "jcChunkOf (rvCodec env) json = Some k" "go_get (frTransfers fr) (fkTransferID k) = Some tr"
      using c assms(2) by (auto simp: handleFileChunk_def split: option.splits)
    let ?fr = "fr\<lparr>frTransfers := go_put (fkTransferID k) (add_chunk k tr) (frTransfers fr)\<rparr>"
    have "assembleFile env (ftTransferID tr) ?fr = (r, fr')"
      using c k assms(2) by (auto simp: handleFileChunk_def Let_def split: if_splits)
    from assemble_cases [OF this] assms(2) obtain tr' w where
      w: "go_get (frTransfers ?fr) (ftTransferID tr) = Some tr'" "hash_text (rvSha env) w = ftFileHash tr'"
        "frCompleted fr' = frCompleted fr @ [(path_join (frOutput fr) (ftFileName tr'), ftFileHash tr')]"
        "go_get (frFiles fr') (path_join (frOutput fr) (ftFileName tr')) = Some (w, rvNow env)" by auto
    show ?thesis
    proof (cases "ftTransferID tr = fkTransferID k")
      case True
      then have "tr' = add_chunk k tr" using w(1) by (simp add: gomap_simps)
      then have "ftFileHash tr' = ftFileHash tr" "ftFileName tr' = ftFileName tr" by (simp_all add: add_chunk_def)
      then show ?thesis using w k(2) by metis
    next
      case False
      then show ?thesis using w by (auto simp: gomap_simps)
    qed
  qed
  ultimately show ?thesis by blast
qed

text \<open>
  A chunk that comes twice counts twice.  When it stands in for the last missing one, the transfer is given up and a file that had
  the announced name before is overwritten.
\<close>

theorem repeated_chunk_gives_up:
  assumes "json_ok (rvCodec env)" and "rvCreate env" and "\<forall>i. rvWrite env i"
    and "go_get (frTransfers fr) (fkTransferID k) = Some tr" and "ftTransferID tr = fkTransferID k"
    and "ftReceivedChunks tr + 1 = ftTotalChunks tr" and "fkType k = FileChunkType"
    and "0 \<le> i" and "i < ftTotalChunks tr" and "i \<noteq> fkChunkIndex k" and "map_of (ftChunks tr) i = None"
  shows "\<exists>m fr' w. HandleFilePacket env (file_packet se ch ts seq (jcChunk (rvCodec env) k)) fr = (Inl (MissingChunk m), fr')
    \<and> go_get (frTransfers fr') (fkTransferID k) = None
    \<and> go_get (frFiles fr') (path_join (frOutput fr) (ftFileName tr)) = Some (w, rvNow env)"
proof -
  let ?tr = "add_chunk k tr" and ?fr = "fr\<lparr>frTransfers := go_put (fkTransferID k) (add_chunk k tr) (frTransfers fr)\<rparr>"
  have "map_of (ftChunks ?tr) i = None" using assms(10,11) by (simp add: add_chunk_def update_int_get)
  then obtain m w where w: "write_chunks env (ftChunks ?tr) [0..ftTotalChunks tr - 1] [] = (Some (MissingChunk m), w)"
    using write_chunks_missing [of i "[0..ftTotalChunks tr - 1]" "ftChunks ?tr" env "[]"] assms(3,8,9) by auto
  have "HandleFilePacket env (file_packet se ch ts seq (jcChunk (rvCodec env) k)) fr = assembleFile env (fkTransferID k) ?fr"
    using handle_chunk [OF assms(1,7), of se ch ts seq fr] assms(4-6) json_okD(6) [OF assms(1)]
    by (simp add: handleFileChunk_def add_chunk_def Let_def)
  moreover have "assembleFile env (fkTransferID k) ?fr =
      (Inl (MissingChunk m), store_file env (path_join (frOutput fr) (ftFileName tr)) w (?fr\<lparr>frTransfers := go_del (fkTransferID k) (frTransfers ?fr)\<rparr>))"
  proof -
    have "ftTotalChunks ?tr = ftTotalChunks tr" "ftReceivedChunks ?tr = ftTotalChunks tr" "ftFileName ?tr = ftFileName tr"
      using assms(6) by (simp_all add: add_chunk_def)
    then show ?thesis using w assms(2) by (simp add: assembleFile_def Let_def gomap_simps)
  qed
  ultimately show ?thesis by (simp add: store_file_def gomap_simps)
qed

section \<open>Witnesses\<close>

text \<open>A concrete encoding: the fields one after the other, each behind its length in unary.\<close>

fun frame :: "string list \<Rightarrow> string" where
  "frame [] = []"
| "frame (s # ss) = replicate (length s) (CHR ''+'') @ CHR ''.'' # s @ frame ss"

fun unframe :: "nat \<Rightarrow> string \<Rightarrow> string list" where
  "unframe 0 t = []"
| "unframe (Suc n) t =
     (let k = length (takeWhile (\<lambda>c. c = CHR ''+'') t); u = drop (Suc k) t in take k u # unframe n (drop k u))"

lemma unframe_frame: "unframe (length ss) (frame ss @ t) = ss"
  by (induction ss) (simp_all add: Let_def takeWhile_append)

definition tally :: "int \<Rightarrow> string" where
  "tally i = (if i < 0 then CHR ''-'' else CHR ''+'') # replicate (nat \<bar>i\<bar>) (CHR ''i'')"

definition untally :: "string \<Rightarrow> int" where
  "untally s = (if hd s = CHR ''-'' then - int (length (tl s)) else int (length (tl s)))"

lemma untally_tally [simp]: "untally (tally i) = i"
  by (simp add: tally_def untally_def)

definition demo_codec :: file_codec where
  "demo_codec =
     \<lparr> jcHeader = (\<lambda>h. frame [fhType h, fhFileName h, tally (fhFileSize h), tally (fhTotalChunks h), fhFileHash h, fhTransferID h]),
       jcChunk = (\<lambda>k. frame [fkType k, fkTransferID k, tally (fkChunkIndex k), tally (fkChunkSize k), fkData k]),
       jcEnd = (\<lambda>e. frame [feType e, feTransferID e, if feSuccess e then ''y'' else []]),
       jcType = (\<lambda>s. Some (hd (unframe 1 s))),
       jcHeaderOf = (\<lambda>s. case unframe 6 s of
         [t, n, z, c, h, i] \<Rightarrow> Some \<lparr> fhType = t, fhFileName = n, fhFileSize = untally z, fhTotalChunks = untally c, fhFileHash = h, fhTransferID = i \<rparr>
       | _ \<Rightarrow> None),
       jcChunkOf = (\<lambda>s. case unframe 5 s of
         [t, i, x, z, d] \<Rightarrow> Some \<lparr> fkType = t, fkTransferID = i, fkChunkIndex = untally x, fkChunkSize = untally z, fkData = d \<rparr>
       | _ \<Rightarrow> None),
       jcEndOf = (\<lambda>s. case unframe 3 s of
         [t, i, y] \<Rightarrow> Some \<lparr> feType = t, feTransferID = i, feSuccess = (y \<noteq> []) \<rparr> | _ \<Rightarrow> None) \<rparr>"

lemma demo_codec_ok: "json_ok demo_codec"
proof -
  have one: "unframe 1 (frame (s # ss)) = [s]" for s ss using unframe_frame [of "[s]" "frame ss"] by simp
  have all: "unframe n (frame ss) = ss" if n: "length ss = n" for n ss using unframe_frame [of ss "[]"] n by simp
  have ne: "frame (s # ss) \<noteq> []" for s ss by simp
  show ?thesis
    unfolding json_ok_def demo_codec_def file_codec.simps one by (simp add: all ne del: frame.simps)
qed

definition demo_sender :: send_env where
  "demo_sender =
     \<lparr> snCodec = demo_codec, snSha = clSha256 demo_lib, snConnector = ''a'', snNow = 7, snStream = True, snReads = (\<lambda>_. True),
       snSends = (\<lambda>_. True) \<rparr>"

definition demo_receiver :: receive_env where
  "demo_receiver =
     \<lparr> rvCodec = demo_codec, rvSha = clSha256 demo_lib, rvNow = 9, rvCreate = True, rvWrite = (\<lambda>_. True), rvRead = True, rvRemove = True \<rparr>"

lemma demo_file_works: "sender_works demo_sender" "receiver_works demo_codec (clSha256 demo_lib) demo_receiver"
  by (simp_all add: sender_works_def receiver_works_def demo_sender_def demo_receiver_def)

definition demo_sent_file :: "DataPacket list" where
  "demo_sent_file = snd (SendFile demo_sender ''ch'' ''f'' 5 (Some ''hello'') (Some ''hello'') [])"


text \<open>A transfer of two chunks, of which the first comes again.\<close>

definition demo_half :: fileTransfer where
  "demo_half = \<lparr> ftTransferID = ''t'', ftFileName = ''f'', ftFileSize = 4, ftTotalChunks = 2, ftFileHash = ''h'',
     ftChunks = [(0, ''ab'')], ftReceivedChunks = 1 \<rparr>"

definition demo_busy_receiver :: FileReceiver where
  "demo_busy_receiver = (NewFileReceiver ''out'' [(''out/f'', ''old'', 0)])\<lparr>frTransfers := [(''t'', demo_half)]\<rparr>"

theorem repeated_chunk_gives_up_witness:
  "\<exists>m fr' w. HandleFilePacket demo_receiver (file_packet demo_sender ''ch'' [] 1 (jcChunk demo_codec (file_chunk ''t'' 0 ''ab''))) demo_busy_receiver
      = (Inl (MissingChunk m), fr') \<and> go_get (frTransfers fr') ''t'' = None \<and> go_get (frFiles fr') ''out/f'' = Some (w, 9)"
proof -
  have p: "path_join ''out'' ''f'' = ''out/f''" by (simp add: path_join_def path_clean_def path_element_def)
  show ?thesis
    using repeated_chunk_gives_up [of demo_receiver demo_busy_receiver "file_chunk ''t'' 0 ''ab''" demo_half 1 demo_sender "''ch''" "[]" 1] demo_codec_ok p
    by (simp add: demo_receiver_def demo_busy_receiver_def demo_half_def file_chunk_def NewFileReceiver_def)
qed

text \<open>The one chunk of a file completes it.\<close>

definition demo_last :: fileTransfer where
  "demo_last = \<lparr> ftTransferID = ''t'', ftFileName = ''f'', ftFileSize = 2, ftTotalChunks = 1,
     ftFileHash = hash_text (clSha256 demo_lib) ''ab'', ftChunks = [], ftReceivedChunks = 0 \<rparr>"

theorem reported_file_genuine_witness:
  "\<exists>fr' w. HandleFilePacket demo_receiver (file_packet demo_sender ''ch'' [] 1 (jcChunk demo_codec (file_chunk ''t'' 0 ''ab'')))
       (demo_busy_receiver\<lparr>frTransfers := [(''t'', demo_last)]\<rparr>) = (Inr (), fr')
     \<and> go_get (frFiles fr') ''out/f'' = Some (w, 9) \<and> hash_text (clSha256 demo_lib) w = hash_text (clSha256 demo_lib) ''ab''"
proof -
  let ?p = "file_packet demo_sender ''ch'' [] 1 (jcChunk demo_codec (file_chunk ''t'' 0 ''ab''))"
  let ?fr = "demo_busy_receiver\<lparr>frTransfers := [(''t'', demo_last)]\<rparr>"
  have p: "path_join ''out'' ''f'' = ''out/f''" by (simp add: path_join_def path_clean_def path_element_def)
  have step: "HandleFilePacket demo_receiver ?p ?fr = handleFileChunk demo_receiver (jcChunk demo_codec (file_chunk ''t'' 0 ''ab'')) ?fr"
    using handle_chunk [of demo_receiver "file_chunk ''t'' 0 ''ab''" demo_sender "''ch''" "[]" 1 ?fr] demo_codec_ok
    by (simp add: demo_receiver_def file_chunk_def)
  obtain fr' where r: "HandleFilePacket demo_receiver ?p ?fr = (Inr (), fr')" "frCompleted fr' \<noteq> frCompleted ?fr"
    using json_okD(6) [OF demo_codec_ok] unfolding step
    by (simp add: handleFileChunk_def demo_receiver_def demo_busy_receiver_def demo_last_def file_chunk_def NewFileReceiver_def
        add_chunk_def assembleFile_def Let_def store_file_def p)
  from reported_file_genuine [OF r] obtain tid tr w where
    w: "go_get (frTransfers ?fr) tid = Some tr" "hash_text (rvSha demo_receiver) w = ftFileHash tr"
      "go_get (frFiles fr') (path_join (frOutput ?fr) (ftFileName tr)) = Some (w, rvNow demo_receiver)" by blast
  then have "tr = demo_last" by (simp split: if_splits)
  with w r(1) p show ?thesis by (auto simp: demo_last_def demo_receiver_def demo_busy_receiver_def NewFileReceiver_def)
qed

end
