(* ===== verification/Connector_Chain.thy ===== *)
theory Connector_Chain
  imports Data_Service
begin

text \<open>
  Data in the connector program (\<^verbatim>\<open>connector/client/connector.go\<close>): \<^verbatim>\<open>SendData\<close> and the real-time sender, the packets that
  \<^verbatim>\<open>ReceiveData\<close> and \<^verbatim>\<open>receiveDataSilent\<close> take from a subscription, and the rows both keep in the connector's business chain.

  The store is \<open>None\<close> when the connector runs without database.  An attempt to insert a row succeeds, fails, or is carried out
  without an answer (the connection is lost before it comes): \<open>InsertUnanswered\<close>.  The keys and the outcome of every statement
  are fields of \<open>conn_env\<close>; what a stream answers is an argument.
\<close>

section \<open>Environment\<close>

datatype insert_outcome = Inserted | InsertFailed | InsertUnanswered

record ('k, 'p) conn_env =
  ceLib :: "('k, 'p) crypto_lib"
  ceKey :: "'k option"
  ceConnector :: string
  ceNow :: time
  ceRead :: "nat \<Rightarrow> bool"
  ceInsert :: "nat \<Rightarrow> insert_outcome"
  ceAckRead :: "nat \<Rightarrow> bool"
  ceAckInsert :: "nat \<Rightarrow> insert_outcome"

type_synonym conn_rows = "BusinessChainRecord list"

datatype conn_error = ConnChainMissing | ConnChain chain_error | ConnSign sign_error

text \<open>An operation on the table whose insertion meets the given outcome.\<close>

definition answered ::
    "insert_outcome \<Rightarrow> (bool \<Rightarrow> (chain_error + unit) \<times> conn_rows) \<Rightarrow> conn_rows \<Rightarrow> (chain_error + unit) \<times> conn_rows" where
  "answered oc op t =
     (case oc of
        Inserted \<Rightarrow> op True
      | InsertFailed \<Rightarrow> op False
      | InsertUnanswered \<Rightarrow> (case op True of (r, t') \<Rightarrow> (if length t' = length t then r else Inl SaveChainFailed, t')))"

text \<open>
  At most \<open>n\<close> attempts, from attempt \<open>i\<close> on.  The loops of the code look at the text of the error only to decide whether to
  wait: an error of another kind is tried again as well.
\<close>

fun attempts ::
    "nat \<Rightarrow> (nat \<Rightarrow> conn_rows \<Rightarrow> (chain_error + unit) \<times> conn_rows) \<Rightarrow> nat \<Rightarrow> conn_rows \<Rightarrow> (chain_error + unit) \<times> conn_rows" where
  "attempts 0 op i t = (Inl SaveChainFailed, t)"
| "attempts (Suc n) op i t =
     (case op i t of (Inr u, t') \<Rightarrow> (Inr u, t') | (Inl e, t') \<Rightarrow> attempts n op (Suc i) t')"

definition record_attempts ::
    "('k, 'p) conn_env \<Rightarrow> string \<Rightarrow> string \<Rightarrow> string \<Rightarrow> string \<Rightarrow> string \<Rightarrow> conn_rows \<Rightarrow> (chain_error + unit) \<times> conn_rows" where
  "record_attempts env ch dh ph ps sig =
     attempts 3 (\<lambda>i t. answered (ceInsert env i) (\<lambda>ok. RecordChainData ok (ceNow env) ch dh ph ps sig t) t) 0"

definition ack_attempts ::
    "('k, 'p) conn_env \<Rightarrow> string \<Rightarrow> string \<Rightarrow> string \<Rightarrow> conn_rows \<Rightarrow> (chain_error + unit) \<times> conn_rows" where
  "ack_attempts env ch ps sig =
     attempts 4 (\<lambda>i t. answered (ceAckInsert env i) (\<lambda>ok. HandleAck (ceAckRead env i) ok (ceNow env) ch ps sig t) t) 0"

section \<open>The chain of the program\<close>

definition connectorSignDataHashHex :: "('k, 'p) conn_env \<Rightarrow> string \<Rightarrow> string \<Rightarrow> sign_error + string" where
  "connectorSignDataHashHex env dh prev =
     (case ceKey env of
        None \<Rightarrow> Inl KeyUnavailable
      | Some k \<Rightarrow> (case clSignPSS (ceLib env) k (clSha256 (ceLib env) (dh @ prev)) of
                     None \<Rightarrow> Inl SigningFailed
                   | Some s \<Rightarrow> Inr (hex_encode s)))"

definition connectorRecordBusinessData ::
    "('k, 'p) conn_env \<Rightarrow> string \<Rightarrow> string \<Rightarrow> conn_rows option \<Rightarrow> (conn_error + string \<times> string) \<times> conn_rows option" where
  "connectorRecordBusinessData env ch data store =
     (case store of
        None \<Rightarrow> (Inl ConnChainMissing, None)
      | Some t \<Rightarrow>
          (case (GetLastRecordByChannel (ceRead env 0) ch t, GetLastRecordWithAck (ceRead env 1) ch t) of
             (Some last_data, Some newest) \<Rightarrow>
               (let prev = (case last_data of None \<Rightarrow> [] | Some r \<Rightarrow> brDataHash r);
                    prev_sig = (case newest of None \<Rightarrow> [] | Some r \<Rightarrow> brSignature r);
                    dh = data_hash (clSha256 (ceLib env)) data prev
                in case connectorSignDataHashHex env dh prev of
                     Inl e \<Rightarrow> (Inl (ConnSign e), Some t)
                   | Inr sig \<Rightarrow>
                       (case record_attempts env ch dh prev prev_sig sig t of
                          (Inl e, t') \<Rightarrow> (Inl (ConnChain e), Some t')
                        | (Inr u, t') \<Rightarrow> (Inr (dh, sig), Some t')))
           | _ \<Rightarrow> (Inl (ConnChain ReadChainFailed), Some t)))"

text \<open>What is received is recorded under the hash its packet names; without key the row has no signature.\<close>

definition connectorReceiveBusinessData ::
    "('k, 'p) conn_env \<Rightarrow> string \<Rightarrow> string \<Rightarrow> string \<Rightarrow> conn_rows option \<Rightarrow> (conn_error + string) \<times> conn_rows option" where
  "connectorReceiveBusinessData env ch dh prev_sig store =
     (case store of
        None \<Rightarrow> (Inl ConnChainMissing, None)
      | Some t \<Rightarrow>
          (case ConnectorLastDataHash (ceRead env 0) ch t of
             Inl e \<Rightarrow> (Inl (ConnChain e), Some t)
           | Inr prev \<Rightarrow>
               (let sig = (case connectorSignDataHashHex env dh prev_sig of Inl e \<Rightarrow> [] | Inr s \<Rightarrow> s)
                in case record_attempts env ch dh prev prev_sig sig t of
                     (Inl e, t') \<Rightarrow> (Inl (ConnChain e), Some t')
                   | (Inr u, t') \<Rightarrow> (Inr sig, Some t'))))"

text \<open>\<^verbatim>\<open>sendAckForData\<close>: the row of the acknowledgement, and the acknowledgement itself whatever became of the row.\<close>

definition sendAckForData ::
    "('k, 'p) conn_env \<Rightarrow> string \<Rightarrow> string \<Rightarrow> string \<Rightarrow> string \<Rightarrow> string \<Rightarrow> conn_rows option \<Rightarrow> AckPacket \<times> conn_rows option" where
  "sendAckForData env ch dh kernel_sig flow sig store =
     (\<lparr> apChannelId = ch, apDataHash = dh, apSenderId = ceConnector env, apSignature = sig, apFlowId = flow \<rparr>,
      map_option (\<lambda>t. snd (ack_attempts env ch kernel_sig sig t)) store)"

definition recordAckFromKernel ::
    "('k, 'p) conn_env \<Rightarrow> string \<Rightarrow> string \<Rightarrow> string \<Rightarrow> conn_rows option \<Rightarrow> (conn_error + unit) \<times> conn_rows option" where
  "recordAckFromKernel env ch dh kernel_sig store =
     (case store of
        None \<Rightarrow> (Inl ConnChainMissing, None)
      | Some t \<Rightarrow>
          (case connectorSignDataHashHex env dh kernel_sig of
             Inl e \<Rightarrow> (Inl (ConnSign e), Some t)
           | Inr sig \<Rightarrow>
               (case answered (ceAckInsert env 0) (\<lambda>ok. HandleAck (ceAckRead env 0) ok (ceNow env) ch kernel_sig sig t) t of
                  (Inl e, t') \<Rightarrow> (Inl (ConnChain e), Some t')
                | (Inr u, t') \<Rightarrow> (Inr (), Some t'))))"

section \<open>Sending\<close>

text \<open>
  A packet with its row.  A chunk that could not be recorded is sent all the same, with the hash of its content in place of
  a signature.
\<close>

definition data_packet ::
    "('k, 'p) conn_env \<Rightarrow> string \<Rightarrow> int \<Rightarrow> string list \<Rightarrow> string \<Rightarrow> conn_rows option \<Rightarrow> DataPacket \<times> conn_rows option" where
  "data_packet env ch seq targets chunk store =
     (case connectorRecordBusinessData env ch chunk store of
        (r, store') \<Rightarrow>
          (let (dh, sig) = (case r of Inl e \<Rightarrow> ([], []) | Inr x \<Rightarrow> x);
               chained = (dh \<noteq> [] \<and> sig \<noteq> [])
           in (\<lparr> dpChannelID = ch, dpSequenceNumber = seq, dpPayload = chunk,
                 dpSignature = (if chained then sig else hash_text (clSha256 (ceLib env)) chunk),
                 dpTimestamp = unix (ceNow env), dpSenderID = ceConnector env, dpSenderKernelID = [], dpTargetIDs = targets,
                 dpMessageType = [], dpFlowID = [], dpIsFinal = False, dpDataHash = (if chained then dh else []),
                 dpIsAck = False, dpAckEvidenceRecorded = False, dpAfterSent = None \<rparr>, store')))"

datatype stream_answer = NotSent | NoStatus | StatusRefused | StatusAccepted

datatype send_failure =
  StreamUnavailable | PacketNotSent int | StatusMissing int | PacketRefused int | CloseSendFailed

fun SendData_from ::
    "string \<Rightarrow> int \<Rightarrow> (('k, 'p) conn_env \<times> string \<times> stream_answer) list \<Rightarrow> bool \<Rightarrow> conn_rows option \<Rightarrow>
     (send_failure + unit) \<times> DataPacket list \<times> conn_rows option" where
  "SendData_from ch i [] close_ok store = (if close_ok then Inr () else Inl CloseSendFailed, [], store)"
| "SendData_from ch i ((env, chunk, ans) # cs) close_ok store =
     (case data_packet env ch (i + 1) [] chunk store of
        (p, store') \<Rightarrow>
          (case ans of
             NotSent \<Rightarrow> (Inl (PacketNotSent i), [], store')
           | NoStatus \<Rightarrow> (Inl (StatusMissing i), [p], store')
           | StatusRefused \<Rightarrow> (Inl (PacketRefused i), [p], store')
           | StatusAccepted \<Rightarrow>
               (case SendData_from ch (i + 1) cs close_ok store' of (r, ps, store'') \<Rightarrow> (r, p # ps, store''))))"

definition SendData ::
    "bool \<Rightarrow> string \<Rightarrow> (('k, 'p) conn_env \<times> string \<times> stream_answer) list \<Rightarrow> bool \<Rightarrow> conn_rows option \<Rightarrow>
     (send_failure + unit) \<times> DataPacket list \<times> conn_rows option" where
  "SendData stream_ok ch cs close_ok store =
     (if stream_ok then SendData_from ch 0 cs close_ok store else (Inl StreamUnavailable, [], store))"

record RealtimeSender =
  rsChannelID :: string
  rsSequence :: int

definition StartRealtimeSend :: "bool \<Rightarrow> string \<Rightarrow> send_failure + RealtimeSender" where
  "StartRealtimeSend stream_ok ch =
     (if stream_ok then Inr \<lparr> rsChannelID = ch, rsSequence = 0 \<rparr> else Inl StreamUnavailable)"

text \<open>The status that comes back is only logged.\<close>

definition SendLineTo ::
    "('k, 'p) conn_env \<Rightarrow> string \<Rightarrow> string list \<Rightarrow> bool \<Rightarrow> RealtimeSender \<Rightarrow> conn_rows option \<Rightarrow>
     (send_failure + DataPacket) \<times> RealtimeSender \<times> conn_rows option" where
  "SendLineTo env data targets sent rs store =
     (let rs' = rs\<lparr>rsSequence := rsSequence rs + 1\<rparr>
      in case data_packet env (rsChannelID rs') (rsSequence rs') targets data store of
           (p, store') \<Rightarrow> (if sent then Inr p else Inl (PacketNotSent (rsSequence rs')), rs', store'))"

definition SendLine ::
    "('k, 'p) conn_env \<Rightarrow> string \<Rightarrow> bool \<Rightarrow> RealtimeSender \<Rightarrow> conn_rows option \<Rightarrow>
     (send_failure + DataPacket) \<times> RealtimeSender \<times> conn_rows option" where
  "SendLine env data sent rs store = SendLineTo env data [] sent rs store"

section \<open>Receiving\<close>

text \<open>\<^verbatim>\<open>strings.Contains\<close>.\<close>

fun occurs_in :: "string \<Rightarrow> string \<Rightarrow> bool" where
  "occurs_in w [] \<longleftrightarrow> w = []"
| "occurs_in w (c # cs) \<longleftrightarrow> take (length w) (c # cs) = w \<or> occurs_in w cs"

definition isControlMessage :: "string \<Rightarrow> bool" where
  "isControlMessage payload \<longleftrightarrow> occurs_in ''\"message_type\"'' payload \<and> occurs_in ''\"timestamp\"'' payload"

text \<open>The exported test, which the console uses, wants a colon behind either word.\<close>

definition IsControlMessage :: "string \<Rightarrow> bool" where
  "IsControlMessage payload \<longleftrightarrow> occurs_in ''\"message_type\":'' payload \<and> occurs_in ''\"timestamp\":'' payload"

datatype conn_out = AckSent AckPacket | Handled DataPacket | ControlLogged DataPacket

text \<open>One packet in the loop of \<^verbatim>\<open>ReceiveData\<close>.\<close>

definition take_packet ::
    "('k, 'p) conn_env \<Rightarrow> string \<Rightarrow> DataPacket \<Rightarrow> conn_rows option \<Rightarrow> conn_rows option \<times> conn_out list" where
  "take_packet env ch p store =
     (let (store1, acks) =
            (if store \<noteq> None \<and> dpDataHash p \<noteq> [] \<and> \<not> dpIsAck p \<and> dpSequenceNumber p > 0
             then (case connectorReceiveBusinessData env ch (dpDataHash p) (dpSignature p) store of
                     (r, s) \<Rightarrow>
                       (case sendAckForData env ch (dpDataHash p) (dpSignature p) (dpFlowID p)
                               (case r of Inl e \<Rightarrow> [] | Inr sig \<Rightarrow> sig) s of
                          (a, s') \<Rightarrow> (s', [AckSent a])))
             else (store, []));
          store2 = (if store1 \<noteq> None \<and> dpIsAck p \<and> dpDataHash p \<noteq> []
                    then snd (recordAckFromKernel env ch (dpDataHash p) (dpSignature p) store1) else store1)
      in (store2, acks @ [if isControlMessage (dpPayload p) then ControlLogged p else Handled p]))"

text \<open>One packet in the loop of \<^verbatim>\<open>receiveDataSilent\<close>, by which a sender takes acknowledgements only.\<close>

definition silent_packet :: "('k, 'p) conn_env \<Rightarrow> string \<Rightarrow> DataPacket \<Rightarrow> conn_rows option \<Rightarrow> conn_rows option" where
  "silent_packet env ch p store =
     (if store \<noteq> None \<and> dpIsAck p \<and> dpDataHash p \<noteq> []
      then snd (recordAckFromKernel env ch (dpDataHash p) (dpSignature p) store) else store)"

section \<open>Lemmas\<close>

definition all_answered :: "('k, 'p) conn_env \<Rightarrow> bool" where
  "all_answered env \<longleftrightarrow> (\<forall>i. ceInsert env i \<noteq> InsertUnanswered \<and> ceAckInsert env i \<noteq> InsertUnanswered)"

definition store_works :: "('k, 'p) conn_env \<Rightarrow> bool" where
  "store_works env \<longleftrightarrow> all_answered env \<and> (\<forall>i. ceRead env i) \<and> (\<exists>i < 3. ceInsert env i = Inserted)"

text \<open>An operation that either appends a row of the given shape or fails and changes nothing, tried several times.\<close>

lemma attempts_rows:
  assumes "\<And>i t. op i t = (Inl SaveChainFailed, t) \<or> fst (op i t) = Inr () \<and> P t (snd (op i t))"
  shows "attempts n op i t = (Inl SaveChainFailed, t) \<or> fst (attempts n op i t) = Inr () \<and> P t (snd (attempts n op i t))"
proof (induction n arbitrary: i)
  case (Suc n)
  show ?case using assms [of i t] Suc [of "Suc i"] by (cases "op i t") (auto split: sum.splits)
qed simp

definition recorded :: "string \<Rightarrow> string \<Rightarrow> string \<Rightarrow> string \<Rightarrow> string \<Rightarrow> conn_rows \<Rightarrow> conn_rows \<Rightarrow> bool" where
  "recorded ch dh ph ps sig t t' \<longleftrightarrow> (\<exists>now i. t' = t @ [(chain_row ch dh ph ps sig now)\<lparr>brID := i\<rparr>])"

lemma record_once:
  "oc \<noteq> InsertUnanswered \<Longrightarrow>
   answered oc (\<lambda>ok. RecordChainData ok now ch dh ph ps sig t) t = (Inl SaveChainFailed, t) \<or>
   fst (answered oc (\<lambda>ok. RecordChainData ok now ch dh ph ps sig t) t) = Inr () \<and>
   recorded ch dh ph ps sig t (snd (answered oc (\<lambda>ok. RecordChainData ok now ch dh ph ps sig t) t))"
  by (cases oc) (auto simp: answered_def RecordChainData_def AppendChainRecord_def recorded_def)

lemma record_attempts_rows:
  assumes "all_answered env"
  shows "record_attempts env ch dh ph ps sig t = (Inl SaveChainFailed, t) \<or>
    fst (record_attempts env ch dh ph ps sig t) = Inr () \<and> recorded ch dh ph ps sig t (snd (record_attempts env ch dh ph ps sig t))"
  unfolding record_attempts_def
  by (rule attempts_rows, rule record_once) (use assms in \<open>simp add: all_answered_def\<close>)

lemma attempts_success:
  "i \<le> j \<Longrightarrow> j < i + n \<Longrightarrow> (\<And>t. fst (op j t) = Inr ()) \<Longrightarrow> fst (attempts n op i t) = Inr ()"
proof (induction n arbitrary: i t)
  case (Suc n)
  show ?case
  proof (cases "op i t")
    case (Pair r t')
    show ?thesis
    proof (cases "i = j")
      case True
      then show ?thesis using Suc(4) [of t] Pair by simp
    next
      case False
      then show ?thesis using Suc(1) [of "Suc i" t'] Suc(2-4) Pair by (auto split: sum.splits)
    qed
  qed
qed simp

lemma record_attempts_works:
  assumes "store_works env"
  shows "fst (record_attempts env ch dh ph ps sig t) = Inr () \<and> recorded ch dh ph ps sig t (snd (record_attempts env ch dh ph ps sig t))"
proof -
  obtain j where j: "j < 3" "ceInsert env j = Inserted" using assms by (auto simp: store_works_def)
  have "fst (record_attempts env ch dh ph ps sig t) = Inr ()"
    unfolding record_attempts_def
    by (rule attempts_success [of 0 j]) (use j in \<open>simp_all add: answered_def RecordChainData_def AppendChainRecord_def\<close>)
  then show ?thesis
    using record_attempts_rows [of env ch dh ph ps sig t] assms by (auto simp: store_works_def)
qed

lemma ack_once:
  "oc \<noteq> InsertUnanswered \<Longrightarrow>
   answered oc (\<lambda>ok. HandleAck rd ok now ch ps sig t) t = (Inl SaveChainFailed, t) \<or>
   fst (answered oc (\<lambda>ok. HandleAck rd ok now ch ps sig t) t) = Inr () \<and>
   (snd (answered oc (\<lambda>ok. HandleAck rd ok now ch ps sig t) t) = t \<or>
    recorded ch [] [] ps sig t (snd (answered oc (\<lambda>ok. HandleAck rd ok now ch ps sig t) t)))"
  by (cases oc) (auto simp: answered_def HandleAck_def AppendChainRecord_def recorded_def split: option.splits)

lemma ack_attempts_rows:
  assumes "all_answered env"
  shows "snd (ack_attempts env ch ps sig t) = t \<or> recorded ch [] [] ps sig t (snd (ack_attempts env ch ps sig t))"
proof -
  let ?a = "ack_attempts env ch ps sig t"
  have "?a = (Inl SaveChainFailed, t) \<or> fst ?a = Inr () \<and> (snd ?a = t \<or> recorded ch [] [] ps sig t (snd ?a))"
    unfolding ack_attempts_def
    by (rule attempts_rows [where P = "\<lambda>t t'. t' = t \<or> recorded ch [] [] ps sig t t'"], rule ack_once)
      (use assms in \<open>simp add: all_answered_def\<close>)
  then show ?thesis by auto
qed

text \<open>The data hashes of a channel in the connector's table.\<close>

definition conn_hashes :: "string \<Rightarrow> conn_rows \<Rightarrow> string list" where
  "conn_hashes ch t = map brDataHash (filter is_data (channel_rows ch t))"

definition conn_tip :: "string \<Rightarrow> conn_rows \<Rightarrow> string" where
  "conn_tip ch t = chain_tip brDataHash [] (filter is_data (channel_rows ch t))"

lemma conn_tip_last: "conn_tip ch t = (if conn_hashes ch t = [] then [] else last (conn_hashes ch t))"
  by (auto simp: conn_tip_def conn_hashes_def chain_tip_def last_map)

lemma recorded_ok:
  "recorded ch dh ph ps sig t t' \<Longrightarrow> (dh \<noteq> [] \<Longrightarrow> ph = conn_tip ch t) \<Longrightarrow> chain_table_ok t \<Longrightarrow> chain_table_ok t'"
  by (auto simp: recorded_def conn_tip_def is_data_def intro!: chain_table_ok_append)

lemma recorded_hashes:
  "recorded ch dh ph ps sig t t' \<Longrightarrow> conn_hashes ch' t' = conn_hashes ch' t @ (if ch' = ch \<and> dh \<noteq> [] then [dh] else [])"
  by (auto simp: recorded_def conn_hashes_def channel_rows_append is_data_def)

lemma last_hash_tip:
  "GetLastRecordByChannel rd ch t = Some r \<Longrightarrow> (case r of None \<Rightarrow> [] | Some x \<Rightarrow> brDataHash x) = conn_tip ch t"
  by (auto simp: GetLastRecordByChannel_def last_data_tip conn_tip_def split: if_splits)

lemma ConnectorLastDataHash_tip: "ConnectorLastDataHash rd ch t = Inr h \<Longrightarrow> h = conn_tip ch t"
  by (auto simp: ConnectorLastDataHash_def conn_tip_def dest!: last_hash_tip [unfolded conn_tip_def] split: option.splits)

lemma sent_rows:
  assumes "all_answered env" and "data_packet env ch seq targets chunk (Some t) = (p, s)"
  shows "\<exists>t'. s = Some t' \<and> (t' = t \<and> dpDataHash p = [] \<or>
    (\<exists>ps sig. recorded ch (data_hash (clSha256 (ceLib env)) chunk (conn_tip ch t)) (conn_tip ch t) ps sig t t')
    \<and> dpDataHash p \<in> {[], data_hash (clSha256 (ceLib env)) chunk (conn_tip ch t)})"
proof -
  let ?dh = "data_hash (clSha256 (ceLib env)) chunk (conn_tip ch t)"
  obtain r s0 where c: "connectorRecordBusinessData env ch chunk (Some t) = (r, s0)" by force
  then have s: "s = s0" and p: "dpDataHash p = [] \<or> (\<exists>dh sig. r = Inr (dh, sig) \<and> dpDataHash p = dh)"
    using assms(2) by (auto simp: data_packet_def Let_def split: sum.splits prod.splits if_splits)
  have "(isl r \<and> s0 = Some t) \<or> (\<exists>t' ps sig. r = Inr (?dh, sig) \<and> s0 = Some t' \<and> recorded ch ?dh (conn_tip ch t) ps sig t t')"
  proof (cases "GetLastRecordByChannel (ceRead env 0) ch t")
    case (Some last_data)
    show ?thesis
    proof (cases "GetLastRecordWithAck (ceRead env 1) ch t")
      case (Some newest)
      note last_data = \<open>GetLastRecordByChannel (ceRead env 0) ch t = Some last_data\<close>
      define ps where "ps = (case newest of None \<Rightarrow> [] | Some r \<Rightarrow> brSignature r)"
      note c' = c [unfolded connectorRecordBusinessData_def option.case last_data Some prod.case last_hash_tip [OF last_data] Let_def, folded ps_def]
      show ?thesis
      proof (cases "connectorSignDataHashHex env ?dh (conn_tip ch t)")
        case (Inr sig)
        show ?thesis
          using c' Inr record_attempts_rows [OF assms(1), of ch ?dh "conn_tip ch t" ps sig t]
          by (cases "record_attempts env ch ?dh (conn_tip ch t) ps sig t") (auto split: sum.splits)
      qed (use c' in auto)
    qed (use c in \<open>auto simp: connectorRecordBusinessData_def split: option.splits\<close>)
  qed (use c in \<open>auto simp: connectorRecordBusinessData_def\<close>)
  with s p show ?thesis by auto
qed

lemma working_send:
  assumes "store_works env"
    and "connectorSignDataHashHex env (data_hash (clSha256 (ceLib env)) chunk (conn_tip ch t)) (conn_tip ch t) = Inr sig" and "sig \<noteq> []"
  shows "\<exists>p t' ps. data_packet env ch seq targets chunk (Some t) = (p, Some t')
    \<and> dpDataHash p = data_hash (clSha256 (ceLib env)) chunk (conn_tip ch t)
    \<and> recorded ch (data_hash (clSha256 (ceLib env)) chunk (conn_tip ch t)) (conn_tip ch t) ps sig t t'"
proof -
  let ?dh = "data_hash (clSha256 (ceLib env)) chunk (conn_tip ch t)"
  obtain last_data newest where reads: "GetLastRecordByChannel (ceRead env 0) ch t = Some last_data"
    "GetLastRecordWithAck (ceRead env 1) ch t = Some newest"
    using assms(1) by (simp add: store_works_def GetLastRecordByChannel_def GetLastRecordWithAck_def)
  define ps where "ps = (case newest of None \<Rightarrow> [] | Some r \<Rightarrow> brSignature r)"
  obtain t' where row: "record_attempts env ch ?dh (conn_tip ch t) ps sig t = (Inr (), t')" "recorded ch ?dh (conn_tip ch t) ps sig t t'"
    using record_attempts_works [OF assms(1)] by (metis prod.collapse)
  have "connectorRecordBusinessData env ch chunk (Some t) = (Inr (?dh, sig), Some t')"
    unfolding connectorRecordBusinessData_def option.case reads prod.case last_hash_tip [OF reads(1)] Let_def ps_def [symmetric]
    by (simp add: assms(2) row(1))
  with row(2) show ?thesis
    using assms(3) by (auto simp: data_packet_def)
qed

lemma received_rows:
  assumes "all_answered env" and "connectorReceiveBusinessData env ch dh ps (Some t) = (r, s)"
  shows "(isl r \<and> s = Some t) \<or> (\<exists>t' sig. r = Inr sig \<and> s = Some t' \<and> recorded ch dh (conn_tip ch t) ps sig t t')"
proof (cases "ConnectorLastDataHash (ceRead env 0) ch t")
  case (Inr prev)
  define sig where "sig = (case connectorSignDataHashHex env dh ps of Inl e \<Rightarrow> [] | Inr s \<Rightarrow> s)"
  have "prev = conn_tip ch t" using Inr by (rule ConnectorLastDataHash_tip)
  with assms(2) Inr show ?thesis
    unfolding connectorReceiveBusinessData_def option.case Let_def sum.case Inr sig_def [symmetric]
    using record_attempts_rows [OF assms(1), of ch dh prev ps sig t]
    by (cases "record_attempts env ch dh prev ps sig t") (auto split: sum.splits)
qed (use assms(2) in \<open>auto simp: connectorReceiveBusinessData_def\<close>)

lemma ack_rows:
  assumes "all_answered env" and "recordAckFromKernel env ch dh ks (Some t) = (r, s)"
  shows "\<exists>t'. s = Some t' \<and> (t' = t \<or> (\<exists>sig. recorded ch [] [] ks sig t t'))"
proof (cases "connectorSignDataHashHex env dh ks")
  case (Inr sig)
  have "ceAckInsert env 0 \<noteq> InsertUnanswered" using assms(1) by (simp add: all_answered_def)
  from ack_once [OF this, of "ceAckRead env 0" "ceNow env" ch ks sig t] show ?thesis
    using assms(2) Inr
    by (cases "answered (ceAckInsert env 0) (\<lambda>ok. HandleAck (ceAckRead env 0) ok (ceNow env) ch ks sig t) t")
      (auto simp: recordAckFromKernel_def split: sum.splits)
qed (use assms(2) in \<open>auto simp: recordAckFromKernel_def\<close>)

text \<open>What one packet of a subscription does to the table: a data row, a row of an acknowledgement, both or none.\<close>

lemma packet_rows:
  assumes "all_answered env" and "take_packet env ch p (Some t) = (s, out)"
  shows "\<exists>t1 t2. s = Some t2
    \<and> (t1 = t \<or> (dpDataHash p \<noteq> [] \<and> \<not> dpIsAck p \<and> dpSequenceNumber p > 0
         \<and> (\<exists>sig. recorded ch (dpDataHash p) (conn_tip ch t) (dpSignature p) sig t t1)))
    \<and> (t2 = t1 \<or> (\<exists>sig. recorded ch [] [] (dpSignature p) sig t1 t2))"
proof (cases "dpDataHash p \<noteq> [] \<and> \<not> dpIsAck p \<and> dpSequenceNumber p > 0")
  case True
  obtain r s1 where r: "connectorReceiveBusinessData env ch (dpDataHash p) (dpSignature p) (Some t) = (r, s1)" by force
  obtain t1 where t1: "s1 = Some t1" and
    row: "t1 = t \<or> (\<exists>sig. recorded ch (dpDataHash p) (conn_tip ch t) (dpSignature p) sig t t1)"
    using received_rows [OF assms(1) r] by auto
  have "s = Some (snd (ack_attempts env ch (dpSignature p) (case r of Inl e \<Rightarrow> [] | Inr sig \<Rightarrow> sig) t1))"
    using assms(2) True by (simp add: take_packet_def r t1 sendAckForData_def Let_def)
  with row True show ?thesis using ack_attempts_rows [OF assms(1)] by metis
next
  case False
  show ?thesis
  proof (cases "dpIsAck p \<and> dpDataHash p \<noteq> []")
    case True
    then have "s = snd (recordAckFromKernel env ch (dpDataHash p) (dpSignature p) (Some t))"
      using assms(2) by (simp add: take_packet_def Let_def)
    then show ?thesis using ack_rows [OF assms(1), of ch "dpDataHash p" "dpSignature p" t] by (metis prod.collapse)
  next
    case False
    with \<open>\<not> (dpDataHash p \<noteq> [] \<and> \<not> dpIsAck p \<and> dpSequenceNumber p > 0)\<close> have "s = Some t"
      using assms(2) by (auto simp: take_packet_def Let_def split: if_splits)
    then show ?thesis by blast
  qed
qed

lemma silent_rows:
  "all_answered env \<Longrightarrow> \<exists>t'. silent_packet env ch p (Some t) = Some t' \<and> (t' = t \<or> (\<exists>sig. recorded ch [] [] (dpSignature p) sig t t'))"
  using ack_rows [of env ch "dpDataHash p" "dpSignature p" t] by (auto simp: silent_packet_def) (metis prod.collapse snd_conv)+

section \<open>The chain of a connector\<close>

text \<open>A connector at work on any of its channels: it sends, takes what its subscriptions bring, and takes acknowledgements.\<close>

inductive conn_step :: "('k, 'p) crypto_lib \<Rightarrow> conn_rows \<Rightarrow> conn_rows \<Rightarrow> bool" for lib where
  conn_send: "data_packet env ch seq targets chunk (Some t) = (p, Some t') \<Longrightarrow> ceLib env = lib \<Longrightarrow> all_answered env \<Longrightarrow> conn_step lib t t'"
| conn_receive: "take_packet env ch p (Some t) = (Some t', out) \<Longrightarrow> ceLib env = lib \<Longrightarrow> all_answered env \<Longrightarrow> conn_step lib t t'"
| conn_silent: "silent_packet env ch p (Some t) = Some t' \<Longrightarrow> ceLib env = lib \<Longrightarrow> all_answered env \<Longrightarrow> conn_step lib t t'"

lemma ack_row_ok: "recorded ch [] [] ps sig t t' \<Longrightarrow> chain_table_ok t \<Longrightarrow> chain_table_ok t'"
  by (erule recorded_ok) simp_all

lemma conn_step_ok: "conn_step lib t t' \<Longrightarrow> chain_table_ok t \<Longrightarrow> chain_table_ok t'"
proof (induction rule: conn_step.induct)
  case (conn_send env ch seq targets chunk t p t')
  then show ?case using sent_rows [OF conn_send(3,1)] by (auto intro: recorded_ok)
next
  case (conn_receive env ch p t t' out)
  then show ?case using packet_rows [OF conn_receive(3,1)] by (auto intro: recorded_ok ack_row_ok)
next
  case (conn_silent env ch p t t')
  then show ?case using silent_rows [OF conn_silent(3), of ch p t] by (auto intro: ack_row_ok)
qed

interpretation conn: invariant_system "\<lambda>t. t = []" "conn_step lib" chain_table_ok for lib
  by unfold_locales (simp add: chain_table_ok_def channel_rows_def, rule conn_step_ok)

section \<open>From connector to connector\<close>

lemma data_packet_fields:
  "data_packet env ch seq targets chunk store = (p, s) \<Longrightarrow>
   dpChannelID p = ch \<and> dpPayload p = chunk \<and> dpSequenceNumber p = seq \<and> dpSenderID p = ceConnector env \<and> dpTargetIDs p = targets"
  by (auto simp: data_packet_def Let_def split: prod.splits)

lemma sent_hashes:
  assumes "all_answered env" and "data_packet env ch seq targets chunk (Some t) = (p, Some t')" and "dpDataHash p \<noteq> []"
  shows "conn_hashes ch t' = extended (clSha256 (ceLib env)) chunk (conn_hashes ch t)"
  using sent_rows [OF assms(1,2)] assms(3)
  by (auto simp: extended_def recorded_hashes data_hash_nonempty conn_tip_last)

lemma received_hashes:
  assumes "store_works env" and "take_packet env ch p (Some t) = (Some t', out)"
    and "dpDataHash p \<noteq> []" and "\<not> dpIsAck p" and "dpSequenceNumber p > 0"
  shows "conn_hashes ch t' = conn_hashes ch t @ [dpDataHash p]"
proof -
  have all: "all_answered env" and rd: "ceRead env 0" using assms(1) by (simp_all add: store_works_def)
  define sig where "sig = (case connectorSignDataHashHex env (dpDataHash p) (dpSignature p) of Inl e \<Rightarrow> [] | Inr s \<Rightarrow> s)"
  obtain prev where prev: "ConnectorLastDataHash (ceRead env 0) ch t = Inr prev"
    using rd by (cases "last_row (filter is_data (channel_rows ch t))") (simp_all add: ConnectorLastDataHash_def GetLastRecordByChannel_def)
  define t1 where "t1 = snd (record_attempts env ch (dpDataHash p) prev (dpSignature p) sig t)"
  have row: "recorded ch (dpDataHash p) prev (dpSignature p) sig t t1"
    and u: "record_attempts env ch (dpDataHash p) prev (dpSignature p) sig t = (Inr (), t1)"
    using record_attempts_works [OF assms(1), of ch "dpDataHash p" prev "dpSignature p" sig t] unfolding t1_def
    by (metis, metis prod.collapse)
  have "connectorReceiveBusinessData env ch (dpDataHash p) (dpSignature p) (Some t) = (Inr sig, Some t1)"
    by (simp add: connectorReceiveBusinessData_def prev Let_def u flip: sig_def)
  then have "t' = snd (ack_attempts env ch (dpSignature p) sig t1)"
    using assms(2-5) by (simp add: take_packet_def sendAckForData_def Let_def)
  then show ?thesis
    using ack_attempts_rows [OF all, of ch "dpSignature p" sig t1] recorded_hashes [OF row, of ch] assms(3)
    by (auto simp: recorded_hashes)
qed

lemma pushed_queue:
  assumes "PushData um now cm c p = Some (r, c', cm', effs)" and "dpMessageType p \<noteq> MessageTypeControl"
  shows "chQueue c' = chQueue c \<or> chQueue c' = chQueue c @ [p]"
  using assms by (auto simp: PushData_plain push_data_def push_to_targets_def Let_def split: if_splits option.splits)

text \<open>What a stream puts into the queue of its channel is the packet with the hash that the kernel records.\<close>

lemma stream_data_queue:
  assumes "stream_data env p st ds = Some (r, ds', out)"
    and "GetChannel (dpChannelID p) (dsManager ds) = Inr c" and "GetChannel (dpChannelID p) (dsManager ds') = Inr c'"
    and "chQueue c' = chQueue c @ [q]"
  shows "\<exists>sig. q = stream_packet st (data_hash (deSha env) (dpPayload p) (previous_hash env (ssChannel st) ds)) sig p"
proof (cases "chStatus c = ChannelStatusActive")
  case True
  define dh where "dh = data_hash (deSha env) (dpPayload p) (previous_hash env (ssChannel st) ds)"
  define sig where "sig = (case deSign env dh (dpSignature p) of Inl e \<Rightarrow> dpSignature p | Inr s \<Rightarrow> s)"
  note data = assms(1) [unfolded stream_data_def Let_def assms(2) sum.case, folded dh_def, folded sig_def]
  obtain r' c1 cm' effs where
    push: "PushData (deUnmarshal env) (deNow env) (dsManager ds) c (stream_packet st dh sig p) = Some (r', c1, cm', effs)"
    using data True by (cases "PushData (deUnmarshal env) (deNow env) (dsManager ds) c (stream_packet st dh sig p)") auto
  have "dsManager ds' = put_channel (dpChannelID p) c1 cm'" using data True by (auto simp: push)
  then have "c' = c1" using assms(3) by (simp add: GetChannel_def put_channel_def gomap_simps)
  then show ?thesis
    using pushed_queue [OF push] assms(4) unfolding dh_def by (auto simp: message_type_defs)
qed (use assms in \<open>auto simp: stream_data_def\<close>)

text \<open>
  A connector that sends on a channel of its kernel, and a connector that receives from it: the table of the sender, the
  state of the kernel, the packets on their way from the channel's queue to the receiver, and the table of the receiver.
  Acknowledgements pass between them, and the kernel's channels do what they like.
\<close>

type_synonym e2e = "conn_rows \<times> data_state \<times> DataPacket list \<times> conn_rows"

inductive e2e_step :: "('k, 'p) crypto_lib \<Rightarrow> string \<Rightarrow> e2e \<Rightarrow> e2e \<Rightarrow> bool" for lib ch where
  e2e_send: "data_packet env ch seq targets chunk (Some a) = (p, Some a') \<Longrightarrow> dpDataHash p \<noteq> [] \<Longrightarrow> seq > 0 \<Longrightarrow>
     ceLib env = lib \<Longrightarrow> all_answered env \<Longrightarrow>
     stream_data ke p st ds = Some (Inr u, ds', out) \<Longrightarrow> kernel_works (clSha256 lib) ke \<Longrightarrow> is_local (deKernelID ke) (ssSender st) \<Longrightarrow>
     ssChannel st = ch \<Longrightarrow> GetChannel ch (dsManager ds) = Inr c \<Longrightarrow> GetChannel ch (dsManager ds') = Inr c' \<Longrightarrow>
     chQueue c' = chQueue c @ [q] \<Longrightarrow> e2e_step lib ch (a, ds, w, b) (a', ds', w @ [q], b)"
| e2e_receive: "take_packet env ch (delivered q) (Some b) = (Some b', out) \<Longrightarrow> ceLib env = lib \<Longrightarrow> store_works env \<Longrightarrow>
     e2e_step lib ch (a, ds, q # w, b) (a, ds, w, b')"
| e2e_ack: "SendAck ke k ds = Some (r, ds', out) \<Longrightarrow> e2e_step lib ch (a, ds, w, b) (a, ds', w, b)"
| e2e_ack_back: "silent_packet env ch q (Some a) = Some a' \<Longrightarrow> ceLib env = lib \<Longrightarrow> all_answered env \<Longrightarrow>
     e2e_step lib ch (a, ds, w, b) (a', ds, w, b)"
| e2e_channels: "e2e_step lib ch (a, ds, w, b) (a, ds\<lparr>dsManager := cm\<rparr>, w, b)"

definition e2e_init :: "e2e \<Rightarrow> bool" where
  "e2e_init s \<longleftrightarrow> (case s of (a, ds, w, b) \<Rightarrow> a = [] \<and> dsChain ds = Some [] \<and> w = [] \<and> b = [])"

definition e2e_ok :: "string \<Rightarrow> e2e \<Rightarrow> bool" where
  "e2e_ok ch s \<longleftrightarrow> (case s of (a, ds, w, b) \<Rightarrow>
     conn_hashes ch a = data_hashes ch ds \<and> data_hashes ch ds = conn_hashes ch b @ map dpDataHash w \<and> dsChain ds \<noteq> None
     \<and> (\<forall>q \<in> set w. dpDataHash q \<noteq> [] \<and> \<not> dpIsAck q \<and> dpSequenceNumber q > 0))"

lemma e2e_step_ok: "e2e_step lib ch s s' \<Longrightarrow> e2e_ok ch s \<Longrightarrow> e2e_ok ch s'"
proof (induction rule: e2e_step.induct)
  case (e2e_send env seq targets chunk a p a' ke st ds u ds' out c c' q w b)
  note p = data_packet_fields [OF e2e_send(1)]
  have signed: "\<exists>s. deSign ke x y = Inr s" for x y
    using e2e_send(7) by (metis kernel_works_def sum.collapse(2))
  have ke: "deRead ke" "deWrite ke" "deSha ke = clSha256 lib" using e2e_send(7) by (simp_all add: kernel_works_def)
  have ok: "conn_hashes ch a = data_hashes ch ds" "data_hashes ch ds = conn_hashes ch b @ map dpDataHash w" "dsChain ds \<noteq> None"
    "\<forall>q \<in> set w. dpDataHash q \<noteq> [] \<and> \<not> dpIsAck q \<and> dpSequenceNumber q > 0"
    using e2e_send(13) by (simp_all add: e2e_ok_def)
  have a': "conn_hashes ch a' = extended (clSha256 lib) chunk (conn_hashes ch a)"
    using sent_hashes [OF e2e_send(5,1,2)] e2e_send(4) by simp
  have ds': "data_hashes ch ds' = extended (clSha256 lib) chunk (data_hashes ch ds)"
    using stream_data_hashes [OF e2e_send(6) ke(1,2) e2e_send(8) signed ok(3)] p ke(3) e2e_send(9) by simp
  obtain sig where q: "q = stream_packet st (data_hash (clSha256 lib) chunk (previous_hash ke ch ds)) sig p"
    using stream_data_queue [OF e2e_send(6), of c c' q] e2e_send(9-12) p ke(3) by auto
  have "data_hashes ch ds' = data_hashes ch ds @ [dpDataHash q]"
    using ds' previous_hash_last [OF ke(1), of ch ds] by (simp add: q extended_def stream_packet_def)
  moreover have "dpDataHash q \<noteq> []" "\<not> dpIsAck q" "dpSequenceNumber q > 0"
    using p e2e_send(3) by (simp_all add: q stream_packet_def)
  ultimately show ?case
    using ok a' ds' stream_chain_stays [OF e2e_send(6)] by (auto simp: e2e_ok_def)
next
  case (e2e_receive env q b b' out a ds w)
  have "conn_hashes ch b' = conn_hashes ch b @ [dpDataHash q]"
    using received_hashes [OF e2e_receive(3,1)] e2e_receive(4) by (simp add: delivered_def e2e_ok_def)
  with e2e_receive(4) show ?case by (simp add: e2e_ok_def)
next
  case (e2e_ack ke k ds r ds' out a w b)
  then show ?case using SendAck_hashes ack_chain_stays by (fastforce simp: e2e_ok_def)
next
  case (e2e_ack_back env q a a' ds w b)
  have "conn_hashes ch a' = conn_hashes ch a"
    using silent_rows [OF e2e_ack_back(3), of ch q a] e2e_ack_back(1) by (auto simp: recorded_hashes)
  with e2e_ack_back(4) show ?case by (simp add: e2e_ok_def)
qed (simp add: e2e_ok_def data_simps)

interpretation e2e: invariant_system e2e_init "e2e_step lib ch" "e2e_ok ch" for lib ch
proof unfold_locales
  show "e2e_ok ch s" if "e2e_init s" for s
    using that by (auto simp: e2e_init_def e2e_ok_def data_hashes_def conn_hashes_def channel_rows_def)
qed (rule e2e_step_ok)

section \<open>Properties\<close>

text \<open>
  C34. Whatever a connector sends, receives and acknowledges on its channels, with whatever packets and failing statements or
  keys, the chain of every channel verifies, as long as no insertion is carried out without an answer.
\<close>

theorem connector_program_chain_verifies:
  assumes "reach (\<lambda>t. t = []) (conn_step lib) t"
  shows "VerifyChain True ch t = Inr True"
proof -
  have "linked brPrevHash brDataHash [] (filter is_data (channel_rows ch t))"
    using conn.reach_inv [OF assms] by (simp add: chain_table_ok_def)
  then show ?thesis by (simp add: VerifyChain_iff chain_start_ok)
qed


text \<open>
  A row that was inserted although its answer was lost is inserted again: the data counts as recorded, and the chain
  of the channel no longer verifies.
\<close>

theorem lost_answer_breaks_chain:
  assumes "ceRead env 0" and "ceRead env 1" and "ceInsert env 0 = InsertUnanswered" and "ceInsert env 1 = Inserted"
    and "connectorSignDataHashHex env (data_hash (clSha256 (ceLib env)) data (conn_tip ch t)) (conn_tip ch t) = Inr sig"
    and "data_hash (clSha256 (ceLib env)) data (conn_tip ch t) \<noteq> conn_tip ch t"
  shows "\<exists>t'. connectorRecordBusinessData env ch data (Some t)
      = (Inr (data_hash (clSha256 (ceLib env)) data (conn_tip ch t), sig), Some t') \<and> VerifyChain True ch t' \<noteq> Inr True"
proof -
  let ?dh = "data_hash (clSha256 (ceLib env)) data (conn_tip ch t)"
  obtain last_data newest where reads: "GetLastRecordByChannel (ceRead env 0) ch t = Some last_data"
    "GetLastRecordWithAck (ceRead env 1) ch t = Some newest"
    using assms(1,2) by (simp add: GetLastRecordByChannel_def GetLastRecordWithAck_def)
  define ps where "ps = (case newest of None \<Rightarrow> [] | Some r \<Rightarrow> brSignature r)"
  define row where "row i = (chain_row ch ?dh (conn_tip ch t) ps sig (ceNow env))\<lparr>brID := i\<rparr>" for i
  have again: "record_attempts env ch ?dh (conn_tip ch t) ps sig t = (Inr (), t @ [row (int (length t) + 1), row (int (length t) + 2)])"
    using assms(3,4)
    by (simp add: record_attempts_def numeral_3_eq_3 answered_def RecordChainData_def AppendChainRecord_def row_def)
  have "connectorRecordBusinessData env ch data (Some t)
      = (Inr (?dh, sig), Some (t @ [row (int (length t) + 1), row (int (length t) + 2)]))"
    unfolding connectorRecordBusinessData_def option.case reads prod.case last_hash_tip [OF reads(1)] Let_def ps_def [symmetric]
    by (simp add: assms(5) again)
  moreover have "VerifyChain True ch (t @ [row (int (length t) + 1), row (int (length t) + 2)]) \<noteq> Inr True"
  proof -
    have r: "brChannelID (row i) = ch" "is_data (row i)" "brDataHash (row i) = ?dh" "brPrevHash (row i) = conn_tip ch t" for i
      by (simp_all add: row_def is_data_def)
    have rows: "filter is_data (channel_rows ch (t @ [row i, row j])) = (filter is_data (channel_rows ch t) @ [row i]) @ [row j]" for i j
      by (simp add: channel_rows_def r)
    show ?thesis
      unfolding VerifyChain_iff rows linked_append_one using assms(6) by (simp add: r)
  qed
  ultimately show ?thesis by blast
qed

text \<open>
  A packet whose row cannot be stored is acknowledged all the same, with an empty signature.
\<close>

theorem unrecorded_data_acknowledged:
  assumes "\<forall>i. ceInsert env i = InsertFailed \<and> ceAckInsert env i = InsertFailed"
    and "dpDataHash p \<noteq> []" and "\<not> dpIsAck p" and "dpSequenceNumber p > 0"
  shows "\<exists>out. take_packet env ch p (Some t) = (Some t, out)
    \<and> AckSent \<lparr> apChannelId = ch, apDataHash = dpDataHash p, apSenderId = ceConnector env, apSignature = [],
                 apFlowId = dpFlowID p \<rparr> \<in> set out"
proof -
  have no_row: "record_attempts env ch dh ph ps sig t = (Inl SaveChainFailed, t)" for dh ph ps sig
    using assms(1) by (simp add: record_attempts_def numeral_3_eq_3 answered_def RecordChainData_def AppendChainRecord_def)
  have ok: "all_answered env" using assms(1) by (simp add: all_answered_def)
  have no_ack: "snd (ack_attempts env ch ps sig t) = t" for ps sig
  proof -
    have failed: "snd (answered (ceAckInsert env i) (\<lambda>ok. HandleAck (ceAckRead env i) ok (ceNow env) ch ps sig t) t) = t" for i t
      using assms(1) by (simp add: answered_def HandleAck_def AppendChainRecord_def)
    have "snd (attempts n (\<lambda>i t. answered (ceAckInsert env i) (\<lambda>ok. HandleAck (ceAckRead env i) ok (ceNow env) ch ps sig t) t) i t) = t" for n i
    proof (induction n arbitrary: i)
      case (Suc n)
      show ?case using failed [of i t] Suc [of "Suc i"]
        by (cases "answered (ceAckInsert env i) (\<lambda>ok. HandleAck (ceAckRead env i) ok (ceNow env) ch ps sig t) t") (auto split: sum.splits)
    qed simp
    then show ?thesis unfolding ack_attempts_def .
  qed
  obtain e where "connectorReceiveBusinessData env ch (dpDataHash p) (dpSignature p) (Some t) = (Inl e, Some t)"
    by (cases "ConnectorLastDataHash (ceRead env 0) ch t") (simp_all add: connectorReceiveBusinessData_def no_row Let_def)
  then show ?thesis
    using assms(2-4) by (simp add: take_packet_def sendAckForData_def no_ack Let_def)
qed

lemma occurs_in_prefix: "take (length w) s = w \<Longrightarrow> occurs_in w s"
  by (cases s) auto

lemma occurs_in_longer: "occurs_in (w @ v) s \<Longrightarrow> occurs_in w s"
proof (induction s)
  case (Cons c cs)
  have "take (length w) (c # cs) = w" if "take (length w + length v) (c # cs) = w @ v"
    using arg_cong [OF that, of "take (length w)"] by (simp add: min_def)
  with Cons show ?case by auto
qed simp

text \<open>
  The console never sees a control message: the loop of \<^verbatim>\<open>ReceiveData\<close> has taken out every packet that the
  console would treat as one.
\<close>

theorem console_sees_no_control:
  assumes "Handled q \<in> set (snd (take_packet env ch p store))"
  shows "\<not> IsControlMessage (dpPayload q)"
proof -
  have "\<not> isControlMessage (dpPayload q)"
    using assms by (auto simp: take_packet_def Let_def split: if_splits prod.splits)
  then show ?thesis
    using occurs_in_longer [of "''\"message_type\"''" "'':''"] occurs_in_longer [of "''\"timestamp\"''" "'':''"]
    by (auto simp: isControlMessage_def IsControlMessage_def)
qed

section \<open>Witnesses\<close>

definition demo_conn :: "string \<Rightarrow> insert_outcome \<Rightarrow> (nat, nat) conn_env" where
  "demo_conn who first =
     \<lparr> ceLib = demo_lib, ceKey = Some 1, ceConnector = who, ceNow = 0, ceRead = (\<lambda>_. True),
       ceInsert = (\<lambda>i. if i = 0 then first else Inserted), ceAckRead = (\<lambda>_. True), ceAckInsert = (\<lambda>_. Inserted) \<rparr>"

definition demo_hash :: string where
  "demo_hash = data_hash (clSha256 demo_lib) ''x'' []"

lemma demo_conn_works: "first \<noteq> InsertUnanswered \<Longrightarrow> store_works (demo_conn who first)"
  by (auto simp: store_works_def all_answered_def demo_conn_def intro!: exI [of _ "1 :: nat"])

lemma demo_conn_fields [simp]:
  "ceLib (demo_conn who first) = demo_lib" "ceKey (demo_conn who first) = Some 1" "ceConnector (demo_conn who first) = who"
  "ceNow (demo_conn who first) = 0" "ceRead (demo_conn who first) i" "ceAckRead (demo_conn who first) i"
  "ceInsert (demo_conn who first) i = (if i = 0 then first else Inserted)" "ceAckInsert (demo_conn who first) i = Inserted"
  by (simp_all add: demo_conn_def)

lemma hex_encode_nonempty: "s \<noteq> [] \<Longrightarrow> hex_encode s \<noteq> []"
  by (cases s) (auto simp: hex_encode_def numeral_2_eq_2)

lemma demo_signature: "\<exists>sig. connectorSignDataHashHex (demo_conn who first) dh prev = Inr sig \<and> sig \<noteq> []"
  by (simp add: connectorSignDataHashHex_def) (simp add: demo_lib_def hex_encode_nonempty)

lemma demo_first_packet:
  "\<exists>p t. data_packet (demo_conn ''a'' InsertFailed) ''ch'' 1 [] ''x'' (Some []) = (p, Some t) \<and> dpDataHash p = demo_hash \<and> t \<noteq> []"
proof -
  have tip: "conn_tip ''ch'' [] = []" by (simp add: conn_tip_def chain_tip_def channel_rows_def)
  obtain sig where sig: "connectorSignDataHashHex (demo_conn ''a'' InsertFailed) demo_hash [] = Inr sig" "sig \<noteq> []"
    using demo_signature by blast
  have "store_works (demo_conn ''a'' InsertFailed)" by (rule demo_conn_works) simp
  from working_send [OF this, of "''x''" "''ch''" "[]" sig 1 "[]"] show ?thesis
    using sig by (auto simp: tip demo_hash_def recorded_def)
qed

theorem connector_program_chain_verifies_witness:
  "\<exists>t. reach (\<lambda>t. t = []) (conn_step demo_lib) t \<and> t \<noteq> [] \<and> VerifyChain True ''ch'' t = Inr True"
proof -
  obtain p t where p: "data_packet (demo_conn ''a'' InsertFailed) ''ch'' 1 [] ''x'' (Some []) = (p, Some t)" and t: "t \<noteq> []"
    using demo_first_packet by blast
  have "conn_step demo_lib [] t"
    using p demo_conn_works [of InsertFailed "''a''"] by (auto simp: store_works_def intro!: conn_send)
  moreover have "reach (\<lambda>t. t = []) (conn_step demo_lib) []" by (rule reach_init) simp
  ultimately have "reach (\<lambda>t. t = []) (conn_step demo_lib) t" by (rule reach_step [rotated])
  with t show ?thesis using connector_program_chain_verifies by blast
qed

definition demo_subscribed :: Channel where
  "demo_subscribed = (demo_dchannel [''a''] [''b''])\<lparr>chSubscribers := [(''b'', [])]\<rparr>"

lemma demo_streamed:
  assumes "dpChannelID p = ''ch''" and "dpPayload p = ''x''" and "dpSenderID p = ''a''" and "dpTargetIDs p = []"
  shows "\<exists>ds' out c' q. stream_data (demo_denv ''k1'' True) p (demo_stream\<lparr>ssCross := False, ssTarget := []\<rparr>) (demo_dstate ''k1'' demo_subscribed [])
     = Some (Inr (), ds', out) \<and> GetChannel ''ch'' (dsManager ds') = Inr c' \<and> chQueue c' = [q]"
  using assms
  by (simp add: demo_subscribed_def stream_data_def Let_def demo_data_defs stream_packet_def is_local_def after_sent_def put_channel_def
      next_hop_def record_data_def)


theorem lost_answer_breaks_chain_witness:
  "\<exists>sig t'. connectorRecordBusinessData (demo_conn ''a'' InsertUnanswered) ''ch'' ''x'' (Some []) = (Inr (demo_hash, sig), Some t')
     \<and> VerifyChain True ''ch'' t' \<noteq> Inr True"
proof -
  let ?env = "demo_conn ''a'' InsertUnanswered"
  have tip: "conn_tip ''ch'' [] = []" by (simp add: conn_tip_def chain_tip_def channel_rows_def)
  have dh: "data_hash (clSha256 (ceLib ?env)) ''x'' (conn_tip ''ch'' []) = demo_hash"
    by (simp add: tip demo_hash_def)
  obtain sig where sig: "connectorSignDataHashHex ?env demo_hash [] = Inr sig" using demo_signature by blast
  have "ceRead ?env 0" "ceRead ?env 1" "ceInsert ?env 0 = InsertUnanswered" "ceInsert ?env 1 = Inserted"
    by simp_all
  from lost_answer_breaks_chain [OF this, of "''x''" "''ch''" "[]" sig] show ?thesis
    using sig by (auto simp: dh tip demo_hash_def)
qed

definition demo_received :: DataPacket where
  "demo_received = (demo_dpacket ''a'')\<lparr>dpDataHash := ''h''\<rparr>"

theorem unrecorded_data_acknowledged_witness:
  "\<exists>out. take_packet ((demo_conn ''b'' InsertFailed)\<lparr>ceInsert := \<lambda>_. InsertFailed, ceAckInsert := \<lambda>_. InsertFailed\<rparr>) ''ch''
       demo_received (Some []) = (Some [], out) \<and> out \<noteq> []"
proof -
  let ?env = "(demo_conn ''b'' InsertFailed)\<lparr>ceInsert := \<lambda>_. InsertFailed, ceAckInsert := \<lambda>_. InsertFailed\<rparr>"
  have "\<forall>i. ceInsert ?env i = InsertFailed \<and> ceAckInsert ?env i = InsertFailed" "dpDataHash demo_received \<noteq> []"
    "\<not> dpIsAck demo_received" "dpSequenceNumber demo_received > 0"
    by (simp_all add: demo_received_def demo_dpacket_def)
  from unrecorded_data_acknowledged [OF this, of "''ch''" "[]"] show ?thesis by fastforce
qed

theorem console_sees_no_control_witness:
  "Handled demo_received \<in> set (snd (take_packet (demo_conn ''b'' Inserted) ''ch'' demo_received None))
     \<and> \<not> IsControlMessage (dpPayload demo_received)"
proof -
  have "Handled demo_received \<in> set (snd (take_packet (demo_conn ''b'' Inserted) ''ch'' demo_received None))"
    by (simp add: take_packet_def demo_received_def demo_dpacket_def isControlMessage_def)
  with console_sees_no_control show ?thesis by blast
qed

end
