(* ===== verification/Connector_Client.thy ===== *)
theory Connector_Client
  imports Connector_Chain Cross_Kernel Identity_Service
begin

text \<open>
  The connector program as a client of its kernel (\<^verbatim>\<open>connector/client/connector.go\<close>): what it knows of its channels, its
  subscriptions, the handling of channel notifications, its status and data catalogue, and the requests it makes.

  The reply to a request is an argument: \<open>None\<close> is a call that fails, \<open>Inl\<close> the message of a reply without success.  Slices of
  pointers that only this state refers to are lists; \<open>None\<close> is the nil slice of catalogue items.
\<close>

declare map_of_eq_Some_iff [simp del]

section \<open>State\<close>

record LocalChannelInfo =
  lcChannelID :: string
  lcDataTopic :: string
  lcCreatorID :: string
  lcSenderID :: string
  lcReceiverID :: string
  lcEncrypted :: bool
  lcParticipants :: "string list"
  lcCreatedAt :: int

record Connector =
  coID :: string
  coEntityType :: string
  coPublicKey :: string
  coStatus :: connector_status
  coKernelID :: string
  coExposed :: "bool option"
  coCatalog :: "string list"
  coItems :: "DataCatalogItem list option"
  coCatalogFile :: string
  coSession :: string
  coChannels :: "LocalChannelInfo gomap"
  coSubscriptions :: "bool gomap"
  coProcessed :: "bool gomap"
  coSkipped :: "int gomap"

datatype client_error =
  ClientTLSFailed | ClientDialFailed | ClientDatabaseFailed | ClientCallFailed | ClientRefused string
| ClientAlreadySubscribed string | ReceiveBroken | InvalidStatus string | SendersRequired | ReceiversRequired | SenderIDRequired | ReceiverIDRequired
| ChannelNameRequired | CreatorRequired | TopicRequired | NotCreator string | ConfigFileUnreadable | ConfigFileMalformed
| ItemsMissing | ItemNotFound string | CatalogUnreadable | CatalogMalformed | ClientInvalidRole string

type_synonym 'a reply = "(string + 'a) option"

definition reply_result :: "'a reply \<Rightarrow> client_error + 'a" where
  "reply_result r = (case r of None \<Rightarrow> Inl ClientCallFailed | Some (Inl m) \<Rightarrow> Inl (ClientRefused m) | Some (Inr a) \<Rightarrow> Inr a)"

section \<open>The data catalogue\<close>

definition syncDataCatalog :: "Connector \<Rightarrow> Connector" where
  "syncDataCatalog c = (case coItems c of None \<Rightarrow> c | Some is \<Rightarrow> c\<lparr>coCatalog := map ItemName is\<rparr>)"

definition SetDataCatalogItems :: "DataCatalogItem list option \<Rightarrow> Connector \<Rightarrow> Connector" where
  "SetDataCatalogItems items c = syncDataCatalog (c\<lparr>coItems := items\<rparr>)"

fun set_exposed :: "string \<Rightarrow> bool \<Rightarrow> DataCatalogItem list \<Rightarrow> DataCatalogItem list option" where
  "set_exposed i b [] = None"
| "set_exposed i b (x # xs) =
     (if ItemId x = i then Some (x\<lparr>ItemExposed := b\<rparr> # xs) else map_option ((#) x) (set_exposed i b xs))"

definition UpdateDataCatalogItem :: "string \<Rightarrow> bool \<Rightarrow> Connector \<Rightarrow> (client_error + unit) \<times> Connector" where
  "UpdateDataCatalogItem i b c =
     (case coItems c of
        None \<Rightarrow> (Inl ItemsMissing, c)
      | Some is \<Rightarrow> (case set_exposed i b is of None \<Rightarrow> (Inl (ItemNotFound i), c) | Some is' \<Rightarrow> (Inr (), c\<lparr>coItems := Some is'\<rparr>)))"

datatype catalog_read = CatalogFileUnreadable | CatalogFileMalformed | CatalogParsed "DataCatalogItem list"

definition LoadDataCatalogFromFile :: "catalog_read \<Rightarrow> Connector \<Rightarrow> (client_error + unit) \<times> Connector" where
  "LoadDataCatalogFromFile file c =
     (case file of
        CatalogFileUnreadable \<Rightarrow> (Inl CatalogUnreadable, c)
      | CatalogFileMalformed \<Rightarrow> (Inl CatalogMalformed, c)
      | CatalogParsed is \<Rightarrow> (Inr (), syncDataCatalog (c\<lparr>coItems := Some is\<rparr>)))"

section \<open>Connecting\<close>

text \<open>\<^verbatim>\<open>NewConnector\<close>: \<open>database\<close> is \<open>None\<close> when none is configured, and otherwise whether it can be opened.\<close>

definition NewConnector ::
    "bool \<Rightarrow> bool \<Rightarrow> bool option \<Rightarrow> string \<Rightarrow> string \<Rightarrow> string \<Rightarrow> string \<Rightarrow> bool option \<Rightarrow> string list \<Rightarrow> DataCatalogItem list option \<Rightarrow>
     string \<Rightarrow> client_error + Connector" where
  "NewConnector tls_ok dial_ok database i entity key kid exposed catalog items file =
     (if \<not> tls_ok then Inl ClientTLSFailed
      else if \<not> dial_ok then Inl ClientDialFailed
      else let c = \<lparr> coID = i, coEntityType = entity, coPublicKey = key, coStatus = ConnectorStatusActive, coKernelID = kid,
                     coExposed = exposed, coCatalog = catalog, coItems = items, coCatalogFile = file, coSession = [],
                     coChannels = [], coSubscriptions = [], coProcessed = [], coSkipped = [] \<rparr>;
               c' = (if items \<noteq> None \<and> items \<noteq> Some [] then syncDataCatalog c else c)
           in if database = Some False then Inl ClientDatabaseFailed else Inr c')"

definition convertDataCatalogItems :: "Connector \<Rightarrow> DataCatalogItem list" where
  "convertDataCatalogItems c = (case coItems c of None \<Rightarrow> [] | Some is \<Rightarrow> is)"

definition handshake_request :: "Connector \<Rightarrow> HandshakeRequest" where
  "handshake_request c =
     \<lparr> hrConnectorId = coID c, hrEntityType = coEntityType c, hrPublicKey = coPublicKey c, hrExposed = coExposed c,
       hrDataCatalog = coCatalog c, hrDataCatalogItems = convertDataCatalogItems c \<rparr>"

text \<open>The reply to a handshake is the session token.\<close>

definition client_Connect :: "string reply \<Rightarrow> Connector \<Rightarrow> (client_error + unit) \<times> Connector" where
  "client_Connect r c = (case reply_result r of Inl e \<Rightarrow> (Inl e, c) | Inr token \<Rightarrow> (Inr (), c\<lparr>coSession := token\<rparr>))"

text \<open>What \<^verbatim>\<open>saveDataCatalogToFile\<close> writes, if anything.\<close>

definition saveDataCatalogToFile :: "Connector \<Rightarrow> (string \<times> DataCatalogItem list) option" where
  "saveDataCatalogToFile c =
     (if coCatalogFile c = [] then None else map_option (Pair (coCatalogFile c)) (coItems c))"

definition ReconnectWithCatalog ::
    "bool \<Rightarrow> string reply \<Rightarrow> Connector \<Rightarrow> (client_error + unit) \<times> Connector \<times> (string \<times> DataCatalogItem list) option" where
  "ReconnectWithCatalog write_ok r c =
     (case client_Connect r c of (x, c') \<Rightarrow> (x, c', if write_ok then saveDataCatalogToFile c else None))"

text \<open>The status is set before the kernel is told, and whatever it replies.\<close>

definition client_SetStatus :: "string \<Rightarrow> Connector \<Rightarrow> (client_error + (string \<times> string \<times> string)) \<times> Connector" where
  "client_SetStatus st c =
     (if st \<in> {ConnectorStatusActive, ConnectorStatusInactive, ConnectorStatusClosed}
      then (Inr (coID c, coID c, st), c\<lparr>coStatus := st\<rparr>) else (Inl (InvalidStatus st), c))"

definition client_Close :: "Connector \<Rightarrow> Connector" where
  "client_Close c = c\<lparr>coSubscriptions := [], coProcessed := [], coSkipped := []\<rparr>"

section \<open>Local channels\<close>

definition merge_channel :: "LocalChannelInfo \<Rightarrow> LocalChannelInfo \<Rightarrow> LocalChannelInfo" where
  "merge_channel new old =
     old\<lparr> lcDataTopic := (if lcDataTopic new \<noteq> [] then lcDataTopic new else lcDataTopic old),
          lcCreatorID := (if lcCreatorID new \<noteq> [] then lcCreatorID new else lcCreatorID old),
          lcSenderID := (if lcSenderID new \<noteq> [] then lcSenderID new else lcSenderID old),
          lcReceiverID := (if lcReceiverID new \<noteq> [] then lcReceiverID new else lcReceiverID old),
          lcParticipants := (if lcParticipants new \<noteq> [] then lcParticipants new else lcParticipants old),
          lcCreatedAt := (if lcCreatedAt new \<noteq> 0 then lcCreatedAt new else lcCreatedAt old),
          lcEncrypted := lcEncrypted new \<rparr>"

definition addOrUpdateLocalChannel :: "LocalChannelInfo \<Rightarrow> Connector \<Rightarrow> Connector" where
  "addOrUpdateLocalChannel info c =
     c\<lparr>coChannels := go_put (lcChannelID info)
         (case go_get (coChannels c) (lcChannelID info) of None \<Rightarrow> info | Some old \<Rightarrow> merge_channel info old) (coChannels c)\<rparr>"

definition removeLocalChannel :: "string \<Rightarrow> Connector \<Rightarrow> Connector" where
  "removeLocalChannel ch c = c\<lparr>coChannels := go_del ch (coChannels c)\<rparr>"

definition notified_channel :: "ChannelNotification \<Rightarrow> LocalChannelInfo" where
  "notified_channel n =
     (let ps = cnSenderIds n @ cnReceiverIds n
      in \<lparr> lcChannelID = cnChannelId n, lcDataTopic = cnDataTopic n, lcCreatorID = cnCreatorId n, lcSenderID = [], lcReceiverID = [],
           lcEncrypted = False, lcParticipants = (if ps = [] then [cnCreatorId n] else ps), lcCreatedAt = cnCreatedAt n \<rparr>)"

definition RecordChannelFromNotification :: "ChannelNotification \<Rightarrow> Connector \<Rightarrow> Connector" where
  "RecordChannelFromNotification n c = addOrUpdateLocalChannel (notified_channel n) c"

definition ListLocalChannels :: "Connector \<Rightarrow> LocalChannelInfo list" where
  "ListLocalChannels c = map snd (coChannels c)"

definition IsChannelParticipant :: "string \<Rightarrow> Connector \<Rightarrow> bool" where
  "IsChannelParticipant ch c =
     (case go_get (coChannels c) ch of None \<Rightarrow> False | Some i \<Rightarrow> lcSenderID i = coID c \<or> lcReceiverID i = coID c)"

section \<open>Notifications\<close>

datatype notice_action = ShowNotification ChannelNotification | StartSilentReceive string | StartReceive string

definition is_named :: "string \<Rightarrow> string list \<Rightarrow> bool" where
  "is_named i ids \<longleftrightarrow> list_ex (\<lambda>s. s = i \<or> (has_colon s \<and> raw_id s = i)) ids"

definition handle_notification :: "ChannelNotification \<Rightarrow> Connector \<Rightarrow> Connector \<times> notice_action list" where
  "handle_notification n c =
     (let sender = is_named (coID c) (cnSenderIds n);
          receiver = is_named (coID c) (cnReceiverIds n);
          ch = cnChannelId n;
          accepted = (cnNegotiationStatus n = NegotiationStatusAccepted);
          processed = (go_get (coProcessed c) ch = Some True)
      in if accepted \<and> processed \<and> \<not> receiver
         then (c\<lparr>coSkipped := go_put ch ((case go_get (coSkipped c) ch of None \<Rightarrow> 0 | Some k \<Rightarrow> k) + 1) (coSkipped c)\<rparr>, [])
         else let c1 = (if accepted \<and> \<not> processed then c\<lparr>coProcessed := go_put ch True (coProcessed c)\<rparr> else c);
                  c2 = RecordChannelFromNotification n c1
              in (c2,
                  if sender \<and> \<not> receiver then ShowNotification n # (if accepted then [StartSilentReceive ch] else [])
                  else if \<not> receiver then []
                  else ShowNotification n # (if accepted then [StartReceive ch] else [])))"

fun handle_notifications :: "ChannelNotification list \<Rightarrow> Connector \<Rightarrow> Connector \<times> notice_action list" where
  "handle_notifications [] c = (c, [])"
| "handle_notifications (n # ns) c =
     (case handle_notification n c of (c1, as) \<Rightarrow> (case handle_notifications ns c1 of (c2, bs) \<Rightarrow> (c2, as @ bs)))"

section \<open>Subscriptions\<close>

text \<open>\<^verbatim>\<open>ReceiveData\<close>: its start, which fails when the channel is being received, and its end, on every way out.\<close>

definition receive_begin :: "string \<Rightarrow> Connector \<Rightarrow> client_error + Connector" where
  "receive_begin ch c =
     (if go_get (coSubscriptions c) ch = Some True then Inl (ClientAlreadySubscribed ch)
      else Inr (c\<lparr>coSubscriptions := go_put ch True (coSubscriptions c)\<rparr>))"

definition receive_end :: "string \<Rightarrow> Connector \<Rightarrow> Connector" where
  "receive_end ch c = c\<lparr>coSubscriptions := go_del ch (coSubscriptions c)\<rparr>"

fun receive_loop ::
    "string \<Rightarrow> (('k, 'p) conn_env \<times> DataPacket) list \<Rightarrow> conn_rows option \<Rightarrow> conn_rows option \<times> conn_out list" where
  "receive_loop ch [] store = (store, [])"
| "receive_loop ch ((env, p) # ps) store =
     (case take_packet env ch p store of (s1, out) \<Rightarrow> (case receive_loop ch ps s1 of (s2, out') \<Rightarrow> (s2, out @ out')))"

text \<open>The whole call when nothing else runs: the packets of the stream, which ends (\<open>eof\<close>) or breaks.\<close>

definition ReceiveData ::
    "bool \<Rightarrow> string \<Rightarrow> (('k, 'p) conn_env \<times> DataPacket) list \<Rightarrow> bool \<Rightarrow> conn_rows option \<Rightarrow> Connector \<Rightarrow>
     (client_error + unit) \<times> Connector \<times> conn_rows option \<times> conn_out list" where
  "ReceiveData subscribe_ok ch ps eof store c =
     (case receive_begin ch c of
        Inl e \<Rightarrow> (Inl e, c, store, [])
      | Inr c1 \<Rightarrow>
          if \<not> subscribe_ok then (Inl ClientCallFailed, receive_end ch c1, store, [])
          else case receive_loop ch ps store of
                 (store', out) \<Rightarrow> (if eof then Inr () else Inl ReceiveBroken, receive_end ch c1, store', out))"

section \<open>Requests\<close>

definition build_participants :: "string list \<Rightarrow> participant list" where
  "build_participants ids = map (\<lambda>i. if has_colon i then (kernel_part i, connector_part i) else ([], i)) ids"

definition cross_request :: "Connector \<Rightarrow> string list \<Rightarrow> string list \<Rightarrow> string \<Rightarrow> bool \<Rightarrow> string \<Rightarrow> EvidenceConfig option \<Rightarrow> CrossKernelRequest" where
  "cross_request c senders receivers topic encrypted reason ev =
     \<lparr> ckCreatorKernelId = coKernelID c, ckCreatorConnectorId = coID c, ckSenderIds = build_participants senders,
       ckReceiverIds = build_participants receivers, ckDataTopic = topic, ckEncrypted = encrypted,
       ckEvidenceConfig = ev, ckReason = reason \<rparr>"

text \<open>\<^verbatim>\<open>GetConnectorInfo\<close> asks the kernel named before the first colon.\<close>

definition info_request :: "Connector \<Rightarrow> string \<Rightarrow> string \<times> string \<times> string" where
  "info_request c i = (coID c, if has_colon i then connector_part i else i, if has_colon i then kernel_part i else [])"

datatype client_call =
  CallPropose ProposeChannelRequest | CallAccept string string string | CallReject string string string string
| CallSubscription string string string string

text \<open>
  \<^verbatim>\<open>ProposeChannel\<close> with the kernel's replies to the proposal (the channel and its proposal) and to the creator's acceptance,
  which is not looked at.
\<close>

definition propose_request :: "Connector \<Rightarrow> string list \<Rightarrow> string list \<Rightarrow> string \<Rightarrow> string \<Rightarrow> string \<Rightarrow> ProposeChannelRequest" where
  "propose_request c senders receivers topic approver reason =
     \<lparr> pqCreatorId = coID c, pqApproverId = approver, pqSenderIds = senders, pqReceiverIds = receivers, pqDataTopic = topic,
       pqEncrypted = True, pqEvidenceConfig = None, pqConfigFilePath = [], pqReason = reason, pqTimeoutSeconds = 300 \<rparr>"

definition client_ProposeChannel ::
    "time \<Rightarrow> string list \<Rightarrow> string list \<Rightarrow> string \<Rightarrow> string \<Rightarrow> string \<Rightarrow> (string \<times> string) reply \<Rightarrow> Connector \<Rightarrow>
     (client_error + string \<times> string) \<times> Connector \<times> client_call list" where
  "client_ProposeChannel now senders receivers topic approver reason r c =
     (if senders = [] then (Inl SendersRequired, c, [])
      else if receivers = [] then (Inl ReceiversRequired, c, [])
      else if [] \<in> set senders then (Inl SenderIDRequired, c, [])
      else if [] \<in> set receivers then (Inl ReceiverIDRequired, c, [])
      else let call = CallPropose (propose_request c senders receivers topic approver reason)
           in case reply_result r of
                Inl e \<Rightarrow> (Inl e, c, [call])
              | Inr (ch, pid) \<Rightarrow>
                  (Inr (ch, pid),
                   addOrUpdateLocalChannel
                     \<lparr> lcChannelID = ch, lcDataTopic = topic, lcCreatorID = coID c, lcSenderID = [], lcReceiverID = [],
                       lcEncrypted = True, lcParticipants = senders @ receivers, lcCreatedAt = unix now \<rparr> c,
                   call # (if pid \<noteq> [] then [CallAccept (coID c) ch pid] else [])))"

definition client_AcceptChannelProposal :: "string \<Rightarrow> string \<Rightarrow> unit reply \<Rightarrow> Connector \<Rightarrow> (client_error + unit) \<times> client_call" where
  "client_AcceptChannelProposal ch pid r c = (reply_result r, CallAccept (coID c) ch pid)"

definition client_RejectChannelProposal ::
    "string \<Rightarrow> string \<Rightarrow> string \<Rightarrow> unit reply \<Rightarrow> Connector \<Rightarrow> (client_error + unit) \<times> Connector \<times> client_call" where
  "client_RejectChannelProposal ch pid reason r c =
     (case reply_result r of
        Inl e \<Rightarrow> (Inl e, c, CallReject (coID c) ch pid reason)
      | Inr u \<Rightarrow> (Inr (), removeLocalChannel ch c, CallReject (coID c) ch pid reason))"

definition RequestChannelAccess :: "string \<Rightarrow> string \<Rightarrow> string \<Rightarrow> unit reply \<Rightarrow> Connector \<Rightarrow> (client_error + unit) \<times> client_call list" where
  "RequestChannelAccess ch role reason r c =
     (if role \<noteq> ''sender'' \<and> role \<noteq> ''receiver'' then (Inl (ClientInvalidRole role), [])
      else (reply_result r, [CallSubscription (coID c) ch role reason]))"

section \<open>Channels from configuration files\<close>

record ClientEvidenceConfig = EvidenceConfig +
  cvConnectorID :: string

record ClientConfigFile =
  ccfChannelName :: string
  ccfCreatorID :: string
  ccfApproverID :: string
  ccfSenderIDs :: "string list"
  ccfReceiverIDs :: "string list"
  ccfDataTopic :: string
  ccfEncrypted :: bool
  ccfEvidenceConfig :: "ClientEvidenceConfig option"

datatype client_config_read = ClientConfigUnreadable | ClientConfigMalformed | ClientConfigParsed ClientConfigFile

text \<open>The conversion \<^verbatim>\<open>int32\<close>.\<close>

definition to_int32 :: "int \<Rightarrow> int" where
  "to_int32 n = sint (word_of_int n :: 32 word)"

definition check_config :: "Connector \<Rightarrow> ClientConfigFile \<Rightarrow> client_error option" where
  "check_config c f =
     (if ccfChannelName f = [] then Some ChannelNameRequired
      else if ccfCreatorID f = [] then Some CreatorRequired
      else if ccfSenderIDs f = [] then Some SendersRequired
      else if ccfReceiverIDs f = [] then Some ReceiversRequired
      else if ccfDataTopic f = [] then Some TopicRequired
      else if ccfCreatorID f \<noteq> coID c then Some (NotCreator (ccfCreatorID f)) else None)"

text \<open>The connector of external evidence becomes a receiver.\<close>

definition add_evidence_receiver :: "ClientConfigFile \<Rightarrow> ClientConfigFile" where
  "add_evidence_receiver f =
     (case ccfEvidenceConfig f of
        None \<Rightarrow> f
      | Some ev \<Rightarrow>
          if ecMode ev = ''external'' \<and> cvConnectorID ev \<noteq> [] \<and> cvConnectorID ev \<notin> set (ccfReceiverIDs f)
          then f\<lparr>ccfReceiverIDs := ccfReceiverIDs f @ [cvConnectorID ev]\<rparr> else f)"

definition config_request :: "string \<Rightarrow> ClientConfigFile \<Rightarrow> ProposeChannelRequest" where
  "config_request path f =
     \<lparr> pqCreatorId = ccfCreatorID f, pqApproverId = ccfApproverID f, pqSenderIds = ccfSenderIDs f, pqReceiverIds = ccfReceiverIDs f,
       pqDataTopic = ccfDataTopic f, pqEncrypted = ccfEncrypted f,
       pqEvidenceConfig = map_option (\<lambda>ev. (EvidenceConfig.truncate ev)\<lparr>ecRetentionDays := to_int32 (ecRetentionDays ev)\<rparr>)
                            (ccfEvidenceConfig f),
       pqConfigFilePath = path, pqReason = ''Channel created from config file: '' @ path, pqTimeoutSeconds = 0 \<rparr>"

definition client_CreateChannelFromConfig ::
    "string \<Rightarrow> client_config_read \<Rightarrow> unit reply \<Rightarrow> Connector \<Rightarrow> (client_error + ClientConfigFile) \<times> client_call list" where
  "client_CreateChannelFromConfig path file r c =
     (case file of
        ClientConfigUnreadable \<Rightarrow> (Inl ConfigFileUnreadable, [])
      | ClientConfigMalformed \<Rightarrow> (Inl ConfigFileMalformed, [])
      | ClientConfigParsed f \<Rightarrow>
          (case check_config c f of
             Some e \<Rightarrow> (Inl e, [])
           | None \<Rightarrow>
               (let f' = add_evidence_receiver f
                in (case reply_result r of Inl e \<Rightarrow> Inl e | Inr u \<Rightarrow> Inr f', [CallPropose (config_request path f')]))))"

section \<open>The client as a machine\<close>

text \<open>
  The steps of a running client, with the channels whose \<^verbatim>\<open>ReceiveData\<close> is in progress; closing ends the program.
\<close>

type_synonym client_state = "Connector \<times> string list"

inductive client_step :: "client_state \<Rightarrow> client_state \<Rightarrow> bool" where
  cs_notice: "client_step (c, ls) (fst (handle_notification n c), ls)"
| cs_record: "client_step (c, ls) (RecordChannelFromNotification n c, ls)"
| cs_propose: "client_ProposeChannel now ss rs topic approver reason r c = (x, c', calls) \<Longrightarrow> client_step (c, ls) (c', ls)"
| cs_reject: "client_RejectChannelProposal ch pid reason u c = (y, c', call) \<Longrightarrow> client_step (c, ls) (c', ls)"
| cs_status: "client_step (c, ls) (snd (client_SetStatus st c), ls)"
| cs_connect: "client_step (c, ls) (snd (client_Connect tok c), ls)"
| cs_set: "client_step (c, ls) (SetDataCatalogItems items c, ls)"
| cs_update: "client_step (c, ls) (snd (UpdateDataCatalogItem i b c), ls)"
| cs_load: "client_step (c, ls) (snd (LoadDataCatalogFromFile file c), ls)"
| cs_begin: "receive_begin ch c = Inr c' \<Longrightarrow> client_step (c, ls) (c', ch # ls)"
| cs_end: "ch \<in> set ls \<Longrightarrow> client_step (c, ls) (receive_end ch c, remove1 ch ls)"

definition client_init :: "client_state \<Rightarrow> bool" where
  "client_init s \<longleftrightarrow> snd s = [] \<and> coID (fst s) \<noteq> [] \<and> coChannels (fst s) = [] \<and> coSubscriptions (fst s) = []"

text \<open>No local channel ever has a sender or a receiver of its own, and the subscriptions are the calls in progress.\<close>

definition unlinked :: "Connector \<Rightarrow> bool" where
  "unlinked c \<longleftrightarrow> (\<forall>ch i. go_get (coChannels c) ch = Some i \<longrightarrow> lcSenderID i = [] \<and> lcReceiverID i = [])"

definition client_ok :: "client_state \<Rightarrow> bool" where
  "client_ok s \<longleftrightarrow> coID (fst s) \<noteq> [] \<and> distinct (snd s) \<and>
     (\<forall>ch. go_get (coSubscriptions (fst s)) ch = Some True \<longleftrightarrow> ch \<in> set (snd s)) \<and> unlinked (fst s)"

definition same_links :: "Connector \<Rightarrow> Connector \<Rightarrow> bool" where
  "same_links c c' \<longleftrightarrow> coID c' = coID c \<and> coSubscriptions c' = coSubscriptions c \<and> (unlinked c \<longrightarrow> unlinked c')"

lemma same_links_ok: "same_links c c' \<Longrightarrow> client_ok (c, ls) \<Longrightarrow> client_ok (c', ls)"
  by (simp add: same_links_def client_ok_def)

lemma add_links:
  "lcSenderID info = [] \<Longrightarrow> lcReceiverID info = [] \<Longrightarrow> same_links c (addOrUpdateLocalChannel info c)"
  by (auto simp: same_links_def unlinked_def addOrUpdateLocalChannel_def gomap_simps merge_channel_def split: option.splits if_splits)

lemma remove_links: "same_links c (removeLocalChannel ch c)"
  by (simp add: same_links_def unlinked_def removeLocalChannel_def gomap_simps)

lemma record_links: "same_links c (RecordChannelFromNotification n c)"
  unfolding RecordChannelFromNotification_def by (rule add_links) (simp_all add: notified_channel_def Let_def)

lemma same_links_base: "coID c' = coID c \<Longrightarrow> coSubscriptions c' = coSubscriptions c \<Longrightarrow> coChannels c' = coChannels c \<Longrightarrow> same_links c c'"
  by (simp add: same_links_def unlinked_def)

lemma notice_result:
  "(\<exists>k. fst (handle_notification n c) = c\<lparr>coSkipped := k\<rparr>) \<or>
   (\<exists>d. fst (handle_notification n c) = RecordChannelFromNotification n d \<and> same_links c d)"
proof -
  have "same_links c c" "same_links c (c\<lparr>coProcessed := m\<rparr>)" for m by (simp_all add: same_links_base)
  then show ?thesis by (auto simp: handle_notification_def Let_def)
qed

lemma notice_links: "same_links c (fst (handle_notification n c))"
  using notice_result [of n c] record_links
  by (elim disjE exE) (simp add: same_links_base, simp add: same_links_def)

lemma catalog_links:
  "same_links c (snd (client_SetStatus st c))" "same_links c (snd (client_Connect tok c))" "same_links c (SetDataCatalogItems items c)"
  "same_links c (snd (UpdateDataCatalogItem i b c))" "same_links c (snd (LoadDataCatalogFromFile file c))"
  by (auto simp: client_SetStatus_def client_Connect_def SetDataCatalogItems_def syncDataCatalog_def UpdateDataCatalogItem_def
      LoadDataCatalogFromFile_def intro!: same_links_base split: sum.splits option.splits catalog_read.splits)

lemma propose_result:
  "client_ProposeChannel now ss rs topic approver reason r c = (x, c', calls) \<Longrightarrow>
   c' = c \<or> (\<exists>ch ps. c' = addOrUpdateLocalChannel
      \<lparr> lcChannelID = ch, lcDataTopic = topic, lcCreatorID = coID c, lcSenderID = [], lcReceiverID = [],
        lcEncrypted = True, lcParticipants = ps, lcCreatedAt = unix now \<rparr> c)"
  by (cases "reply_result r") (auto simp: client_ProposeChannel_def Let_def split: if_splits prod.splits)

lemma propose_links: "client_ProposeChannel now ss rs topic approver reason r c = (x, c', calls) \<Longrightarrow> same_links c c'"
  by (elim propose_result [THEN disjE] exE) (simp_all add: same_links_base add_links)

lemma reject_links: "client_RejectChannelProposal ch pid reason u c = (y, c', call) \<Longrightarrow> same_links c c'"
  by (auto simp: client_RejectChannelProposal_def intro: remove_links same_links_base split: sum.splits)

lemma client_step_ok: "client_step s s' \<Longrightarrow> client_ok s \<Longrightarrow> client_ok s'"
proof (induction rule: client_step.induct)
  case (cs_begin ch c c' ls)
  then show ?case by (auto simp: receive_begin_def client_ok_def unlinked_def gomap_simps split: if_splits)
next
  case (cs_end ch ls c)
  then show ?case by (auto simp: receive_end_def client_ok_def unlinked_def gomap_simps)
qed (blast intro: same_links_ok notice_links record_links catalog_links propose_links reject_links)+

interpretation client: invariant_system client_init client_step client_ok
proof unfold_locales
  show "client_ok s" if "client_init s" for s
    using that by (simp add: client_init_def client_ok_def unlinked_def)
qed (rule client_step_ok)

text \<open>A channel whose acceptance was handled stays marked.\<close>

definition marked :: "string \<Rightarrow> client_state \<Rightarrow> bool" where
  "marked ch s \<longleftrightarrow> go_get (coProcessed (fst s)) ch = Some True"

lemma processed_frame [simp]:
  "coProcessed (addOrUpdateLocalChannel info c) = coProcessed c" "coProcessed (removeLocalChannel ch c) = coProcessed c"
  "coProcessed (RecordChannelFromNotification n c) = coProcessed c"
  by (simp_all add: addOrUpdateLocalChannel_def removeLocalChannel_def RecordChannelFromNotification_def)

lemma notice_marks: "go_get (coProcessed c) ch = Some True \<Longrightarrow> go_get (coProcessed (fst (handle_notification n c))) ch = Some True"
  by (simp add: handle_notification_def Let_def gomap_simps)

lemma client_step_marked: "client_step s s' \<Longrightarrow> marked ch s \<Longrightarrow> marked ch s'"
proof (induction rule: client_step.induct)
  case (cs_notice c ls n)
  then show ?case by (simp add: marked_def notice_marks)
next
  case (cs_propose now ss rs topic approver reason r c x c' calls ls)
  then show ?case using propose_result [OF cs_propose(1)] by (auto simp: marked_def)
next
  case (cs_reject ch' pid reason u c y c' call ls)
  then show ?case by (auto simp: marked_def client_RejectChannelProposal_def split: sum.splits)
next
  case (cs_begin ch' c c' ls)
  then show ?case by (auto simp: marked_def receive_begin_def split: if_splits)
qed (auto simp: marked_def client_SetStatus_def client_Connect_def SetDataCatalogItems_def syncDataCatalog_def UpdateDataCatalogItem_def
      LoadDataCatalogFromFile_def receive_end_def split: sum.splits option.splits catalog_read.splits)

interpretation marks: stable_under client_step "marked ch" for ch
  by unfold_locales (rule client_step_marked)

section \<open>Properties\<close>

text \<open>
  A channel is received by at most one \<^verbatim>\<open>ReceiveData\<close> at a time, whatever the client does meanwhile: another
  one is refused exactly as long as one is in progress.
\<close>

theorem one_receive_per_channel:
  assumes "reach client_init client_step (c, ls)"
  shows "distinct ls \<and> (isl (receive_begin ch c) \<longleftrightarrow> ch \<in> set ls)"
  using client.reach_inv [OF assms] by (simp add: client_ok_def receive_begin_def)

text \<open>
  No client ever counts itself as a participant of a channel: the sender and the receiver that the test looks at are
  never recorded.
\<close>

theorem never_participant:
  assumes "reach client_init client_step (c, ls)"
  shows "\<not> IsChannelParticipant ch c"
  using client.reach_inv [OF assms]
  by (auto simp: client_ok_def unlinked_def IsChannelParticipant_def split: option.split)

text \<open>
  A connector subscribes by itself exactly to the accepted channels that name it as a receiver, whatever its status.
\<close>

theorem autosubscribe_iff:
  "StartReceive ch \<in> set (snd (handle_notification n c)) \<longleftrightarrow>
     ch = cnChannelId n \<and> cnNegotiationStatus n = NegotiationStatusAccepted \<and> is_named (coID c) (cnReceiverIds n)"
  by (auto simp: handle_notification_def Let_def)

text \<open>
  A sender is told of an accepted channel once: when its subscription for acknowledgements breaks, no later
  notification of the channel, that of a recovered kernel included, starts it again, whatever the client did meanwhile.
\<close>

theorem sender_not_resubscribed:
  assumes "cnNegotiationStatus n = NegotiationStatusAccepted" and "client_step\<^sup>*\<^sup>* (fst (handle_notification n c), ls) (c', ls')"
    and "cnNegotiationStatus n' = NegotiationStatusAccepted" and "cnChannelId n' = cnChannelId n"
    and "\<not> is_named (coID c') (cnReceiverIds n')"
  shows "snd (handle_notification n' c') = []"
proof -
  have "marked (cnChannelId n) (fst (handle_notification n c), ls)"
    using assms(1) by (simp add: marked_def handle_notification_def Let_def gomap_simps)
  then have "marked (cnChannelId n) (c', ls')" by (rule marks.stable_run [OF assms(2)])
  then show ?thesis using assms(3-5) by (simp add: marked_def handle_notification_def Let_def)
qed

text \<open>
  Every notification of a channel records it as not encrypted.
\<close>

theorem notification_clears_encrypted:
  "\<exists>i. go_get (coChannels (RecordChannelFromNotification n c)) (cnChannelId n) = Some i \<and> \<not> lcEncrypted i"
  by (simp add: RecordChannelFromNotification_def addOrUpdateLocalChannel_def notified_channel_def Let_def gomap_simps merge_channel_def
      split: option.split)

lemma set_exposed_result:
  "set_exposed i b is = Some is' \<Longrightarrow> map ItemName is' = map ItemName is \<and> (\<exists>x \<in> set is'. ItemId x = i \<and> ItemExposed x = b)"
  by (induction i b "is" arbitrary: is' rule: set_exposed.induct) (auto split: if_splits)

text \<open>
  Hiding a data item does not hide its name: once the connector has hidden the item and reported its catalogue, every
  kernel that asks is still told the name in the list of names, although not among the items.
\<close>

theorem hidden_item_leaks:
  assumes "UpdateDataCatalogItem i False c = (Inr (), c1)" and "c2 = SetDataCatalogItems (coItems c1) c1"
    and "Handshake ctx now token (handshake_request c2) cm r = (Inr s, r', au, restart)" and "coExposed c \<noteq> Some False"
    and "is_kernel_request rid" and "DiscoverConnectors ctx' kid remotes rid [] r' = Inr vs"
  shows "\<exists>v x. v \<in> set vs \<and> x \<in> set (convertDataCatalogItems c2) \<and> ItemId x = i \<and> \<not> ItemExposed x
    \<and> ItemName x \<in> set (cvDataCatalog v) \<and> cvItems v = filter ItemExposed (convertDataCatalogItems c2)"
proof -
  obtain xs xs' where items: "coItems c = Some xs" "set_exposed i False xs = Some xs'" and c1: "c1 = c\<lparr>coItems := Some xs'\<rparr>"
    using assms(1) by (auto simp: UpdateDataCatalogItem_def split: option.splits)
  obtain x where x: "x \<in> set xs'" "ItemId x = i" "\<not> ItemExposed x"
    using set_exposed_result [OF items(2)] by auto
  have c2: "c2 = c\<lparr>coItems := Some xs', coCatalog := map ItemName xs'\<rparr>"
    using assms(2) by (simp add: c1 SetDataCatalogItems_def syncDataCatalog_def)
  have reg: "Register now (coID c) (coEntityType c) (coPublicKey c) token True (map ItemName xs') (Some xs') r = Inr r'"
    using assms(3,4) x(1)
    by (auto simp: Handshake_def handshake_request_def c2 convertDataCatalogItems_def split: sum.splits option.splits if_splits)
  then obtain info where info: "go_get r' (coID c) = Some info"
    and fields: "Exposed info" "DataCatalog info = map ItemName xs'" "DataCatalogItems info = Some xs'"
    by (auto simp: Register_def gomap_simps split: if_splits option.splits)
  have "info \<in> set (ListExposedConnectors r')"
    using map_of_SomeD [OF info] fields(1) by (force simp: ListExposedConnectors_def)
  then have "exposed_view kid info \<in> set vs"
    using assms(5,6) by (auto simp: DiscoverConnectors_def type_matches_def)
  moreover have "cvDataCatalog (exposed_view kid info) = map ItemName xs'" "cvItems (exposed_view kid info) = filter ItemExposed xs'"
    using fields by (simp_all add: exposed_view_def view_of_def catalog_items_def)
  ultimately show ?thesis
    using x by (intro exI [of _ "exposed_view kid info"] exI [of _ x]) (auto simp: c2 convertDataCatalogItems_def)
qed

text \<open>
  The participants of a request across kernels name the connectors that were given, as the kernel puts them together.
\<close>

theorem participants_roundtrip:
  assumes "\<forall>i \<in> set ids. \<not> prefix '':'' i"
  shows "map participant_id (build_participants ids) = ids"
proof -
  have "participant_id (if has_colon i then (kernel_part i, connector_part i) else ([], i)) = i" if "i \<in> set ids" for i
  proof (cases "has_colon i")
    case True
    then have "kernel_part i \<noteq> []" using that assms by (cases i) (auto simp: kernel_part_def has_colon_def)
    with True show ?thesis by (simp add: participant_id_def qualify_parts)
  qed (simp add: participant_id_def)
  then show ?thesis by (simp add: build_participants_def map_idI)
qed

text \<open>
  A proposal through client and kernel: the channel the kernel then holds and the channel the client records agree on
  creator, participants, topic and encryption, and the client accepts it at once.
\<close>

theorem proposal_agreed:
  assumes "ProposeChannel_handler now ch pid ctx (propose_request c senders receivers topic approver reason) reg cm = (Inr (ch, pid), cm', evs, tasks)"
    and "client_ProposeChannel now' senders receivers topic approver reason (Some (Inr (ch, pid))) c = (Inr res, c', calls)" and "pid \<noteq> []"
    and "go_get (coChannels c) ch = None" and "coID c \<noteq> []"
  shows "\<exists>k i. GetChannel ch cm' = Inr k \<and> go_get (coChannels c') ch = Some i \<and> chCreatorID k = coID c \<and> lcCreatorID i = coID c
    \<and> lcParticipants i = chSenderIDs k @ chReceiverIDs k \<and> chSenderIDs k = senders \<and> lcDataTopic i = chDataTopic k
    \<and> lcEncrypted i = chEncrypted k \<and> CallAccept (coID c) ch pid \<in> set calls"
proof -
  have valid: "senders \<noteq> []" and c': "c' = addOrUpdateLocalChannel \<lparr> lcChannelID = ch, lcDataTopic = topic, lcCreatorID = coID c,
      lcSenderID = [], lcReceiverID = [], lcEncrypted = True, lcParticipants = senders @ receivers, lcCreatedAt = unix now' \<rparr> c"
    and calls: "CallAccept (coID c) ch pid \<in> set calls"
    using assms(2,3) by (auto simp: client_ProposeChannel_def Let_def reply_result_def split: if_splits)
  let ?req = "propose_request c senders receivers topic approver reason"
  have fields: "pqCreatorId ?req = coID c" "pqApproverId ?req = approver" "pqSenderIds ?req = senders" "pqReceiverIds ?req = receivers"
    "pqDataTopic ?req = topic" "pqEvidenceConfig ?req = None" "pqConfigFilePath ?req = []" "pqReason ?req = reason"
    "pqTimeoutSeconds ?req = 300"
    by (simp_all add: propose_request_def)
  have creator: "creator_of ctx (coID c) = Inr (coID c)"
    using assms(1,5) by (auto simp: ProposeChannel_handler_def fields svc_fail_def creator_of_def split: sum.splits option.splits if_splits)
  obtain k where k: "ProposeChannel now ch pid (coID c) (if approver = [] then coID c else approver) senders receivers topic True None
      [] reason 300 cm = (Inr k, cm')"
    using assms(1) creator unfolding ProposeChannel_handler_def fields svc_fail_def
    by (auto split: option.splits sum.splits prod.splits)
  have "GetChannel ch cm' = Inr k" "chCreatorID k = coID c" "chSenderIDs k = senders" "chReceiverIDs k = receivers"
    "chDataTopic k = topic" "chEncrypted k"
    using k by (auto simp: ProposeChannel_def Let_def GetChannel_def fresh_channel_def gomap_simps split: option.splits)
  then show ?thesis
    using calls assms(4) c' by (auto simp: addOrUpdateLocalChannel_def gomap_simps)
qed

section \<open>Witnesses\<close>

definition demo_items :: "DataCatalogItem list" where
  "demo_items = [\<lparr> ItemId = ''i1'', ItemName = ''temperature'', ItemType = ''sensor'', ItemExposed = True \<rparr>]"

definition demo_connector :: "string \<Rightarrow> Connector" where
  "demo_connector i =
     \<lparr> coID = i, coEntityType = ''t'', coPublicKey = ''k'', coStatus = ConnectorStatusActive, coKernelID = ''k1'',
       coExposed = None, coCatalog = [], coItems = Some demo_items, coCatalogFile = [], coSession = [],
       coChannels = [], coSubscriptions = [], coProcessed = [], coSkipped = [] \<rparr>"

definition demo_notice :: ChannelNotification where
  "demo_notice =
     \<lparr> cnChannelId = ''ch'', cnCreatorId = ''a'', cnSenderIds = [''a''], cnReceiverIds = [''k2:b''], cnEncrypted = True,
       cnDataTopic = [], cnCreatedAt = 1, cnNegotiationStatus = NegotiationStatusAccepted, cnProposalId = ''p'',
       cnEvidenceConfig = None \<rparr>"

lemma demo_client_init: "client_init (demo_connector ''a'', [])"
  by (simp add: client_init_def demo_connector_def)

theorem one_receive_per_channel_witness:
  "\<exists>c. reach client_init client_step (c, [''ch'']) \<and> isl (receive_begin ''ch'' c) \<and> \<not> isl (receive_begin ''other'' c)"
proof -
  obtain c where "receive_begin ''ch'' (demo_connector ''a'') = Inr c" by (simp add: receive_begin_def demo_connector_def)
  then have "client_step (demo_connector ''a'', []) (c, [''ch''])" by (rule cs_begin)
  with reach_init [of client_init, OF demo_client_init] have "reach client_init client_step (c, [''ch''])" by (rule reach_step)
  then show ?thesis
    using one_receive_per_channel [of c "[''ch'']" "''ch''"] one_receive_per_channel [of c "[''ch'']" "''other''"]
    by (intro exI [of _ c]) simp
qed

theorem never_participant_witness:
  "reach client_init client_step (fst (handle_notification demo_notice (demo_connector ''a'')), [])
   \<and> \<not> IsChannelParticipant ''ch'' (fst (handle_notification demo_notice (demo_connector ''a'')))"
proof -
  have "reach client_init client_step (fst (handle_notification demo_notice (demo_connector ''a'')), [])"
    by (rule reach_step [OF reach_init [of client_init, OF demo_client_init]], rule cs_notice)
  with never_participant show ?thesis by blast
qed

theorem sender_not_resubscribed_witness:
  "StartSilentReceive ''ch'' \<in> set (snd (handle_notification demo_notice (demo_connector ''a'')))
   \<and> snd (handle_notification demo_notice (fst (handle_notification demo_notice (demo_connector ''a'')))) = []"
proof -
  let ?c = "fst (handle_notification demo_notice (demo_connector ''a''))"
  have "cnNegotiationStatus demo_notice = NegotiationStatusAccepted" by (simp add: demo_notice_def)
  moreover have "coID ?c = ''a''"
    using notice_links [of "demo_connector ''a''" demo_notice] by (simp add: same_links_def demo_connector_def)
  then have "\<not> is_named (coID ?c) (cnReceiverIds demo_notice)"
    by (simp add: is_named_def demo_notice_def raw_id_def)
  ultimately have "snd (handle_notification demo_notice ?c) = []"
    using sender_not_resubscribed [of demo_notice "demo_connector ''a''" "[]" ?c "[]" demo_notice] by simp
  moreover have "StartSilentReceive ''ch'' \<in> set (snd (handle_notification demo_notice (demo_connector ''a'')))"
    by (simp add: handle_notification_def Let_def demo_notice_def demo_connector_def is_named_def raw_id_def)
  ultimately show ?thesis by simp
qed

theorem hidden_item_leaks_witness:
  "\<exists>r' vs v. Handshake (VerifiedChains [[''a'']]) 0 ''tok''
      (handshake_request (SetDataCatalogItems (Some (map (ItemExposed_update (\<lambda>_. False)) demo_items)) (demo_connector ''a'')))
      (NewChannelManager demo_evidence) [] = (Inr ''tok'', r', [(''a'', EventTypeAuthSuccess, [], [])], False)
    \<and> DiscoverConnectors (VerifiedChains [[''k2'']]) ''k1'' [] ''kernel-2'' [] r' = Inr vs
    \<and> v \<in> set vs \<and> ''temperature'' \<in> set (cvDataCatalog v) \<and> cvItems v = []"
proof -
  define hidden where "hidden = map (ItemExposed_update (\<lambda>_. False)) demo_items"
  define c1 where "c1 = demo_connector ''a''\<lparr>coItems := Some hidden\<rparr>"
  define c2 where "c2 = SetDataCatalogItems (coItems c1) c1"
  have c2': "c2 = SetDataCatalogItems (Some hidden) (demo_connector ''a'')"
    by (simp add: c2_def c1_def SetDataCatalogItems_def syncDataCatalog_def)
  have upd: "UpdateDataCatalogItem ''i1'' False (demo_connector ''a'') = (Inr (), c1)"
    by (simp add: UpdateDataCatalogItem_def demo_connector_def demo_items_def c1_def hidden_def)
  obtain r' where hs: "Handshake (VerifiedChains [[''a'']]) 0 ''tok'' (handshake_request c2) (NewChannelManager demo_evidence) []
      = (Inr ''tok'', r', [(''a'', EventTypeAuthSuccess, [], [])], False)"
    by (simp add: Handshake_def ExtractConnectorIDFromContext_def VerifyConnectorID_def handshake_request_def c2' SetDataCatalogItems_def
        syncDataCatalog_def demo_connector_def Register_def IsConnectorRestarting_def NewChannelManager_def)
  obtain vs where ds: "DiscoverConnectors (VerifiedChains [[''k2'']]) ''k1'' [] ''kernel-2'' [] r' = Inr vs"
    by (simp add: DiscoverConnectors_def is_kernel_request_def)
  have "is_kernel_request ''kernel-2''" by (simp add: is_kernel_request_def)
  from hidden_item_leaks [OF upd c2_def hs _ this ds]
  obtain v x where "v \<in> set vs" "x \<in> set hidden" "ItemName x \<in> set (cvDataCatalog v)" "cvItems v = filter ItemExposed hidden"
    by (auto simp: demo_connector_def c2' SetDataCatalogItems_def syncDataCatalog_def convertDataCatalogItems_def)
  moreover have "filter ItemExposed hidden = []" "\<forall>x \<in> set hidden. ItemName x = ''temperature''"
    by (simp_all add: hidden_def demo_items_def)
  ultimately show ?thesis
    using hs ds unfolding c2' hidden_def [symmetric] by (intro exI [of _ r'] exI [of _ vs] exI [of _ v]) auto
qed

theorem participants_roundtrip_witness: "map participant_id (build_participants [''a'', ''k2:b'']) = [''a'', ''k2:b'']"
  by (rule participants_roundtrip) simp

theorem proposal_agreed_witness:
  "\<exists>cm' evs tasks k i c' calls. ProposeChannel_handler 0 ''ch'' ''p'' (VerifiedChains [[''a'']])
       (propose_request (demo_connector ''a'') [''a''] [''b''] ''t'' [] ''r'') demo_online (NewChannelManager demo_evidence) = (Inr (''ch'', ''p''), cm', evs, tasks)
     \<and> client_ProposeChannel 0 [''a''] [''b''] ''t'' [] ''r'' (Some (Inr (''ch'', ''p''))) (demo_connector ''a'') = (Inr (''ch'', ''p''), c', calls)
     \<and> GetChannel ''ch'' cm' = Inr k \<and> go_get (coChannels c') ''ch'' = Some i \<and> lcParticipants i = chSenderIDs k @ chReceiverIDs k"
proof -
  obtain cm' evs tasks where h: "ProposeChannel_handler 0 ''ch'' ''p'' (VerifiedChains [[''a'']])
       (propose_request (demo_connector ''a'') [''a''] [''b''] ''t'' [] ''r'') demo_online (NewChannelManager demo_evidence) = (Inr (''ch'', ''p''), cm', evs, tasks)"
  proof -
    have online: "IsOnline 0 ''a'' demo_online" "IsOnline 0 ''b'' demo_online"
      by (simp_all add: IsOnline_def demo_online_def demo_hidden_def seconds_def)
    have "find (\<lambda>i. \<not> IsOnline 0 i demo_online) [''a'', ''a'', ''b''] = None" by (simp add: online)
    moreover have "creator_of (VerifiedChains [[''a'']]) ''a'' = Inr ''a''"
      by (simp add: creator_of_def VerifyConnectorID_def ExtractConnectorIDFromContext_def)
    moreover have "check_participants ''a'' [''a''] [''b''] = None" by (simp add: check_participants_def)
    ultimately show thesis
      using that by (auto simp: ProposeChannel_handler_def propose_request_def demo_connector_def ProposeChannel_def Let_def)
  qed
  obtain c' calls where c: "client_ProposeChannel 0 [''a''] [''b''] ''t'' [] ''r'' (Some (Inr (''ch'', ''p''))) (demo_connector ''a'') = (Inr (''ch'', ''p''), c', calls)"
    by (simp add: client_ProposeChannel_def reply_result_def)
  have "(''p'' :: string) \<noteq> []" "go_get (coChannels (demo_connector ''a'')) ''ch'' = None" "coID (demo_connector ''a'') \<noteq> []"
    by (simp_all add: demo_connector_def)
  from proposal_agreed [OF h c this] h c show ?thesis by blast
qed

end
