(* ===== verification/Connector_Console.thy ===== *)
theory Connector_Console
  imports Connector_Client File_Transfer
begin

text \<open>
  The console of the connector program (\<^verbatim>\<open>connector/cmd/main.go\<close>): how its commands are read, what they check, and which
  request or call of the client each of them makes; and how its configuration and data catalogue are read.

  A command that only prints, because its arguments are wrong or a check fails, is \<open>NoAction\<close>.  White space is that of
  ASCII.  What YAML, JSON and \<^verbatim>\<open>strconv.Atoi\<close> make of a text is an argument.
\<close>

section \<open>Text\<close>

definition is_space :: "char \<Rightarrow> bool" where
  "is_space c \<longleftrightarrow> of_char c \<in> {9 :: nat, 10, 11, 12, 13, 32}"

definition trim_space :: "string \<Rightarrow> string" where
  "trim_space s = rev (dropWhile is_space (rev (dropWhile is_space s)))"

text \<open>\<^verbatim>\<open>strings.Split\<close> at a character, and \<^verbatim>\<open>strings.Fields\<close>.\<close>

fun split_char :: "char \<Rightarrow> string \<Rightarrow> string list" where
  "split_char sep [] = [[]]"
| "split_char sep (c # cs) =
     (if c = sep then [] # split_char sep cs else case split_char sep cs of [] \<Rightarrow> [[c]] | w # ws \<Rightarrow> (c # w) # ws)"

function text_fields :: "string \<Rightarrow> string list" where
  "text_fields [] = []"
| "text_fields (c # cs) =
     (if is_space c then text_fields cs
      else (c # takeWhile (\<lambda>x. \<not> is_space x) cs) # text_fields (dropWhile (\<lambda>x. \<not> is_space x) cs))"
  by pat_completeness auto

termination text_fields
  by (relation "measure length") (simp_all add: le_imp_less_Suc length_dropWhile_le)

definition is_at :: "string \<Rightarrow> bool" where
  "is_at s \<longleftrightarrow> s \<noteq> [] \<and> hd s = CHR ''@''"

definition to_lower :: "string \<Rightarrow> string" where
  "to_lower = map (\<lambda>c. if 65 \<le> (of_char c :: nat) \<and> of_char c \<le> (90 :: nat) then char_of (of_char c + 32 :: nat) else c)"

fun remove_seen :: "string list \<Rightarrow> string list \<Rightarrow> string list" where
  "remove_seen seen [] = []"
| "remove_seen seen (x # xs) = (if x \<in> set seen then remove_seen seen xs else x # remove_seen (x # seen) xs)"

definition removeDuplicates :: "string list \<Rightarrow> string list" where
  "removeDuplicates xs = remove_seen [] xs"

section \<open>Creating channels\<close>

datatype console_action =
  NoAction
| CreateAcross CrossKernelRequest
| Propose "string list" "string list" string string
| CreateFromFile string

record create_options =
  cpSenders :: "string list"
  cpReceivers :: "string list"
  cpApprover :: string
  cpReason :: string

definition id_list :: "string \<Rightarrow> string list" where
  "id_list v = filter (\<lambda>s. s \<noteq> []) (map trim_space (split_char CHR '','' v))"

text \<open>The loop over the arguments; \<open>None\<close> is an argument without value or an unknown one.\<close>

fun parse_create :: "string list \<Rightarrow> create_options \<Rightarrow> create_options option" where
  "parse_create [] opt = Some opt"
| "parse_create (a # as) opt =
     (if a = ''--sender'' then
        (case as of [] \<Rightarrow> None | v # vs \<Rightarrow> parse_create vs (opt\<lparr>cpSenders := cpSenders opt @ id_list v\<rparr>))
      else if a = ''--receiver'' then
        (case as of [] \<Rightarrow> None | v # vs \<Rightarrow> parse_create vs (opt\<lparr>cpReceivers := cpReceivers opt @ id_list v\<rparr>))
      else if a = ''--approver'' then
        (case as of [] \<Rightarrow> None | v # vs \<Rightarrow> parse_create vs (opt\<lparr>cpApprover := v\<rparr>))
      else if a = ''--reason'' then
        (if as = [] then None else Some (opt\<lparr>cpReason := join CHR '' '' as\<rparr>))
      else None)"

definition no_options :: create_options where
  "no_options = \<lparr> cpSenders = [], cpReceivers = [], cpApprover = [], cpReason = ''channel proposal'' \<rparr>"

definition contains_remote :: "string list \<Rightarrow> bool" where
  "contains_remote ids = list_ex has_colon ids"

definition handleCreateChannelFromArgs :: "Connector \<Rightarrow> string list \<Rightarrow> console_action" where
  "handleCreateChannelFromArgs c args =
     (case parse_create args no_options of
        None \<Rightarrow> NoAction
      | Some opt \<Rightarrow>
          if cpSenders opt = [] \<or> cpReceivers opt = [] then NoAction
          else let ss = removeDuplicates (cpSenders opt); rs = removeDuplicates (cpReceivers opt)
               in if contains_remote ss \<or> contains_remote rs
                  then CreateAcross (cross_request c ss rs [] True (cpReason opt) None)
                  else Propose ss rs (cpApprover opt) (cpReason opt))"

text \<open>
  From a file: a bare name is looked for in the directory of the console.  The file is read here first; only when it parses
  and has participants of other kernels does the console make the request itself, without the checks of the client.
\<close>

definition config_path :: "string \<Rightarrow> string \<Rightarrow> string" where
  "config_path dir f = (if prefix ''/'' f \<or> CHR ''/'' \<in> set f then f else path_join dir f)"

definition handleCreateChannelFromConfigFile ::
    "Connector \<Rightarrow> string \<Rightarrow> string \<Rightarrow> bool \<Rightarrow> client_config_read \<Rightarrow> console_action" where
  "handleCreateChannelFromConfigFile c dir f exists file =
     (let path = config_path dir f
      in if \<not> exists then NoAction
         else case file of
                ClientConfigUnreadable \<Rightarrow> NoAction
              | ClientConfigMalformed \<Rightarrow> CreateFromFile path
              | ClientConfigParsed cfg \<Rightarrow>
                  if contains_remote (ccfSenderIDs cfg) \<or> contains_remote (ccfReceiverIDs cfg)
                  then CreateAcross (cross_request c (ccfSenderIDs cfg) (ccfReceiverIDs cfg) (ccfDataTopic cfg) (ccfEncrypted cfg)
                         (''Create from config: '' @ path)
                         (map_option (\<lambda>ev. (EvidenceConfig.truncate ev)\<lparr>ecRetentionDays := to_int32 (ecRetentionDays ev)\<rparr>) (ccfEvidenceConfig cfg)))
                  else CreateFromFile path)"

definition handleCreateChannel ::
    "Connector \<Rightarrow> string \<Rightarrow> (string \<Rightarrow> bool) \<Rightarrow> (string \<Rightarrow> client_config_read) \<Rightarrow> string list \<Rightarrow> console_action" where
  "handleCreateChannel c dir exists file args =
     (case args of
        a # f # rest \<Rightarrow>
          if a = ''--config'' then handleCreateChannelFromConfigFile c dir f (exists (config_path dir f)) (file (config_path dir f))
          else handleCreateChannelFromArgs c args
      | _ \<Rightarrow> NoAction)"

text \<open>The channel, the proposal and the reason of a rejection.\<close>

definition handleRejectProposal :: "string list \<Rightarrow> (string \<times> string \<times> string) option" where
  "handleRejectProposal args =
     (case args of
        ch # pid # rest \<Rightarrow>
          Some (ch, pid, case rest of f # w # ws \<Rightarrow> if f = ''--reason'' then join CHR '' '' (w # ws) else ''no reason provided''
                                    | _ \<Rightarrow> ''no reason provided'')
      | _ \<Rightarrow> None)"

section \<open>Sending\<close>

text \<open>What \<^verbatim>\<open>GetChannelInfo\<close> replied: \<open>None\<close> is a failed call or a channel that was not found.\<close>

record console_channel =
  ncStatus :: string
  ncNegotiation :: "NegotiationStatus option"
  ncSenderIds :: "string list"

definition send_permitted :: "Connector \<Rightarrow> console_channel option \<Rightarrow> bool" where
  "send_permitted c info =
     (case info of
        None \<Rightarrow> False
      | Some i \<Rightarrow> ncNegotiation i = Some NegotiationStatusAccepted \<and> ncStatus i = ''active'' \<and>
                  list_ex (\<lambda>s. raw_id s = coID c) (ncSenderIds i))"

datatype send_mode = SendNothing | SendFileTo string string "string list" | SendLines string

definition handleSendTo :: "Connector \<Rightarrow> (string \<Rightarrow> bool) \<Rightarrow> console_channel option \<Rightarrow> string list \<Rightarrow> send_mode" where
  "handleSendTo c is_file info args =
     (case args of
        [] \<Rightarrow> SendNothing
      | ch # rest \<Rightarrow>
          if \<not> send_permitted c info then SendNothing
          else case rest of
                 [] \<Rightarrow> SendLines ch
               | f # ts \<Rightarrow> if \<not> is_at f \<and> is_file f then SendFileTo ch f (map tl (filter is_at ts)) else SendLines ch)"

datatype line_action = StopSending | SkipLine | BadLine | SendLineOf "string list" string

definition read_line :: "string \<Rightarrow> line_action" where
  "read_line raw =
     (let line = trim_space raw
      in if line = ''END'' then StopSending
         else if line = [] then SkipLine
         else if is_at line then
           (let parts = text_fields line;
                data = join CHR '' '' (dropWhile is_at parts)
            in if length parts < 2 \<or> data = [] then BadLine else SendLineOf (map tl (takeWhile is_at parts)) data)
         else SendLineOf [] line)"

section \<open>Subscribing\<close>

record subscribe_options =
  soRole :: string
  soReason :: string
  soOutput :: string

fun parse_subscribe :: "string list \<Rightarrow> subscribe_options \<Rightarrow> subscribe_options option" where
  "parse_subscribe [] opt = Some opt"
| "parse_subscribe (a # as) opt =
     (if a = ''--role'' then
        (case as of [] \<Rightarrow> None
         | v # vs \<Rightarrow> if v \<noteq> ''sender'' \<and> v \<noteq> ''receiver'' then None else parse_subscribe vs (opt\<lparr>soRole := v\<rparr>))
      else if a = ''--reason'' then
        (if as = [] then None else Some (opt\<lparr>soReason := join CHR '' '' as\<rparr>))
      else if a = ''--output'' then
        (case as of [] \<Rightarrow> None | v # vs \<Rightarrow> parse_subscribe vs (opt\<lparr>soOutput := v\<rparr>))
      else if \<not> prefix ''--'' a then parse_subscribe as (opt\<lparr>soOutput := a\<rparr>)
      else None)"

datatype subscribe_action = NoSubscription | RequestAccess string string string | Subscribe string string

definition handleSubscribe :: "Connector \<Rightarrow> string list \<Rightarrow> subscribe_action" where
  "handleSubscribe c args =
     (case args of
        [] \<Rightarrow> NoSubscription
      | ch # rest \<Rightarrow>
          (case parse_subscribe rest \<lparr> soRole = [], soReason = ''request to join channel'', soOutput = ''./received'' \<rparr> of
             None \<Rightarrow> NoSubscription
           | Some opt \<Rightarrow>
               if IsChannelParticipant ch c then Subscribe ch (soOutput opt)
               else if soRole opt = [] then NoSubscription
               else RequestAccess ch (soRole opt) (soReason opt)))"

section \<open>Other commands\<close>

text \<open>\<^verbatim>\<open>update-catalog\<close>: the item is changed and the catalogue reported with a new handshake.\<close>

definition parse_flag :: "string \<Rightarrow> bool option" where
  "parse_flag w = (if to_lower w = ''true'' then Some True else if to_lower w = ''false'' then Some False else None)"

definition handleUpdateCatalog :: "string list \<Rightarrow> Connector \<Rightarrow> Connector \<times> HandshakeRequest option" where
  "handleUpdateCatalog args c =
     (case args of
        [i, w] \<Rightarrow>
          (case parse_flag w of
             None \<Rightarrow> (c, None)
           | Some b \<Rightarrow>
               if convertDataCatalogItems c = [] then (c, None)
               else case UpdateDataCatalogItem i b c of
                      (Inl e, c1) \<Rightarrow> (c1, None)
                    | (Inr u, c1) \<Rightarrow> (let c2 = SetDataCatalogItems (coItems c1) c1 in (c2, Some (handshake_request c2))))
      | _ \<Rightarrow> (c, None))"

definition handleStatus :: "string list \<Rightarrow> Connector \<Rightarrow> Connector \<times> (string \<times> string \<times> string) option" where
  "handleStatus args c =
     (case args of
        [] \<Rightarrow> (c, None)
      | st # rest \<Rightarrow> (case client_SetStatus st c of (Inl e, c') \<Rightarrow> (c', None) | (Inr r, c') \<Rightarrow> (c', Some r)))"

definition handleRequestPermission :: "string list \<Rightarrow> (string \<times> string \<times> string \<times> string) option" where
  "handleRequestPermission args =
     (case args of
        [ch, change, tgt, why] \<Rightarrow>
          if change \<in> {''add_sender'', ''remove_sender'', ''add_receiver'', ''remove_receiver''} then Some (ch, change, tgt, why)
          else None
      | _ \<Rightarrow> None)"

record query_options =
  qoChannel :: string
  qoConnector :: string
  qoFlow :: string
  qoLimit :: int

fun parse_query :: "(string \<Rightarrow> int option) \<Rightarrow> string list \<Rightarrow> query_options \<Rightarrow> query_options option" where
  "parse_query atoi [] opt = Some opt"
| "parse_query atoi [a] opt = None"
| "parse_query atoi (a # v # vs) opt =
     (let w = trim_space v
      in if a = ''--channel'' then parse_query atoi vs (opt\<lparr>qoChannel := w\<rparr>)
         else if a = ''--connector'' then parse_query atoi vs (opt\<lparr>qoConnector := w\<rparr>)
         else if a = ''--flow'' then parse_query atoi vs (opt\<lparr>qoFlow := w\<rparr>)
         else if a = ''--limit'' then
           (case atoi w of None \<Rightarrow> None | Some l \<Rightarrow> if l > 0 then parse_query atoi vs (opt\<lparr>qoLimit := to_int32 l\<rparr>) else None)
         else None)"

text \<open>The query that is sent: channel, connector, flow and limit.\<close>

definition handleQueryEvidence :: "(string \<Rightarrow> int option) \<Rightarrow> string list \<Rightarrow> (string \<times> string \<times> string \<times> int) option" where
  "handleQueryEvidence atoi args =
     (case parse_query atoi args \<lparr> qoChannel = [], qoConnector = [], qoFlow = [], qoLimit = 50 \<rparr> of
        None \<Rightarrow> None
      | Some opt \<Rightarrow>
          if qoChannel opt = [] \<and> qoConnector opt = [] \<and> qoFlow opt = [] then None
          else if qoFlow opt \<noteq> [] then Some ([], [], qoFlow opt, 1000)
          else Some (qoChannel opt, qoConnector opt, [], qoLimit opt))"

definition truncateString :: "string \<Rightarrow> nat \<Rightarrow> string" where
  "truncateString s n = (if length s \<le> n then s else take n s @ ''...'')"

text \<open>\<^verbatim>\<open>handleChannels\<close>: every local channel is recorded anew from what the kernel says of it.\<close>

definition handleChannels :: "(string \<Rightarrow> ChannelNotification option) \<Rightarrow> Connector \<Rightarrow> Connector" where
  "handleChannels info c =
     foldl (\<lambda>c l. case info (lcChannelID l) of None \<Rightarrow> c | Some n \<Rightarrow> RecordChannelFromNotification n c) c (ListLocalChannels c)"

section \<open>Configuration\<close>

record console_config =
  cgID :: string
  cgExposed :: bool
  cgCatalog :: "string list"
  cgCatalogFile :: string
  cgKernelID :: string
  cgConfigDir :: string
  cgChatEnabled :: bool
  cgChatExposed :: bool

text \<open>A catalogue file: its text, and what the two JSON forms make of it.\<close>

record catalog_file =
  cxText :: string
  cxItems :: "DataCatalogItem list option"
  cxNames :: "string list option"

definition catalog_lines :: "string \<Rightarrow> string list" where
  "catalog_lines txt' = filter (\<lambda>l. l \<noteq> [] \<and> \<not> prefix ''#'' l) (map trim_space (split_char (CHR 0x0A) txt'))"

definition loadDataCatalog :: "catalog_file option \<Rightarrow> console_config \<Rightarrow> string list" where
  "loadDataCatalog content g =
     (if cgCatalog g \<noteq> [] then cgCatalog g
      else if cgCatalogFile g = [] then []
      else case content of
             None \<Rightarrow> []
           | Some f \<Rightarrow>
               (let trimmed = trim_space (cxText f)
                in case (if prefix ''{'' trimmed then cxItems f else None) of
                     Some (x # xs) \<Rightarrow> map ItemName (x # xs)
                   | _ \<Rightarrow>
                       if prefix ''['' trimmed then (case cxNames f of None \<Rightarrow> [] | Some ns \<Rightarrow> ns)
                       else catalog_lines trimmed))"

definition loadDataCatalogItems :: "catalog_file option \<Rightarrow> console_config \<Rightarrow> DataCatalogItem list option" where
  "loadDataCatalogItems content g =
     (if cgCatalogFile g = [] then None
      else case content of
             None \<Rightarrow> None
           | Some f \<Rightarrow>
               if \<not> prefix ''{'' (trim_space (cxText f)) then None
               else case cxItems f of None \<Rightarrow> None | Some is \<Rightarrow> if is = [] then None else Some is)"

text \<open>\<open>parsed\<close> is what YAML makes of the file; a key that is missing leaves Go's zero value.\<close>

definition loadConfig :: "console_config option \<Rightarrow> catalog_file option \<Rightarrow> console_config option" where
  "loadConfig parsed content =
     map_option (\<lambda>g0.
       let g = (if cgChatEnabled g0 then g0\<lparr>cgChatExposed := True\<rparr> else g0);
           names = loadDataCatalog content g
       in if names \<noteq> [] then g\<lparr>cgCatalog := names\<rparr> else g) parsed"

definition exposed_option :: "console_config \<Rightarrow> bool option" where
  "exposed_option g = (if \<not> cgExposed g then Some False else None)"

definition channel_config_dir :: "console_config \<Rightarrow> string" where
  "channel_config_dir g = (if cgConfigDir g = [] then ''./channels/'' @ cgID g else cgConfigDir g)"

section \<open>Lemmas\<close>

lemma remove_seen_distinct: "distinct (remove_seen seen xs) \<and> set (remove_seen seen xs) = set xs - set seen"
  by (induction seen xs rule: remove_seen.induct) auto

lemma remove_seen_filter: "remove_seen seen xs = filter (\<lambda>x. x \<notin> set seen) (remove_seen [] xs)"
proof (induction xs arbitrary: seen)
  case (Cons x xs)
  have "remove_seen (x # seen) xs = filter (\<lambda>y. y \<notin> set (x # seen)) (remove_seen [] xs)" by (rule Cons)
  moreover have "remove_seen [x] xs = filter (\<lambda>y. y \<notin> set [x]) (remove_seen [] xs)" by (rule Cons)
  moreover have "remove_seen seen xs = filter (\<lambda>x. x \<notin> set seen) (remove_seen [] xs)" by (rule Cons)
  ultimately show ?case by (auto intro!: filter_cong)
qed simp

lemma removeDuplicates_set: "distinct (removeDuplicates xs)" "set (removeDuplicates xs) = set xs"
  using remove_seen_distinct [of "[]" xs] by (simp_all add: removeDuplicates_def)

lemma parse_create_ids:
  "parse_create args opt = Some opt' \<Longrightarrow> [] \<notin> set (cpSenders opt) \<union> set (cpReceivers opt) \<Longrightarrow> [] \<notin> set (cpSenders opt') \<union> set (cpReceivers opt')"
  by (induction args opt rule: parse_create.induct) (auto simp: id_list_def split: if_splits list.splits)

lemma check_sender_ids_ok: "distinct xs \<Longrightarrow> [] \<notin> set xs \<Longrightarrow> set xs \<inter> set seen = {} \<Longrightarrow> check_sender_ids seen xs = Inr (rev xs @ seen)"
  by (induction xs arbitrary: seen) auto

lemma check_receiver_ids_iff:
  "distinct xs \<Longrightarrow> [] \<notin> set xs \<Longrightarrow> isl (check_receiver_ids seen xs) \<longleftrightarrow> set xs \<inter> set seen \<noteq> {}"
  by (induction xs arbitrary: seen) auto

text \<open>Words without white space are the fields of the text that joins them with blanks.\<close>

definition is_word :: "string \<Rightarrow> bool" where
  "is_word w \<longleftrightarrow> w \<noteq> [] \<and> (\<forall>c \<in> set w. \<not> is_space c)"

lemma blank_is_space [simp]: "is_space CHR '' ''"
  by (simp add: is_space_def)

lemma takeWhile_word: "\<forall>c \<in> set w. P c \<Longrightarrow> \<not> P b \<Longrightarrow> takeWhile P (w @ b # r) = w \<and> dropWhile P (w @ b # r) = b # r"
  by (induction w) auto

lemma text_fields_word: "is_word w \<Longrightarrow> text_fields w = [w]"
  by (cases w) (simp_all add: is_word_def takeWhile_eq_all_conv [THEN iffD2] dropWhile_eq_Nil_conv [THEN iffD2])

lemma text_fields_blank: "is_word w \<Longrightarrow> text_fields (w @ CHR '' '' # r) = w # text_fields r"
proof (cases w)
  case (Cons c cs)
  assume "is_word w"
  then have "\<not> is_space c" "\<forall>x \<in> set cs. \<not> is_space x" using Cons by (simp_all add: is_word_def)
  then show ?thesis
    using Cons takeWhile_word [of cs "\<lambda>x. \<not> is_space x" "CHR '' ''" r] by simp
qed (simp add: is_word_def)

lemma text_fields_join: "\<forall>w \<in> set ws. is_word w \<Longrightarrow> text_fields (join CHR '' '' ws) = ws"
proof (induction ws)
  case (Cons w ws)
  then show ?case by (cases ws) (auto simp: text_fields_word text_fields_blank)
qed simp

lemma join_ends:
  "\<forall>w \<in> set ws. is_word w \<Longrightarrow> ws \<noteq> [] \<Longrightarrow>
   join CHR '' '' ws \<noteq> [] \<and> hd (join CHR '' '' ws) = hd (hd ws) \<and> last (join CHR '' '' ws) = last (last ws)"
proof (induction ws)
  case (Cons w ws)
  then show ?case by (cases ws) (auto simp: is_word_def hd_append)
qed simp

lemma trim_space_ends: "s \<noteq> [] \<Longrightarrow> \<not> is_space (hd s) \<Longrightarrow> \<not> is_space (last s) \<Longrightarrow> trim_space s = s"
proof -
  assume s: "s \<noteq> []" "\<not> is_space (hd s)" "\<not> is_space (last s)"
  have start: "dropWhile is_space r = r" if "r \<noteq> []" "\<not> is_space (hd r)" for r
    using that by (cases r) auto
  show ?thesis using start [of s] start [of "rev s"] s by (simp add: trim_space_def hd_rev)
qed

lemma trim_space_join: "\<forall>w \<in> set ws. is_word w \<Longrightarrow> ws \<noteq> [] \<Longrightarrow> trim_space (join CHR '' '' ws) = join CHR '' '' ws"
  using join_ends [of ws] by (intro trim_space_ends) (auto simp: is_word_def dest: hd_in_set last_in_set)

section \<open>Properties\<close>

text \<open>
  Removing duplicates keeps the first occurrence of each element: it is the library's \<open>remdups\<close>, which keeps the last one, from
  the other end.
\<close>

theorem removeDuplicates_remdups: "removeDuplicates xs = rev (remdups (rev xs))"
proof (induction xs rule: rev_induct)
  case (snoc x xs)
  have "remove_seen seen (ys @ [x]) = remove_seen seen ys @ (if x \<in> set seen \<union> set ys then [] else [x])" for seen ys
    by (induction seen ys rule: remove_seen.induct) auto
  with snoc show ?case by (simp add: removeDuplicates_def)
qed (simp add: removeDuplicates_def)

text \<open>
  What the console proposes passes the checks of the kernel on its participants, unless a connector is to be sender and
  receiver at once.
\<close>

theorem console_proposal_valid:
  assumes "handleCreateChannelFromArgs c args = Propose ss rs approver reason" and "coID c \<noteq> []"
  shows "check_participants (coID c) ss rs = None \<longleftrightarrow> set ss \<inter> set rs = {}"
proof -
  obtain opt where parsed: "parse_create args no_options = Some opt" and ne: "cpSenders opt \<noteq> []" "cpReceivers opt \<noteq> []"
    and ss: "ss = removeDuplicates (cpSenders opt)" and rs: "rs = removeDuplicates (cpReceivers opt)"
    using assms(1) by (auto simp: handleCreateChannelFromArgs_def Let_def split: option.splits if_splits)
  have "[] \<notin> set (cpSenders opt) \<union> set (cpReceivers opt)"
    by (rule parse_create_ids [OF parsed]) (simp add: no_options_def)
  then have ids: "distinct ss" "distinct rs" "[] \<notin> set ss" "[] \<notin> set rs" "ss \<noteq> []" "rs \<noteq> []"
    using ne removeDuplicates_set by (auto simp: ss rs simp flip: set_empty)
  have senders: "check_sender_ids [] ss = Inr (rev ss)" using check_sender_ids_ok [OF ids(1,3), of "[]"] by simp
  have "isl (check_receiver_ids (rev ss) rs) \<longleftrightarrow> set rs \<inter> set ss \<noteq> {}" using check_receiver_ids_iff [OF ids(2,4), of "rev ss"] by simp
  then show ?thesis
    using ids(5,6) assms(2) by (auto simp: check_participants_def senders split: sum.splits)
qed

text \<open>
  What the console lets a connector send, its kernel accepts from it: the channel is active and the connector may send.
\<close>

theorem console_send_allowed:
  assumes "GetChannelInfo ctx ch (coID c) cm = Inr (k, st, pid)"
    and "send_permitted c (Some \<lparr> ncStatus = chStatus k, ncNegotiation = st, ncSenderIds = chSenderIDs k \<rparr>)"
  shows "GetChannel ch cm = Inr k \<and> chStatus k = ChannelStatusActive \<and> CanSend k (coID c)"
proof -
  have "GetChannel ch cm = Inr k" using assms(1) by (auto simp: GetChannelInfo_def split: option.splits sum.splits)
  moreover obtain s where s: "s \<in> set (chSenderIDs k)" "raw_id s = coID c"
    using assms(2) by (auto simp: send_permitted_def list_ex_iff)
  have "can_send_as (coID c) s"
    using s(2) by (auto simp: can_send_as_def id_simps simp flip: s(2))
  then have "CanSend k (coID c)" using s(1) by (auto simp: CanSend_def list_ex_iff)
  ultimately show ?thesis using assms(2) by (auto simp: send_permitted_def channel_status_defs)
qed

text \<open>
  C35. The command \<^verbatim>\<open>subscribe\<close> never subscribes: in every reachable state of the client it asks for access to the channel or
  does nothing, for participants too.
\<close>

theorem console_never_subscribes:
  assumes "reach client_init client_step (c, ls)"
  shows "handleSubscribe c args \<noteq> Subscribe ch out"
proof -
  have "\<not> IsChannelParticipant x c" for x
    using client.reach_inv [OF assms]
    by (auto simp: client_ok_def unlinked_def IsChannelParticipant_def split: option.split)
  then show ?thesis by (auto simp: handleSubscribe_def split: list.splits option.splits if_splits)
qed

text \<open>
  A line with receivers is read back: the text that joins the marked receivers and the words of the data is sent to these
  receivers with this data.
\<close>

theorem line_roundtrip:
  assumes "\<forall>w \<in> set ts. is_word w" and "\<forall>w \<in> set ws. is_word w" and "ts \<noteq> []" and "ws \<noteq> []" and "\<not> is_at (hd ws)"
  shows "read_line (join CHR '' '' (map ((#) CHR ''@'') ts @ ws)) = SendLineOf ts (join CHR '' '' ws)"
proof -
  let ?ps = "map ((#) CHR ''@'') ts @ ws"
  have "\<not> is_space CHR ''@''" by (simp add: is_space_def)
  then have "is_word (CHR ''@'' # w)" if "is_word w" for w using that by (simp add: is_word_def)
  then have words: "\<forall>w \<in> set ?ps. is_word w" using assms(1,2) by auto
  have ne: "?ps \<noteq> []" using assms(3) by simp
  have "hd (join CHR '' '' ?ps) = CHR ''@''" "join CHR '' '' ?ps \<noteq> []"
    using join_ends [OF words ne] assms(3) by (cases ts; simp)+
  then have at: "is_at (join CHR '' '' ?ps)" "join CHR '' '' ?ps \<noteq> ''END''" "join CHR '' '' ?ps \<noteq> []" by (auto simp: is_at_def)
  have split: "takeWhile is_at ?ps = map ((#) CHR ''@'') ts" "dropWhile is_at ?ps = ws"
  proof -
    have at: "is_at (CHR ''@'' # w)" for w by (simp add: is_at_def)
    obtain w v where "ws = w # v" "\<not> is_at w" using assms(4,5) by (cases ws) auto
    then show "takeWhile is_at ?ps = map ((#) CHR ''@'') ts" "dropWhile is_at ?ps = ws"
      by (induction ts) (simp_all add: at)
  qed
  have "length ?ps \<ge> 2" "join CHR '' '' ws \<noteq> []"
    using assms(3,4) join_ends [OF assms(2,4)] by (auto simp: neq_Nil_conv Suc_le_eq)
  then show ?thesis
    using at by (simp add: read_line_def trim_space_join [OF words ne] text_fields_join [OF words] split Let_def comp_def)
qed

text \<open>
  A configuration file with a participant of another kernel is not checked: the request is made also when the client would
  refuse the file, for one because it names another creator.
\<close>

theorem cross_config_unchecked:
  assumes "contains_remote (ccfSenderIDs cfg) \<or> contains_remote (ccfReceiverIDs cfg)"
  shows "\<exists>req. handleCreateChannelFromConfigFile c dir f True (ClientConfigParsed cfg) = CreateAcross req
    \<and> ckCreatorConnectorId req = coID c"
  using assms by (auto simp: handleCreateChannelFromConfigFile_def Let_def cross_request_def)

text \<open>
  The key that hides a connector from the temporary chat has no effect while the chat is enabled.
\<close>

theorem chat_always_exposed:
  assumes "loadConfig (Some g0) content = Some g" and "cgChatEnabled g0"
  shows "cgChatExposed g"
  using assms by (auto simp: loadConfig_def Let_def split: if_splits)

section \<open>Witnesses\<close>

lemma demo_create:
  "handleCreateChannelFromArgs (demo_connector ''a'') [''--sender'', ''a, a'', ''--receiver'', ''b'', ''--reason'', ''x'', ''y'']
     = Propose [''a''] [''b''] [] ''x y''"
  by (simp add: handleCreateChannelFromArgs_def no_options_def id_list_def trim_space_def is_space_def Let_def contains_remote_def
      has_colon_def removeDuplicates_def)

theorem console_proposal_valid_witness:
  "\<exists>ss rs. handleCreateChannelFromArgs (demo_connector ''a'') [''--sender'', ''a, a'', ''--receiver'', ''b'', ''--reason'', ''x'', ''y'']
     = Propose ss rs [] ''x y'' \<and> check_participants (coID (demo_connector ''a'')) ss rs = None"
proof -
  have "coID (demo_connector ''a'') \<noteq> []" by (simp add: demo_connector_def)
  from console_proposal_valid [OF demo_create this] demo_create show ?thesis by auto
qed

definition demo_active :: ChannelManager where
  "demo_active = (NewChannelManager demo_evidence)\<lparr>cmChannels := [(''ch'', demo_dchannel [''k2:a''] [''b''])]\<rparr>"

theorem console_send_allowed_witness:
  "\<exists>k st pid. GetChannelInfo (VerifiedChains [[''a'']]) ''ch'' (coID (demo_connector ''a'')) demo_active = Inr (k, st, pid)
     \<and> CanSend k (coID (demo_connector ''a''))"
proof -
  have "GetChannelInfo (VerifiedChains [[''a'']]) ''ch'' (coID (demo_connector ''a'')) demo_active
    = Inr (demo_dchannel [''k2:a''] [''b''], Some NegotiationStatusAccepted, [])"
    by (simp add: GetChannelInfo_def VerifyConnectorID_def ExtractConnectorIDFromContext_def demo_connector_def demo_active_def GetChannel_def
        status_view_def demo_dchannel_def empty_channel_def)
  moreover have "send_permitted (demo_connector ''a'')
    (Some \<lparr> ncStatus = chStatus (demo_dchannel [''k2:a''] [''b'']), ncNegotiation = Some NegotiationStatusAccepted,
            ncSenderIds = chSenderIDs (demo_dchannel [''k2:a''] [''b'']) \<rparr>)"
    by (simp add: send_permitted_def demo_dchannel_def empty_channel_def demo_connector_def raw_id_def channel_status_defs)
  ultimately show ?thesis using console_send_allowed by blast
qed

theorem console_never_subscribes_witness:
  "\<exists>c. reach client_init client_step (c, []) \<and> go_get (coChannels c) ''ch'' \<noteq> None
     \<and> handleSubscribe c [''ch''] \<noteq> Subscribe ''ch'' ''./received''"
proof -
  let ?c = "fst (handle_notification demo_notice (demo_connector ''a''))"
  have "reach client_init client_step (?c, [])"
    by (rule reach_step [OF reach_init [of client_init, OF demo_client_init]], rule cs_notice)
  moreover from this have "handleSubscribe ?c [''ch''] \<noteq> Subscribe ''ch'' ''./received''" by (rule console_never_subscribes)
  moreover have "go_get (coChannels ?c) ''ch'' \<noteq> None"
    by (simp add: handle_notification_def Let_def demo_notice_def demo_connector_def is_named_def raw_id_def
        RecordChannelFromNotification_def notified_channel_def addOrUpdateLocalChannel_def)
  ultimately show ?thesis by blast
qed

theorem line_roundtrip_witness: "read_line ''@b hello there'' = SendLineOf [''b''] ''hello there''"
proof -
  have "\<forall>w \<in> set [''b'']. is_word w" "\<forall>w \<in> set [''hello'', ''there'']. is_word w" by (simp_all add: is_word_def is_space_def)
  from line_roundtrip [OF this] show ?thesis by (simp add: is_at_def)
qed

definition demo_file :: ClientConfigFile where
  "demo_file =
     \<lparr> ccfChannelName = [], ccfCreatorID = ''z'', ccfApproverID = [], ccfSenderIDs = [''a''], ccfReceiverIDs = [''k2:b''],
       ccfDataTopic = [], ccfEncrypted = True, ccfEvidenceConfig = None \<rparr>"

theorem cross_config_unchecked_witness:
  "check_config (demo_connector ''a'') demo_file \<noteq> None
   \<and> (\<exists>req. handleCreateChannelFromConfigFile (demo_connector ''a'') ''d'' ''f'' True (ClientConfigParsed demo_file) = CreateAcross req)"
proof -
  have "contains_remote (ccfSenderIDs demo_file) \<or> contains_remote (ccfReceiverIDs demo_file)"
    by (simp add: demo_file_def contains_remote_def has_colon_def)
  from cross_config_unchecked [OF this, of "demo_connector ''a''" "''d''" "''f''"] show ?thesis
    by (auto simp: check_config_def demo_file_def)
qed

theorem chat_always_exposed_witness:
  "\<exists>g. loadConfig (Some \<lparr> cgID = ''a'', cgExposed = True, cgCatalog = [], cgCatalogFile = [], cgKernelID = [], cgConfigDir = [],
     cgChatEnabled = True, cgChatExposed = False \<rparr>) None = Some g \<and> cgChatExposed g"
proof -
  obtain g where g: "loadConfig (Some \<lparr> cgID = ''a'', cgExposed = True, cgCatalog = [], cgCatalogFile = [], cgKernelID = [],
      cgConfigDir = [], cgChatEnabled = True, cgChatExposed = False \<rparr>) None = Some g"
    by (simp add: loadConfig_def)
  from chat_always_exposed [OF g] g show ?thesis by auto
qed

end
