(* ===== verification/Channel_Config.thy ===== *)
theory Channel_Config
  imports Channel_Negotiation File_Transfer
begin

text \<open>
  Channel configurations in JSON files: the manager of \<^verbatim>\<open>kernel/circulation/channel_config.go\<close>, and how the channel manager saves
  a channel (\<^verbatim>\<open>SaveChannelConfig\<close>) for \<^verbatim>\<open>CreateChannelFromConfig\<close> to create it again.

  The configurations are shared objects: what \<^verbatim>\<open>LoadConfig\<close> returns is the object in the cache, and \<^verbatim>\<open>SaveConfig\<close> changes the
  object it is given.  They live in a store of their own, and the cache holds their addresses.  The disk is a Go map from cleaned
  paths to contents; how a write ends is an argument.  The JSON of a configuration is a parameter.
\<close>

section \<open>Configurations and their files\<close>

record StoredConfig = ChannelConfigFile +
  scName :: string
  scDescription :: string
  scUpdatedAt :: "time option"
  scVersion :: int

record config_codec =
  cdEncode :: "StoredConfig \<Rightarrow> string option"
  cdDecode :: "string \<Rightarrow> StoredConfig option"

type_synonym config_disk = "string gomap"

text \<open>The addresses in \<open>kmConfigs\<close> are positions in \<open>kmObjects\<close>.\<close>

record ChannelConfigManager =
  kmDir :: string
  kmObjects :: "StoredConfig list"
  kmConfigs :: "nat gomap"
  kmDefault :: EvidenceConfig

datatype config_error =
  ConfigDirFailed | SavedNameEmpty | ConfigNotMarshalled | ConfigNotWritten | ConfigNotRead | ConfigNotUnmarshalled
| ConfigNotDeleted | SavedChannelNotFound | ConfigManagerMissing | InvalidEvidenceMode string | InvalidEvidenceStrategy string

text \<open>A write that fails after the file was opened leaves it cut short.\<close>

datatype write_outcome = Written | NotOpened | CutShort nat

definition write_file :: "write_outcome \<Rightarrow> string \<Rightarrow> string \<Rightarrow> config_disk \<Rightarrow> (config_error + unit) \<times> config_disk" where
  "write_file w p s d =
     (case w of
        Written \<Rightarrow> (Inr (), go_put p s d)
      | NotOpened \<Rightarrow> (Inl ConfigNotWritten, d)
      | CutShort n \<Rightarrow> (Inl ConfigNotWritten, go_put p (take n s) d))"

definition config_file_path :: "ChannelConfigManager \<Rightarrow> string \<Rightarrow> string" where
  "config_file_path m name = path_join (kmDir m) (name @ ''.json'')"

definition new_object :: "StoredConfig \<Rightarrow> ChannelConfigManager \<Rightarrow> nat \<times> ChannelConfigManager" where
  "new_object cfg m = (length (kmObjects m), m\<lparr>kmObjects := kmObjects m @ [cfg]\<rparr>)"

section \<open>The manager\<close>

definition stamp_saved :: "time \<Rightarrow> StoredConfig \<Rightarrow> StoredConfig" where
  "stamp_saved now cfg =
     (let c1 = cfg\<lparr>scUpdatedAt := Some now\<rparr>
      in if scVersion cfg = 0 then c1\<lparr>scVersion := 1, ccCreatedAt := Some now\<rparr> else c1\<lparr>scVersion := scVersion cfg + 1\<rparr>)"

definition ccm_SaveConfig ::
    "config_codec \<Rightarrow> time \<Rightarrow> write_outcome \<Rightarrow> nat \<Rightarrow> ChannelConfigManager \<Rightarrow> config_disk \<Rightarrow>
     (config_error + unit) \<times> ChannelConfigManager \<times> config_disk" where
  "ccm_SaveConfig codec now w a m d =
     (let cfg = kmObjects m ! a
      in if ccChannelName cfg = [] then (Inl SavedNameEmpty, m, d)
         else let cfg' = stamp_saved now cfg; m1 = m\<lparr>kmObjects := (kmObjects m)[a := cfg']\<rparr>
              in case cdEncode codec cfg' of
                   None \<Rightarrow> (Inl ConfigNotMarshalled, m1, d)
                 | Some s \<Rightarrow>
                     (case write_file w (config_file_path m (ccChannelName cfg)) s d of
                        (Inl e, d') \<Rightarrow> (Inl e, m1, d')
                      | (Inr u, d') \<Rightarrow> (Inr (), m1\<lparr>kmConfigs := go_put (ccChannelName cfg) a (kmConfigs m)\<rparr>, d')))"

definition ccm_LoadConfig ::
    "config_codec \<Rightarrow> bool \<Rightarrow> string \<Rightarrow> ChannelConfigManager \<Rightarrow> config_disk \<Rightarrow> (config_error + nat) \<times> ChannelConfigManager" where
  "ccm_LoadConfig codec read_ok name m d =
     (case go_get (kmConfigs m) name of
        Some a \<Rightarrow> (Inr a, m)
      | None \<Rightarrow>
          (case (if read_ok then go_get d (config_file_path m name) else None) of
             None \<Rightarrow> (Inl ConfigNotRead, m)
           | Some s \<Rightarrow>
               (case cdDecode codec s of
                  None \<Rightarrow> (Inl ConfigNotUnmarshalled, m)
                | Some cfg \<Rightarrow> (case new_object cfg m of (a, m1) \<Rightarrow> (Inr a, m1\<lparr>kmConfigs := go_put name a (kmConfigs m)\<rparr>)))))"

text \<open>A file that does not exist counts as removed.\<close>

definition ccm_DeleteConfig ::
    "bool \<Rightarrow> string \<Rightarrow> ChannelConfigManager \<Rightarrow> config_disk \<Rightarrow> (config_error + unit) \<times> ChannelConfigManager \<times> config_disk" where
  "ccm_DeleteConfig remove_ok name m d =
     (if \<not> remove_ok then (Inl ConfigNotDeleted, m, d)
      else (Inr (), m\<lparr>kmConfigs := go_del name (kmConfigs m)\<rparr>, go_del (config_file_path m name) d))"

definition ccm_ListConfigs :: "ChannelConfigManager \<Rightarrow> StoredConfig list" where
  "ccm_ListConfigs m = map (\<lambda>(k, a). kmObjects m ! a) (kmConfigs m)"

definition CreateConfigFromChannel :: "time \<Rightarrow> Channel \<Rightarrow> string \<Rightarrow> string \<Rightarrow> StoredConfig" where
  "CreateConfigFromChannel now c name descr =
     \<lparr> ccChannelName = chName c, ccCreatorID = chCreatorID c, ccApproverID = chApproverID c, ccSenderIDs = chSenderIDs c,
       ccReceiverIDs = chReceiverIDs c, ccDataTopic = chDataTopic c, ccEncrypted = chEncrypted c,
       ccEvidenceConfig = chEvidenceConfig c, ccCreatedAt = Some (chCreatedAt c), scName = name, scDescription = descr,
       scUpdatedAt = Some now, scVersion = 1 \<rparr>"

definition ccm_CreateChannelFromConfig :: "time \<Rightarrow> string \<Rightarrow> StoredConfig \<Rightarrow> Channel" where
  "ccm_CreateChannelFromConfig now cid cfg =
     (fresh_channel now cid (ccCreatorID cfg) (ccApproverID cfg) (ccSenderIDs cfg) (ccReceiverIDs cfg) (ccDataTopic cfg)
        (ccEncrypted cfg) (ccEvidenceConfig cfg) [] ChannelStatusActive)
       \<lparr> chName := ccChannelName cfg, chCreatedAt := (case ccCreatedAt cfg of None \<Rightarrow> now | Some t \<Rightarrow> t) \<rparr>"

definition SetDefaultEvidenceConfig :: "EvidenceConfig option \<Rightarrow> ChannelConfigManager \<Rightarrow> ChannelConfigManager" where
  "SetDefaultEvidenceConfig ev m = (case ev of None \<Rightarrow> m | Some e \<Rightarrow> m\<lparr>kmDefault := e\<rparr>)"

definition default_evidence :: EvidenceConfig where
  "default_evidence =
     \<lparr> ecMode = EvidenceModeNone, ecStrategy = EvidenceStrategyAll, ecRetentionDays = 30, ecCompressData = True \<rparr>"

definition GetDefaultEvidenceConfig :: "ChannelConfigManager option \<Rightarrow> EvidenceConfig" where
  "GetDefaultEvidenceConfig km = (case km of None \<Rightarrow> default_evidence | Some m \<Rightarrow> kmDefault m)"

text \<open>A directory is listed in full; \<open>is_config_file\<close> is the test of the code on a name.\<close>

record file_info =
  fiName :: string
  fiDir :: bool
  fiModTime :: time

definition is_config_file :: "file_info \<Rightarrow> bool" where
  "is_config_file f \<longleftrightarrow> \<not> fiDir f \<and> suffix ''.json'' (fiName f)"

definition config_file_id :: "file_info \<Rightarrow> string" where
  "config_file_id f = take (length (fiName f) - 5) (fiName f)"

definition ccm_loadAllConfigs ::
    "config_codec \<Rightarrow> (string \<Rightarrow> bool) \<Rightarrow> file_info list option \<Rightarrow> config_disk \<Rightarrow> ChannelConfigManager \<Rightarrow> ChannelConfigManager" where
  "ccm_loadAllConfigs codec read_ok listing d m =
     (case listing of
        None \<Rightarrow> m
      | Some fs \<Rightarrow>
          foldl (\<lambda>m f. if is_config_file f then snd (ccm_LoadConfig codec (read_ok (fiName f)) (config_file_id f) m d) else m) m fs)"

definition NewChannelConfigManager ::
    "config_codec \<Rightarrow> (string \<Rightarrow> bool) \<Rightarrow> bool \<Rightarrow> string \<Rightarrow> file_info list option \<Rightarrow> config_disk \<Rightarrow> config_error + ChannelConfigManager" where
  "NewChannelConfigManager codec read_ok mkdir_ok dir listing d =
     (if \<not> mkdir_ok then Inl ConfigDirFailed
      else Inr (ccm_loadAllConfigs codec read_ok listing d
             \<lparr> kmDir = (if dir = [] then ''./channel_configs'' else dir), kmObjects = [], kmConfigs = [],
               kmDefault = default_evidence \<rparr>))"

definition EvidenceStrategyData :: evidence_strategy where
  "EvidenceStrategyData = ''data''"

definition EvidenceStrategyControl :: evidence_strategy where
  "EvidenceStrategyControl = ''control''"

definition EvidenceStrategyImportant :: evidence_strategy where
  "EvidenceStrategyImportant = ''important''"

text \<open>A number of days that is not positive is replaced in the object that is checked.\<close>

definition ValidateEvidenceConfig :: "EvidenceConfig option \<Rightarrow> (config_error + unit) \<times> EvidenceConfig option" where
  "ValidateEvidenceConfig ev =
     (case ev of
        None \<Rightarrow> (Inr (), None)
      | Some e \<Rightarrow>
          if ecMode e \<noteq> EvidenceModeNone \<and> ecMode e \<noteq> EvidenceModeInternal then (Inl (InvalidEvidenceMode (ecMode e)), ev)
          else if ecStrategy e \<notin> {EvidenceStrategyAll, EvidenceStrategyData, EvidenceStrategyControl, EvidenceStrategyImportant}
          then (Inl (InvalidEvidenceStrategy (ecStrategy e)), ev)
          else (Inr (), Some (if ecRetentionDays e \<le> 0 then e\<lparr>ecRetentionDays := 30\<rparr> else e)))"

section \<open>Cleaning up\<close>

text \<open>The two nested loops that bring the newest file to the front: one pass, and all of them.\<close>

fun exchange_pass :: "file_info \<Rightarrow> file_info list \<Rightarrow> file_info \<times> file_info list" where
  "exchange_pass x [] = (x, [])"
| "exchange_pass x (y # ys) =
     (if fiModTime x < fiModTime y then (case exchange_pass y ys of (z, zs) \<Rightarrow> (z, x # zs))
      else (case exchange_pass x ys of (z, zs) \<Rightarrow> (z, y # zs)))"

lemma exchange_pass_length [simp]: "length (snd (exchange_pass x ys)) = length ys"
  by (induction x ys rule: exchange_pass.induct) (auto split: prod.splits)

function exchange_sort :: "file_info list \<Rightarrow> file_info list" where
  "exchange_sort [] = []"
| "exchange_sort (x # xs) = fst (exchange_pass x xs) # exchange_sort (snd (exchange_pass x xs))"
  by pat_completeness auto

termination exchange_sort
  by (relation "measure length") simp_all

definition group_files :: "file_info list \<Rightarrow> file_info list gomap" where
  "group_files fs =
     foldl (\<lambda>m f. if is_config_file f
                  then go_put (config_file_id f) ((case go_get m (config_file_id f) of None \<Rightarrow> [] | Some gs \<Rightarrow> gs) @ [f]) m
                  else m) [] fs"

definition files_to_remove :: "nat \<Rightarrow> file_info list \<Rightarrow> file_info list" where
  "files_to_remove n gs = (if length gs > n then drop n (exchange_sort gs) else [])"

definition CleanupOldConfigs ::
    "int \<Rightarrow> (string \<Rightarrow> bool) \<Rightarrow> file_info list option \<Rightarrow> ChannelConfigManager \<Rightarrow> config_disk \<Rightarrow> (config_error + unit) \<times> config_disk" where
  "CleanupOldConfigs max_versions remove_ok listing m d =
     (let n = (if max_versions \<le> 0 then 5 else nat max_versions)
      in case listing of
           None \<Rightarrow> (Inl ConfigDirFailed, d)
         | Some fs \<Rightarrow>
             (Inr (), foldl (\<lambda>d f. if remove_ok (fiName f) then go_del (path_join (kmDir m) (fiName f)) d else d) d
                        (concat (map (\<lambda>(k, gs). files_to_remove n gs) (group_files fs)))))"

section \<open>Saving channels\<close>

definition SaveChannelConfig ::
    "config_codec \<Rightarrow> time \<Rightarrow> write_outcome \<Rightarrow> string \<Rightarrow> string \<Rightarrow> string \<Rightarrow> ChannelManager \<Rightarrow> ChannelConfigManager option \<Rightarrow> config_disk \<Rightarrow>
     (config_error + unit) \<times> ChannelConfigManager option \<times> config_disk" where
  "SaveChannelConfig codec now w cid name descr cm km d =
     (case go_get (cmChannels cm) cid of
        None \<Rightarrow> (Inl SavedChannelNotFound, km, d)
      | Some c \<Rightarrow>
          (let cfg = CreateConfigFromChannel now c name descr
           in if chConfigFilePath c \<noteq> [] then
                (case cdEncode codec cfg of
                   None \<Rightarrow> (Inl ConfigNotMarshalled, km, d)
                 | Some s \<Rightarrow> (case write_file w (path_clean (chConfigFilePath c)) s d of (r, d') \<Rightarrow> (r, km, d')))
              else (case km of
                      None \<Rightarrow> (Inl ConfigManagerMissing, km, d)
                    | Some m \<Rightarrow>
                        (case new_object cfg m of
                           (a, m1) \<Rightarrow> (case ccm_SaveConfig codec now w a m1 d of (r, m2, d') \<Rightarrow> (r, Some m2, d'))))))"

definition LoadChannelConfig ::
    "config_codec \<Rightarrow> bool \<Rightarrow> string \<Rightarrow> ChannelConfigManager option \<Rightarrow> config_disk \<Rightarrow> (config_error + nat) \<times> ChannelConfigManager option" where
  "LoadChannelConfig codec read_ok cid km d =
     (case km of
        None \<Rightarrow> (Inl ConfigManagerMissing, None)
      | Some m \<Rightarrow> (case ccm_LoadConfig codec read_ok cid m d of (r, m') \<Rightarrow> (r, Some m')))"

text \<open>What \<^verbatim>\<open>CreateChannelFromConfig\<close> of the channel manager finds under a path.\<close>

definition config_on_disk :: "config_codec \<Rightarrow> string \<Rightarrow> config_disk \<Rightarrow> config_read" where
  "config_on_disk codec p d =
     (case go_get d (path_clean p) of
        None \<Rightarrow> ConfigUnreadable
      | Some s \<Rightarrow> (case cdDecode codec s of None \<Rightarrow> ConfigMalformed | Some cfg \<Rightarrow> ConfigParsed (ChannelConfigFile.truncate cfg)))"

section \<open>Paths\<close>

lemma split_slash_plain: "CHR ''/'' \<notin> set w \<Longrightarrow> split_slash w = [w]"
  by (induction w) auto

lemma split_slash_nonempty [simp]: "split_slash s \<noteq> []"
  by (induction s) (auto split: list.splits)

lemma split_slash_append: "split_slash (a @ CHR ''/'' # b) = split_slash a @ split_slash b"
proof (induction a)
  case (Cons c a)
  then show ?case by (cases "split_slash a") auto
qed simp

lemma join_snoc: "join sep (ws @ [w]) = (if ws = [] then w else join sep ws @ sep # w)"
proof (induction ws)
  case (Cons v ws)
  then show ?case by (cases ws) auto
qed simp

text \<open>A file of a directory keeps its name in its path.\<close>

definition file_name :: "string \<Rightarrow> bool" where
  "file_name w \<longleftrightarrow> w \<notin> {[], ''.'', ''..''} \<and> CHR ''/'' \<notin> set w"

lemma path_base_join:
  assumes "file_name w"
  shows "path_base (path_join dir w) = w"
proof -
  have w: "w \<noteq> []" "path_element r acc w = w # acc" "split_slash w = [w]" for r acc
    using assms split_slash_plain by (auto simp: file_name_def path_element_def)
  have last_part: "path_base (pre @ CHR ''/'' # w) = w" "path_base w = w" for pre
    by (simp_all add: path_base_def split_slash_append w(3))
  define p where "p = (if dir = [] then w else dir @ CHR ''/'' # w)"
  have "\<exists>us. split_slash p = us @ [w]"
    by (simp add: p_def split_slash_append w(3))
  then obtain us where us: "split_slash p = us @ [w]" by blast
  define r where "r = (p \<noteq> [] \<and> hd p = CHR ''/'')"
  define ws where "ws = rev (foldl (path_element r) [] us)"
  have parts: "rev (foldl (path_element r) [] (split_slash p)) = ws @ [w]"
    by (simp add: us w(2) ws_def)
  have "path_clean p = (if r then CHR ''/'' # join (CHR ''/'') (ws @ [w]) else join (CHR ''/'') (ws @ [w]))"
    unfolding path_clean_def Let_def r_def [symmetric] parts by simp
  moreover have "path_base (join (CHR ''/'') (ws @ [w])) = w" "path_base (CHR ''/'' # join (CHR ''/'') (ws @ [w])) = w"
    using last_part(1) [of "[]"] last_part(1) [of "CHR ''/'' # join (CHR ''/'') ws"] last_part
    by (simp_all add: join_snoc)
  moreover have "path_join dir w = path_clean p" using w(1) by (simp add: path_join_def p_def)
  ultimately show ?thesis by (cases r) simp_all
qed

definition plain_name :: "string \<Rightarrow> bool" where
  "plain_name n \<longleftrightarrow> CHR ''/'' \<notin> set n"

lemma json_file_name: "plain_name k \<Longrightarrow> file_name (k @ ''.json'')"
proof -
  have "k @ ''.json'' \<noteq> w" if "length w < 5" for w using that by auto
  then have "k @ ''.json'' \<notin> {[], ''.'', ''..''}" by simp
  then show "plain_name k \<Longrightarrow> file_name (k @ ''.json'')" by (simp add: plain_name_def file_name_def)
qed

lemma config_path_inj:
  assumes "plain_name n" and "plain_name n'" and "config_file_path m n = config_file_path m' n'"
  shows "n = n'"
proof -
  have "path_base (config_file_path m n) = n @ ''.json''" "path_base (config_file_path m' n') = n' @ ''.json''"
    using assms(1,2) by (simp_all add: config_file_path_def path_base_join json_file_name)
  with assms(3) show ?thesis by simp
qed

section \<open>The manager as a machine\<close>

text \<open>
  The codec reads what it wrote.  A client of the manager holds addresses of its objects and may change all but the name of one.
\<close>

definition codec_ok :: "config_codec \<Rightarrow> bool" where
  "codec_ok codec \<longleftrightarrow> (\<forall>cfg s. cdEncode codec cfg = Some s \<longrightarrow> cdDecode codec s = Some cfg)"

type_synonym config_state = "ChannelConfigManager \<times> config_disk"

inductive config_step :: "config_codec \<Rightarrow> (string \<Rightarrow> bool) \<Rightarrow> config_state \<Rightarrow> config_state \<Rightarrow> bool" for codec touches where
  step_save: "a < length (kmObjects m) \<Longrightarrow> touches (ccChannelName (kmObjects m ! a)) \<Longrightarrow>
     ccm_SaveConfig codec now w a m d = (r, m', d') \<Longrightarrow> config_step codec touches (m, d) (m', d')"
| step_load: "ccm_LoadConfig codec read_ok name m d = (r, m') \<Longrightarrow> config_step codec touches (m, d) (m', d)"
| step_delete: "touches name \<Longrightarrow> ccm_DeleteConfig remove_ok name m d = (r, m', d') \<Longrightarrow> config_step codec touches (m, d) (m', d')"
| step_new: "new_object cfg m = (a, m') \<Longrightarrow> config_step codec touches (m, d) (m', d)"
| step_edit: "a < length (kmObjects m) \<Longrightarrow> ccChannelName cfg = ccChannelName (kmObjects m ! a) \<Longrightarrow>
     config_step codec touches (m, d) (m\<lparr>kmObjects := (kmObjects m)[a := cfg]\<rparr>, d)"

definition config_init :: "config_state \<Rightarrow> bool" where
  "config_init s \<longleftrightarrow> kmObjects (fst s) = [] \<and> kmConfigs (fst s) = []"

definition config_ok :: "config_state \<Rightarrow> bool" where
  "config_ok s \<longleftrightarrow> go_map_ok (kmConfigs (fst s)) \<and> (\<forall>k a. go_get (kmConfigs (fst s)) k = Some a \<longrightarrow> a < length (kmObjects (fst s)))"

lemma save_result:
  assumes "ccm_SaveConfig codec now w a m d = (r, m', d')"
  shows "kmDir m' = kmDir m \<and> length (kmObjects m') = length (kmObjects m)
    \<and> (kmConfigs m' = kmConfigs m \<or> kmConfigs m' = go_put (ccChannelName (kmObjects m ! a)) a (kmConfigs m))
    \<and> (d' = d \<or> (\<exists>s. d' = go_put (config_file_path m (ccChannelName (kmObjects m ! a))) s d))"
  using assms
  by (auto simp: ccm_SaveConfig_def Let_def write_file_def split: if_splits option.splits write_outcome.splits)

lemma load_result:
  assumes "ccm_LoadConfig codec read_ok name m d = (r, m')"
  shows "m' = m \<or> (\<exists>cfg. m' = m\<lparr>kmObjects := kmObjects m @ [cfg], kmConfigs := go_put name (length (kmObjects m)) (kmConfigs m)\<rparr>)"
  using assms by (auto simp: ccm_LoadConfig_def new_object_def split: option.splits)

lemma config_step_ok: "config_step codec touches s t \<Longrightarrow> config_ok s \<Longrightarrow> config_ok t"
proof (induction rule: config_step.induct)
  case (step_save a m now w d r m' d')
  then show ?case
    using save_result [OF step_save(3)] by (auto simp: config_ok_def gomap_simps split: if_splits)
next
  case (step_load read_ok name m d r m')
  then show ?case
    using load_result [OF step_load(1)] by (auto simp: config_ok_def gomap_simps less_Suc_eq split: if_splits)
next
  case (step_delete name remove_ok m d r m' d')
  then show ?case by (auto simp: config_ok_def ccm_DeleteConfig_def gomap_simps split: if_splits)
next
  case (step_new cfg m a m' d)
  then show ?case by (force simp: config_ok_def new_object_def)
next
  case (step_edit a m cfg d)
  then show ?case by (simp add: config_ok_def)
qed

interpretation configs: invariant_system config_init "config_step codec touches" config_ok
  for codec touches
proof unfold_locales
  show "config_ok s" if "config_init s" for s using that by (simp add: config_init_def config_ok_def)
qed (rule config_step_ok)

text \<open>What stays on disk while other names are touched.\<close>

definition on_disk :: "string \<Rightarrow> string \<Rightarrow> string \<Rightarrow> config_state \<Rightarrow> bool" where
  "on_disk dir n s st \<longleftrightarrow> kmDir (fst st) = dir \<and> go_get (snd st) (path_join dir (n @ ''.json'')) = Some s"

definition others :: "string \<Rightarrow> string \<Rightarrow> bool" where
  "others n k \<longleftrightarrow> plain_name n \<and> plain_name k \<and> k \<noteq> n"

lemma config_step_on_disk: "config_step codec (others n) s t \<Longrightarrow> on_disk dir n c s \<Longrightarrow> on_disk dir n c t"
proof (induction rule: config_step.induct)
  case (step_save a m now w d r m' d')
  have "config_file_path m (ccChannelName (kmObjects m ! a)) \<noteq> config_file_path m n"
    using step_save(2) config_path_inj by (auto simp: others_def)
  then show ?case
    using save_result [OF step_save(3)] step_save(4) by (auto simp: on_disk_def gomap_simps config_file_path_def)
next
  case (step_load read_ok name m d r m')
  then show ?case using load_result [OF step_load(1)] by (auto simp: on_disk_def)
next
  case (step_delete name remove_ok m d r m' d')
  have "config_file_path m name \<noteq> config_file_path m n"
    using step_delete(1) config_path_inj by (auto simp: others_def)
  then show ?case
    using step_delete(2,3) by (auto simp: on_disk_def ccm_DeleteConfig_def gomap_simps config_file_path_def split: if_splits)
qed (auto simp: on_disk_def new_object_def)

interpretation disk: stable_under "config_step codec (others n)" "on_disk dir n c"
  for codec n dir c
  by unfold_locales (rule config_step_on_disk)

text \<open>A manager that has only loaded files holds what is on the disk.\<close>

definition loaded_from :: "config_codec \<Rightarrow> config_disk \<Rightarrow> ChannelConfigManager \<Rightarrow> bool" where
  "loaded_from codec d m \<longleftrightarrow>
     (\<forall>k a. go_get (kmConfigs m) k = Some a \<longrightarrow> a < length (kmObjects m) \<and>
        (\<exists>s. go_get d (config_file_path m k) = Some s \<and> cdDecode codec s = Some (kmObjects m ! a)))"

lemma load_loaded_from:
  assumes "ccm_LoadConfig codec read_ok name m d = (r, m')" and "loaded_from codec d m"
  shows "loaded_from codec d m' \<and> kmDir m' = kmDir m"
proof (cases "m' = m")
  case False
  then obtain cfg s where m': "m' = m\<lparr>kmObjects := kmObjects m @ [cfg], kmConfigs := go_put name (length (kmObjects m)) (kmConfigs m)\<rparr>"
    and s: "go_get d (config_file_path m name) = Some s" "cdDecode codec s = Some cfg"
    using assms(1) by (auto simp: ccm_LoadConfig_def new_object_def split: option.splits if_splits)
  have "loaded_from codec d m'"
    unfolding loaded_from_def
  proof (intro allI impI)
    fix k a
    assume a: "go_get (kmConfigs m') k = Some a"
    show "a < length (kmObjects m') \<and> (\<exists>s. go_get d (config_file_path m' k) = Some s \<and> cdDecode codec s = Some (kmObjects m' ! a))"
    proof (cases "k = name")
      case True
      then have "a = length (kmObjects m)" using a by (simp add: m' gomap_simps)
      then show ?thesis using s True by (simp add: m' config_file_path_def)
    next
      case False
      then have "go_get (kmConfigs m) k = Some a" using a by (simp add: m' gomap_simps)
      then obtain s' where "a < length (kmObjects m)" "go_get d (config_file_path m k) = Some s'" "cdDecode codec s' = Some (kmObjects m ! a)"
        using assms(2) unfolding loaded_from_def by blast
      then show ?thesis by (simp add: m' config_file_path_def nth_append)
    qed
  qed
  then show ?thesis by (simp add: m')
qed (use assms(2) in simp)

lemma load_all_loaded_from:
  "loaded_from codec d m \<Longrightarrow> loaded_from codec d (ccm_loadAllConfigs codec read_ok listing d m) \<and> kmDir (ccm_loadAllConfigs codec read_ok listing d m) = kmDir m"
proof (cases listing)
  case (Some fs)
  assume "loaded_from codec d m"
  then have "loaded_from codec d (ccm_loadAllConfigs codec read_ok (Some fs) d m) \<and> kmDir (ccm_loadAllConfigs codec read_ok (Some fs) d m) = kmDir m"
  proof (induction fs arbitrary: m)
    case (Cons f fs)
    obtain r m' where l: "ccm_LoadConfig codec (read_ok (fiName f)) (config_file_id f) m d = (r, m')" by fastforce
    show ?case
      using Cons.IH [of m] Cons.IH [of m'] Cons.prems load_loaded_from [OF l] l by (simp add: ccm_loadAllConfigs_def)
  qed (simp add: ccm_loadAllConfigs_def)
  then show ?thesis by (simp add: Some)
qed (simp add: ccm_loadAllConfigs_def)

section \<open>Sorting and grouping\<close>

lemma exchange_pass_result:
  "exchange_pass x ys = (z, zs) \<Longrightarrow> z \<in> set (x # ys) \<and> set (z # zs) = set (x # ys) \<and> (\<forall>y \<in> set (x # ys). fiModTime y \<le> fiModTime z)"
proof (induction x ys arbitrary: z zs rule: exchange_pass.induct)
  case (2 x y ys)
  show ?case
  proof (cases "fiModTime x < fiModTime y")
    case True
    obtain zs' where e: "exchange_pass y ys = (z, zs')" and zs: "zs = x # zs'"
      using 2(3) True by (auto split: prod.splits)
    have "z \<in> set (y # ys)" "set (z # zs') = set (y # ys)" "\<forall>v \<in> set (y # ys). fiModTime v \<le> fiModTime z"
      using 2(1) [OF True e] by blast+
    moreover from this(3) have "fiModTime x \<le> fiModTime z" using True by fastforce
    ultimately show ?thesis by (auto simp: zs)
  next
    case False
    obtain zs' where e: "exchange_pass x ys = (z, zs')" and zs: "zs = y # zs'"
      using 2(3) False by (auto split: prod.splits)
    have "z \<in> set (x # ys)" "set (z # zs') = set (x # ys)" "\<forall>v \<in> set (x # ys). fiModTime v \<le> fiModTime z"
      using 2(2) [OF False e] by blast+
    moreover from this(3) have "fiModTime y \<le> fiModTime z" using False by fastforce
    ultimately show ?thesis by (auto simp: zs)
  qed
qed simp

lemma exchange_sort_newest_first:
  "set (exchange_sort fs) = set fs \<and> sorted_wrt (\<lambda>f g. fiModTime g \<le> fiModTime f) (exchange_sort fs)"
proof (induction fs rule: exchange_sort.induct)
  case (2 x xs)
  obtain z zs where e: "exchange_pass x xs = (z, zs)" by fastforce
  have "set (z # zs) = set (x # xs)" "\<forall>y \<in> set (x # xs). fiModTime y \<le> fiModTime z"
    using exchange_pass_result [OF e] by blast+
  moreover have "set (exchange_sort zs) = set zs" "sorted_wrt (\<lambda>f g. fiModTime g \<le> fiModTime f) (exchange_sort zs)"
    using 2 e by simp_all
  moreover have "set zs \<subseteq> set (x # xs)" using calculation(1) by auto
  ultimately show ?case using e by auto
qed simp

lemma group_files_snoc:
  "group_files (fs @ [f]) =
     (if is_config_file f
      then go_put (config_file_id f) ((case go_get (group_files fs) (config_file_id f) of None \<Rightarrow> [] | Some gs \<Rightarrow> gs) @ [f]) (group_files fs)
      else group_files fs)"
  by (simp add: group_files_def)

lemma group_files_get:
  "go_map_ok (group_files fs) \<and>
   (\<forall>k gs. go_get (group_files fs) k = Some gs \<longrightarrow> gs = filter (\<lambda>f. is_config_file f \<and> config_file_id f = k) fs) \<and>
   (\<forall>k. go_get (group_files fs) k = None \<longrightarrow> filter (\<lambda>f. is_config_file f \<and> config_file_id f = k) fs = [])"
proof (induction fs rule: rev_induct)
  case (snoc f fs)
  then show ?case by (auto simp: group_files_snoc gomap_simps split: option.splits)
qed (simp add: group_files_def)

lemma config_file_id_name: "is_config_file f \<Longrightarrow> fiName f = config_file_id f @ ''.json''"
  by (auto simp: is_config_file_def config_file_id_def suffix_def)

section \<open>Properties\<close>


text \<open>
  A channel that was saved under its path is created again from the file exactly when it has a name, with the same name,
  people, topic, encryption, evidence and creation time; but active, whatever its status was.
\<close>

theorem saved_channel_recreated:
  assumes "codec_ok codec" and "go_get (cmChannels cm) cid = Some c" and "chConfigFilePath c \<noteq> []"
    and "SaveChannelConfig codec now w cid name descr cm km d = (Inr (), km', d')"
  shows "case CreateChannelFromConfig now' cid' (chConfigFilePath c) (config_on_disk codec (chConfigFilePath c) d') cm0 of
      (Inl e, cm1) \<Rightarrow> chName c = [] \<and> e = ConfigNameMissing
    | (Inr k, cm1) \<Rightarrow> chName c \<noteq> [] \<and> chStatus k = ChannelStatusActive \<and> go_get (cmChannels cm1) (chName c) = Some k
        \<and> (chName k, chCreatorID k, chApproverID k, chSenderIDs k, chReceiverIDs k, chDataTopic k, chEncrypted k, chEvidenceConfig k, chCreatedAt k)
          = (chName c, chCreatorID c, chApproverID c, chSenderIDs c, chReceiverIDs c, chDataTopic c, chEncrypted c, chEvidenceConfig c, chCreatedAt c)"
proof -
  define cfg where "cfg = CreateConfigFromChannel now c name descr"
  obtain s where "cdEncode codec cfg = Some s" and d': "d' = go_put (path_clean (chConfigFilePath c)) s d"
    using assms(2-4)
    by (auto simp: SaveChannelConfig_def cfg_def [symmetric] Let_def write_file_def split: option.splits write_outcome.splits)
  then have "config_on_disk codec (chConfigFilePath c) d' = ConfigParsed (ChannelConfigFile.truncate cfg)"
    using assms(1) by (simp add: config_on_disk_def gomap_simps codec_ok_def)
  then show ?thesis
    by (simp add: CreateChannelFromConfig_def cfg_def CreateConfigFromChannel_def ChannelConfigFile.truncate_def Let_def
        fresh_channel_def put_channel_def gomap_simps)
qed

text \<open>
  Saving a cached configuration changes what others load even when it fails: the cache then holds a version the disk does not.
\<close>

theorem failed_save_changes_cache:
  assumes "go_get (kmConfigs m) k = Some a" and "a < length (kmObjects m)" and "ccChannelName (kmObjects m ! a) \<noteq> []"
    and "scVersion (kmObjects m ! a) > 0"
    and "cdEncode codec (stamp_saved now (kmObjects m ! a)) = Some s"
  shows "\<exists>m'. ccm_SaveConfig codec now NotOpened a m d = (Inl ConfigNotWritten, m', d)
    \<and> ccm_LoadConfig codec read_ok k m' d = (Inr a, m') \<and> scVersion (kmObjects m' ! a) = scVersion (kmObjects m ! a) + 1"
  using assms by (simp add: ccm_SaveConfig_def write_file_def ccm_LoadConfig_def stamp_saved_def Let_def)

text \<open>
  The clean-up removes nothing: a directory has one file per name, so no group has more files than are kept.
\<close>

theorem cleanup_removes_nothing:
  assumes "distinct (map fiName fs)"
  shows "CleanupOldConfigs n remove_ok (Some fs) m d = (Inr (), d)"
proof -
  have "files_to_remove k gs = []" if "(i, gs) \<in> set (group_files fs)" and "k > 0" for i gs k
  proof -
    have gs: "gs = filter (\<lambda>f. is_config_file f \<and> config_file_id f = i) fs"
      using that group_files_get [of fs] go_get_mem [of "group_files fs" i gs] by blast
    then have "set (map fiName gs) \<subseteq> {i @ ''.json''}" using config_file_id_name by auto
    moreover have "distinct (map fiName gs)" unfolding gs by (rule distinct_map_filter [OF assms])
    ultimately have "length gs \<le> 1"
      using distinct_card [of "map fiName gs"] card_mono [of "{i @ ''.json''}" "set (map fiName gs)"] by simp
    then show ?thesis using \<open>k > 0\<close> by (simp add: files_to_remove_def)
  qed
  then have none: "concat (map (\<lambda>(i, gs). files_to_remove k gs) (group_files fs)) = []" if "k > 0" for k
    using that by auto
  show ?thesis by (simp add: CleanupOldConfigs_def Let_def none)
qed

text \<open>
  A channel that was proposed without a path cannot be saved: it has no name, and the manager saves no configuration
  without one.
\<close>

theorem proposed_channel_not_saved:
  assumes "ProposeChannel now cid pid creator approver senders receivers topic encrypted ev [] reason timeout cm = (Inr c, cm')"
  shows "\<exists>e km'. SaveChannelConfig codec now' w cid name descr cm' km d = (Inl e, km', d)"
proof -
  have "go_get (cmChannels cm') cid = Some c" "chConfigFilePath c = []" "chName c = []"
    using assms by (auto simp: ProposeChannel_def Let_def fresh_channel_def gomap_simps split: option.splits)
  then show ?thesis
    by (cases km)
      (simp_all add: SaveChannelConfig_def new_object_def ccm_SaveConfig_def CreateConfigFromChannel_def Let_def)
qed

text \<open>
  Whatever its clients do, the manager lists only objects of its store, one for every name.
\<close>

theorem listed_configs_valid:
  assumes "reach config_init (config_step codec touches) (m, d)"
  shows "set (ccm_ListConfigs m) \<subseteq> set (kmObjects m) \<and> length (ccm_ListConfigs m) = card (go_keys (kmConfigs m))"
proof -
  have ok: "config_ok (m, d)" by (rule configs.reach_inv [OF assms])
  then have "kmObjects m ! a \<in> set (kmObjects m)" if "(k, a) \<in> set (kmConfigs m)" for k a
    using that by (auto simp: config_ok_def go_get_mem)
  moreover have "length (ccm_ListConfigs m) = card (go_keys (kmConfigs m))"
    using ok distinct_card [of "map fst (kmConfigs m)"] by (simp add: ccm_ListConfigs_def config_ok_def)
  ultimately show ?thesis by (auto simp: ccm_ListConfigs_def)
qed

section \<open>Witnesses\<close>

definition demo_stored :: StoredConfig where
  "demo_stored = ChannelConfigFile.extend demo_channel_config \<lparr> scName = ''n'', scDescription = [], scUpdatedAt = None, scVersion = 1 \<rparr>"

text \<open>JSON for a single configuration.\<close>

definition demo_codec :: "StoredConfig \<Rightarrow> config_codec" where
  "demo_codec cfg = \<lparr> cdEncode = (\<lambda>x. if x = cfg then Some ''json'' else None), cdDecode = (\<lambda>s. if s = ''json'' then Some cfg else None) \<rparr>"

lemma demo_config_codec_ok: "codec_ok (demo_codec cfg)"
  by (simp add: codec_ok_def demo_codec_def)

definition demo_config_manager :: ChannelConfigManager where
  "demo_config_manager = \<lparr> kmDir = ''cfg'', kmObjects = [demo_stored], kmConfigs = [(''sensors'', 0)], kmDefault = default_evidence \<rparr>"

lemma demo_stored_fields: "ccChannelName demo_stored = ''sensors''" "scVersion demo_stored = 1"
  by (simp_all add: demo_stored_def demo_channel_config_def ChannelConfigFile.extend_def)


definition demo_saved_channel :: Channel where
  "demo_saved_channel = (fresh_channel 0 ''ch'' ''a'' ''a'' [''a''] [''b''] ''t'' True None ''f.json'' ChannelStatusClosed)\<lparr>chName := ''sensors''\<rparr>"

definition demo_saving :: ChannelManager where
  "demo_saving = (NewChannelManager demo_evidence)\<lparr>cmChannels := [(''sensors'', demo_saved_channel)]\<rparr>"

theorem saved_channel_recreated_witness:
  "\<exists>km' d' k cm1. SaveChannelConfig (demo_codec (CreateConfigFromChannel 5 demo_saved_channel ''n'' [])) 5 Written ''sensors'' ''n'' [] demo_saving None []
      = (Inr (), km', d')
    \<and> CreateChannelFromConfig 9 ''ch2'' ''f.json'' (config_on_disk (demo_codec (CreateConfigFromChannel 5 demo_saved_channel ''n'' [])) ''f.json'' d') demo_saving
      = (Inr k, cm1) \<and> chStatus k = ChannelStatusActive \<and> chReceiverIDs k = [''b'']"
proof -
  let ?codec = "demo_codec (CreateConfigFromChannel 5 demo_saved_channel ''n'' [])"
  have c: "go_get (cmChannels demo_saving) ''sensors'' = Some demo_saved_channel" and f: "chConfigFilePath demo_saved_channel = ''f.json''"
    and n: "chName demo_saved_channel = ''sensors''" and r: "chReceiverIDs demo_saved_channel = [''b'']"
    by (simp_all add: demo_saving_def demo_saved_channel_def fresh_channel_def)
  obtain km' d' where s: "SaveChannelConfig ?codec 5 Written ''sensors'' ''n'' [] demo_saving None [] = (Inr (), km', d')"
    by (simp add: SaveChannelConfig_def c f Let_def demo_codec_def write_file_def)
  have p: "chConfigFilePath demo_saved_channel \<noteq> []" by (simp add: f)
  show ?thesis
    using saved_channel_recreated [OF demo_config_codec_ok c p s, of 9 "''ch2''" demo_saving] s
    by (auto simp: f n r split: prod.splits sum.splits)
qed

theorem failed_save_changes_cache_witness:
  "\<exists>m'. ccm_LoadConfig (demo_codec (stamp_saved 7 demo_stored)) True ''sensors'' m' [] = (Inr 0, m') \<and> scVersion (kmObjects m' ! 0) = 2"
proof -
  have m: "go_get (kmConfigs demo_config_manager) ''sensors'' = Some 0" "0 < length (kmObjects demo_config_manager)"
    "kmObjects demo_config_manager ! 0 = demo_stored"
    by (simp_all add: demo_config_manager_def)
  have n: "ccChannelName (kmObjects demo_config_manager ! 0) \<noteq> []" "scVersion (kmObjects demo_config_manager ! 0) > 0"
    by (simp_all add: m(3) demo_stored_fields)
  have e: "cdEncode (demo_codec (stamp_saved 7 demo_stored)) (stamp_saved 7 (kmObjects demo_config_manager ! 0)) = Some ''json''"
    by (simp add: m(3) demo_codec_def)
  show ?thesis
    using failed_save_changes_cache [OF m(1,2) n e, of "[]" True] by (auto simp: m(3) demo_stored_fields)
qed

theorem cleanup_removes_nothing_witness:
  "CleanupOldConfigs 1 (\<lambda>_. True) (Some [\<lparr> fiName = ''a.json'', fiDir = False, fiModTime = 1 \<rparr>, \<lparr> fiName = ''b.json'', fiDir = False, fiModTime = 2 \<rparr>])
     demo_config_manager [(''cfg/a.json'', ''x'')] = (Inr (), [(''cfg/a.json'', ''x'')])"
  by (rule cleanup_removes_nothing) simp

theorem proposed_channel_not_saved_witness:
  "\<exists>cm' e km'. SaveChannelConfig (demo_codec demo_stored) 5 Written ''ch'' ''n'' [] cm' (Some demo_config_manager) [] = (Inl e, km', [])"
proof -
  obtain c cm' where "ProposeChannel 0 ''ch'' ''p'' ''a'' ''a'' [''a''] [''b''] ''t'' True None [] [] 300 (NewChannelManager demo_evidence) = (Inr c, cm')"
    by (simp add: ProposeChannel_def check_participants_def Let_def)
  from proposed_channel_not_saved [OF this] show ?thesis by blast
qed

theorem listed_configs_valid_witness:
  "set (ccm_ListConfigs (snd (new_object demo_stored \<lparr> kmDir = ''cfg'', kmObjects = [], kmConfigs = [], kmDefault = default_evidence \<rparr>))) \<subseteq> {demo_stored}"
proof -
  let ?m = "\<lparr> kmDir = ''cfg'', kmObjects = [], kmConfigs = [], kmDefault = default_evidence \<rparr>"
  have "reach config_init (config_step (demo_codec demo_stored) (\<lambda>_. True)) (?m, [])"
    by (rule reach_init) (simp add: config_init_def)
  moreover have "config_step (demo_codec demo_stored) (\<lambda>_. True) (?m, []) (snd (new_object demo_stored ?m), [])"
    by (rule step_new [of _ _ "fst (new_object demo_stored ?m)"]) simp
  ultimately have "reach config_init (config_step (demo_codec demo_stored) (\<lambda>_. True)) (snd (new_object demo_stored ?m), [])"
    by (rule reach_step)
  from listed_configs_valid [OF this] show ?thesis by (simp add: new_object_def)
qed

end
