(* ===== verification/Kernel_Certificates.thy ===== *)
theory Kernel_Certificates
  imports Identity_Service
begin

text \<open>
  The kernel's certificate authority (\<^verbatim>\<open>kernel/security/ca.go\<close>) and what its servers make of a client's certificate
  (\<^verbatim>\<open>kernel/security/mtls.go\<close>): whose certificates a TLS handshake accepts, and as whom it lets their holder act.

  Certificates, keys and their PEM text belong to \<^verbatim>\<open>crypto/x509\<close>, a parameter: \<open>x509_lib\<close> holds the functions the code calls
  and, in its last two fields, which key is that of a certificate and when a certificate can serve as an authority; \<open>x509_ok\<close>
  states what is documented of them.  A key stands for the pair of private and public key.
\<close>

declare map_of_eq_Some_iff [simp del]

section \<open>The library\<close>

record cert_template =
  ctCommonName :: string
  ctNotBefore :: time
  ctNotAfter :: time
  ctIsCA :: bool
  ctMaxPathLen :: int
  ctDNSNames :: "string list"

datatype 'a pem_read = NoPEMBlock | BadPEMBlock | PEMBlock 'a

text \<open>
  \<open>xCreate\<close> takes the template, the parent (none for a self-signed certificate), the key of the subject and the key that signs.
  \<open>xKey8\<close> and \<open>xKey1\<close> read PKCS 8 (where a key may be of another kind than RSA) and PKCS 1; \<open>xPool\<close> is what
  \<^verbatim>\<open>AppendCertsFromPEM\<close> takes out of a text.  \<open>xVerify\<close> gives the common names of the chains it finds.
\<close>

record ('c, 'k) x509_lib =
  xGenerateKey :: "nat \<Rightarrow> 'k option"
  xAddYears :: "nat \<Rightarrow> time \<Rightarrow> time"
  xCreate :: "cert_template \<Rightarrow> 'c option \<Rightarrow> 'k \<Rightarrow> 'k \<Rightarrow> 'c option"
  xCertPEM :: "'c \<Rightarrow> string"
  xKeyPEM :: "'k \<Rightarrow> string"
  xCertOf :: "string \<Rightarrow> 'c pem_read"
  xKeyBlock :: "string \<Rightarrow> bool"
  xKey8 :: "string \<Rightarrow> 'k option option"
  xKey1 :: "string \<Rightarrow> 'k option"
  xPool :: "string \<Rightarrow> 'c list"
  xVerify :: "time \<Rightarrow> 'c list \<Rightarrow> 'c list \<Rightarrow> string list list option"
  xOwns :: "'c \<Rightarrow> 'k \<Rightarrow> bool"
  xAuthority :: "'c \<Rightarrow> time \<Rightarrow> bool"

definition x509_ok :: "('c, 'k) x509_lib \<Rightarrow> bool" where
  "x509_ok x \<longleftrightarrow>
     (\<forall>c. xCertOf x (xCertPEM x c) = PEMBlock c \<and> xPool x (xCertPEM x c) = [c]) \<and>
     (\<forall>k. xKeyBlock x (xKeyPEM x k) \<and> xKey8 x (xKeyPEM x k) = None \<and> xKey1 x (xKeyPEM x k) = Some k) \<and>
     (\<forall>t k c. xCreate x t None k k = Some c \<longrightarrow> xOwns x c k) \<and>
     (\<forall>t k c now. xCreate x t None k k = Some c \<longrightarrow> ctIsCA t \<longrightarrow> ctNotBefore t \<le> now \<longrightarrow> now \<le> ctNotAfter t \<longrightarrow> xAuthority x c now) \<and>
     (\<forall>t ca k k' c roots now. xCreate x t (Some ca) k k' = Some c \<longrightarrow> xOwns x ca k' \<longrightarrow> xAuthority x ca now \<longrightarrow> ca \<in> set roots \<longrightarrow>
        ctNotBefore t \<le> now \<longrightarrow> now \<le> ctNotAfter t \<longrightarrow>
        (\<exists>chain chains. xVerify x now roots [c] = Some ((ctCommonName t # chain) # chains)))"

section \<open>The certificate authority\<close>

record ('c, 'k) CA =
  caCertPath :: string
  caKeyPath :: string
  caRootCertPath :: string
  caCert :: 'c
  caKey :: 'k
  caRootCert :: "'c option"

datatype ca_error =
  CaCertUnreadable | CaCertNoBlock | CaCertBad | RootUnreadable | RootNoBlock | RootBad | NotSignedByRoot | KeyUnreadable | KeyNoBlock
| KeyBad | KeyNotRSA | KeyNotGenerated | CertNotCreated | CertNotSaved | KeyNotSaved | CertNotVerified

text \<open>\<open>sv_cert\<close> and \<open>sv_key\<close> say whether the two files can be written.\<close>

definition ca_template :: "('c, 'k) x509_lib \<Rightarrow> time \<Rightarrow> cert_template" where
  "ca_template x now =
     \<lparr> ctCommonName = ''Trusted Data Space Internal CA'', ctNotBefore = now, ctNotAfter = xAddYears x 10 now, ctIsCA = True,
       ctMaxPathLen = 2, ctDNSNames = [] \<rparr>"

definition ca_save :: "('c, 'k) x509_lib \<Rightarrow> bool \<Rightarrow> bool \<Rightarrow> ('c, 'k) CA \<Rightarrow> string gomap \<Rightarrow> ca_error option \<times> string gomap" where
  "ca_save x sv_cert sv_key ca disk =
     (if \<not> sv_cert then (Some CertNotSaved, disk)
      else let d1 = go_put (caCertPath ca) (xCertPEM x (caCert ca)) disk
           in if \<not> sv_key then (Some KeyNotSaved, d1) else (None, go_put (caKeyPath ca) (xKeyPEM x (caKey ca)) d1))"

definition ca_generate ::
    "('c, 'k) x509_lib \<Rightarrow> time \<Rightarrow> bool \<Rightarrow> bool \<Rightarrow> string \<Rightarrow> string \<Rightarrow> string \<Rightarrow> string gomap \<Rightarrow> (ca_error + ('c, 'k) CA) \<times> string gomap" where
  "ca_generate x now sv_cert sv_key cp kp rp disk =
     (case xGenerateKey x 4096 of
        None \<Rightarrow> (Inl KeyNotGenerated, disk)
      | Some k \<Rightarrow>
          (case xCreate x (ca_template x now) None k k of
             None \<Rightarrow> (Inl CertNotCreated, disk)
           | Some c \<Rightarrow>
               (let ca = \<lparr> caCertPath = cp, caKeyPath = kp, caRootCertPath = rp, caCert = c, caKey = k, caRootCert = None \<rparr>
                in case ca_save x sv_cert sv_key ca disk of
                     (None, d) \<Rightarrow> (Inr ca, d)
                   | (Some e, d) \<Rightarrow> (Inl e, d))))"

definition load_root :: "('c, 'k) x509_lib \<Rightarrow> time \<Rightarrow> string \<Rightarrow> 'c \<Rightarrow> string gomap \<Rightarrow> ca_error + 'c option" where
  "load_root x now rp c disk =
     (if rp = [] then Inr None
      else case go_get disk rp of
             None \<Rightarrow> Inl RootUnreadable
           | Some s \<Rightarrow>
               (case xCertOf x s of
                  NoPEMBlock \<Rightarrow> Inl RootNoBlock
                | BadPEMBlock \<Rightarrow> Inl RootBad
                | PEMBlock r \<Rightarrow> (case xVerify x now [r] [c, c] of None \<Rightarrow> Inl NotSignedByRoot | Some chs \<Rightarrow> Inr (Some r))))"

definition load_key :: "('c, 'k) x509_lib \<Rightarrow> string \<Rightarrow> string gomap \<Rightarrow> ca_error + 'k" where
  "load_key x kp disk =
     (case go_get disk kp of
        None \<Rightarrow> Inl KeyUnreadable
      | Some s \<Rightarrow>
          if \<not> xKeyBlock x s then Inl KeyNoBlock
          else case xKey8 x s of
                 None \<Rightarrow> (case xKey1 x s of None \<Rightarrow> Inl KeyBad | Some k \<Rightarrow> Inr k)
               | Some None \<Rightarrow> Inl KeyNotRSA
               | Some (Some k) \<Rightarrow> Inr k)"

definition ca_load ::
    "('c, 'k) x509_lib \<Rightarrow> time \<Rightarrow> string \<Rightarrow> string \<Rightarrow> string \<Rightarrow> string gomap \<Rightarrow> ca_error + ('c, 'k) CA" where
  "ca_load x now cp kp rp disk =
     (case go_get disk cp of
        None \<Rightarrow> Inl CaCertUnreadable
      | Some s \<Rightarrow>
          (case xCertOf x s of
             NoPEMBlock \<Rightarrow> Inl CaCertNoBlock
           | BadPEMBlock \<Rightarrow> Inl CaCertBad
           | PEMBlock c \<Rightarrow>
               (case load_root x now rp c disk of
                  Inl e \<Rightarrow> Inl e
                | Inr root \<Rightarrow>
                    (case load_key x kp disk of
                       Inl e \<Rightarrow> Inl e
                     | Inr k \<Rightarrow> Inr \<lparr> caCertPath = cp, caKeyPath = kp, caRootCertPath = rp, caCert = c, caKey = k, caRootCert = root \<rparr>))))"

text \<open>An existing certificate is loaded, otherwise a new authority is generated.\<close>

definition NewCA ::
    "('c, 'k) x509_lib \<Rightarrow> time \<Rightarrow> bool \<Rightarrow> bool \<Rightarrow> string \<Rightarrow> string \<Rightarrow> string \<Rightarrow> string gomap \<Rightarrow> (ca_error + ('c, 'k) CA) \<times> string gomap" where
  "NewCA x now sv_cert sv_key cp kp rp disk =
     (if go_get disk cp \<noteq> None then (ca_load x now cp kp rp disk, disk)
      else ca_generate x now sv_cert sv_key cp kp rp disk)"

definition connector_template :: "('c, 'k) x509_lib \<Rightarrow> time \<Rightarrow> string \<Rightarrow> string list \<Rightarrow> cert_template" where
  "connector_template x now cid dns =
     \<lparr> ctCommonName = cid, ctNotBefore = now, ctNotAfter = xAddYears x 1 now, ctIsCA = False, ctMaxPathLen = 0, ctDNSNames = dns \<rparr>"

text \<open>The PEM text of the certificate and of its key.  The addresses that are passed are not used.\<close>

definition IssueConnectorCert ::
    "('c, 'k) x509_lib \<Rightarrow> time \<Rightarrow> ('c, 'k) CA \<Rightarrow> string \<Rightarrow> string list \<Rightarrow> ca_error + string \<times> string" where
  "IssueConnectorCert x now ca cid dns =
     (case xGenerateKey x 2048 of
        None \<Rightarrow> Inl KeyNotGenerated
      | Some k \<Rightarrow>
          (case xCreate x (connector_template x now cid dns) (Some (caCert ca)) k (caKey ca) of
             None \<Rightarrow> Inl CertNotCreated
           | Some c \<Rightarrow> Inr (xCertPEM x c, xKeyPEM x k)))"

definition VerifyConnectorCert :: "('c, 'k) x509_lib \<Rightarrow> time \<Rightarrow> ('c, 'k) CA \<Rightarrow> string \<Rightarrow> ca_error + 'c" where
  "VerifyConnectorCert x now ca pem =
     (case xCertOf x pem of
        NoPEMBlock \<Rightarrow> Inl CaCertNoBlock
      | BadPEMBlock \<Rightarrow> Inl CaCertBad
      | PEMBlock c \<Rightarrow> (case xVerify x now [caCert ca] [c] of None \<Rightarrow> Inl CertNotVerified | Some chs \<Rightarrow> Inr c))"

section \<open>Servers\<close>

record DynamicTLSCredentials =
  dtRootCAPath :: string
  dtIntermediateCAPath :: string
  dtPeerCertsDir :: string

datatype tls_error = TlsRootUnreadable | TlsRootBad | TlsIntermediateBad | TlsServerCertBad | TlsPeerRejected

text \<open>The files \<^verbatim>\<open>peer-*.crt\<close> of a directory.\<close>

definition peer_file :: "string \<Rightarrow> string \<Rightarrow> bool" where
  "peer_file dir p \<longleftrightarrow>
     (let name = drop (length dir + 1) p
      in prefix (dir @ ''/'') p \<and> CHR ''/'' \<notin> set name \<and> prefix ''peer-'' name \<and> suffix ''.crt'' name)"

definition peer_pems :: "string \<Rightarrow> string gomap \<Rightarrow> string list" where
  "peer_pems dir disk = map snd (filter (\<lambda>(p, s). peer_file dir p) disk)"

text \<open>
  The certificates received but not saved (\<open>pending\<close>), and the saved ones.  Asked without a kernel, the getter gives one of them.
\<close>

definition peerCertGetter :: "string gomap \<Rightarrow> string gomap \<Rightarrow> string \<Rightarrow> string option" where
  "peerCertGetter pending disk k =
     (if k = [] then find (\<lambda>s. s \<noteq> []) (map snd pending @ peer_pems ''certs'' disk)
      else case go_get pending k of
             Some (c # s) \<Rightarrow> Some (c # s)
           | _ \<Rightarrow> (case go_get disk (''certs/peer-'' @ k @ ''-ca.crt'') of Some (c # s) \<Rightarrow> Some (c # s) | _ \<Rightarrow> None))"

text \<open>The pool a handshake of the dynamic credentials builds, \<open>None\<close> when it fails for the root.\<close>

definition client_pool ::
    "('c, 'k) x509_lib \<Rightarrow> DynamicTLSCredentials \<Rightarrow> string gomap \<Rightarrow> string gomap \<Rightarrow> tls_error + 'c list" where
  "client_pool x d pending disk =
     (case go_get disk (dtRootCAPath d) of
        None \<Rightarrow> Inl TlsRootUnreadable
      | Some pem \<Rightarrow>
          if xPool x pem = [] then Inl TlsRootBad
          else Inr (xPool x pem
                    @ (if dtIntermediateCAPath d = [] then []
                       else case go_get disk (dtIntermediateCAPath d) of None \<Rightarrow> [] | Some ic \<Rightarrow> xPool x ic)
                    @ (if dtPeerCertsDir d = [] then []
                       else concat (map (xPool x) (peer_pems (dtPeerCertsDir d) disk))
                            @ (case peerCertGetter pending disk [] of None \<Rightarrow> [] | Some s \<Rightarrow> xPool x s))))"

definition ServerHandshake ::
    "('c, 'k) x509_lib \<Rightarrow> time \<Rightarrow> DynamicTLSCredentials \<Rightarrow> string gomap \<Rightarrow> string gomap \<Rightarrow> 'c list \<Rightarrow> tls_error + grpc_ctx" where
  "ServerHandshake x now d pending disk presented =
     (case client_pool x d pending disk of
        Inl e \<Rightarrow> Inl e
      | Inr pool \<Rightarrow>
          if presented = [] then Inl TlsPeerRejected
          else case xVerify x now pool presented of None \<Rightarrow> Inl TlsPeerRejected | Some chs \<Rightarrow> Inr (VerifiedChains chs))"

text \<open>The bootstrap server asks for no certificate.\<close>

definition bootstrap_handshake :: "'c list \<Rightarrow> tls_error + grpc_ctx" where
  "bootstrap_handshake presented = Inr (VerifiedChains [])"

text \<open>The static pool of \<^verbatim>\<open>NewServerTLSConfig\<close>, and that of a client.\<close>

definition NewServerTLSConfig ::
    "('c, 'k) x509_lib \<Rightarrow> bool \<Rightarrow> DynamicTLSCredentials \<Rightarrow> string gomap \<Rightarrow> tls_error + 'c list" where
  "NewServerTLSConfig x server_cert_ok d disk =
     (case go_get disk (dtRootCAPath d) of
        None \<Rightarrow> Inl TlsRootUnreadable
      | Some pem \<Rightarrow>
          if xPool x pem = [] then Inl TlsRootBad
          else case (if dtIntermediateCAPath d = [] then None else go_get disk (dtIntermediateCAPath d)) of
                 None \<Rightarrow> if server_cert_ok then Inr (xPool x pem) else Inl TlsServerCertBad
               | Some ic \<Rightarrow>
                   if xPool x ic = [] then Inl TlsIntermediateBad
                   else if server_cert_ok then Inr (xPool x pem @ xPool x ic) else Inl TlsServerCertBad)"

definition BuildPeerCertPool :: "('c, 'k) x509_lib \<Rightarrow> string \<Rightarrow> string \<Rightarrow> string gomap \<Rightarrow> 'c list" where
  "BuildPeerCertPool x root dir disk =
     (case go_get disk root of None \<Rightarrow> [] | Some pem \<Rightarrow> xPool x pem)
     @ (if dir = [] then [] else concat (map (xPool x) (peer_pems dir disk)))"

section \<open>Lemmas\<close>

lemma x509_pem: "x509_ok x \<Longrightarrow> xCertOf x (xCertPEM x c) = PEMBlock c" "x509_ok x \<Longrightarrow> xPool x (xCertPEM x c) = [c]"
  by (simp_all add: x509_ok_def)

lemma x509_key:
  "x509_ok x \<Longrightarrow> xKeyBlock x (xKeyPEM x k)" "x509_ok x \<Longrightarrow> xKey8 x (xKeyPEM x k) = None" "x509_ok x \<Longrightarrow> xKey1 x (xKeyPEM x k) = Some k"
  by (simp_all add: x509_ok_def)

lemma x509_self_signed:
  assumes "x509_ok x" and "xCreate x t None k k = Some c" and "ctIsCA t" and "ctNotBefore t \<le> now" and "now \<le> ctNotAfter t"
  shows "xOwns x c k \<and> xAuthority x c now"
  using assms unfolding x509_ok_def by blast

lemma x509_issued:
  assumes "x509_ok x" and "xCreate x t (Some ca) k k' = Some c" and "xOwns x ca k'" and "xAuthority x ca now" and "ca \<in> set roots"
    and "ctNotBefore t \<le> now" and "now \<le> ctNotAfter t"
  shows "\<exists>chain chains. xVerify x now roots [c] = Some ((ctCommonName t # chain) # chains)"
  using assms unfolding x509_ok_def by blast

text \<open>A handshake with a certificate that an authority of the pool issued lets its holder act under its common name.\<close>

lemma issued_handshake:
  assumes "x509_ok x" and "xCreate x t (Some ca) k k' = Some c" and "xOwns x ca k'" and "xAuthority x ca now"
    and "ctNotBefore t \<le> now" and "now \<le> ctNotAfter t" and "ctCommonName t \<noteq> []"
    and "client_pool x d pending disk = Inr pool" and "ca \<in> set pool"
  shows "\<exists>ctx. ServerHandshake x now d pending disk [c] = Inr ctx \<and> VerifyConnectorID ctx (ctCommonName t) = None"
proof -
  obtain chain chains where "xVerify x now pool [c] = Some ((ctCommonName t # chain) # chains)"
    using x509_issued [OF assms(1-4,9,5,6)] by blast
  then show ?thesis
    using assms(7,8) by (simp add: ServerHandshake_def VerifyConnectorID_None ExtractConnectorIDFromContext_def Let_def)
qed

section \<open>Properties\<close>

text \<open>
  C7. A connector that has registered is let in as itself: the certificate it was given passes the handshake of the main server
  for a year, and the server then takes it for the connector it registered as.
\<close>

theorem registered_connector_authenticated:
  assumes "x509_ok x" and "xOwns x (caCert ca) (caKey ca)" and "xAuthority x (caCert ca) now'"
    and "RegisterConnector yaml (\<lambda>cid. case IssueConnectorCert x now ca cid dns of Inl e \<Rightarrow> None | Inr p \<Rightarrow> Some p)
           own now save_ok req r cfg = (Inr (cert, key, ca_cert), cfg', evs)"
    and "now \<le> now'" and "now' \<le> xAddYears x 1 now"
    and "dtIntermediateCAPath d = caCertPath ca" and "caCertPath ca \<noteq> []" and "go_get disk (caCertPath ca) = Some (xCertPEM x (caCert ca))"
    and "client_pool x d pending disk = Inr pool"
  shows "\<exists>c ctx. xCertOf x cert = PEMBlock c \<and> ServerHandshake x now' d pending disk [c] = Inr ctx
    \<and> VerifyConnectorID ctx (rcConnectorId req) = None"
proof -
  have id: "rcConnectorId req \<noteq> []"
    using assms(4) by (auto simp: RegisterConnector_def register_check_def)
  have "\<exists>evs'. register_finish (\<lambda>cid. case IssueConnectorCert x now ca cid dns of Inl e \<Rightarrow> None | Inr p \<Rightarrow> Some p) own now save_ok req cfg
      = (Inr (cert, key, ca_cert), cfg', evs')"
    using assms(4) by (auto simp: RegisterConnector_def split: prod.splits sum.splits)
  then have "IssueConnectorCert x now ca (rcConnectorId req) dns = Inr (cert, key)"
    by (auto simp: register_finish_def split: sum.splits option.splits prod.splits)
  then obtain k c where c: "xCreate x (connector_template x now (rcConnectorId req) dns) (Some (caCert ca)) k (caKey ca) = Some c"
    and cert: "cert = xCertPEM x c"
    by (auto simp: IssueConnectorCert_def split: option.splits)
  have times: "ctNotBefore (connector_template x now (rcConnectorId req) dns) \<le> now'"
    "now' \<le> ctNotAfter (connector_template x now (rcConnectorId req) dns)"
    and name: "ctCommonName (connector_template x now (rcConnectorId req) dns) = rcConnectorId req"
    using assms(5,6) by (simp_all add: connector_template_def)
  have "caCert ca \<in> set pool"
    using assms(7-10) x509_pem(2) [OF assms(1)] by (auto simp: client_pool_def split: option.splits if_splits)
  then obtain ctx where "ServerHandshake x now' d pending disk [c] = Inr ctx" "VerifyConnectorID ctx (rcConnectorId req) = None"
    using issued_handshake [OF assms(1) c assms(2,3) times _ assms(10)] id unfolding name by blast
  then show ?thesis using cert x509_pem(1) [OF assms(1)] by blast
qed

lemma peer_file_ca: "CHR ''/'' \<notin> set peer \<Longrightarrow> peer_file ''certs'' (''certs/peer-'' @ peer @ ''-ca.crt'')"
  by (auto simp: peer_file_def suffix_def)

text \<open>
  C5. Anyone can act as any connector: \<^verbatim>\<open>RegisterKernelCA\<close> asks for no certificate, and the servers accept the certificates of
  every authority it has saved.  Whoever registers an authority of his own, and issues himself a certificate with the name of a
  connector, passes the handshake and the check of the identity under that name.
\<close>

theorem forged_identity_accepted:
  assumes "x509_ok x" and "xCreate x t None k k = Some a" and "ctIsCA t" and "ctNotBefore t \<le> now" and "now \<le> ctNotAfter t"
    and "xCreate x t' (Some a) k' k = Some leaf" and "ctNotBefore t' \<le> now" and "now \<le> ctNotAfter t'" and "ctCommonName t' \<noteq> []"
    and "RegisterKernelCA kid write_ok own peer (xCertPEM x a) disk = (Inr res, disk')" and "CHR ''/'' \<notin> set peer"
    and "client_pool x d pending disk = Inr pool" and "dtPeerCertsDir d = ''certs''"
    and "dtRootCAPath d \<noteq> ''certs/peer-'' @ peer @ ''-ca.crt''"
  shows "\<exists>ctx. ServerHandshake x now d pending disk' [leaf] = Inr ctx \<and> VerifyConnectorID ctx (ctCommonName t') = None"
proof -
  define p where "p = ''certs/peer-'' @ peer @ ''-ca.crt''"
  have disk': "disk' = go_put p (xCertPEM x a) disk"
    using assms(10) by (auto simp: RegisterKernelCA_def p_def split: if_splits)
  have root: "go_get disk' (dtRootCAPath d) = go_get disk (dtRootCAPath d)"
    using assms(14) by (simp add: disk' p_def gomap_simps)
  have "(p, xCertPEM x a) \<in> set disk'"
    by (rule map_of_SomeD) (simp add: disk' gomap_simps)
  moreover have "peer_file ''certs'' p" using peer_file_ca [OF assms(11)] by (simp add: p_def)
  ultimately have "xCertPEM x a \<in> set (peer_pems ''certs'' disk')" by (force simp: peer_pems_def)
  then have saved: "a \<in> set (concat (map (xPool x) (peer_pems ''certs'' disk')))"
    using x509_pem(2) [OF assms(1), of a] by (auto intro!: bexI [of _ "xCertPEM x a"])
  obtain pem where "go_get disk (dtRootCAPath d) = Some pem" "xPool x pem \<noteq> []"
    using assms(12) by (auto simp: client_pool_def split: option.splits if_splits)
  then obtain pool' where pool': "client_pool x d pending disk' = Inr pool'" "a \<in> set pool'"
    using root saved assms(13) by (auto simp: client_pool_def)
  have "xOwns x a k" "xAuthority x a now" using x509_self_signed [OF assms(1-5)] by auto
  then show ?thesis using issued_handshake [OF assms(1,6) _ _ assms(7,8,9) pool'] by blast
qed

text \<open>
  A generated authority survives a restart: the same certificate and key are loaded again.
\<close>

theorem ca_survives_restart:
  assumes "x509_ok x" and "NewCA x now sv_cert sv_key cp kp [] disk = (Inr ca, disk')" and "go_get disk cp = None" and "cp \<noteq> kp"
  shows "NewCA x now' sv_cert' sv_key' cp kp [] disk' = (Inr ca, disk')"
proof -
  obtain k c where ca: "ca = \<lparr> caCertPath = cp, caKeyPath = kp, caRootCertPath = [], caCert = c, caKey = k, caRootCert = None \<rparr>"
    and disk': "disk' = go_put kp (xKeyPEM x k) (go_put cp (xCertPEM x c) disk)"
    using assms(2,3)
    by (auto simp: NewCA_def ca_generate_def ca_save_def Let_def split: option.splits if_splits)
  have "go_get disk' cp = Some (xCertPEM x c)" "go_get disk' kp = Some (xKeyPEM x k)"
    using assms(4) by (simp_all add: disk' gomap_simps)
  then show ?thesis
    by (simp add: NewCA_def ca_load_def load_root_def load_key_def x509_pem(1) [OF assms(1)] x509_key [OF assms(1)] ca)
qed

text \<open>
  When the certificate of a generated authority was saved but its key was not, the kernel never starts again: it finds the
  certificate and fails to load the key.
\<close>

theorem interrupted_generation_blocks:
  assumes "x509_ok x" and "NewCA x now True False cp kp [] disk = (Inl KeyNotSaved, disk')" and "go_get disk cp = None"
    and "go_get disk kp = None" and "cp \<noteq> kp"
  shows "NewCA x now' sv_cert sv_key cp kp [] disk' = (Inl KeyUnreadable, disk')"
proof -
  obtain c where disk': "disk' = go_put cp (xCertPEM x c) disk"
    using assms(2,3) by (auto simp: NewCA_def ca_generate_def ca_save_def Let_def split: option.splits if_splits)
  show ?thesis
    using assms(4,5) by (simp add: NewCA_def ca_load_def load_root_def load_key_def x509_pem(1) [OF assms(1)] disk' gomap_simps)
qed

section \<open>Witnesses\<close>

text \<open>
  A toy library: a certificate is its template's name, its own key and the key that signed it; a key is a number.
\<close>

datatype toy_cert = ToyCert string nat nat

definition toy_pem :: "toy_cert \<Rightarrow> string" where
  "toy_pem c = (case c of ToyCert n k s \<Rightarrow> replicate k CHR ''k'' @ ''|'' @ replicate s CHR ''s'' @ ''|'' @ n)"

definition toy_cert_of :: "string \<Rightarrow> toy_cert" where
  "toy_cert_of s =
     (let a = takeWhile (\<lambda>c. c = CHR ''k'') s; r = tl (dropWhile (\<lambda>c. c = CHR ''k'') s);
          b = takeWhile (\<lambda>c. c = CHR ''s'') r; n = tl (dropWhile (\<lambda>c. c = CHR ''s'') r)
      in ToyCert n (length a) (length b))"

fun toy_signed :: "toy_cert \<Rightarrow> toy_cert \<Rightarrow> bool" where
  "toy_signed (ToyCert n k s) (ToyCert n' k' s') \<longleftrightarrow> s' = k"

definition toy_x509 :: "(toy_cert, nat) x509_lib" where
  "toy_x509 = \<lparr> xGenerateKey = Some, xAddYears = (\<lambda>n t. t + int n), xCreate = (\<lambda>t p k k'. Some (ToyCert (ctCommonName t) k k')),
     xCertPEM = toy_pem, xKeyPEM = (\<lambda>k. replicate k CHR ''x''), xCertOf = (\<lambda>s. PEMBlock (toy_cert_of s)), xKeyBlock = (\<lambda>s. True),
     xKey8 = (\<lambda>s. None), xKey1 = (\<lambda>s. Some (length s)), xPool = (\<lambda>s. [toy_cert_of s]),
     xVerify = (\<lambda>now roots cs. case cs of [] \<Rightarrow> None
        | ToyCert n k s # rest \<Rightarrow> if list_ex (\<lambda>r. toy_signed r (ToyCert n k s)) roots then Some [[n]] else None),
     xOwns = (\<lambda>c k. case c of ToyCert n k' s \<Rightarrow> k = k'), xAuthority = (\<lambda>c now. True) \<rparr>"

lemma toy_round: "toy_cert_of (toy_pem c) = c"
proof (cases c)
  case (ToyCert n k s)
  have "takeWhile (\<lambda>c. c = x) (replicate m x @ CHR ''|'' # w) = replicate m x"
    "dropWhile (\<lambda>c. c = x) (replicate m x @ CHR ''|'' # w) = CHR ''|'' # w" if "x \<noteq> CHR ''|''" for m w x
    using that by (induction m) auto
  then show ?thesis by (simp add: ToyCert toy_pem_def toy_cert_of_def Let_def)
qed

lemma toy_x509_ok: "x509_ok toy_x509"
  unfolding x509_ok_def
proof (intro conjI allI impI)
  fix t ca k k' c roots now
  assume "xCreate toy_x509 t (Some ca) k k' = Some c" and "xOwns toy_x509 ca k'" and "ca \<in> set roots"
  then show "\<exists>chain chains. xVerify toy_x509 now roots [c] = Some ((ctCommonName t # chain) # chains)"
    by (cases ca) (auto simp: toy_x509_def list_ex_iff intro!: bexI [of _ ca])
qed (auto simp: toy_x509_def toy_round)

definition toy_ca :: "(toy_cert, nat) CA" where
  "toy_ca = \<lparr> caCertPath = ''ca.crt'', caKeyPath = ''ca.key'', caRootCertPath = [], caCert = ToyCert ''CA'' 7 7, caKey = 7, caRootCert = None \<rparr>"

definition toy_disk :: "string gomap" where
  "toy_disk = [(''root.crt'', toy_pem (ToyCert ''Root'' 1 1)), (''ca.crt'', toy_pem (ToyCert ''CA'' 7 7))]"

definition toy_server :: DynamicTLSCredentials where
  "toy_server = \<lparr> dtRootCAPath = ''root.crt'', dtIntermediateCAPath = ''ca.crt'', dtPeerCertsDir = ''certs'' \<rparr>"

lemma toy_pool: "\<exists>pool. client_pool toy_x509 toy_server [] toy_disk = Inr pool"
proof -
  have "go_get toy_disk (dtRootCAPath toy_server) = Some (toy_pem (ToyCert ''Root'' 1 1))"
    by (simp add: toy_disk_def toy_server_def)
  moreover have "xPool toy_x509 s \<noteq> []" for s by (simp add: toy_x509_def)
  ultimately show ?thesis by (simp add: client_pool_def)
qed

definition toy_request :: RegisterConnectorRequest where
  "toy_request = \<lparr> rcConnectorId = ''a'', rcEntityType = ''consumer'', rcConfigYaml = [], rcRegistrationCode = [] \<rparr>"

theorem registered_connector_authenticated_witness:
  "\<exists>c ctx. ServerHandshake toy_x509 0 toy_server [] toy_disk [c] = Inr ctx \<and> VerifyConnectorID ctx ''a'' = None"
proof -
  define cfg where "cfg = NewBootstrapConfig\<lparr>bcEnabled := False\<rparr>"
  obtain cert key where issued: "IssueConnectorCert toy_x509 0 toy_ca ''a'' [] = Inr (cert, key)"
    by (simp add: IssueConnectorCert_def toy_x509_def)
  have reg: "RegisterConnector (\<lambda>_. True) (\<lambda>cid. case IssueConnectorCert toy_x509 0 toy_ca cid [] of Inl e \<Rightarrow> None | Inr p \<Rightarrow> Some p)
      (Some ''x'') 0 True toy_request [] cfg = (Inr (cert, key, ''x''), cfg, [(''a'', EventTypeConnectorRegistered, [], [])])"
    by (simp add: RegisterConnector_def register_check_def register_finish_def toy_request_def issued cfg_def TokenIsEnabled_def GetConnector_def)
  have owns: "xOwns toy_x509 (caCert toy_ca) (caKey toy_ca)" "xAuthority toy_x509 (caCert toy_ca) 0"
    and times: "(0 :: int) \<le> 0" "0 \<le> xAddYears toy_x509 1 0"
    and paths: "dtIntermediateCAPath toy_server = caCertPath toy_ca" "caCertPath toy_ca \<noteq> []"
      "go_get toy_disk (caCertPath toy_ca) = Some (xCertPEM toy_x509 (caCert toy_ca))"
    by (simp_all add: toy_x509_def toy_ca_def toy_server_def toy_disk_def)
  obtain pool where pool: "client_pool toy_x509 toy_server [] toy_disk = Inr pool" using toy_pool by blast
  have "rcConnectorId toy_request = ''a''" by (simp add: toy_request_def)
  then show ?thesis
    using registered_connector_authenticated [OF toy_x509_ok owns reg times paths pool] by auto
qed

theorem forged_identity_accepted_witness:
  "\<exists>disk' ctx. RegisterKernelCA ''k1'' True None ''mallory'' (toy_pem (ToyCert ''Evil'' 9 9)) toy_disk = (Inr None, disk')
    \<and> ServerHandshake toy_x509 0 toy_server [] disk' [ToyCert ''victim'' 3 9] = Inr ctx \<and> VerifyConnectorID ctx ''victim'' = None"
proof -
  define t where "t = \<lparr> ctCommonName = ''Evil'', ctNotBefore = 0, ctNotAfter = 0, ctIsCA = True, ctMaxPathLen = 0, ctDNSNames = [] \<rparr>"
  define t' where "t' = \<lparr> ctCommonName = ''victim'', ctNotBefore = 0, ctNotAfter = 0, ctIsCA = False, ctMaxPathLen = 0, ctDNSNames = [] \<rparr>"
  have a: "xCreate toy_x509 t None 9 9 = Some (ToyCert ''Evil'' 9 9)" "ctIsCA t" "ctNotBefore t \<le> 0" "0 \<le> ctNotAfter t"
    and leaf: "xCreate toy_x509 t' (Some (ToyCert ''Evil'' 9 9)) 3 9 = Some (ToyCert ''victim'' 3 9)" "ctNotBefore t' \<le> 0" "0 \<le> ctNotAfter t'"
      "ctCommonName t' \<noteq> []"
    by (simp_all add: toy_x509_def t_def t'_def)
  have ne: "toy_pem (ToyCert ''Evil'' 9 9) \<noteq> []" and pem: "xCertPEM toy_x509 = toy_pem"
    by (simp_all add: toy_pem_def toy_x509_def)
  obtain disk' where reg: "RegisterKernelCA ''k1'' True None ''mallory'' (xCertPEM toy_x509 (ToyCert ''Evil'' 9 9)) toy_disk = (Inr None, disk')"
    using ne by (simp add: RegisterKernelCA_def pem)
  obtain pool where pool: "client_pool toy_x509 toy_server [] toy_disk = Inr pool" using toy_pool by blast
  have rest: "CHR ''/'' \<notin> set ''mallory''" "dtPeerCertsDir toy_server = ''certs''"
    "dtRootCAPath toy_server \<noteq> ''certs/peer-'' @ ''mallory'' @ ''-ca.crt''"
    by (simp_all add: toy_server_def)
  have "ctCommonName t' = ''victim''" by (simp add: t'_def)
  then show ?thesis
    using forged_identity_accepted [OF toy_x509_ok a leaf reg rest(1) pool rest(2,3)] reg pem by auto
qed

lemma toy_new_ca:
  "NewCA toy_x509 0 True sv_key ''ca.crt'' ''ca.key'' [] [] =
     (if sv_key then Inr \<lparr> caCertPath = ''ca.crt'', caKeyPath = ''ca.key'', caRootCertPath = [],
          caCert = ToyCert ''Trusted Data Space Internal CA'' 4096 4096, caKey = 4096, caRootCert = None \<rparr> else Inl KeyNotSaved,
      snd (NewCA toy_x509 0 True sv_key ''ca.crt'' ''ca.key'' [] []))"
  by (simp add: NewCA_def ca_generate_def ca_save_def ca_template_def toy_x509_def)

theorem ca_survives_restart_witness:
  "\<exists>ca disk. NewCA toy_x509 5 True True ''ca.crt'' ''ca.key'' [] disk = (Inr ca, disk) \<and> caKey ca = 4096"
proof -
  have fresh: "go_get ([] :: string gomap) ''ca.crt'' = None" "''ca.crt'' \<noteq> ''ca.key''" by simp_all
  from ca_survives_restart [OF toy_x509_ok toy_new_ca [of True, unfolded if_True] fresh, of 5 True True] show ?thesis by force
qed

theorem interrupted_generation_blocks_witness:
  "\<exists>disk. fst (NewCA toy_x509 5 True True ''ca.crt'' ''ca.key'' [] disk) = Inl KeyUnreadable"
proof -
  have fresh: "go_get ([] :: string gomap) ''ca.crt'' = None" "go_get ([] :: string gomap) ''ca.key'' = None" "''ca.crt'' \<noteq> ''ca.key''"
    by simp_all
  from interrupted_generation_blocks [OF toy_x509_ok toy_new_ca [of False, unfolded if_False] fresh, of 5 True True]
  show ?thesis by (intro exI) (rule arg_cong [where f = fst, THEN trans], assumption, simp)
qed

end
