(* ===== verification/Kernel_Program.thy ===== *)
theory Kernel_Program
  imports Kernel_Network Channel_Service Peer_Manager
begin

text \<open>
  The kernel program (\<^verbatim>\<open>kernel/cmd/main.go\<close>): the defaults of its configuration and the addresses it listens on, the
  subcommand \<^verbatim>\<open>token\<close>, the callbacks by which it joins channels and notifications, and the commands of its console that
  change something.  What YAML, JSON, \<^verbatim>\<open>strconv.Atoi\<close> and \<^verbatim>\<open>time.ParseDuration\<close> make of a text is an argument.  What is
  printed is not modelled.
\<close>

declare map_of_eq_Some_iff [simp del]

section \<open>Start-up\<close>

record kernel_config =
  kcID :: string
  kcType :: string
  kcAddress :: string
  kcPort :: int
  kcKernelPort :: int
  kcHeartbeatInterval :: int
  kcConnectTimeout :: int
  kcMaxRetries :: int
  kcServerCertPath :: string
  kcServerKeyPath :: string
  kcKernelCertPath :: string
  kcKernelKeyPath :: string
  kcChatEnabled :: bool
  kcChatPort :: int
  kcChatSessionTimeout :: int
  kcChatHeartbeatInterval :: int
  kcChatSyncInterval :: int
  kcP2PEnabled :: bool
  kcP2PListenAddr :: string
  kcDefaultMode :: string
  kcDefaultStrategy :: string
  kcDefaultRetentionDays :: int
  kcDefaultCompressData :: bool
  kcDefaultExpiry :: string
  kcTokenConfigFile :: string

definition or_text :: "string \<Rightarrow> string \<Rightarrow> string" where
  "or_text v d = (if v = [] then d else v)"

definition or_int :: "int \<Rightarrow> int \<Rightarrow> int" where
  "or_int v d = (if v = 0 then d else v)"

definition with_defaults :: "kernel_config \<Rightarrow> kernel_config" where
  "with_defaults g =
     (let kp = or_int (kcKernelPort g) (kcPort g + 2)
      in g\<lparr> kcID := or_text (kcID g) ''kernel-1'', kcType := or_text (kcType g) ''primary'', kcKernelPort := kp,
            kcHeartbeatInterval := or_int (kcHeartbeatInterval g) 30, kcConnectTimeout := or_int (kcConnectTimeout g) 10,
            kcMaxRetries := or_int (kcMaxRetries g) 3,
            kcKernelCertPath := or_text (kcKernelCertPath g) (kcServerCertPath g),
            kcKernelKeyPath := or_text (kcKernelKeyPath g) (kcServerKeyPath g),
            kcChatPort := or_int (kcChatPort g) (kcPort g + 1), kcChatSessionTimeout := or_int (kcChatSessionTimeout g) 60,
            kcChatHeartbeatInterval := or_int (kcChatHeartbeatInterval g) 15,
            kcChatSyncInterval := or_int (kcChatSyncInterval g) 30,
            kcP2PListenAddr := or_text (kcP2PListenAddr g) (''0.0.0.0:'' @ show_int (kp + 3)) \<rparr>)"

text \<open>The flags of the command line, and the configuration file over them.\<close>

definition default_channel_evidence :: "EvidenceConfig \<Rightarrow> kernel_config \<Rightarrow> EvidenceConfig" where
  "default_channel_evidence flags g =
     \<lparr> ecMode = or_text (kcDefaultMode g) (ecMode flags), ecStrategy = or_text (kcDefaultStrategy g) (ecStrategy flags),
       ecRetentionDays = (if kcDefaultRetentionDays g > 0 then kcDefaultRetentionDays g else ecRetentionDays flags),
       ecCompressData = kcDefaultCompressData g \<rparr>"

definition token_file :: "kernel_config \<Rightarrow> string" where
  "token_file g = or_text (kcTokenConfigFile g) ''./config/bootstrap_tokens.yaml''"

datatype listener = P2PListener | BootstrapListener | MainListener | ChatListener

definition listen_address :: "kernel_config \<Rightarrow> int \<Rightarrow> string" where
  "listen_address g port = kcAddress g @ '':'' @ show_int port"

text \<open>The addresses in the order in which the program takes them.  The server for other kernels starts concurrently, and only logs
  when it cannot listen.\<close>

definition listeners :: "kernel_config \<Rightarrow> (listener \<times> string) list" where
  "listeners g =
     (if kcP2PEnabled g then [(P2PListener, kcP2PListenAddr g)] else [])
     @ [(BootstrapListener, listen_address g (kcPort g + 1)), (MainListener, listen_address g (kcPort g))]
     @ (if kcChatEnabled g then [(ChatListener, listen_address g (kcChatPort g))] else [])"

text \<open>Listening on a taken address fails and ends the program: the first listener that fails.\<close>

fun first_conflict :: "string set \<Rightarrow> (listener \<times> string) list \<Rightarrow> listener option" where
  "first_conflict taken [] = None"
| "first_conflict taken ((l, a) # ls) = (if a \<in> taken then Some l else first_conflict (insert a taken) ls)"

section \<open>The subcommand token\<close>

record token_args =
  taGenerate :: bool
  taList :: bool
  taRevoke :: bool
  taConnectorID :: string
  taExpiry :: string
  taCode :: string

datatype token_output =
  TokenExit | TokenUsage | TokenGenerated BootstrapToken | TokenListed "(string \<times> string \<times> string) list" | TokenListPanic | TokenRevoked string

definition load_tokens :: "(string \<Rightarrow> time option) \<Rightarrow> string \<Rightarrow> load_result \<Rightarrow> (token_error + BootstrapConfig)" where
  "load_tokens parse expiry file =
     (case LoadTokenConfig parse file NewBootstrapConfig of
        (Inl e, cfg) \<Rightarrow> Inl e
      | (Inr u, cfg) \<Rightarrow>
          Inr (if expiry = [] then cfg else case parse expiry of None \<Rightarrow> cfg | Some d \<Rightarrow> SetDefaultExpiryDuration d cfg))"

text \<open>The kernel itself starts with an empty list when the file cannot be read.\<close>

definition start_tokens :: "(string \<Rightarrow> time option) \<Rightarrow> string \<Rightarrow> load_result \<Rightarrow> BootstrapConfig" where
  "start_tokens parse expiry file =
     (let cfg = snd (LoadTokenConfig parse file NewBootstrapConfig)
      in if expiry = [] then cfg else case parse expiry of None \<Rightarrow> cfg | Some d \<Rightarrow> SetDefaultExpiryDuration d cfg)"

text \<open>A line of the list: the code cut after twenty characters, which panics on a shorter one, the connector and the status.\<close>

definition token_line :: "time \<Rightarrow> BootstrapToken \<Rightarrow> (string \<times> string \<times> string) option" where
  "token_line now t =
     (if length (tkCode t) < 20 then None
      else Some (take 20 (tkCode t) @ ''...'', tkConnectorID t, if TokenIsValid now t then ''valid'' else tkStatus t))"

definition token_lines :: "time \<Rightarrow> BootstrapToken list \<Rightarrow> (string \<times> string \<times> string) list option" where
  "token_lines now ts = (if list_ex (\<lambda>t. token_line now t = None) ts then None else Some (map (\<lambda>t. the (token_line now t)) ts))"

text \<open>What the file holds after a save: the parsed duration is not written.\<close>

definition token_yaml :: "BootstrapConfig \<Rightarrow> load_result" where
  "token_yaml cfg = FileParsed (cfg\<lparr>bcDefaultExpiryDuration := 0\<rparr>)"

text \<open>
  The subcommand is a process of its own: it loads the file, acts on its copy and writes it back.  \<open>config_ok\<close> says whether the
  kernel's configuration can be read, \<open>attempts\<close> are the draws of a code, and the file after the command is the last component.
\<close>

definition handleTokenCommand ::
    "(string \<Rightarrow> time option) \<Rightarrow> time \<Rightarrow> bool \<Rightarrow> string \<Rightarrow> (time \<times> (token_error + string)) list \<Rightarrow> bool \<Rightarrow> token_args \<Rightarrow> load_result \<Rightarrow>
     (token_output \<times> load_result) option" where
  "handleTokenCommand parse now config_ok expiry attempts save_ok a file =
     (case (if config_ok then load_tokens parse expiry file else Inl TokenInvalid) of
        Inl e \<Rightarrow> Some (TokenExit, file)
      | Inr cfg \<Rightarrow>
          if taGenerate a then
            (case (if taExpiry a = [] then Some None else map_option Some (parse (taExpiry a))) of
               None \<Rightarrow> Some (TokenExit, file)
             | Some d \<Rightarrow>
                 (case GenerateToken (taConnectorID a) d save_ok attempts cfg of
                    None \<Rightarrow> None
                  | Some (Inl e, cfg') \<Rightarrow> Some (TokenExit, file)
                  | Some (Inr t, cfg') \<Rightarrow> Some (TokenGenerated t, token_yaml cfg')))
          else if taList a then
            Some (case token_lines now (ListTokens cfg) of None \<Rightarrow> TokenListPanic | Some ls \<Rightarrow> TokenListed ls, file)
          else if taRevoke a then
            (if taCode a = [] then Some (TokenExit, file)
             else case RevokeToken save_ok (taCode a) cfg of
                    (Inl e, cfg') \<Rightarrow> Some (TokenExit, file)
                  | (Inr u, cfg') \<Rightarrow> Some (TokenRevoked (taCode a), token_yaml cfg'))
          else Some (TokenUsage, file))"

section \<open>Callbacks\<close>

text \<open>The callbacks after a change of the participants: to a connector that was added a notification, for one that was removed
  the end of its subscription.\<close>

definition change_notification :: "Channel \<Rightarrow> ChannelNotification" where
  "change_notification c = (created_notification c)\<lparr>cnEvidenceConfig := None\<rparr>"

definition permission_callback ::
    "remote_env \<Rightarrow> (nat \<Rightarrow> NotificationManager \<Rightarrow> NotificationManager) \<Rightarrow> string \<Rightarrow> string \<Rightarrow> string \<Rightarrow> string \<Rightarrow> ChannelManager \<Rightarrow>
     NotificationManager \<Rightarrow> ChannelManager \<times> NotificationManager \<times> notice list" where
  "permission_callback env others kid ch cid change cm nm =
     (case GetChannel ch cm of
        Inl e \<Rightarrow> (cm, nm, [])
      | Inr c \<Rightarrow>
          if change = ''remove_receiver'' \<or> change = ''remove_sender''
          then (put_channel ch (Unsubscribe (raw_id cid) c) cm, nm, [])
          else case notifyParticipant env others kid cm cid (change_notification c) nm of (e, nm', out) \<Rightarrow> (cm, nm', out))"

definition channel_update_callback ::
    "(nat \<Rightarrow> NotificationManager \<Rightarrow> NotificationManager) \<Rightarrow> string \<Rightarrow> string list \<Rightarrow> ChannelManager \<Rightarrow> NotificationManager \<Rightarrow>
     NotificationManager" where
  "channel_update_callback others ch added cm nm =
     (case GetChannel ch cm of
        Inl e \<Rightarrow> nm
      | Inr c \<Rightarrow> foldl (\<lambda>nm cid. snd (Notify others cid (change_notification c) nm)) nm added)"

section \<open>The console\<close>

text \<open>\<^verbatim>\<open>connect-kernel\<close>: with four arguments the last is taken for the port and for the name of the route.\<close>

datatype connect_args = ConnectDirect string string int | ConnectRoute string | ConnectBadPort | ConnectUsage

definition is_route_flag :: "string \<Rightarrow> bool" where
  "is_route_flag w \<longleftrightarrow> w = ''--route'' \<or> w = ''-r''"

definition parse_connect :: "(string \<Rightarrow> int option) \<Rightarrow> string list \<Rightarrow> connect_args" where
  "parse_connect atoi args =
     (case args of
        [f, r] \<Rightarrow> if is_route_flag f then ConnectRoute r else ConnectUsage
      | [k, a, p] \<Rightarrow> (case atoi p of None \<Rightarrow> ConnectBadPort | Some n \<Rightarrow> ConnectDirect k a n)
      | [k, f, a, p] \<Rightarrow>
          if is_route_flag f then (case atoi p of None \<Rightarrow> ConnectBadPort | Some n \<Rightarrow> ConnectRoute p) else ConnectUsage
      | [k, a, p, f, r] \<Rightarrow>
          if is_route_flag f
          then (case atoi p of None \<Rightarrow> ConnectBadPort | Some n \<Rightarrow> if r = [] then ConnectDirect k a n else ConnectRoute r)
          else ConnectUsage
      | _ \<Rightarrow> ConnectUsage)"

text \<open>\<open>route\<close> is what loading the named configuration gives; \<open>None\<close> in the result is an argument error.\<close>

definition handleConnectKernel ::
    "(string \<Rightarrow> int option) \<Rightarrow> kernel_net \<Rightarrow> time \<Rightarrow> (string \<Rightarrow> (hop_error + MultiHopConfigFile) option) \<Rightarrow> string list \<Rightarrow> MultiKernelManager \<Rightarrow>
     mk_result option" where
  "handleConnectKernel atoi net now route args m =
     (case parse_connect atoi args of
        ConnectDirect k a p \<Rightarrow> ConnectToKernel net now k a p None False m
      | ConnectRoute r \<Rightarrow> Some (ConnectToKernelViaRoute net now (route r) m)
      | ConnectBadPort \<Rightarrow> None
      | ConnectUsage \<Rightarrow> None)"

definition handleDisconnectKernel :: "string list \<Rightarrow> MultiKernelManager \<Rightarrow> ((mk_error + unit) \<times> MultiKernelManager) option" where
  "handleDisconnectKernel args m = (case args of [k] \<Rightarrow> Some (DisconnectFromKernel k m) | _ \<Rightarrow> None)"

definition handleApproveRequest :: "kernel_net \<Rightarrow> time \<Rightarrow> string list \<Rightarrow> MultiKernelManager \<Rightarrow> mk_result option" where
  "handleApproveRequest net now args m = (case args of [r] \<Rightarrow> Some (ApprovePendingRequest net now r m) | _ \<Rightarrow> None)"

datatype route_failure = RouteUsage | RouteFileUnreadable | RouteFileMalformed | RouteInvalid hop_error | RouteNotSaved hop_error | RouteNotLoaded hop_error

definition handleLoadRoute ::
    "time \<Rightarrow> bool \<Rightarrow> (string \<Rightarrow> hop_file) \<Rightarrow> string list \<Rightarrow> MultiHopConfigManager \<Rightarrow> (route_failure + MultiHopConfigFile) \<times> MultiHopConfigManager" where
  "handleLoadRoute now write_ok read args m =
     (case args of
        [f] \<Rightarrow>
          (case read f of
             HopFileUnreadable \<Rightarrow> (Inl RouteFileUnreadable, m)
           | HopFileMalformed \<Rightarrow> (Inl RouteFileMalformed, m)
           | HopFileParsed cfg \<Rightarrow>
               (case ValidateConfig cfg of
                  Some e \<Rightarrow> (Inl (RouteInvalid e), m)
                | None \<Rightarrow>
                    (case SaveConfig now write_ok False cfg m of
                       (Inl e, cfg', m') \<Rightarrow> (Inl (RouteNotSaved e), m')
                     | (Inr u, cfg', m') \<Rightarrow> (Inr cfg', m'))))
      | _ \<Rightarrow> (Inl RouteUsage, m))"

text \<open>
  \<^verbatim>\<open>enable-route\<close> and \<^verbatim>\<open>disable-route\<close>: the flag is set in the object of the cache before it is saved.  As in
  \<open>Multi_Hop_Routes\<close> a cached configuration stands under its own name.
\<close>

definition set_route_enabled ::
    "bool \<Rightarrow> time \<Rightarrow> bool \<Rightarrow> hop_file \<Rightarrow> string list \<Rightarrow> MultiHopConfigManager \<Rightarrow> (route_failure + unit) \<times> MultiHopConfigManager" where
  "set_route_enabled b now write_ok file args m =
     (case args of
        [name] \<Rightarrow>
          (case LoadConfig name file m of
             (Inl e, m1) \<Rightarrow> (Inl (RouteNotLoaded e), m1)
           | (Inr cfg, m1) \<Rightarrow>
               (let cfg1 = cfg\<lparr>mcEnabled := b\<rparr>;
                    m2 = m1\<lparr>hmConfigs := go_put name cfg1 (hmConfigs m1)\<rparr>
                in case SaveConfig now write_ok True cfg1 m2 of
                     (Inl e, cfg2, m3) \<Rightarrow> (Inl (RouteNotSaved e), m3)
                   | (Inr u, cfg2, m3) \<Rightarrow> (Inr (), m3)))
      | _ \<Rightarrow> (Inl RouteUsage, m))"

definition handleEnableRoute ::
    "time \<Rightarrow> bool \<Rightarrow> hop_file \<Rightarrow> string list \<Rightarrow> MultiHopConfigManager \<Rightarrow> (route_failure + unit) \<times> MultiHopConfigManager" where
  "handleEnableRoute = set_route_enabled True"

definition handleDisableRoute ::
    "time \<Rightarrow> bool \<Rightarrow> hop_file \<Rightarrow> string list \<Rightarrow> MultiHopConfigManager \<Rightarrow> (route_failure + unit) \<times> MultiHopConfigManager" where
  "handleDisableRoute = set_route_enabled False"

datatype connect_route_result = ConnectRouteUsage | ConnectRouteNotLoaded hop_error | ConnectRouteInvalid mk_error | ConnectRouteTried mk_result

definition handleConnectRoute ::
    "kernel_net \<Rightarrow> time \<Rightarrow> hop_file \<Rightarrow> string list \<Rightarrow> MultiHopConfigManager \<Rightarrow> MultiKernelManager \<Rightarrow> connect_route_result \<times> MultiHopConfigManager" where
  "handleConnectRoute net now file args hm m =
     (case args of
        [name] \<Rightarrow>
          (case LoadConfig name file hm of
             (Inl e, hm') \<Rightarrow> (ConnectRouteNotLoaded e, hm')
           | (Inr cfg, hm') \<Rightarrow>
               (case ValidateMultiHopConfig cfg of
                  Some e \<Rightarrow> (ConnectRouteInvalid e, hm')
                | None \<Rightarrow> (ConnectRouteTried (ConnectMultiHopRoute net now cfg m), hm')))
      | _ \<Rightarrow> (ConnectRouteUsage, hm))"

text \<open>The status that \<^verbatim>\<open>routes\<close> shows.\<close>

definition route_status :: "MultiKernelManager \<Rightarrow> MultiHopConfigFile \<Rightarrow> string" where
  "route_status m cfg =
     (let known = map kiKernelID (ListKnownKernels m);
          n = length (filter (\<lambda>h. mhToKernel h \<in> set known) (mcHops cfg))
      in if n = length (mcHops cfg) \<and> mcHops cfg \<noteq> [] then ''active'' else if n > 0 then ''partial'' else ''inactive'')"

text \<open>\<^verbatim>\<open>connectors\<close>: the identifier and the kernel of each line; \<open>remote\<close> is what the other kernels list, if any is connected.\<close>

definition handleKernelConnectors :: "string \<Rightarrow> nat \<Rightarrow> ConnectorView list option \<Rightarrow> registry \<Rightarrow> (string \<times> string) list" where
  "handleKernelConnectors kid connected remote r =
     (let local_ids = map ConnectorID (ListConnectors r)
      in map (\<lambda>i. (i, ''local'')) local_ids
         @ (case (if connected > 0 then remote else None) of
              None \<Rightarrow> []
            | Some vs \<Rightarrow>
                map (\<lambda>v. (cvConnectorId v, if cvKernelId v = [] then ''local'' else cvKernelId v))
                  (filter (\<lambda>v. cvKernelId v \<noteq> kid \<and> cvConnectorId v \<notin> set local_ids) vs)))"

text \<open>\<^verbatim>\<open>connect-peer\<close> and \<^verbatim>\<open>disconnect-peer\<close>, for a peer manager that exists and runs.\<close>

datatype peer_command = PeersOff | PeerUsage | PeerBadPort | PeerDone "(peer_error + unit)"

definition peers_on :: "P2PManager option \<Rightarrow> bool" where
  "peers_on p2p = (case p2p of None \<Rightarrow> False | Some pm \<Rightarrow> pmRunning pm)"

definition handleConnectPeer ::
    "(string \<Rightarrow> int option) \<Rightarrow> net \<Rightarrow> time \<Rightarrow> TempChatManager \<Rightarrow> string list \<Rightarrow> P2PManager option \<Rightarrow> peer_command \<times> P2PManager option \<times> sent" where
  "handleConnectPeer atoi net now tc args p2p =
     (case p2p of
        None \<Rightarrow> (PeersOff, None, [])
      | Some pm \<Rightarrow>
          if \<not> pmRunning pm then (PeersOff, p2p, [])
          else if length args < 3 then (PeerUsage, p2p, [])
          else case atoi (args ! 2) of
                 None \<Rightarrow> (PeerBadPort, p2p, [])
               | Some port \<Rightarrow>
                   (case ConnectToPeer net now tc (args ! 0) (args ! 1) port pm of (r, pm', out) \<Rightarrow> (PeerDone r, Some pm', out)))"

definition handleDisconnectPeer :: "net \<Rightarrow> string list \<Rightarrow> P2PManager option \<Rightarrow> peer_command \<times> P2PManager option \<times> sent" where
  "handleDisconnectPeer net args p2p =
     (case p2p of
        None \<Rightarrow> (PeersOff, None, [])
      | Some pm \<Rightarrow>
          if \<not> pmRunning pm then (PeersOff, p2p, [])
          else case args of
                 [] \<Rightarrow> (PeerUsage, p2p, [])
               | k # rest \<Rightarrow> (case DisconnectFromPeer net k pm of (r, pm', out) \<Rightarrow> (PeerDone r, Some pm', out)))"

text \<open>\<^verbatim>\<open>route-info\<close> shows a route, and the cache keeps what it loads.\<close>

definition handleRouteInfo ::
    "hop_file \<Rightarrow> string list \<Rightarrow> MultiHopConfigManager \<Rightarrow> (route_failure + MultiHopConfigFile) \<times> MultiHopConfigManager" where
  "handleRouteInfo file args hm =
     (case args of
        [name] \<Rightarrow> (case LoadConfig name file hm of (Inl e, hm') \<Rightarrow> (Inl (RouteNotLoaded e), hm') | (Inr cfg, hm') \<Rightarrow> (Inr cfg, hm'))
      | _ \<Rightarrow> (Inl RouteUsage, hm))"

text \<open>What the other listings show: the counts of \<^verbatim>\<open>status\<close> (the peers only when they run), and the lines of \<^verbatim>\<open>channels\<close>,
  \<^verbatim>\<open>kernels\<close> and \<^verbatim>\<open>pending-requests\<close>.\<close>

definition handleKernelStatus :: "registry \<Rightarrow> ChannelManager \<Rightarrow> MultiKernelManager \<Rightarrow> P2PManager option \<Rightarrow> nat \<times> nat \<times> nat \<times> nat option" where
  "handleKernelStatus r cm m p2p =
     (length (ListConnectors r), length (ListChannels cm), GetConnectedKernelCount m,
      if peers_on p2p then map_option GetPeerCount p2p else None)"

definition handleKernelChannels :: "ChannelManager \<Rightarrow> (string \<times> string \<times> channel_status \<times> nat) list" where
  "handleKernelChannels cm =
     map (\<lambda>c. (chID c, chDataTopic c, chStatus c, length (chSenderIDs c) + length (chReceiverIDs c))) (ListChannels cm)"

definition handleKernelList :: "MultiKernelManager \<Rightarrow> (string \<times> string \<times> string) list" where
  "handleKernelList m = map (\<lambda>i. (kiKernelID i, kiAddress i @ '':'' @ show_int (kiPort i), kiStatus i)) (ListKnownKernels m)"

definition handleListPendingRequests :: "MultiKernelManager \<Rightarrow> (string \<times> string \<times> string \<times> string) list" where
  "handleListPendingRequests m =
     map (\<lambda>r. (ipRequestID r, ipRequesterKernelID r,
               ipAddress r @ '':'' @ show_int (if ipKernelPort r = 0 then ipMainPort r + 2 else ipKernelPort r), ipStatus r))
       (ListPendingRequests m)"

definition handleP2PPeers :: "P2PManager option \<Rightarrow> (string \<times> string \<times> string) list option" where
  "handleP2PPeers p2p =
     (if peers_on p2p
      then map_option (\<lambda>pm. map (\<lambda>p. (piKernelID p, piAddress p @ '':'' @ show_int (piPort p), piStatus p)) (ListPeers pm)) p2p
      else None)"

text \<open>The seed kernels of the configuration are connected by goroutines: one after the other in some order.\<close>

definition connect_seeds :: "kernel_net \<Rightarrow> time \<Rightarrow> (string \<times> string \<times> int) list \<Rightarrow> MultiKernelManager \<Rightarrow> MultiKernelManager" where
  "connect_seeds net now seeds m =
     foldl (\<lambda>m (k, a, p). case ConnectToKernel net now k a p None False m of None \<Rightarrow> m | Some (r, m', ts, act) \<Rightarrow> m') m seeds"

section \<open>A token file and a running kernel\<close>

text \<open>
  The file and the memory of a running kernel: a subcommand changes the file, a registration with another token changes the
  memory and writes it to the file.
\<close>

inductive token_step :: "(string \<Rightarrow> time option) \<Rightarrow> string \<Rightarrow> load_result \<times> BootstrapConfig \<Rightarrow> load_result \<times> BootstrapConfig \<Rightarrow> bool"
  for parse :: "string \<Rightarrow> time option" and code :: string where
  command: "handleTokenCommand parse now config_ok expiry attempts ok a file = Some (out, file') \<Longrightarrow>
     token_step parse code (file, mem) (file', mem)"
| use: "MarkTokenUsed now ok other who mem = (r, mem') \<Longrightarrow> other \<noteq> code \<Longrightarrow>
     token_step parse code (file, mem) (if r = Inr () then token_yaml mem' else file, mem')"

lemma use_other_token:
  "MarkTokenUsed now ok other who mem = (r, mem') \<Longrightarrow> other \<noteq> code \<Longrightarrow> ValidateToken at code cid mem' = ValidateToken at code cid mem"
  by (cases "findTokenByCodeLocked other mem") (auto simp: MarkTokenUsed_def Let_def token_simps ValidateToken_def split: if_splits)

interpretation validation: stable_under "token_step parse code" "\<lambda>s. ValidateToken at code cid (snd s) = v" for parse code at cid v
  by unfold_locales (auto elim!: token_step.cases simp: use_other_token)

lemma load_token_yaml:
  assumes "bcDefaultExpiry mem = [] \<or> parse (bcDefaultExpiry mem) \<noteq> None"
  shows "\<exists>d. LoadTokenConfig parse (token_yaml mem) NewBootstrapConfig = (Inr (), mem\<lparr>bcDefaultExpiryDuration := d\<rparr>)"
  using assms by (cases "parse (bcDefaultExpiry mem)") (auto simp: token_yaml_def LoadTokenConfig_def)

lemma start_token_yaml:
  assumes "bcDefaultExpiry mem = [] \<or> parse (bcDefaultExpiry mem) \<noteq> None"
  shows "\<exists>d. start_tokens parse expiry (token_yaml mem) = mem\<lparr>bcDefaultExpiryDuration := d\<rparr>"
proof -
  obtain d where "LoadTokenConfig parse (token_yaml mem) NewBootstrapConfig = (Inr (), mem\<lparr>bcDefaultExpiryDuration := d\<rparr>)"
    using load_token_yaml [of mem parse] assms by blast
  then show ?thesis
    by (cases "parse expiry") (auto simp: start_tokens_def SetDefaultExpiryDuration_def Let_def intro: exI [of _ d])
qed

lemma validate_duration: "ValidateToken at code cid (mem\<lparr>bcDefaultExpiryDuration := d\<rparr>) = ValidateToken at code cid mem"
  by (simp add: ValidateToken_def)

section \<open>Routes in the cache\<close>

definition names_are_keys :: "MultiHopConfigManager \<Rightarrow> bool" where
  "names_are_keys m \<longleftrightarrow> go_map_ok (hmConfigs m) \<and> (\<forall>k cfg. go_get (hmConfigs m) k = Some cfg \<longrightarrow> mcRouteName cfg = k)"

lemma names_are_keys_put: "names_are_keys m \<Longrightarrow> mcRouteName cfg = k \<Longrightarrow> names_are_keys (m\<lparr>hmConfigs := go_put k cfg (hmConfigs m)\<rparr>)"
  by (auto simp: names_are_keys_def gomap_simps)

lemma stamp_config_keeps [simp]:
  "mcRouteName (stamp_config now cfg) = mcRouteName cfg" "mcEnabled (stamp_config now cfg) = mcEnabled cfg"
  "mcHops (stamp_config now cfg) = mcHops cfg"
  by (simp_all add: stamp_config_def Let_def)

lemma SaveConfig_cached:
  "SaveConfig now ok True cfg m = (r, cfg', m') \<Longrightarrow>
     m' = m \<or> m' = m\<lparr>hmConfigs := go_put (mcRouteName cfg) (stamp_config now cfg) (hmConfigs m)\<rparr>"
  by (auto simp: SaveConfig_def Let_def split: if_splits option.splits)

lemma SaveConfig_ok:
  "SaveConfig now ok b cfg m = (Inr (), cfg', m') \<Longrightarrow>
     cfg' = stamp_config now cfg \<and> m' = m\<lparr>hmConfigs := go_put (mcRouteName cfg) (stamp_config now cfg) (hmConfigs m)\<rparr>"
  by (auto simp: SaveConfig_def Let_def split: if_splits option.splits)

text \<open>What setting the flag of a cached route leaves in the cache, whether it can be saved or not.\<close>

lemma set_route_enabled_cached:
  assumes "names_are_keys m" and "go_get (hmConfigs m) name = Some cfg"
    and "set_route_enabled b now ok file [name] m = (r, m')"
  shows "names_are_keys m'" "\<exists>cfg'. go_get (hmConfigs m') name = Some cfg' \<and> mcEnabled cfg' = b \<and> mcHops cfg' = mcHops cfg"
proof -
  define cfg1 where "cfg1 = cfg\<lparr>mcEnabled := b\<rparr>"
  define m2 where "m2 = m\<lparr>hmConfigs := go_put name cfg1 (hmConfigs m)\<rparr>"
  obtain r2 cfg2 m3 where s: "SaveConfig now ok True cfg1 m2 = (r2, cfg2, m3)" by (metis prod_cases3)
  have nm: "mcRouteName cfg = name" using assms(1,2) by (simp add: names_are_keys_def)
  have m': "m' = m3"
    using assms(2,3) s by (auto simp: set_route_enabled_def LoadConfig_def Let_def cfg1_def [symmetric] m2_def [symmetric] split: sum.splits)
  have c: "m3 = m2 \<or> m3 = m2\<lparr>hmConfigs := go_put name (stamp_config now cfg1) (hmConfigs m2)\<rparr>"
    using SaveConfig_cached [OF s] nm by (simp add: cfg1_def)
  have k2: "names_are_keys m2" unfolding m2_def using assms(1) nm by (intro names_are_keys_put) (simp_all add: cfg1_def)
  have "names_are_keys (m2\<lparr>hmConfigs := go_put name (stamp_config now cfg1) (hmConfigs m2)\<rparr>)"
    using nm by (intro names_are_keys_put [OF k2]) (simp add: cfg1_def)
  then show "names_are_keys m'" using c m' k2 by auto
  show "\<exists>cfg'. go_get (hmConfigs m') name = Some cfg' \<and> mcEnabled cfg' = b \<and> mcHops cfg' = mcHops cfg"
    using c m' by (auto simp: m2_def gomap_simps cfg1_def)
qed

lemma enabled_names:
  assumes "names_are_keys m" and "go_get (hmConfigs m) name = Some cfg" and "c \<in> set (GetEnabledConfigs m)" and "mcRouteName c = name"
  shows "c = cfg"
proof -
  obtain k where k: "(k, c) \<in> set (hmConfigs m)" using assms(3) by (auto simp: GetEnabledConfigs_def)
  then have g: "go_get (hmConfigs m) k = Some c" using assms(1) by (simp add: names_are_keys_def go_get_mem)
  then have "k = name" using assms(1,4) by (simp add: names_are_keys_def)
  then show ?thesis using g assms(2) by simp
qed

section \<open>Properties\<close>

text \<open>
  Temporary chat does not start with the port the program chooses: the default, the port after the kernel's own, is the
  port on which registration listens, so with chat enabled and no port given the program ends at a listener.
\<close>

theorem default_chat_port_fatal:
  assumes "kcChatEnabled g" and "kcChatPort g = 0"
  shows "first_conflict taken (listeners (with_defaults g)) \<noteq> None"
proof -
  have g: "kcChatEnabled (with_defaults g)" "kcChatPort (with_defaults g) = kcPort (with_defaults g) + 1"
    using assms by (simp_all add: with_defaults_def or_int_def Let_def)
  show ?thesis by (auto simp: listeners_def g)
qed

definition demo_kernel_config :: kernel_config where
  "demo_kernel_config = \<lparr> kcID = ''kernel-1'', kcType = [], kcAddress = ''0.0.0.0'', kcPort = 50051, kcKernelPort = 0,
     kcHeartbeatInterval = 0, kcConnectTimeout = 0, kcMaxRetries = 0, kcServerCertPath = [], kcServerKeyPath = [],
     kcKernelCertPath = [], kcKernelKeyPath = [], kcChatEnabled = True, kcChatPort = 0, kcChatSessionTimeout = 0,
     kcChatHeartbeatInterval = 0, kcChatSyncInterval = 0, kcP2PEnabled = False, kcP2PListenAddr = [], kcDefaultMode = [],
     kcDefaultStrategy = [], kcDefaultRetentionDays = 0, kcDefaultCompressData = False, kcDefaultExpiry = [],
     kcTokenConfigFile = [] \<rparr>"

theorem default_chat_port_fatal_witness:
  "first_conflict {} (listeners (with_defaults demo_kernel_config)) \<noteq> None"
  by (rule default_chat_port_fatal) (simp_all add: demo_kernel_config_def)


definition demo_two_tokens :: BootstrapConfig where
  "demo_two_tokens = NewBootstrapConfig\<lparr>bcDefaultExpiry := [], bcTokens := [demo_token, demo_token\<lparr>tkCode := ''T2''\<rparr>]\<rparr>"

definition demo_revoke :: token_args where
  "demo_revoke = \<lparr> taGenerate = False, taList = False, taRevoke = True, taConnectorID = [], taExpiry = [], taCode = ''T1'' \<rparr>"

definition demo_revoked :: BootstrapConfig where
  "demo_revoked = snd (RevokeToken True ''T1'' demo_two_tokens)"


text \<open>
  Removing a connector of another kernel from a channel ends the subscription of the local connector of the same name, which
  may still receive.
\<close>

theorem removal_cuts_namesake:
  assumes "GetChannel ch cm = Inr c" and "\<not> has_colon b" and "b \<in> set (chReceiverIDs c)"
    and "change = ''remove_receiver'' \<or> change = ''remove_sender''"
  shows "\<exists>cm' c'. permission_callback env others kid ch (qualify k b) change cm nm = (cm', nm, [])
    \<and> GetChannel ch cm' = Inr c' \<and> \<not> IsSubscribed c' b \<and> CanReceive c' b"
proof -
  have "permission_callback env others kid ch (qualify k b) change cm nm = (put_channel ch (Unsubscribe b c) cm, nm, [])"
    using assms(1,4) by (auto simp: permission_callback_def raw_id_qualify [OF assms(2)])
  moreover have "GetChannel ch (put_channel ch (Unsubscribe b c) cm) = Inr (Unsubscribe b c)"
    by (simp add: GetChannel_def put_channel_def gomap_simps)
  moreover have "\<not> IsSubscribed (Unsubscribe b c) b" by (simp add: IsSubscribed_def Unsubscribe_def gomap_simps)
  moreover have "CanReceive (Unsubscribe b c) b"
    using assms(2,3) by (auto simp: CanReceive_def Unsubscribe_def list_ex_iff can_receive_as_def intro!: bexI [of _ b])
  ultimately show ?thesis by blast
qed

text \<open>
  A route that is loaded on the console is used at once: when it is enabled and leads from a kernel to another, in one hop
  or several, the next hop towards the other is known.
\<close>

theorem loaded_route_forwards:
  assumes "handleLoadRoute now ok read args m = (Inr cfg, m')" and "mcEnabled cfg" and "cur \<noteq> target"
    and "i \<le> j" and "j < length (mcHops cfg)" and "mhFromKernel (mcHops cfg ! i) = cur" and "mhToKernel (mcHops cfg ! j) = target"
  shows "\<exists>hop. GetNextHop cur target m' = Some hop"
proof -
  obtain f cfg0 where a: "args = [f]" "read f = HopFileParsed cfg0"
    using assms(1) by (auto simp: handleLoadRoute_def split: list.splits hop_file.splits)
  have v: "ValidateConfig cfg0 = None"
    using assms(1) by (cases "ValidateConfig cfg0") (auto simp: handleLoadRoute_def a)
  obtain r c m1 where s: "SaveConfig now ok False cfg0 m = (r, c, m1)" by (metis prod_cases3)
  then have "r = Inr ()" "c = cfg" "m1 = m'"
    using assms(1) by (auto simp: handleLoadRoute_def a v split: sum.splits)
  then have cfg: "cfg = stamp_config now cfg0" "m' = m\<lparr>hmConfigs := go_put (mcRouteName cfg0) cfg (hmConfigs m)\<rparr>"
    using SaveConfig_ok s by blast+
  have "go_get (hmConfigs m') (mcRouteName cfg0) = Some cfg" by (simp add: cfg(2) gomap_simps)
  then have "cfg \<in> set (map snd (hmConfigs m'))" by (force dest: map_of_SomeD)
  then have "next_hop_in cur target (map snd (hmConfigs m')) \<noteq> None"
    using assms(2) hop_towards_found [OF assms(4-7)] unfolding next_hop_in_None by blast
  then show ?thesis using assms(3) by (auto simp: GetNextHop_def)
qed

text \<open>
  A route that is disabled on the console is not used any more, whether the change can be written to its file or not.
\<close>

theorem disabled_route_unused:
  assumes "names_are_keys m" and "go_get (hmConfigs m) name = Some cfg" and "handleDisableRoute now ok file [name] m = (r, m')"
  shows "\<forall>c \<in> set (GetEnabledConfigs m'). mcRouteName c \<noteq> name"
proof
  fix c assume c: "c \<in> set (GetEnabledConfigs m')"
  have h: "set_route_enabled False now ok file [name] m = (r, m')" using assms(3) by (simp add: handleDisableRoute_def)
  obtain d where d: "go_get (hmConfigs m') name = Some d" "\<not> mcEnabled d"
    using set_route_enabled_cached(2) [OF assms(1,2) h] by blast
  have "names_are_keys m'" using set_route_enabled_cached(1) [OF assms(1,2) h] .
  then show "mcRouteName c \<noteq> name"
    using enabled_names [OF _ d(1) c] d(2) c by (auto simp: GetEnabledConfigs_def)
qed

end
