(* ===== verification/Spec2Isabelle.thy ===== *)
theory Spec2Isabelle
  imports Connector_Registry Packet_Codec Bootstrap_Token Channel_Delivery Multi_Hop_Routes Evidence_Log Business_Chain Identity_Service Kernel_Network Evidence_Service Data_Service Cross_Kernel File_Transfer Connector_Console Channel_Config
    Kernel_Certificates Kernel_Program
begin

text \<open>
  The trusted-space kernel is a Go program: every kernel registers connectors, lets them agree on
  channels, moves their data to local subscribers and to other kernels, and keeps evidence of what it
  did.  A connector is the client of one kernel; kernels talk to each other and to operator peers.

  \<^bold>\<open>Theories and sources\<close> (paths under \<^verbatim>\<open>src/\<close>)
  \<^item> \<open>Kernel_Prelude\<close>: Go maps as association lists, connector identifiers, formatted text, reachability; the
    locales \<open>keyed_table\<close>, \<open>invariant_system\<close> and \<open>stable_under\<close>.
  \<^item> \<open>Connector_Registry\<close>: \<^verbatim>\<open>kernel/control/registry.go\<close>, who is registered, online and trusted.
  \<^item> \<open>Bootstrap_Token\<close>: \<^verbatim>\<open>kernel/control/bootstrap_token.go\<close>, one-time registration tokens.
  \<^item> \<open>Packet_Codec\<close>: \<^verbatim>\<open>kernel/operator_peer/packet.go\<close>, the peer wire format on 32-bit words.
  \<^item> \<open>Channel_Types\<close>, \<open>Channel_Negotiation\<close>, \<open>Channel_Sync\<close>, \<open>Channel_Permissions\<close>, \<open>Connector_Buffers\<close>,
    \<open>Channel_Delivery\<close>: \<^verbatim>\<open>kernel/circulation/channel_manager.go\<close>, in this order the records and role tests,
    creating and approving channels, control messages between kernels, changes of the participants,
    buffers of offline connectors, and pushing, subscribing and distributing data.
  \<^item> \<open>Multi_Hop_Routes\<close>: \<^verbatim>\<open>kernel/server/multi_hop_config.go\<close>, the routes behind the channel manager's two
    routing callbacks.
  \<^item> \<open>Kernel_Signing\<close>: \<^verbatim>\<open>kernel/security/signing.go\<close>.  \<open>Hash_Chain\<close>: what the two chains share.
  \<^item> \<open>Evidence_Log\<close>: \<^verbatim>\<open>kernel/evidence/audit_log.go\<close>.
  \<^item> \<open>Business_Chain\<close>: \<^verbatim>\<open>connector/database\<close>, \<^verbatim>\<open>kernel/database/business_chain_store.go\<close> and
    \<^verbatim>\<open>kernel/server/business_chain_manager.go\<close>.
  \<^item> \<open>Temp_Chat\<close>: \<^verbatim>\<open>kernel/tempchat\<close>, chat sessions of online connectors.
  \<^item> \<open>Peer_Manager\<close>: \<^verbatim>\<open>kernel/operator_peer/{manager,client,server}.go\<close>, the peers of a kernel, and the relay
    callback of \<^verbatim>\<open>kernel/cmd/main.go\<close> that joins chat and peers.
  \<^item> \<open>Notifications\<close>: the notification manager of \<^verbatim>\<open>kernel/server/channel_service.go\<close>.
  \<^item> \<open>Identity_Service\<close>: \<^verbatim>\<open>kernel/server/identity_service.go\<close>, registration and discovery of connectors.
  \<^item> \<open>Kernel_Network\<close>: \<^verbatim>\<open>kernel/server/multi_kernel_manager.go\<close> and the handlers of \<^verbatim>\<open>kernel_service.go\<close> that change
    which kernels are known and connected.
  \<^item> \<open>Channel_Service\<close>: the handlers of \<^verbatim>\<open>kernel/server/channel_service.go\<close> by which connectors negotiate and change
    channels, and the notices other kernels send.  \<open>Data_Service\<close>: its data streams, subscriptions and acknowledgements,
    with \<^verbatim>\<open>ForwardData\<close> and \<^verbatim>\<open>ForwardAckNotification\<close> of \<^verbatim>\<open>kernel_service.go\<close>; it composes the channels with the business
    chain and the routes.
  \<^item> \<open>Cross_Kernel\<close>: proposing a channel across kernels, and what kernels tell each other of channels, connectors and
    permission requests (\<^verbatim>\<open>kernel/server/kernel_service.go\<close>).
  \<^item> \<open>Evidence_Store\<close>: \<^verbatim>\<open>kernel/database/evidence_store.go\<close>.  \<open>Evidence_Service\<close>:
    \<^verbatim>\<open>kernel/server/evidence_service.go\<close>, who may read which evidence.
  \<^item> \<open>File_Transfer\<close>: files in chunks, sent and received by \<^verbatim>\<open>connector/client/connector.go\<close>.
  \<^item> \<open>Connector_Chain\<close>, \<open>Connector_Client\<close>, \<open>Connector_Console\<close>: the connector program.  The first holds sending, receiving and
    acknowledging data in \<^verbatim>\<open>connector/client/connector.go\<close> with the rows of the connector's table, composed with the kernel's
    \<open>Data_Service\<close>; the second the rest of that file: the catalogue, the channels a connector knows of, its notifications,
    subscriptions and proposals; the third the commands and the configuration of \<^verbatim>\<open>connector/cmd/main.go\<close>.
  \<^item> \<open>Channel_Config\<close>: \<^verbatim>\<open>kernel/circulation/channel_config.go\<close>, configurations of channels in files.
  \<^item> \<open>Kernel_Certificates\<close>: \<^verbatim>\<open>kernel/security/{ca,mtls}.go\<close>, the certificate authority and the clients a server accepts,
    composed with \<open>Identity_Service\<close>.
  \<^item> \<open>Kernel_Program\<close>: \<^verbatim>\<open>kernel/cmd/main.go\<close>, the kernel's configuration, callbacks, console and its subcommand \<^verbatim>\<open>token\<close>.

  \<^bold>\<open>State and operations.\<close>  A Go structure is a record whose fields carry a prefix (\<open>ch\<close> for
  \<^verbatim>\<open>Channel\<close>, \<open>cm\<close> for \<^verbatim>\<open>ChannelManager\<close>, \<open>al\<close> for \<^verbatim>\<open>AuditLog\<close>), a map an association list in some iteration order, a
  Go channel the list of what it holds.  A method is a function of the same name from the state to its
  result and the new state; \<open>Inl\<close> is the Go error or panic.  The clock, random identifiers, the success of
  a file or database access and the contents of a file are arguments.  Messages to other kernels and
  callbacks are collected as a list of effects.  A call that blocks for ever is \<open>None\<close>.  A method that
  holds its lock throughout is one step; where a method releases it in between, as the submission of
  evidence does, the critical sections are separate steps of a machine.

  \<^bold>\<open>What is shown.\<close>  Negotiation: an active channel was approved by all its participants, and what each call
  does on every branch.  Permissions: roles stay disjoint, participants change only through an approved
  request, a decided request stays decided.  Delivery: only senders of an active channel put data in, the
  distribution is first-in first-out per subscriber, a pushed packet reaches every subscribed receiver and
  every remote kernel of the receivers, and all queues are bounded.  Synchronisation: an update reaches
  every kernel of the participants once and makes its copy agree.  Routes: forwarding by next hops follows
  the route and arrives; this theory composes it with \<^verbatim>\<open>PushData\<close>.  Tokens are used once, token generation
  returns; the wire format round-trips and its decoder never reads out of bounds.  Evidence: the
  chain is intact, its last hash commits to the whole log, indexed queries equal scans, also what
  concurrent submissions keep and what they break.  Business chain: what connectors write verifies.
  Chat sessions and peer tables stay consistent, and a message relayed on demand arrives.  Listeners hold a bounded
  queue and a notification is queued at most once.  Identity: an entry changes only for the connector named by the
  caller's certificate, and a token obtains at most one certificate.  Kernel network: an approved request ends with both kernels
  connected, and what a kernel learns from another is exactly what the other listed.
  Service: through its handlers a channel changes only by a call that carries the right certificate, and what is active was
  approved; the notices of other kernels are not authenticated, and it is shown what they can do.  Data: evidence of sent data names
  the connector of the certificate, a kernel's chain verifies and agrees with that of the next kernel; a refused packet is recorded
  all the same.  Cross-kernel channels arrive as they were proposed, except for the approvals, and a failed proposal is not withdrawn.
  The database answers queries as the log does, and evidence is read only by participants.
  Files: what was sent arrives whole in any order of its chunks, and nothing else is reported.
  Connectors: the tables of sender, kernel and receiver hold the same data hashes up to the packets on their way, a chain
  verifies unless an answer is lost, and a channel is received once at a time.  What the console proposes and sends passes
  the checks of the kernel; it is shown where it does not do what it says.
  A saved channel configuration is read back after a restart.
  Certificates: what registration returns authenticates its connector, and so does what anyone issues under an authority he
  registered himself.  The program: the token command does not reach a running kernel, routes set on the console take effect.

  \<^bold>\<open>Bounds and parameters.\<close>  Capacities are those of the code: 1000 packets per channel queue and offline
  buffer, 100 per subscriber, 8 MB per peer packet, 3 attempts to store evidence.  The attempts at a token
  code are a list of draws; one draw of an unused code is enough.  \<open>walk\<close> takes the number of forwards as fuel; the number of hops of the route is enough.  SHA-256
  (to 256-bit words), RSA-PSS, Base64 and JSON are parameters; hypotheses on them are named
  (\<open>key_pair\<close>, \<open>no_forgery\<close>, \<open>base64_ok\<close>, \<open>x509_ok\<close>) or ask that two given texts do not collide.

  \<^bold>\<open>Not modelled.\<close>
  The gRPC encoding of requests, the record layer of TLS, dialling and tickers, what the consoles print, the construction
  and wiring of the managers in \<^verbatim>\<open>main\<close> of \<^verbatim>\<open>kernel/cmd\<close>, the connector's MySQL connection and the streams of its
  temporary chat, which are input, output and wiring, and generated protocol code.
\<close>

section \<open>Channels over several kernels\<close>

text \<open>
  A kernel on a route: its channel manager asks the route tables \<open>m\<close> for the next and the previous hop.
\<close>

definition on_kernel :: "MultiHopConfigManager \<Rightarrow> string \<Rightarrow> ChannelManager \<Rightarrow> bool" where
  "on_kernel m k cm \<longleftrightarrow> cmKernelID cm = k \<and> cmNextHop cm = Some (next_kernel m) \<and>
     cmPreviousHop cm = Some (previous_kernel m)"

lemma next_hop_forward:
  assumes "sole_route m path" and "i < j" and "j < length path" and "on_kernel m (path ! i) cm"
  shows "next_hop cm (path ! j) = path ! Suc i"
  using assms sole_route_next [OF assms(1-3)] sole_route_nonempty [OF assms(1), of "Suc i"]
  by (simp add: next_hop_def on_kernel_def)

lemma next_hop_backward:
  assumes "sole_route m path" and "j \<le> i" and "i < length path" and "on_kernel m (path ! i) cm"
  shows "next_hop cm (path ! j) = path ! j"
  using assms sole_route_no_way_back [OF assms(1-3)] by (simp add: next_hop_def on_kernel_def)

lemma ack_route_on_path:
  assumes "sole_route m path" and "Suc i < length path" and "on_kernel m (path ! Suc i) cm"
    and "dpTargetIDs p = [qualify (path ! 0) x]" and "\<not> has_colon (path ! 0)"
  shows "ack_route cm p = (if i = 0 then None else Some (path ! i, qualify (path ! 0) x))"
proof -
  have "path ! i \<noteq> []" "path ! 0 \<noteq> []"
    using assms(2) by (auto intro!: sole_route_nonempty [OF assms(1)])
  moreover have "path ! i \<noteq> path ! Suc i" "path ! 0 \<noteq> path ! Suc i"
    using sole_route_inj [OF assms(1), of _ "Suc i"] assms(2) by force+
  ultimately show ?thesis
    using assms(3-5) previous_on_route [OF assms(1,2)] by (simp add: ack_route_def on_kernel_def id_simps)
qed


definition demo_hub :: "string \<Rightarrow> ChannelManager" where
  "demo_hub k = demo_kernel\<lparr>cmKernelID := k, cmNextHop := Some (next_kernel demo_manager),
     cmPreviousHop := Some (previous_kernel demo_manager)\<rparr>"

definition demo_relay :: Channel where
  "demo_relay = demo_channel\<lparr>chSenderIDs := [qualify ''k3'' ''a''], chReceiverIDs := [qualify ''k1'' ''b'']\<rparr>"

lemma demo_on_kernel: "on_kernel demo_manager k (demo_hub k)"
  by (simp add: on_kernel_def demo_hub_def)


text \<open>
  An acknowledgement moves one hop back.  On any kernel of the enabled route but the first, an accepted
  acknowledgement addressed to a connector of the route's first kernel is forwarded, unchanged, to the
  kernel before it and to no other kernel.
\<close>

theorem ack_follows_route_back:
  assumes "sole_route m path" and "Suc i < length path" and "on_kernel m (path ! Suc i) cm"
    and "dpIsAck p" and "dpTargetIDs p = [qualify (path ! 0) x]" and "\<not> has_colon (path ! 0)" and "\<not> has_colon x"
    and "dpMessageType p \<noteq> MessageTypeControl" and "\<not> should_buffer cm c p"
    and "PushData um now cm c p = Some (Inr (), c', cm', effs)"
  shows "Forward k q b \<in> set effs \<longleftrightarrow> k = path ! i \<and> q = p \<and> b = dpIsFinal p"
proof -
  have pd: "push_data now cm c p = (Inr (), c', cm', effs)" using assms(8,10) by (simp add: PushData_plain)
  define targets where "targets = (if i = 0 then [(path ! 0, [x])] else [(path ! i, [qualify (path ! 0) x])])"
  have "\<exists>pl. make_plan cm (touched now p c) p = Some pl \<and> plRemote pl = targets"
    using assms(4-6) ack_route_on_path [OF assms(1-3,5,6)]
    by (cases "i = 0")
      (simp_all add: make_plan_def directed_target_def append_target_def empty_plan_def id_simps targets_def Let_def)
  then obtain pl where pl: "make_plan cm (touched now p c) p = Some pl" "plRemote pl = targets" by blast
  have "Forward k q b \<in> set effs \<longleftrightarrow> Forward k q b \<in> set (concat (map (forward_one cm p) targets))"
    using push_to_targets_ok(5) [OF push_data_ok(2) [OF pd pl(1)]] assms(9)
    by (simp add: pl(2) same_view(4) [of "touched now p c" c])
  moreover have "path ! i \<noteq> cmKernelID cm"
    using sole_route_inj [OF assms(1), of i "Suc i"] assms(2,3) by (simp add: on_kernel_def)
  moreover have "next_hop cm (path ! i) = path ! i"
    using next_hop_backward [OF assms(1) _ assms(2,3), of i] by simp
  moreover have "out_packet (fst t) (snd t) p = p" if "t \<in> set targets" for t
    using that assms(5,7) by (auto simp: targets_def out_packet_def split: if_splits)
  ultimately show ?thesis
    unfolding forward_effect_iff by (auto simp: targets_def)
qed

definition demo_ack :: DataPacket where
  "demo_ack = demo_packet\<lparr>dpIsAck := True, dpMessageType := MessageTypeAck, dpTargetIDs := [qualify ''k3'' ''a'']\<rparr>"

theorem ack_follows_route_back_witness:
  "\<exists>c' cm' effs. PushData (\<lambda>_. None) 0 (demo_hub ''k1'') demo_relay demo_ack = Some (Inr (), c', cm', effs)
     \<and> Forward ''k2'' demo_ack False \<in> set effs \<and> Forward ''k3'' demo_ack False \<notin> set effs"
proof -
  have h: "dpIsAck demo_ack" "dpTargetIDs demo_ack = [qualify ([''k3'', ''k2'', ''k1''] ! 0) ''a'']"
      "\<not> has_colon ([''k3'', ''k2'', ''k1''] ! 0)" "\<not> has_colon ''a''" "dpMessageType demo_ack \<noteq> MessageTypeControl"
      "\<not> should_buffer (demo_hub ''k1'') demo_relay demo_ack" "dpIsFinal demo_ack = False"
    by (simp_all add: demo_push_defs demo_hub_def demo_relay_def demo_ack_def CanReceive_def)
  have k: "on_kernel demo_manager ([''k3'', ''k2'', ''k1''] ! Suc 1) (demo_hub ''k1'')" by (simp add: demo_on_kernel)
  have "ack_route (demo_hub ''k1'') demo_ack = Some (''k2'', qualify ''k3'' ''a'')"
    using ack_route_on_path [OF demo_sole_route _ k h(2,3)] by simp
  then obtain c' cm' effs where r: "PushData (\<lambda>_. None) 0 (demo_hub ''k1'') demo_relay demo_ack = Some (Inr (), c', cm', effs)"
    by (simp add: demo_push_defs demo_hub_def demo_relay_def demo_ack_def)
  show ?thesis
    using r ack_follows_route_back [OF demo_sole_route _ k h(1-6) r] h(7) by simp
qed

end
